(* ===== verification/SafeerPrelude.thy ===== *)
theory SafeerPrelude
  imports Main
begin

text \<open>
  Shared vocabulary of the development: JSON values, the exceptions of the API and the
  result type built on them, tables as lists of rows with the three SQL statements the
  services use on them, and the interface of a component whose operations keep an
  invariant. Times are milliseconds since the epoch, as in a JavaScript \<open>Date\<close> and a
  \<open>DATETIME(3)\<close> column.
\<close>

section \<open>Values and times\<close>

type_synonym time = int

definition minutes :: "int \<Rightarrow> time" where
  "minutes n = n * 60 * 1000"

definition hours :: "int \<Rightarrow> time" where
  "hours n = n * 60 * 60 * 1000"

definition days :: "int \<Rightarrow> time" where
  "days n = n * 24 * 60 * 60 * 1000"

lemma time_units_mono [simp]:
  "minutes a \<le> minutes b \<longleftrightarrow> a \<le> b" "hours a \<le> hours b \<longleftrightarrow> a \<le> b" "days a \<le> days b \<longleftrightarrow> a \<le> b"
  by (simp_all add: minutes_def hours_def days_def)

lemma time_units_pos [simp]:
  "0 < minutes n \<longleftrightarrow> 0 < n" "0 < hours n \<longleftrightarrow> 0 < n" "0 < days n \<longleftrightarrow> 0 < n"
  by (auto simp: minutes_def hours_def days_def)

datatype json =
    JNull
  | JBool bool
  | JNum int
  | JStr string
  | JArr "json list"
  | JObj "(string \<times> json) list"

section \<open>Strings, locales and mail requests\<close>

text \<open>
  A \<open>string\<close> is a list of 8-bit characters. Where the code compares or lower-cases text
  the model is exact on ASCII, which is what its schemas let through for e-mail addresses,
  slugs and paths; Arabic text is carried as opaque characters.
\<close>

definition lower_char :: "char \<Rightarrow> char" where
  "lower_char c = (if 65 \<le> (of_char c :: nat) \<and> (of_char c :: nat) \<le> 90
                   then char_of ((of_char c :: nat) + 32) else c)"

definition to_lower :: "string \<Rightarrow> string" where
  "to_lower s = map lower_char s"

lemma lower_char_idem [simp]: "lower_char (lower_char c) = lower_char c"
  by (simp add: lower_char_def)

lemma to_lower_idem [simp]: "to_lower (to_lower s) = to_lower s"
  by (simp add: to_lower_def)

text \<open>The characters \<open>\s\<close> and \<open>trim()\<close> treat as white space, in the 8-bit range.\<close>

definition is_space :: "char \<Rightarrow> bool" where
  "is_space c \<longleftrightarrow> (of_char c :: nat) \<in> {9, 10, 11, 12, 13, 32, 160}"

definition trim :: "string \<Rightarrow> string" where
  "trim s = rev (dropWhile is_space (rev (dropWhile is_space s)))"

definition is_digit :: "char \<Rightarrow> bool" where
  "is_digit c \<longleftrightarrow> 48 \<le> (of_char c :: nat) \<and> (of_char c :: nat) \<le> 57"

text \<open>\<open>String(n)\<close> of a natural number, and \<open>Array.join\<close>.\<close>

fun show_nat :: "nat \<Rightarrow> string" where
  "show_nat n = (if n < 10 then [char_of (48 + n)] else show_nat (n div 10) @ [char_of (48 + n mod 10)])"

declare show_nat.simps [simp del]

fun join_with :: "string \<Rightarrow> string list \<Rightarrow> string" where
  "join_with sep [] = []"
| "join_with sep [x] = x"
| "join_with sep (x # y # xs) = x @ sep @ join_with sep (y # xs)"

definition digit_value :: "char \<Rightarrow> nat" where
  "digit_value c = of_char c - 48"

definition read_nat :: "string \<Rightarrow> nat" where
  "read_nat s = foldl (\<lambda>n c. n * 10 + digit_value c) 0 s"

lemma of_char_digit: "n < 10 \<Longrightarrow> (of_char (char_of (48 + n) :: char) :: nat) = 48 + n"
  by (simp add: of_char_of take_bit_eq_mod)

lemma read_show_nat [simp]: "read_nat (show_nat n) = n"
proof (induction n rule: show_nat.induct)
  case (1 n)
  show ?case
  proof (cases "n < 10")
    case True
    then show ?thesis
      by (subst show_nat.simps) (simp add: read_nat_def digit_value_def of_char_digit)
  next
    case False
    have "read_nat (show_nat (n div 10) @ [char_of (48 + n mod 10)])
        = read_nat (show_nat (n div 10)) * 10 + n mod 10"
      by (simp add: read_nat_def digit_value_def of_char_digit)
    then show ?thesis
      using False 1 by (subst show_nat.simps) simp
  qed
qed

lemma show_nat_inj [simp]: "show_nat m = show_nat n \<longleftrightarrow> m = n"
  by (metis read_show_nat)

lemma show_nat_digits: "c \<in> set (show_nat n) \<Longrightarrow> is_digit c"
proof (induction n rule: show_nat.induct)
  case (1 n)
  then show ?case
    by (subst (asm) (2) show_nat.simps) (auto simp: is_digit_def of_char_digit split: if_splits)
qed

lemma show_nat_not_Nil [simp]: "show_nat n \<noteq> []"
  by (subst show_nat.simps) simp

lemma append_sep_inj:
  assumes "x @ c # y = x' @ c # y'" "c \<notin> set x" "c \<notin> set x'"
  shows "x = x' \<and> y = y'"
  using assms
proof (induction x arbitrary: x')
  case Nil
  then show ?case by (cases x') auto
next
  case (Cons a x)
  then show ?case by (cases x') auto
qed

lemma digit_not_sep: "\<not> is_digit c \<Longrightarrow> c \<notin> set (show_nat n)"
  using show_nat_digits by blast

lemma join_nats_inj:
  assumes "\<not> is_digit c" "length xs = length ys"
    and "join_with [c] (map show_nat xs) = join_with [c] (map show_nat ys)"
  shows "xs = ys"
  using assms(2,3)
proof (induction xs ys rule: list_induct2)
  case Nil
  then show ?case by simp
next
  case (Cons x xs y ys)
  show ?case
  proof (cases xs)
    case Nil
    then show ?thesis using Cons by simp
  next
    case (Cons x2 xs')
    then obtain y2 ys' where ys: "ys = y2 # ys'"
      using Cons.hyps by (cases ys) auto
    have "show_nat x = show_nat y \<and>
        join_with [c] (map show_nat xs) = join_with [c] (map show_nat ys)"
      using Cons.prems \<open>xs = x2 # xs'\<close> ys digit_not_sep [OF assms(1)]
      by (intro append_sep_inj [where c = c]) simp_all
    then show ?thesis using Cons.IH by simp
  qed
qed

datatype loc = Ar | En

record send_mail =
  sm_key :: string
  sm_to :: string
  sm_vars :: "(string \<times> string) list"
  sm_locale :: loc
  sm_entity :: "(string \<times> string) option"
  sm_sensitive :: "string list"

definition locale_code :: "loc \<Rightarrow> string" where
  "locale_code l = (case l of Ar \<Rightarrow> ''ar'' | En \<Rightarrow> ''en'')"

definition frontend_url :: "string \<Rightarrow> loc \<Rightarrow> string \<Rightarrow> string" where
  "frontend_url base l path =
     base @ ''/'' @ locale_code l @ ''/'' @ dropWhile (\<lambda>c. c = CHR ''/'') path"

section \<open>Errors and results\<close>

datatype error_code =
    VALIDATION_FAILED
  | UNAUTHENTICATED
  | FORBIDDEN
  | NOT_FOUND
  | ASSET_IN_USE
  | RESOURCE_IN_USE
  | ALT_TEXT_REQUIRED
  | LAST_ADMIN
  | SLUG_TAKEN
  | PUBLISH_BLOCKED
  | RATE_LIMITED
  | UNSUPPORTED_PROVIDER
  | SOURCE_TYPE_MISMATCH
  | UNKNOWN_VARIABLE
  | FEATURE_DISABLED
  | NOT_IMPLEMENTED
  | REDIRECT_CHAIN

record problem =
  pr_status :: nat
  pr_code :: error_code
  pr_title :: string
  pr_extra :: "(string \<times> json) list"

text \<open>
  What a handler can throw, as far as the global exception filter tells it apart: the
  API's own problems, a failed zod validation with its issues, a database error with the
  driver's code and number, a framework HTTP exception with its status and message, and
  any other error.
\<close>

datatype exn =
    ProblemExn problem
  | ZodExn "json option"
  | QueryFailed "string option" "nat option"
  | HttpExn nat "string list" string
  | OtherExn string

type_synonym 'a res = "exn + 'a"

definition fail :: "nat \<Rightarrow> error_code \<Rightarrow> string \<Rightarrow> 'a res" where
  "fail st c t = Inl (ProblemExn \<lparr>pr_status = st, pr_code = c, pr_title = t, pr_extra = []\<rparr>)"

definition fail_with :: "nat \<Rightarrow> error_code \<Rightarrow> string \<Rightarrow> (string \<times> json) list \<Rightarrow> 'a res" where
  "fail_with st c t x = Inl (ProblemExn \<lparr>pr_status = st, pr_code = c, pr_title = t, pr_extra = x\<rparr>)"

definition ok :: "'a res \<Rightarrow> bool" where
  "ok r \<longleftrightarrow> (case r of Inl _ \<Rightarrow> False | Inr _ \<Rightarrow> True)"

definition failed_with :: "'a res \<Rightarrow> nat \<Rightarrow> error_code \<Rightarrow> bool" where
  "failed_with r st c \<longleftrightarrow>
     (case r of Inl (ProblemExn p) \<Rightarrow> pr_status p = st \<and> pr_code p = c | _ \<Rightarrow> False)"

lemma ok_simps [simp]:
  "ok (Inr v) = True" "\<not> ok (Inl e)" "\<not> ok (fail st c t)" "\<not> ok (fail_with st c t x)"
  by (simp_all add: ok_def fail_def fail_with_def)

lemma ok_iff: "ok r \<longleftrightarrow> (\<exists>x. r = Inr x)"
  by (cases r) (auto simp: ok_def)

lemma failed_with_simps [simp]:
  "failed_with (fail st c t) st' c' \<longleftrightarrow> st = st' \<and> c = c'"
  "failed_with (fail_with st c t x) st' c' \<longleftrightarrow> st = st' \<and> c = c'"
  "\<not> failed_with (Inr v) st c"
  by (auto simp: failed_with_def fail_def fail_with_def)

lemma failed_with_problem [simp]:
  "failed_with (Inl (ProblemExn p)) st c \<longleftrightarrow> pr_status p = st \<and> pr_code p = c"
  by (simp add: failed_with_def)

lemma case_fail [simp]:
  "(case fail st c t of Inl e \<Rightarrow> f e | Inr v \<Rightarrow> g v)
    = f (ProblemExn \<lparr>pr_status = st, pr_code = c, pr_title = t, pr_extra = []\<rparr>)"
  "(case fail_with st c t x of Inl e \<Rightarrow> f e | Inr v \<Rightarrow> g v)
    = f (ProblemExn \<lparr>pr_status = st, pr_code = c, pr_title = t, pr_extra = x\<rparr>)"
  by (simp_all add: fail_def fail_with_def)

lemma fail_neq [simp]:
  "fail st c t \<noteq> Inr v" "fail_with st c t x \<noteq> Inr v"
  "Inr v \<noteq> fail st c t" "Inr v \<noteq> fail_with st c t x"
  by (simp_all add: fail_def fail_with_def)

lemma sort_key_map: "(\<And>x. k (f x) = k x) \<Longrightarrow> sort_key k (map f xs) = map f (sort_key k xs)"
proof (induction xs)
  case (Cons x xs)
  have "insort_key k (f x) (map f ys) = map f (insort_key k x ys)" for ys
    by (induction ys) (simp_all add: Cons.prems)
  then show ?case using Cons by simp
qed simp

section \<open>Tables\<close>

text \<open>
  A table is the list of its rows. \<open>UPDATE \<dots> WHERE\<close>, \<open>DELETE \<dots> WHERE\<close> and the number
  of affected rows are list functions; \<open>getOne\<close> and \<open>findOne\<close> return the first match.
\<close>

named_theorems table_simps

definition update_rows :: "('r \<Rightarrow> bool) \<Rightarrow> ('r \<Rightarrow> 'r) \<Rightarrow> 'r list \<Rightarrow> 'r list" where
  "update_rows P f rows = map (\<lambda>r. if P r then f r else r) rows"

definition delete_rows :: "('r \<Rightarrow> bool) \<Rightarrow> 'r list \<Rightarrow> 'r list" where
  "delete_rows P rows = filter (\<lambda>r. \<not> P r) rows"

definition affected :: "('r \<Rightarrow> bool) \<Rightarrow> 'r list \<Rightarrow> nat" where
  "affected P rows = length (filter P rows)"

lemma set_update_rows [table_simps]:
  "set (update_rows P f rows) = {r \<in> set rows. \<not> P r} \<union> f ` {r \<in> set rows. P r}"
  by (auto simp: update_rows_def)

lemma set_delete_rows [table_simps]: "set (delete_rows P rows) = {r \<in> set rows. \<not> P r}"
  by (auto simp: delete_rows_def)

lemma affected_0_iff [table_simps]: "affected P rows = 0 \<longleftrightarrow> (\<forall>r \<in> set rows. \<not> P r)"
  by (auto simp: affected_def filter_empty_conv)

lemma update_rows_Nil [simp]: "update_rows P f [] = []"
  and update_rows_Cons [simp]:
    "update_rows P f (r # rows) = (if P r then f r else r) # update_rows P f rows"
  by (simp_all add: update_rows_def)

lemma map_update_rows:
  assumes "\<And>r. P r \<Longrightarrow> g (f r) = g r"
  shows "map g (update_rows P f rows) = map g rows"
  using assms by (simp add: update_rows_def)

lemma filter_update_rows:
  assumes "\<And>r. P r \<Longrightarrow> \<not> Q r \<and> \<not> Q (f r)"
  shows "filter Q (update_rows P f rows) = filter Q rows"
  using assms by (induction rows) auto

lemma find_update_rows:
  assumes "\<And>r. P r \<Longrightarrow> Q (f r) = Q r"
  shows "List.find Q (update_rows P f rows) = map_option (\<lambda>r. if P r then f r else r) (List.find Q rows)"
  using assms by (induction rows) auto

lemma find_append: "List.find P (xs @ ys) = (case List.find P xs of None \<Rightarrow> List.find P ys | Some x \<Rightarrow> Some x)"
  by (induction xs) auto

lemma delete_rows_Nil [simp]: "delete_rows P [] = []"
  and delete_rows_Cons [simp]:
    "delete_rows P (r # rows) = (if P r then delete_rows P rows else r # delete_rows P rows)"
  by (simp_all add: delete_rows_def)

lemma find_SomeD: "List.find P xs = Some x \<Longrightarrow> x \<in> set xs \<and> P x"
  by (induction xs) (auto split: if_splits)

lemma find_None_iff_ex: "List.find P xs = None \<longleftrightarrow> (\<forall>x \<in> set xs. \<not> P x)"
  by (auto simp: find_None_iff)

lemma find_map_key:
  assumes "distinct (map key xs)" "x \<in> set xs"
  shows "List.find (\<lambda>y. key y = key x) xs = Some x"
  using assms by (induction xs) (auto simp: image_iff)

lemma distinct_key_eq:
  "distinct (map key xs) \<Longrightarrow> x \<in> set xs \<Longrightarrow> y \<in> set xs \<Longrightarrow> key x = key y \<Longrightarrow> x = y"
  by (auto simp: distinct_map inj_on_def)

lemma distinct_map_delete_rows:
  "distinct (map key xs) \<Longrightarrow> distinct (map key (delete_rows P xs))"
  by (auto simp: delete_rows_def intro: distinct_map_filter)

section \<open>Components whose operations keep an invariant\<close>

text \<open>
  Several components are a state, a set of operations and an invariant every operation
  keeps, whatever order the requests come in. The operations appear as one step function
  over a type of requests; the response is part of the step and not of the state.
\<close>

locale kept_invariant =
  fixes step :: "'op \<Rightarrow> 's \<Rightarrow> 's"
    and inv :: "'s \<Rightarrow> bool"
  assumes step_inv: "inv s \<Longrightarrow> inv (step op s)"
begin

definition run :: "'op list \<Rightarrow> 's \<Rightarrow> 's" where
  "run ops s = fold step ops s"

lemma run_Nil: "run [] s = s"
  by (simp add: run_def)

lemma run_Cons: "run (op # ops) s = run ops (step op s)"
  by (simp add: run_def)

lemma run_append: "run (ops @ ops') s = run ops' (run ops s)"
  by (simp add: run_def)

lemma run_inv: "inv s \<Longrightarrow> inv (run ops s)"
  by (induction ops arbitrary: s) (auto simp: run_Nil run_Cons step_inv)

lemma fold_inv: "inv s \<Longrightarrow> inv (fold step ops s)"
  using run_inv [of s ops] by (simp add: run_def)

end

text \<open>
  Where several processes interleave, the steps are a relation and the invariant holds in every
  state they reach.
\<close>

locale kept_by_steps =
  fixes step :: "'s \<Rightarrow> 's \<Rightarrow> bool"
    and inv :: "'s \<Rightarrow> bool"
  assumes step_keeps: "inv s \<Longrightarrow> step s t \<Longrightarrow> inv t"
begin

lemma reachable_inv: "step\<^sup>*\<^sup>* s t \<Longrightarrow> inv s \<Longrightarrow> inv t"
  by (induction rule: rtranclp_induct) (auto intro: step_keeps)

end

end
