(* ===== verification/AuthData.thy ===== *)
theory AuthData
  imports SafeerPrelude
begin

text \<open>
  The staff accounts' data (\<open>database/entities/user\<close>, \<open>session\<close>, \<open>auth-token\<close>,
  \<open>audit-log\<close>), the projection of an account that leaves the API (\<open>users/public-user.ts\<close>),
  the brute-force counters (\<open>AuthService.registerFailedAttempt\<close>) and what the services take
  from the libraries: Argon2, SHA-256, HMAC and HKDF appear as fields of \<open>auth_env\<close>.
\<close>

section \<open>Rows\<close>

datatype user_role = Admin | Editor | Support

datatype user_status = Active | Disabled | Invited

record user =
  u_id :: string
  u_name :: string
  u_email :: string
  u_passwordHash :: string
  u_role :: user_role
  u_status :: user_status
  u_failedLogins :: nat
  u_lastFailedLoginAt :: "time option"
  u_lockedUntil :: "time option"
  u_lockCount :: nat
  u_lastLoginAt :: "time option"
  u_createdAt :: time
  u_updatedAt :: time

record session =
  s_id :: string
  s_userId :: string
  s_tokenHash :: string
  s_expiresAt :: time
  s_lastSeenAt :: time
  s_revokedAt :: "time option"
  s_userAgent :: "string option"
  s_ipHash :: "string option"
  s_createdAt :: time

datatype token_purpose = Invite | Reset

record auth_token =
  t_id :: string
  t_userId :: string
  t_purpose :: token_purpose
  t_tokenHash :: string
  t_expiresAt :: time
  t_usedAt :: "time option"
  t_createdAt :: time

datatype audit_action =
    ACreate | AUpdate | ADelete | APublish | AUnpublish | ALogin | ALoginFailed | AUpload | AExport

record audit_row =
  a_actorId :: "string option"
  a_action :: audit_action
  a_entityType :: string
  a_entityId :: "string option"
  a_entityLabel :: "string option"
  a_diff :: "json option"
  a_ipHash :: "string option"
  a_createdAt :: time

record auth_db =
  db_users :: "user list"
  db_sessions :: "session list"
  db_tokens :: "auth_token list"
  db_audit :: "audit_row list"

section \<open>What the services take from libraries and the environment\<close>

record auth_env =
  ae_email_eq :: "string \<Rightarrow> string \<Rightarrow> bool"
  ae_argon2_verify :: "string \<Rightarrow> string \<Rightarrow> exn + bool"
  ae_argon2_hash :: "string \<Rightarrow> string"
  ae_dummy_hash :: string
  ae_sha256 :: "string \<Rightarrow> string"
  ae_hkdf :: "string \<Rightarrow> string \<Rightarrow> string"
  ae_hmac :: "string \<Rightarrow> string \<Rightarrow> string"
  ae_app_key :: string
  ae_idle_hours :: int
  ae_absolute_days :: int
  ae_frontend_base :: string
  ae_role_label :: "user_role \<Rightarrow> loc \<Rightarrow> string"

text \<open>\<open>PasswordService.verify\<close>: a hash Argon2 cannot parse fails closed.\<close>

definition password_verify :: "auth_env \<Rightarrow> string \<Rightarrow> string \<Rightarrow> bool" where
  "password_verify env hash plain =
     (case ae_argon2_verify env hash plain of Inl _ \<Rightarrow> False | Inr b \<Rightarrow> b)"

definition hash_token :: "auth_env \<Rightarrow> string \<Rightarrow> string" where
  "hash_token env token = ae_sha256 env token"

definition derive_csrf_key :: "auth_env \<Rightarrow> string \<Rightarrow> string" where
  "derive_csrf_key env app_key = ae_hkdf env app_key ''safeer-csrf-v1''"

definition compute_csrf_token :: "auth_env \<Rightarrow> string \<Rightarrow> string \<Rightarrow> string" where
  "compute_csrf_token env app_key session_token_hash =
     ae_hmac env (derive_csrf_key env app_key) session_token_hash"

section \<open>The public projection of an account\<close>

record public_user =
  pu_id :: string
  pu_name :: string
  pu_email :: string
  pu_role :: user_role
  pu_status :: user_status
  pu_isLocked :: bool
  pu_lockedUntil :: "time option"
  pu_failedLogins :: nat
  pu_lastLoginAt :: "time option"
  pu_createdAt :: time
  pu_updatedAt :: time

definition is_brute_force_locked :: "user \<Rightarrow> time \<Rightarrow> bool" where
  "is_brute_force_locked u now =
     (case u_lockedUntil u of None \<Rightarrow> False | Some l \<Rightarrow> now < l)"

definition to_public_user :: "time \<Rightarrow> user \<Rightarrow> public_user" where
  "to_public_user now u =
     \<lparr>pu_id = u_id u, pu_name = u_name u, pu_email = u_email u, pu_role = u_role u,
      pu_status = u_status u, pu_isLocked = is_brute_force_locked u now,
      pu_lockedUntil = u_lockedUntil u, pu_failedLogins = u_failedLogins u,
      pu_lastLoginAt = u_lastLoginAt u, pu_createdAt = u_createdAt u, pu_updatedAt = u_updatedAt u\<rparr>"

section \<open>The brute-force counters\<close>

definition LOCK_THRESHOLD :: nat where "LOCK_THRESHOLD = 10"
definition LOCK_BASE_MINUTES :: int where "LOCK_BASE_MINUTES = 15"
definition LOCK_MAX_MINUTES :: int where "LOCK_MAX_MINUTES = 60"
definition LOCK_DECAY_HOURS :: int where "LOCK_DECAY_HOURS = 24"

text \<open>
  The SQL comparison \<open>col <= x\<close> is not true for a NULL column, so \<open>IF(col <= x, 0, n)\<close> keeps
  \<open>n\<close> there. The \<open>SET\<close> list is the list of its assignments, applied left to right, each one
  seeing the row the earlier ones left.
\<close>

definition sql_le :: "time option \<Rightarrow> time \<Rightarrow> bool" where
  "sql_le col x = (case col of None \<Rightarrow> False | Some c \<Rightarrow> c \<le> x)"

definition lock_minutes :: "nat \<Rightarrow> int" where
  "lock_minutes lock_count = min (LOCK_BASE_MINUTES * 2 ^ min lock_count 6) LOCK_MAX_MINUTES"

definition failed_attempt_set :: "time \<Rightarrow> (user \<Rightarrow> user) list" where
  "failed_attempt_set now =
    [\<lambda>u. u\<lparr>u_lockCount := if sql_le (u_lockedUntil u) (now - hours LOCK_DECAY_HOURS) then 0 else u_lockCount u\<rparr>,
     \<lambda>u. u\<lparr>u_failedLogins := (if sql_le (u_lastFailedLoginAt u) (now - hours LOCK_DECAY_HOURS) then 0 else u_failedLogins u) + 1\<rparr>,
     \<lambda>u. u\<lparr>u_lastFailedLoginAt := Some now\<rparr>,
     \<lambda>u. u\<lparr>u_lockedUntil := if LOCK_THRESHOLD \<le> u_failedLogins u then Some (now + minutes (lock_minutes (u_lockCount u))) else u_lockedUntil u\<rparr>,
     \<lambda>u. u\<lparr>u_lockCount := if LOCK_THRESHOLD \<le> u_failedLogins u then u_lockCount u + 1 else u_lockCount u\<rparr>,
     \<lambda>u. u\<lparr>u_failedLogins := if LOCK_THRESHOLD \<le> u_failedLogins u then 0 else u_failedLogins u\<rparr>]"

definition register_failed_row :: "time \<Rightarrow> user \<Rightarrow> user" where
  "register_failed_row now u = fold (\<lambda>f r. f r) (failed_attempt_set now) u"

definition register_failed_attempt :: "time \<Rightarrow> string \<Rightarrow> auth_db \<Rightarrow> auth_db" where
  "register_failed_attempt now user_id db =
     db\<lparr>db_users := update_rows (\<lambda>u. u_id u = user_id) (register_failed_row now) (db_users db)\<rparr>"

section \<open>What the counters do\<close>

lemma sql_le_simps [simp]: "\<not> sql_le None x" "sql_le (Some c) x \<longleftrightarrow> c \<le> x"
  by (simp_all add: sql_le_def)

lemma lock_minutes_bounds: "15 \<le> lock_minutes k" "lock_minutes k \<le> 60"
proof -
  have "(1::int) \<le> 2 ^ min k 6" by simp
  then show "15 \<le> lock_minutes k"
    by (simp add: lock_minutes_def LOCK_BASE_MINUTES_def LOCK_MAX_MINUTES_def)
  show "lock_minutes k \<le> 60"
    by (simp add: lock_minutes_def LOCK_BASE_MINUTES_def LOCK_MAX_MINUTES_def)
qed

lemma lock_minutes_values:
  "lock_minutes 0 = 15" "lock_minutes (Suc 0) = 30" "2 \<le> k \<Longrightarrow> lock_minutes k = 60"
proof -
  show "lock_minutes 0 = 15" "lock_minutes (Suc 0) = 30"
    by (simp_all add: lock_minutes_def LOCK_BASE_MINUTES_def LOCK_MAX_MINUTES_def)
  assume "2 \<le> k"
  then have "(2::int) ^ 2 \<le> 2 ^ min k 6"
    by (intro power_increasing) auto
  then show "lock_minutes k = 60"
    by (simp add: lock_minutes_def LOCK_BASE_MINUTES_def LOCK_MAX_MINUTES_def)
qed

lemma register_failed_row_below:
  assumes "\<not> sql_le (u_lockedUntil u) (now - hours 24)"
    and "\<not> sql_le (u_lastFailedLoginAt u) (now - hours 24)"
    and "u_failedLogins u + 1 < 10"
  shows "register_failed_row now u =
    u\<lparr>u_failedLogins := u_failedLogins u + 1, u_lastFailedLoginAt := Some now\<rparr>"
  using assms
  by (simp add: register_failed_row_def failed_attempt_set_def LOCK_THRESHOLD_def LOCK_DECAY_HOURS_def)

lemma register_failed_row_lock:
  assumes "\<not> sql_le (u_lockedUntil u) (now - hours 24)"
    and "\<not> sql_le (u_lastFailedLoginAt u) (now - hours 24)"
    and "u_failedLogins u = 9"
  shows "register_failed_row now u =
    u\<lparr>u_failedLogins := 0, u_lastFailedLoginAt := Some now,
      u_lockedUntil := Some (now + minutes (lock_minutes (u_lockCount u))),
      u_lockCount := u_lockCount u + 1\<rparr>"
  using assms
  by (simp add: register_failed_row_def failed_attempt_set_def LOCK_THRESHOLD_def LOCK_DECAY_HOURS_def)

lemma register_failed_row_keeps [simp]:
  "u_id (register_failed_row now u) = u_id u"
  "u_email (register_failed_row now u) = u_email u"
  "u_role (register_failed_row now u) = u_role u"
  "u_status (register_failed_row now u) = u_status u"
  "u_passwordHash (register_failed_row now u) = u_passwordHash u"
  by (simp_all add: register_failed_row_def failed_attempt_set_def)

lemma failures_in_window:
  assumes "\<forall>t \<in> set ts. start \<le> t \<and> t < start + hours 24"
    and "u_lastFailedLoginAt u = Some l" "start \<le> l"
    and "\<forall>t \<in> set ts. \<not> sql_le (u_lockedUntil u) (t - hours 24)"
    and "u_failedLogins u + length ts < 10"
  shows "fold register_failed_row ts u =
    u\<lparr>u_failedLogins := u_failedLogins u + length ts,
      u_lastFailedLoginAt := Some (if ts = [] then l else last ts)\<rparr>"
  using assms
proof (induction ts arbitrary: u l)
  case Nil
  then show ?case by simp
next
  case (Cons t ts)
  let ?u = "u\<lparr>u_failedLogins := u_failedLogins u + 1, u_lastFailedLoginAt := Some t\<rparr>"
  have step: "register_failed_row t u = ?u"
    using Cons.prems by (intro register_failed_row_below) auto
  have "fold register_failed_row ts ?u =
    ?u\<lparr>u_failedLogins := u_failedLogins ?u + length ts,
       u_lastFailedLoginAt := Some (if ts = [] then t else last ts)\<rparr>"
    using Cons.prems by (intro Cons.IH) auto
  then show ?case by (simp add: step)
qed

lemma first_failure:
  assumes "\<not> sql_le (u_lockedUntil u) (now - hours 24)" and "u_failedLogins u = 0"
  shows "register_failed_row now u = u\<lparr>u_failedLogins := 1, u_lastFailedLoginAt := Some now\<rparr>"
  using assms
  by (simp add: register_failed_row_def failed_attempt_set_def LOCK_THRESHOLD_def LOCK_DECAY_HOURS_def)

text \<open>
  One wrong password, whatever the row held, leaves the
  failure count below the threshold, and either keeps \<open>locked_until\<close> or sets it between 15
  and 60 minutes ahead; the lock count never grows by more than one.
\<close>

theorem register_failed_row_bounds:
  assumes "u_failedLogins u < LOCK_THRESHOLD"
  shows "u_failedLogins (register_failed_row now u) < LOCK_THRESHOLD
    \<and> (u_lockedUntil (register_failed_row now u) = u_lockedUntil u
       \<or> (\<exists>m. u_lockedUntil (register_failed_row now u) = Some (now + minutes m)
              \<and> 15 \<le> m \<and> m \<le> LOCK_MAX_MINUTES))
    \<and> u_lockCount (register_failed_row now u) \<le> u_lockCount u + 1"
  using assms lock_minutes_bounds
  unfolding register_failed_row_def failed_attempt_set_def LOCK_THRESHOLD_def LOCK_MAX_MINUTES_def
  by auto

definition fresh_account :: user where
  "fresh_account = \<lparr>u_id = ''1'', u_name = ''Ada'', u_email = ''a@x.org'', u_passwordHash = ''h'', u_role = Admin,
    u_status = Active, u_failedLogins = 0, u_lastFailedLoginAt = None, u_lockedUntil = None,
    u_lockCount = 0, u_lastLoginAt = None, u_createdAt = 0, u_updatedAt = 0\<rparr>"

theorem register_failed_row_bounds_witness:
  "u_failedLogins (register_failed_row 5 fresh_account) < LOCK_THRESHOLD
    \<and> (u_lockedUntil (register_failed_row 5 fresh_account) = u_lockedUntil fresh_account
       \<or> (\<exists>m. u_lockedUntil (register_failed_row 5 fresh_account) = Some (5 + minutes m)
              \<and> 15 \<le> m \<and> m \<le> LOCK_MAX_MINUTES))
    \<and> u_lockCount (register_failed_row 5 fresh_account) \<le> u_lockCount fresh_account + 1"
  by (rule register_failed_row_bounds) (simp add: fresh_account_def LOCK_THRESHOLD_def)

text \<open>
  Ten wrong passwords within 24 hours, starting from a count of 0 and
  with no lock that ended a day ago, lock the account: nine leave it as it was, the tenth
  locks it for 15, 30, then 60 minutes (60 from the third lock on), restarts the count and
  records the lock.
\<close>

theorem ten_failures_lock:
  assumes "u_failedLogins u = 0"
    and "length ts = 10"
    and window: "\<forall>t \<in> set ts. hd ts \<le> t \<and> t < hd ts + hours 24"
    and undecayed: "\<forall>t \<in> set ts. \<not> sql_le (u_lockedUntil u) (t - hours 24)"
  shows "u_lockedUntil (fold register_failed_row (butlast ts) u) = u_lockedUntil u
    \<and> fold register_failed_row ts u =
      u\<lparr>u_failedLogins := 0, u_lastFailedLoginAt := Some (last ts),
        u_lockedUntil := Some (last ts + minutes
          (if u_lockCount u = 0 then 15 else if u_lockCount u = 1 then 30 else 60)),
        u_lockCount := u_lockCount u + 1\<rparr>"
proof -
  define t ms l where "t = hd ts" and "ms = butlast (tl ts)" and "l = last ts"
  have ts: "ts = t # ms @ [l]" and ms: "length ms = 8"
    using \<open>length ts = 10\<close> unfolding t_def ms_def l_def
    by (cases ts; auto)+
  let ?u1 = "u\<lparr>u_failedLogins := 1, u_lastFailedLoginAt := Some t\<rparr>"
  let ?l9 = "if ms = [] then t else last ms"
  let ?u9 = "u\<lparr>u_failedLogins := 9, u_lastFailedLoginAt := Some ?l9\<rparr>"
  have first: "register_failed_row t u = ?u1"
    using assms ts by (intro first_failure) auto
  have "fold register_failed_row ms ?u1 =
      ?u1\<lparr>u_failedLogins := u_failedLogins ?u1 + length ms, u_lastFailedLoginAt := Some ?l9\<rparr>"
    using assms ts ms by (intro failures_in_window [where start = t]) auto
  then have nine: "fold register_failed_row (t # ms) u = ?u9"
    using ms by (simp add: first)
  have "?l9 \<in> set ts" using ts by auto
  then have recent: "\<not> ?l9 \<le> l - hours 24"
    using window ts by fastforce
  have minutes: "lock_minutes (u_lockCount u) =
      (if u_lockCount u = 0 then 15 else if u_lockCount u = 1 then 30 else 60)"
    using lock_minutes_values(1,2) lock_minutes_values(3) [of "u_lockCount u"] by auto
  have tenth: "register_failed_row l ?u9 =
      u\<lparr>u_failedLogins := 0, u_lastFailedLoginAt := Some l,
        u_lockedUntil := Some (l + minutes (lock_minutes (u_lockCount u))),
        u_lockCount := u_lockCount u + 1\<rparr>"
    using undecayed ts recent by (subst register_failed_row_lock) auto
  have "fold register_failed_row ts u = register_failed_row l (fold register_failed_row (t # ms) u)"
    using ts by simp
  moreover have "butlast ts = t # ms" "last ts = l"
    using ts by simp_all
  ultimately show ?thesis
    using nine tenth minutes by (simp del: fold_simps)
qed

theorem ten_failures_lock_witness:
  "u_lockedUntil (fold register_failed_row (butlast [1, 2, 3, 4, 5, 6, 7, 8, 9, 10]) fresh_account) = u_lockedUntil fresh_account
    \<and> fold register_failed_row [1, 2, 3, 4, 5, 6, 7, 8, 9, 10] fresh_account =
      fresh_account\<lparr>u_failedLogins := 0, u_lastFailedLoginAt := Some (last [1, 2, 3, 4, 5, 6, 7, 8, 9, 10]),
        u_lockedUntil := Some (last [1, 2, 3, 4, 5, 6, 7, 8, 9, 10] + minutes
          (if u_lockCount fresh_account = 0 then 15 else if u_lockCount fresh_account = 1 then 30 else 60)),
        u_lockCount := u_lockCount fresh_account + 1\<rparr>"
  by (rule ten_failures_lock) (simp_all add: fresh_account_def hours_def sql_le_def)

end
