(* ===== verification/UsersService.thy ===== *)
theory UsersService
  imports AuthData
begin

text \<open>
  \<open>users/users.service.ts\<close> and \<open>users/users.controller.ts\<close>: staff accounts. A path parameter
  is the string the client sent; MySQL compares it with the numeric id column, which is the
  parameter \<open>id_eq\<close> (column value first). \<open>email_eq\<close> is the column's collation. Each
  method runs in one transaction, so an error leaves the tables as they were.
\<close>

section \<open>Lookups and creation\<close>

definition UNUSABLE_PASSWORD_HASH :: string where
  "UNUSABLE_PASSWORD_HASH =
     ''$argon2id$v=19$m=1,t=1,p=1$AAAAAAAAAAAAAAAAAA$AAAAAAAAAAAAAAAAAAAAAAAAAAAAAAAAAAAAAAAAAAA''"

definition find_all :: "time \<Rightarrow> auth_db \<Rightarrow> public_user list" where
  "find_all now db = map (to_public_user now) (sort_key u_createdAt (db_users db))"

definition find_by_id :: "(string \<Rightarrow> string \<Rightarrow> bool) \<Rightarrow> string \<Rightarrow> auth_db \<Rightarrow> user res" where
  "find_by_id id_eq i db =
     (case List.find (\<lambda>u. id_eq (u_id u) i) (db_users db) of
        None \<Rightarrow> fail 404 NOT_FOUND ''User not found''
      | Some u \<Rightarrow> Inr u)"

definition find_by_email :: "(string \<Rightarrow> string \<Rightarrow> bool) \<Rightarrow> string \<Rightarrow> auth_db \<Rightarrow> user option" where
  "find_by_email email_eq email db = List.find (\<lambda>u. email_eq (u_email u) email) (db_users db)"

definition invited_row :: "time \<Rightarrow> string \<Rightarrow> string \<Rightarrow> string \<Rightarrow> user_role \<Rightarrow> user" where
  "invited_row now new_id email name role =
     \<lparr>u_id = new_id, u_name = name, u_email = email, u_passwordHash = UNUSABLE_PASSWORD_HASH,
      u_role = role, u_status = Invited, u_failedLogins = 0, u_lastFailedLoginAt = None,
      u_lockedUntil = None, u_lockCount = 0, u_lastLoginAt = None, u_createdAt = now, u_updatedAt = now\<rparr>"

definition create_invited_user ::
  "(string \<Rightarrow> string \<Rightarrow> bool) \<Rightarrow> time \<Rightarrow> string \<Rightarrow> string \<Rightarrow> string \<Rightarrow> user_role \<Rightarrow> auth_db \<Rightarrow> user res \<times> auth_db" where
  "create_invited_user email_eq now new_id email name role db =
     (case find_by_email email_eq email db of
        Some _ \<Rightarrow> (fail 409 VALIDATION_FAILED ''A user with that email already exists'', db)
      | None \<Rightarrow>
          (let u = invited_row now new_id email name role
           in (Inr u, db\<lparr>db_users := db_users db @ [u]\<rparr>)))"

section \<open>Update\<close>

datatype status_input = SetActive | SetDisabled

definition status_of :: "status_input \<Rightarrow> user_status" where
  "status_of st = (case st of SetActive \<Rightarrow> Active | SetDisabled \<Rightarrow> Disabled)"

record update_user_input =
  ui_name :: "string option"
  ui_email :: "string option"
  ui_role :: "user_role option"
  ui_status :: "status_input option"
  ui_unlock :: bool

definition covers_admin :: "user \<Rightarrow> bool" where
  "covers_admin u \<longleftrightarrow> u_role u = Admin \<and> u_status u = Active"

definition usable_admins_besides ::
  "(string \<Rightarrow> string \<Rightarrow> bool) \<Rightarrow> string \<Rightarrow> user list \<Rightarrow> nat" where
  "usable_admins_besides id_eq exclude users =
     length (filter (\<lambda>u. covers_admin u \<and> \<not> id_eq (u_id u) exclude) users)"

definition change_role ::
  "(string \<Rightarrow> string \<Rightarrow> bool) \<Rightarrow> string \<Rightarrow> string \<Rightarrow> update_user_input \<Rightarrow> user list \<Rightarrow> user \<Rightarrow> user res" where
  "change_role id_eq actor target input users t =
     (case ui_role input of
        None \<Rightarrow> Inr t
      | Some r \<Rightarrow>
          if r = u_role t then Inr t
          else if target = actor then fail 403 FORBIDDEN ''You cannot change your own role''
          else if covers_admin t \<and> usable_admins_besides id_eq target users = 0
            then fail 409 LAST_ADMIN ''The last remaining admin cannot be demoted''
          else Inr (t\<lparr>u_role := r\<rparr>))"

definition disabling :: "update_user_input \<Rightarrow> user \<Rightarrow> bool" where
  "disabling input t \<longleftrightarrow> ui_status input = Some SetDisabled \<and> u_status t \<noteq> Disabled"

definition change_status ::
  "(string \<Rightarrow> string \<Rightarrow> bool) \<Rightarrow> string \<Rightarrow> update_user_input \<Rightarrow> user list \<Rightarrow> bool \<Rightarrow> user \<Rightarrow> user res" where
  "change_status id_eq target input users would_remove_cover t =
     (if disabling input t \<and> would_remove_cover \<and> usable_admins_besides id_eq target users = 0
      then fail 409 LAST_ADMIN ''The last remaining admin cannot be disabled''
      else case ui_status input of
             None \<Rightarrow> Inr t
           | Some st \<Rightarrow>
               if st = SetActive \<and> u_status t = Invited
               then fail 409 VALIDATION_FAILED ''An invited user becomes active by accepting the invitation''
               else Inr (t\<lparr>u_status := status_of st\<rparr>))"

definition apply_unlock :: "update_user_input \<Rightarrow> user \<Rightarrow> user" where
  "apply_unlock input t =
     (if ui_unlock input then t\<lparr>u_lockedUntil := None, u_failedLogins := 0, u_lockCount := 0\<rparr> else t)"

definition set_name_email :: "update_user_input \<Rightarrow> user \<Rightarrow> user" where
  "set_name_email input t =
     t\<lparr>u_name := (case ui_name input of None \<Rightarrow> u_name t | Some n \<Rightarrow> n),
       u_email := (case ui_email input of None \<Rightarrow> u_email t | Some e \<Rightarrow> e)\<rparr>"

text \<open>\<open>save\<close> of a changed row: the unique key on \<open>email\<close> can refuse it.\<close>

definition save_user :: "(string \<Rightarrow> string \<Rightarrow> bool) \<Rightarrow> user \<Rightarrow> user list \<Rightarrow> user list res" where
  "save_user email_eq t users =
     (if \<exists>v \<in> set users. u_id v \<noteq> u_id t \<and> email_eq (u_email v) (u_email t)
      then Inl (QueryFailed (Some ''ER_DUP_ENTRY'') (Some 1062))
      else Inr (update_rows (\<lambda>v. u_id v = u_id t) (\<lambda>_. t) users))"

definition changed_user ::
  "(string \<Rightarrow> string \<Rightarrow> bool) \<Rightarrow> string \<Rightarrow> string \<Rightarrow> update_user_input \<Rightarrow> user list \<Rightarrow> user \<Rightarrow> user res" where
  "changed_user id_eq actor target input users t =
     (case change_role id_eq actor target input users t of
        Inl e \<Rightarrow> Inl e
      | Inr t1 \<Rightarrow>
          (case change_status id_eq target input users (covers_admin t) (set_name_email input t1) of
             Inl e \<Rightarrow> Inl e
           | Inr t2 \<Rightarrow> Inr (apply_unlock input t2)))"

definition update_user ::
  "(string \<Rightarrow> string \<Rightarrow> bool) \<Rightarrow> (string \<Rightarrow> string \<Rightarrow> bool) \<Rightarrow> time \<Rightarrow> string \<Rightarrow> string \<Rightarrow> update_user_input
     \<Rightarrow> auth_db \<Rightarrow> (public_user \<times> public_user) res \<times> auth_db" where
  "update_user id_eq email_eq now actor target input db =
     (case List.find (\<lambda>u. id_eq (u_id u) target) (db_users db) of
        None \<Rightarrow> (fail 404 NOT_FOUND ''User not found'', db)
      | Some t \<Rightarrow>
          (case changed_user id_eq actor target input (db_users db) t of
             Inl e \<Rightarrow> (Inl e, db)
           | Inr t' \<Rightarrow>
               (case save_user email_eq t' (db_users db) of
                  Inl e \<Rightarrow> (Inl e, db)
                | Inr users' \<Rightarrow>
                    (Inr (to_public_user now t, to_public_user now t'),
                     db\<lparr>db_users := users',
                        db_sessions :=
                          (if disabling input t
                           then update_rows (\<lambda>s. id_eq (s_userId s) target \<and> s_revokedAt s = None)
                                  (\<lambda>s. s\<lparr>s_revokedAt := Some now\<rparr>) (db_sessions db)
                           else db_sessions db),
                        db_tokens :=
                          (if disabling input t \<or> (ui_email input \<noteq> None \<and> ui_email input \<noteq> Some (u_email t))
                           then delete_rows (\<lambda>k. id_eq (t_userId k) target \<and> t_usedAt k = None) (db_tokens db)
                           else db_tokens db)\<rparr>))))"

section \<open>Removal\<close>

text \<open>The foreign keys cascade to sessions and tokens and null the actor of audit rows.\<close>

definition delete_user_row :: "string \<Rightarrow> auth_db \<Rightarrow> auth_db" where
  "delete_user_row i db =
     db\<lparr>db_users := delete_rows (\<lambda>u. u_id u = i) (db_users db),
        db_sessions := delete_rows (\<lambda>s. s_userId s = i) (db_sessions db),
        db_tokens := delete_rows (\<lambda>k. t_userId k = i) (db_tokens db),
        db_audit := update_rows (\<lambda>a. a_actorId a = Some i) (\<lambda>a. a\<lparr>a_actorId := None\<rparr>) (db_audit db)\<rparr>"

definition remove_user ::
  "(string \<Rightarrow> string \<Rightarrow> bool) \<Rightarrow> time \<Rightarrow> string \<Rightarrow> string \<Rightarrow> auth_db \<Rightarrow> public_user res \<times> auth_db" where
  "remove_user id_eq now actor target db =
     (case List.find (\<lambda>u. id_eq (u_id u) target) (db_users db) of
        None \<Rightarrow> (fail 404 NOT_FOUND ''User not found'', db)
      | Some t \<Rightarrow>
          if target = actor then (fail 403 FORBIDDEN ''You cannot delete your own account'', db)
          else if covers_admin t \<and> usable_admins_besides id_eq target (db_users db) = 0
            then (fail 409 LAST_ADMIN ''The last remaining admin cannot be deleted'', db)
          else (Inr (to_public_user now t), delete_user_row (u_id t) db))"

section \<open>Identifiers as the database matches them\<close>

text \<open>
  A column value prints in canonical decimal form. The database's comparison agrees with
  string equality on canonical parameters and never matches two different rows; on other
  strings (\<open>01\<close> for \<open>1\<close>) it may match where JavaScript's \<open>===\<close> does not.
\<close>

definition canonical_id :: "string \<Rightarrow> bool" where
  "canonical_id s \<longleftrightarrow> s \<noteq> [] \<and> hd s \<noteq> CHR ''0'' \<and> list_all is_digit s"

definition id_matching :: "(string \<Rightarrow> string \<Rightarrow> bool) \<Rightarrow> bool" where
  "id_matching id_eq \<longleftrightarrow>
     (\<forall>a p. canonical_id a \<and> canonical_id p \<longrightarrow> id_eq a p = (a = p)) \<and>
     (\<forall>a b p. canonical_id a \<and> canonical_id b \<and> id_eq a p \<and> id_eq b p \<longrightarrow> a = b)"

text \<open>A comparison with the coercion in question: leading zeros of the parameter are ignored.\<close>

definition zeros_ignored :: "string \<Rightarrow> string \<Rightarrow> bool" where
  "zeros_ignored a p \<longleftrightarrow> dropWhile (\<lambda>c. c = CHR ''0'') p = a"

lemma id_matching_zeros_ignored: "id_matching zeros_ignored"
  unfolding id_matching_def zeros_ignored_def canonical_id_def
  by (auto simp: dropWhile_eq_self_iff)

section \<open>The accounts keep an active admin\<close>

definition users_wf :: "auth_db \<Rightarrow> bool" where
  "users_wf db \<longleftrightarrow> distinct (map u_id (db_users db)) \<and> (\<forall>u \<in> set (db_users db). canonical_id (u_id u))"

definition has_active_admin :: "auth_db \<Rightarrow> bool" where
  "has_active_admin db \<longleftrightarrow> (\<exists>u \<in> set (db_users db). covers_admin u)"

datatype users_op =
    CreateInvited time string string string user_role
  | UpdateUser time string string update_user_input
  | RemoveUser time string string

text \<open>The database never hands out an id a second time.\<close>

fun users_step ::
  "(string \<Rightarrow> string \<Rightarrow> bool) \<Rightarrow> (string \<Rightarrow> string \<Rightarrow> bool) \<Rightarrow> users_op \<Rightarrow> auth_db \<Rightarrow> auth_db" where
  "users_step id_eq email_eq (CreateInvited now i email name role) db =
     (if canonical_id i \<and> i \<notin> u_id ` set (db_users db)
      then snd (create_invited_user email_eq now i email name role db) else db)"
| "users_step id_eq email_eq (UpdateUser now actor target input) db =
     snd (update_user id_eq email_eq now actor target input db)"
| "users_step id_eq email_eq (RemoveUser now actor target) db =
     snd (remove_user id_eq now actor target db)"

definition users_inv :: "(string \<Rightarrow> string \<Rightarrow> bool) \<Rightarrow> auth_db \<Rightarrow> bool" where
  "users_inv id_eq db \<longleftrightarrow> id_matching id_eq \<and> users_wf db \<and> has_active_admin db"

lemma changed_user_id:
  "changed_user id_eq actor target input users t = Inr t' \<Longrightarrow> u_id t' = u_id t"
  by (auto simp: changed_user_def change_role_def change_status_def apply_unlock_def set_name_email_def
      split: sum.splits option.splits if_splits)

lemma change_role_Inr:
  assumes "change_role id_eq actor target input users t = Inr t'"
  shows "t' = t \<or> (\<exists>r. t' = t\<lparr>u_role := r\<rparr> \<and>
    (covers_admin t \<longrightarrow> usable_admins_besides id_eq target users \<noteq> 0))"
  using assms by (auto simp: change_role_def split: option.splits if_splits)

lemma change_status_Inr:
  assumes "change_status id_eq target input users cover t = Inr t'"
  shows "t' = t \<or> (\<exists>st. t' = t\<lparr>u_status := status_of st\<rparr> \<and> ui_status input = Some st \<and>
    (disabling input t \<and> cover \<longrightarrow> usable_admins_besides id_eq target users \<noteq> 0))"
  using assms by (auto simp: change_status_def split: option.splits if_splits)

lemma covers_admin_simps [simp]:
  "covers_admin (set_name_email input t) = covers_admin t"
  "covers_admin (apply_unlock input t) = covers_admin t"
  "u_status (set_name_email input t) = u_status t"
  by (simp_all add: covers_admin_def set_name_email_def apply_unlock_def)

lemma changed_user_cover:
  assumes "changed_user id_eq actor target input users t = Inr t'"
    and "covers_admin t" and "\<not> covers_admin t'"
  shows "usable_admins_besides id_eq target users \<noteq> 0"
proof (rule ccontr)
  assume none: "\<not> usable_admins_besides id_eq target users \<noteq> 0"
  obtain t1 t2 where t1: "change_role id_eq actor target input users t = Inr t1"
    and t2: "change_status id_eq target input users (covers_admin t) (set_name_email input t1) = Inr t2"
    and t': "t' = apply_unlock input t2"
    using assms(1) by (auto simp: changed_user_def split: sum.splits)
  have "t1 = t" using change_role_Inr [OF t1] none assms(2) by auto
  then have "t2 = set_name_email input t \<or> t2 = (set_name_email input t)\<lparr>u_status := Active\<rparr>"
    using change_status_Inr [OF t2] none assms(2)
    by (auto simp: disabling_def covers_admin_def status_of_def split: status_input.splits)
      (metis status_input.exhaust)
  then show False
    using assms(2,3) t' by (auto simp: covers_admin_def set_name_email_def apply_unlock_def split: if_splits)
qed

lemma update_userE:
  assumes "update_user id_eq email_eq now actor target input db = (Inr r, db')"
  obtains t t' where "List.find (\<lambda>u. id_eq (u_id u) target) (db_users db) = Some t"
    and "changed_user id_eq actor target input (db_users db) t = Inr t'"
    and "db_users db' = update_rows (\<lambda>v. u_id v = u_id t) (\<lambda>_. t') (db_users db)"
    and "r = (to_public_user now t, to_public_user now t')"
    and "disabling input t \<Longrightarrow>
      db_sessions db' = update_rows (\<lambda>s. id_eq (s_userId s) target \<and> s_revokedAt s = None)
        (\<lambda>s. s\<lparr>s_revokedAt := Some now\<rparr>) (db_sessions db)
      \<and> db_tokens db' = delete_rows (\<lambda>k. id_eq (t_userId k) target \<and> t_usedAt k = None) (db_tokens db)"
proof (cases "List.find (\<lambda>u. id_eq (u_id u) target) (db_users db)")
  case None
  then show ?thesis using assms by (simp add: update_user_def)
next
  case (Some t)
  show ?thesis
  proof (cases "changed_user id_eq actor target input (db_users db) t")
    case (Inl e)
    then show ?thesis using assms Some by (simp add: update_user_def)
  next
    case (Inr t')
    have "db_users db' = update_rows (\<lambda>v. u_id v = u_id t) (\<lambda>_. t') (db_users db)"
      using assms Some Inr changed_user_id [OF Inr]
      by (auto simp: update_user_def save_user_def split: if_splits)
    moreover have "r = (to_public_user now t, to_public_user now t')"
      using assms Some Inr by (auto simp: update_user_def split: sum.splits)
    moreover have "disabling input t \<Longrightarrow>
      db_sessions db' = update_rows (\<lambda>s. id_eq (s_userId s) target \<and> s_revokedAt s = None)
        (\<lambda>s. s\<lparr>s_revokedAt := Some now\<rparr>) (db_sessions db)
      \<and> db_tokens db' = delete_rows (\<lambda>k. id_eq (t_userId k) target \<and> t_usedAt k = None) (db_tokens db)"
      using assms Some Inr by (auto simp: update_user_def split: sum.splits)
    ultimately show ?thesis using that Some Inr by blast
  qed
qed

lemma changed_user_disabling:
  assumes "changed_user id_eq actor target input users t = Inr t'" "ui_status input = Some SetDisabled"
  shows "u_status t' = Disabled"
  using assms
  by (auto simp: changed_user_def change_status_def apply_unlock_def status_of_def split: sum.splits if_splits)

lemma update_user_error:
  "update_user id_eq email_eq now actor target input db = (Inl e, db') \<Longrightarrow> db' = db"
  by (auto simp: update_user_def split: option.splits sum.splits)

lemma usable_admins_witness:
  assumes "usable_admins_besides id_eq p users \<noteq> 0"
  obtains v where "v \<in> set users" "covers_admin v" "\<not> id_eq (u_id v) p"
  using assms by (auto simp: usable_admins_besides_def filter_empty_conv)

lemma update_user_inv:
  assumes "users_inv id_eq db"
  shows "users_inv id_eq (snd (update_user id_eq email_eq now actor target input db))"
proof (cases "update_user id_eq email_eq now actor target input db")
  case (Pair r db')
  show ?thesis
  proof (cases r)
    case (Inl e)
    then have "db' = db"
      using Pair update_user_error by metis
    with Pair assms show ?thesis by simp
  next
    case (Inr v)
    with Pair obtain t t' where
      t: "List.find (\<lambda>u. id_eq (u_id u) target) (db_users db) = Some t"
      and t': "changed_user id_eq actor target input (db_users db) t = Inr t'"
      and users': "db_users db' = update_rows (\<lambda>v. u_id v = u_id t) (\<lambda>_. t') (db_users db)"
      by (blast elim: update_userE)
    from t have mem: "t \<in> set (db_users db)" "id_eq (u_id t) target"
      by (auto dest: find_SomeD)
    have ids: "map u_id (db_users db') = map u_id (db_users db)"
      using changed_user_id [OF t'] by (simp add: users' update_rows_def)
    have "\<exists>u \<in> set (db_users db'). covers_admin u"
    proof (cases "covers_admin t \<and> \<not> covers_admin t'")
      case True
      then have "usable_admins_besides id_eq target (db_users db) \<noteq> 0"
        using changed_user_cover [OF t'] by simp
      then obtain w where "w \<in> set (db_users db)" "covers_admin w" "\<not> id_eq (u_id w) target"
        by (rule usable_admins_witness)
      then show ?thesis using mem(2) by (auto simp: users' set_update_rows)
    next
      case False
      obtain w where w: "w \<in> set (db_users db)" "covers_admin w"
        using assms by (auto simp: users_inv_def has_active_admin_def)
      show ?thesis
      proof (cases "u_id w = u_id t")
        case True
        then have "w = t" using assms w mem
          by (auto simp: users_inv_def users_wf_def intro: distinct_key_eq)
        then show ?thesis using False w mem by (auto simp: users' set_update_rows)
      next
        case False
        then show ?thesis using w by (auto simp: users' set_update_rows)
      qed
    qed
    moreover have "u_id ` set (db_users db') = u_id ` set (db_users db)"
      using ids by (metis list.set_map)
    moreover have "\<forall>u \<in> set (db_users db'). canonical_id (u_id u)"
      using calculation(2) assms by (metis image_iff users_inv_def users_wf_def)
    ultimately show ?thesis
      using assms Pair ids by (auto simp: users_inv_def users_wf_def has_active_admin_def)
  qed
qed

lemma remove_user_inv:
  assumes "users_inv id_eq db"
  shows "users_inv id_eq (snd (remove_user id_eq now actor target db))"
proof (cases "\<exists>t. List.find (\<lambda>u. id_eq (u_id u) target) (db_users db) = Some t \<and> target \<noteq> actor
    \<and> \<not> (covers_admin t \<and> usable_admins_besides id_eq target (db_users db) = 0)")
  case False
  then have "snd (remove_user id_eq now actor target db) = db"
    by (auto simp: remove_user_def split: option.splits)
  then show ?thesis using assms by simp
next
  case True
  then obtain t where t: "List.find (\<lambda>u. id_eq (u_id u) target) (db_users db) = Some t"
    and eq: "snd (remove_user id_eq now actor target db) = delete_user_row (u_id t) db"
    and cover: "covers_admin t \<Longrightarrow> usable_admins_besides id_eq target (db_users db) \<noteq> 0"
    by (auto simp: remove_user_def)
  from t have mem: "t \<in> set (db_users db)" "id_eq (u_id t) target"
    by (auto dest: find_SomeD)
  have "\<exists>u \<in> set (db_users db). covers_admin u \<and> u_id u \<noteq> u_id t"
  proof (cases "covers_admin t")
    case True
    obtain v where "v \<in> set (db_users db)" "covers_admin v" "\<not> id_eq (u_id v) target"
      using usable_admins_witness [OF cover [OF True]] by blast
    then show ?thesis using mem(2) by metis
  next
    case False
    then show ?thesis using assms mem
      by (auto simp: users_inv_def users_wf_def has_active_admin_def) (metis distinct_key_eq)
  qed
  then show ?thesis using assms
    by (auto simp: eq delete_user_row_def users_inv_def users_wf_def has_active_admin_def
        set_delete_rows distinct_map_delete_rows)
qed

lemma create_invited_inv:
  assumes "users_inv id_eq db" "canonical_id i" "i \<notin> u_id ` set (db_users db)"
  shows "users_inv id_eq (snd (create_invited_user email_eq now i email name role db))"
  using assms
  by (auto simp: create_invited_user_def invited_row_def Let_def users_inv_def users_wf_def has_active_admin_def
      split: option.splits)

interpretation accounts: kept_invariant "users_step id_eq email_eq" "users_inv id_eq"
  for id_eq email_eq
proof unfold_locales
  fix db op
  assume "users_inv id_eq db"
  then show "users_inv id_eq (users_step id_eq email_eq op db)"
    by (cases op) (auto intro: update_user_inv remove_user_inv create_invited_inv)
qed

text \<open>
  C1: whatever sequence of invitations, updates (role, status, e-mail,
  unlock) and removals the admins send, and whoever sends them, an active admin account is
  left, and ids stay unique.
\<close>

theorem active_admin_kept:
  assumes "id_matching id_eq" "users_wf db" "has_active_admin db"
  shows "users_wf (fold (users_step id_eq email_eq) ops db)
    \<and> has_active_admin (fold (users_step id_eq email_eq) ops db)"
  using accounts.fold_inv [of id_eq db email_eq ops] assms by (simp add: users_inv_def)

definition ada :: user where
  "ada = \<lparr>u_id = ''1'', u_name = ''Ada'', u_email = ''a@x.org'', u_passwordHash = ''h'', u_role = Admin,
    u_status = Active, u_failedLogins = 0, u_lastFailedLoginAt = None, u_lockedUntil = None,
    u_lockCount = 0, u_lastLoginAt = None, u_createdAt = 0, u_updatedAt = 0\<rparr>"

definition bob :: user where
  "bob = ada\<lparr>u_id := ''2'', u_name := ''Bob'', u_email := ''b@x.org''\<rparr>"

definition two_admins :: auth_db where
  "two_admins = \<lparr>db_users = [ada, bob],
    db_sessions = [\<lparr>s_id = ''7'', s_userId = ''1'', s_tokenHash = ''th'', s_expiresAt = 99, s_lastSeenAt = 0,
                    s_revokedAt = None, s_userAgent = None, s_ipHash = None, s_createdAt = 0\<rparr>,
                   \<lparr>s_id = ''8'', s_userId = ''2'', s_tokenHash = ''ti'', s_expiresAt = 99, s_lastSeenAt = 0,
                    s_revokedAt = None, s_userAgent = None, s_ipHash = None, s_createdAt = 0\<rparr>],
    db_tokens = [\<lparr>t_id = ''3'', t_userId = ''2'', t_purpose = Reset, t_tokenHash = ''r'', t_expiresAt = 99,
                  t_usedAt = None, t_createdAt = 0\<rparr>],
    db_audit = []\<rparr>"

definition no_change :: update_user_input where
  "no_change = \<lparr>ui_name = None, ui_email = None, ui_role = None, ui_status = None, ui_unlock = False\<rparr>"

definition demotion :: update_user_input where
  "demotion = no_change\<lparr>ui_role := Some Editor\<rparr>"

definition lock_out :: update_user_input where
  "lock_out = no_change\<lparr>ui_status := Some SetDisabled\<rparr>"

lemmas sample_accounts = two_admins_def ada_def bob_def no_change_def demotion_def lock_out_def

lemma two_admins_wf: "users_wf two_admins" "has_active_admin two_admins"
  by (simp_all add: sample_accounts users_wf_def has_active_admin_def covers_admin_def canonical_id_def is_digit_def)

theorem active_admin_kept_witness:
  "has_active_admin (fold (users_step zeros_ignored (=))
     [UpdateUser 5 ''1'' ''2'' lock_out, RemoveUser 6 ''2'' ''1'', RemoveUser 7 ''1'' ''02''] two_admins)"
  using active_admin_kept [OF id_matching_zeros_ignored two_admins_wf] by blast

section \<open>What a staff member cannot do to the own account\<close>

text \<open>
  Addressed by the id their session carries, a staff member can
  neither change their own role nor delete their own account: the request is refused with
  403 and changes nothing.
\<close>

theorem own_account_protected:
  assumes "id_matching id_eq" "users_wf db" "t \<in> set (db_users db)"
    and "ui_role input = Some r" "r \<noteq> u_role t"
  shows "(let (res, db') = update_user id_eq email_eq now (u_id t) (u_id t) input db
          in failed_with res 403 FORBIDDEN \<and> db' = db)
    \<and> (let (res, db') = remove_user id_eq now (u_id t) (u_id t) db
          in failed_with res 403 FORBIDDEN \<and> db' = db)"
proof -
  have can: "\<forall>u \<in> set (db_users db). id_eq (u_id u) (u_id t) = (u_id u = u_id t)"
    using assms(1-3) by (auto simp: id_matching_def users_wf_def)
  have "List.find (\<lambda>u. id_eq (u_id u) (u_id t)) (db_users db)
      = List.find (\<lambda>u. u_id u = u_id t) (db_users db)"
    using can by (intro find_cong) auto
  also have "\<dots> = Some t"
    using assms(2,3) by (auto simp: users_wf_def intro: find_map_key)
  finally show ?thesis
    using assms(4,5) by (simp add: update_user_def remove_user_def changed_user_def change_role_def)
qed

theorem own_account_protected_witness:
  "snd (remove_user zeros_ignored 5 ''1'' ''1'' two_admins) = two_admins"
proof -
  have "ada \<in> set (db_users two_admins)" "ui_role demotion = Some Editor" "Editor \<noteq> u_role ada"
    by (simp_all add: sample_accounts)
  from own_account_protected [OF id_matching_zeros_ignored two_admins_wf(1) this, of "(=)" 5]
  show ?thesis by (simp add: ada_def split: prod.splits)
qed

text \<open>
  The guard compares the path parameter with the session's id as
  strings, while the database coerces: where the column matches another spelling of the id
  (\<open>01\<close> for \<open>1\<close>), an admin demotes or deletes the own account.
\<close>

theorem own_role_change_by_alias:
  "(\<exists>before after db'. update_user zeros_ignored (=) 5 ''1'' ''01'' demotion two_admins = (Inr (before, after), db')
      \<and> pu_id after = ''1'' \<and> pu_role before = Admin \<and> pu_role after = Editor)
   \<and> ok (fst (remove_user zeros_ignored 5 ''1'' ''01'' two_admins))
   \<and> u_id ` set (db_users (snd (remove_user zeros_ignored 5 ''1'' ''01'' two_admins))) = {''2''}"
  by (simp add: sample_accounts update_user_def remove_user_def changed_user_def change_role_def
      change_status_def apply_unlock_def set_name_email_def covers_admin_def usable_admins_besides_def
      zeros_ignored_def save_user_def disabling_def to_public_user_def delete_user_row_def)

section \<open>Disabling an account ends its access\<close>

text \<open>
  C30: a successful update that disables an account revokes every one of
  its live sessions and deletes its unused invitation and reset tokens; sessions and tokens of
  every other account are left exactly as they were.
\<close>

theorem disabling_ends_access:
  assumes "update_user id_eq email_eq now actor target input db = (Inr (before, after), db')"
    and "ui_status input = Some SetDisabled" "pu_status before \<noteq> Disabled"
  shows "pu_status after = Disabled
    \<and> (\<forall>s \<in> set (db_sessions db'). id_eq (s_userId s) target \<longrightarrow> s_revokedAt s \<noteq> None)
    \<and> (\<forall>k \<in> set (db_tokens db'). id_eq (t_userId k) target \<longrightarrow> t_usedAt k \<noteq> None)
    \<and> filter (\<lambda>s. \<not> id_eq (s_userId s) target) (db_sessions db')
        = filter (\<lambda>s. \<not> id_eq (s_userId s) target) (db_sessions db)
    \<and> filter (\<lambda>k. \<not> id_eq (t_userId k) target) (db_tokens db')
        = filter (\<lambda>k. \<not> id_eq (t_userId k) target) (db_tokens db)"
proof -
  obtain t t' where t': "changed_user id_eq actor target input (db_users db) t = Inr t'"
    and r: "(before, after) = (to_public_user now t, to_public_user now t')"
    and rows: "disabling input t \<Longrightarrow>
      db_sessions db' = update_rows (\<lambda>s. id_eq (s_userId s) target \<and> s_revokedAt s = None)
        (\<lambda>s. s\<lparr>s_revokedAt := Some now\<rparr>) (db_sessions db)
      \<and> db_tokens db' = delete_rows (\<lambda>k. id_eq (t_userId k) target \<and> t_usedAt k = None) (db_tokens db)"
    using assms(1) by (elim update_userE) (rule that)
  have "disabling input t" using assms(2,3) r by (simp add: disabling_def to_public_user_def)
  note rows = rows [OF this]
  have "pu_status after = Disabled"
    using changed_user_disabling [OF t' assms(2)] r by (simp add: to_public_user_def)
  moreover have "filter (\<lambda>s. \<not> id_eq (s_userId s) target) (db_sessions db')
      = filter (\<lambda>s. \<not> id_eq (s_userId s) target) (db_sessions db)"
    unfolding rows [THEN conjunct1] by (rule filter_update_rows) auto
  moreover have "filter (\<lambda>k. \<not> id_eq (t_userId k) target) (db_tokens db')
      = filter (\<lambda>k. \<not> id_eq (t_userId k) target) (db_tokens db)"
    by (auto simp: rows delete_rows_def intro: filter_cong)
  ultimately show ?thesis by (auto simp: rows table_simps)
qed

theorem disabling_ends_access_witness:
  "filter (\<lambda>s. s_userId s = ''2'' \<and> s_revokedAt s = None)
     (db_sessions (snd (update_user zeros_ignored (=) 5 ''1'' ''2'' lock_out two_admins))) = []"
proof -
  let ?r = "update_user zeros_ignored (=) 5 ''1'' ''2'' lock_out two_admins"
  obtain before after where r: "?r = (Inr (before, after), snd ?r)" and "pu_status before \<noteq> Disabled"
    by (simp add: sample_accounts update_user_def changed_user_def change_role_def
      change_status_def apply_unlock_def set_name_email_def covers_admin_def usable_admins_besides_def
      zeros_ignored_def save_user_def disabling_def to_public_user_def status_of_def)
  from disabling_ends_access [OF r _ this(2)] show ?thesis
    by (simp add: lock_out_def zeros_ignored_def filter_empty_conv)
qed

end
