(* ===== verification/AuthService.thy ===== *)
theory AuthService
  imports UsersService
begin

text \<open>
  \<open>auth/auth.service.ts\<close>: sign-in with its limiter, its brute-force counters and its single
  Argon2 run, sessions, password change, invitations and password resets. The in-memory
  limiter and the tables are the state; \<open>now\<close>, auto-increment ids and random tokens are
  arguments. \<open>race\<close> is whatever other requests commit between the \<open>SELECT\<close> of a sign-in and
  its first write (Argon2 runs there). A sign-in also returns the list of hashes it verified.
\<close>

section \<open>State\<close>

record auth_state =
  as_db :: auth_db
  as_attempts :: "string \<Rightarrow> nat option"

record login_request =
  lq_email :: string
  lq_password :: string
  lq_userAgent :: "string option"
  lq_ipHash :: "string option"

record login_result =
  lr_token :: string
  lr_user :: public_user
  lr_csrfToken :: string

definition LOGIN_ATTEMPT_LIMIT :: nat where "LOGIN_ATTEMPT_LIMIT = 5"
definition INVITE_TOKEN_HOURS :: int where "INVITE_TOKEN_HOURS = 48"
definition RESET_TOKEN_MINUTES :: int where "RESET_TOKEN_MINUTES = 60"

text \<open>\<open>NOW()\<close> has whole seconds; the columns have milliseconds.\<close>

definition sql_now :: "time \<Rightarrow> time" where
  "sql_now now = now div 1000 * 1000"

section \<open>The limiter and the audit rows of a sign-in\<close>

definition check_email_rate_limit ::
  "string \<Rightarrow> (string \<Rightarrow> nat option) \<Rightarrow> (string \<Rightarrow> nat option) res" where
  "check_email_rate_limit email attempts =
     (let key = to_lower email;
          n = (case attempts key of None \<Rightarrow> 0 | Some n \<Rightarrow> n)
      in if LOGIN_ATTEMPT_LIMIT \<le> n
         then fail 429 RATE_LIMITED ''Too many login attempts for this account - try again shortly''
         else Inr (attempts(key \<mapsto> n + 1)))"

definition reset_email_rate_limit ::
  "string \<Rightarrow> (string \<Rightarrow> nat option) \<Rightarrow> (string \<Rightarrow> nat option)" where
  "reset_email_rate_limit email attempts = attempts(to_lower email := None)"

text \<open>The insert is refused by the foreign key when the actor is gone; the error is logged.\<close>

definition write_audit ::
  "time \<Rightarrow> string option \<Rightarrow> audit_action \<Rightarrow> string option \<Rightarrow> string option \<Rightarrow> auth_db \<Rightarrow> auth_db" where
  "write_audit now actor action label ip db =
     (if (case actor of None \<Rightarrow> True | Some a \<Rightarrow> a \<in> u_id ` set (db_users db))
      then db\<lparr>db_audit := db_audit db @
             [\<lparr>a_actorId = actor, a_action = action, a_entityType = ''users'', a_entityId = actor,
               a_entityLabel = label, a_diff = None, a_ipHash = ip, a_createdAt = now\<rparr>]\<rparr>
      else db)"

section \<open>Sign-in\<close>

definition invalid_credentials :: "'a res" where
  "invalid_credentials = fail 401 UNAUTHENTICATED ''Invalid email or password''"

definition usable_account :: "user \<Rightarrow> time \<Rightarrow> bool" where
  "usable_account u now \<longleftrightarrow> u_status u = Active \<and> \<not> is_brute_force_locked u now"

definition new_session ::
  "auth_env \<Rightarrow> time \<Rightarrow> string \<Rightarrow> string \<Rightarrow> login_request \<Rightarrow> string \<Rightarrow> session" where
  "new_session env now sid token rq user_id =
     \<lparr>s_id = sid, s_userId = user_id, s_tokenHash = hash_token env token,
      s_expiresAt = now + days (ae_absolute_days env), s_lastSeenAt = now, s_revokedAt = None,
      s_userAgent = map_option (take 255) (lq_userAgent rq), s_ipHash = lq_ipHash rq, s_createdAt = now\<rparr>"

definition signed_in_row :: "time \<Rightarrow> user \<Rightarrow> user" where
  "signed_in_row now u = u\<lparr>u_failedLogins := 0, u_lockCount := 0, u_lastLoginAt := Some now\<rparr>"

text \<open>The branch of a right password: the guarded \<open>UPDATE\<close>, then the session.\<close>

definition sign_in ::
  "auth_env \<Rightarrow> time \<Rightarrow> string \<Rightarrow> string \<Rightarrow> login_request \<Rightarrow> user \<Rightarrow> auth_state \<Rightarrow> login_result res \<times> auth_state" where
  "sign_in env now sid token rq u st =
     (let db = as_db st;
          live = (\<lambda>r. u_id r = u_id u \<and> u_status r = Active)
      in if affected live (db_users db) = 0
         then (invalid_credentials,
               st\<lparr>as_db := write_audit now (Some (u_id u)) ALoginFailed (Some (u_name u)) (lq_ipHash rq) db\<rparr>)
         else
           (let db1 = db\<lparr>db_users := update_rows live (signed_in_row now) (db_users db),
                         db_sessions := db_sessions db @ [new_session env now sid token rq (u_id u)]\<rparr>
            in (Inr \<lparr>lr_token = token, lr_user = to_public_user now (signed_in_row now u),
                     lr_csrfToken = compute_csrf_token env (ae_app_key env) (hash_token env token)\<rparr>,
                st\<lparr>as_db := write_audit now (Some (u_id u)) ALogin (Some (u_name u)) (lq_ipHash rq) db1,
                   as_attempts := reset_email_rate_limit (lq_email rq) (as_attempts st)\<rparr>)))"

definition login ::
  "auth_env \<Rightarrow> time \<Rightarrow> (auth_db \<Rightarrow> auth_db) \<Rightarrow> string \<Rightarrow> string \<Rightarrow> login_request \<Rightarrow> auth_state
     \<Rightarrow> login_result res \<times> auth_state \<times> string list" where
  "login env now race sid token rq st =
     (case check_email_rate_limit (lq_email rq) (as_attempts st) of
        Inl e \<Rightarrow> (Inl e, st, [])
      | Inr attempts \<Rightarrow>
          (let db = race (as_db st);
               st1 = \<lparr>as_db = db, as_attempts = attempts\<rparr>;
               refused = (\<lambda>actor label. st1\<lparr>as_db := write_audit now actor ALoginFailed label (lq_ipHash rq) db\<rparr>)
           in case find_by_email (ae_email_eq env) (lq_email rq) (as_db st) of
                None \<Rightarrow> (invalid_credentials, refused None None, [ae_dummy_hash env])
              | Some u \<Rightarrow>
                  if \<not> usable_account u now
                  then (invalid_credentials, refused (Some (u_id u)) (Some (u_name u)), [ae_dummy_hash env])
                  else if \<not> password_verify env (u_passwordHash u) (lq_password rq)
                  then (invalid_credentials,
                        st1\<lparr>as_db := write_audit now (Some (u_id u)) ALoginFailed (Some (u_name u)) (lq_ipHash rq)
                                      (register_failed_attempt now (u_id u) db)\<rparr>,
                        [u_passwordHash u])
                  else (let (r, st2) = sign_in env now sid token rq u st1 in (r, st2, [u_passwordHash u]))))"

section \<open>Sessions\<close>

definition logout :: "time \<Rightarrow> string \<Rightarrow> auth_db \<Rightarrow> auth_db" where
  "logout now sid db =
     db\<lparr>db_sessions := update_rows (\<lambda>s. s_id s = sid) (\<lambda>s. s\<lparr>s_revokedAt := Some now\<rparr>) (db_sessions db)\<rparr>"

text \<open>The liveness test \<open>listSessions\<close> and \<open>SessionGuard\<close> share.\<close>

definition session_live :: "auth_env \<Rightarrow> time \<Rightarrow> session \<Rightarrow> bool" where
  "session_live env now s \<longleftrightarrow>
     s_revokedAt s = None \<and> sql_now now < s_expiresAt s \<and> sql_now now - hours (ae_idle_hours env) < s_lastSeenAt s"

record session_summary =
  ss_id :: string
  ss_userAgent :: "string option"
  ss_createdAt :: time
  ss_lastSeenAt :: time
  ss_isCurrent :: bool

definition list_sessions :: "auth_env \<Rightarrow> time \<Rightarrow> string \<Rightarrow> string \<Rightarrow> auth_db \<Rightarrow> session_summary list" where
  "list_sessions env now user_id current db =
     map (\<lambda>s. \<lparr>ss_id = s_id s, ss_userAgent = s_userAgent s, ss_createdAt = s_createdAt s,
               ss_lastSeenAt = s_lastSeenAt s, ss_isCurrent = (s_id s = current)\<rparr>)
       (sort_key (\<lambda>s. - s_lastSeenAt s)
         (filter (\<lambda>s. s_userId s = user_id \<and> session_live env now s) (db_sessions db)))"

definition end_session ::
  "(string \<Rightarrow> string \<Rightarrow> bool) \<Rightarrow> time \<Rightarrow> string \<Rightarrow> user_role \<Rightarrow> string \<Rightarrow> auth_db \<Rightarrow> unit res \<times> auth_db" where
  "end_session id_eq now actor role target db =
     (case List.find (\<lambda>s. id_eq (s_id s) target) (db_sessions db) of
        None \<Rightarrow> (fail 404 NOT_FOUND ''Session not found'', db)
      | Some s \<Rightarrow>
          if s_userId s \<noteq> actor \<and> role \<noteq> Admin
          then (fail 403 FORBIDDEN ''You can only end your own sessions'', db)
          else (Inr (), logout now (s_id s) db))"

definition end_other_sessions :: "time \<Rightarrow> string \<Rightarrow> string \<Rightarrow> auth_db \<Rightarrow> nat \<times> auth_db" where
  "end_other_sessions now user_id current db =
     (let others = (\<lambda>s. s_userId s = user_id \<and> s_id s \<noteq> current \<and> s_revokedAt s = None)
      in (affected others (db_sessions db),
          db\<lparr>db_sessions := update_rows others (\<lambda>s. s\<lparr>s_revokedAt := Some now\<rparr>) (db_sessions db)\<rparr>))"

section \<open>Password change\<close>

definition change_password ::
  "auth_env \<Rightarrow> time \<Rightarrow> string \<Rightarrow> string \<Rightarrow> string \<Rightarrow> string \<Rightarrow> auth_db \<Rightarrow> unit res \<times> auth_db" where
  "change_password env now user_id current_pw new_pw current_session db =
     (case List.find (\<lambda>u. u_id u = user_id) (db_users db) of
        None \<Rightarrow> (fail 404 NOT_FOUND ''User not found'', db)
      | Some u \<Rightarrow>
          if \<not> password_verify env (u_passwordHash u) current_pw
          then (fail 401 UNAUTHENTICATED ''Current password is incorrect'', db)
          else
            (let db1 = db\<lparr>db_users := update_rows (\<lambda>u. u_id u = user_id)
                            (\<lambda>u. u\<lparr>u_passwordHash := ae_argon2_hash env new_pw\<rparr>) (db_users db)\<rparr>
             in (Inr (), snd (end_other_sessions now user_id current_session db1))))"

section \<open>Invitations and resets\<close>

definition new_token :: "auth_env \<Rightarrow> time \<Rightarrow> token_purpose \<Rightarrow> time \<Rightarrow> string \<Rightarrow> string \<Rightarrow> string \<Rightarrow> auth_token" where
  "new_token env now purpose lifetime tid raw user_id =
     \<lparr>t_id = tid, t_userId = user_id, t_purpose = purpose, t_tokenHash = hash_token env raw,
      t_expiresAt = now + lifetime, t_usedAt = None, t_createdAt = now\<rparr>"

definition invite ::
  "auth_env \<Rightarrow> time \<Rightarrow> string \<Rightarrow> string \<Rightarrow> string \<Rightarrow> public_user \<Rightarrow> string \<Rightarrow> string \<Rightarrow> user_role \<Rightarrow> auth_db
     \<Rightarrow> public_user res \<times> auth_db \<times> send_mail list" where
  "invite env now uid tid raw inviter email name role db =
     (case create_invited_user (ae_email_eq env) now uid email name role db of
        (Inl e, db1) \<Rightarrow> (Inl e, db1, [])
      | (Inr u, db1) \<Rightarrow>
          (Inr (to_public_user now u),
           db1\<lparr>db_tokens := db_tokens db1 @ [new_token env now Invite (hours INVITE_TOKEN_HOURS) tid raw (u_id u)]\<rparr>,
           [\<lparr>sm_key = ''user_invite'', sm_to = u_email u,
             sm_vars = [(''name'', u_name u), (''inviter'', pu_name inviter), (''role'', ae_role_label env role Ar),
                        (''link'', frontend_url (ae_frontend_base env) Ar (''admin/accept/'' @ raw))],
             sm_locale = Ar, sm_entity = Some (''users'', u_id u), sm_sensitive = []\<rparr>]))"

definition send_password_reset ::
  "auth_env \<Rightarrow> time \<Rightarrow> string \<Rightarrow> string \<Rightarrow> string \<Rightarrow> auth_db \<Rightarrow> auth_db \<times> send_mail list" where
  "send_password_reset env now tid raw email db =
     (case find_by_email (ae_email_eq env) email db of
        None \<Rightarrow> (db, [])
      | Some u \<Rightarrow>
          if u_status u \<noteq> Active then (db, [])
          else (db\<lparr>db_tokens := db_tokens db @ [new_token env now Reset (minutes RESET_TOKEN_MINUTES) tid raw (u_id u)]\<rparr>,
                [\<lparr>sm_key = ''password_reset'', sm_to = u_email u,
                  sm_vars = [(''name'', u_name u),
                             (''link'', frontend_url (ae_frontend_base env) Ar (''admin/reset/'' @ raw))],
                  sm_locale = Ar, sm_entity = Some (''users'', u_id u), sm_sensitive = []\<rparr>]))"

definition token_usable :: "auth_env \<Rightarrow> time \<Rightarrow> token_purpose \<Rightarrow> string \<Rightarrow> auth_token \<Rightarrow> bool" where
  "token_usable env now purpose raw k \<longleftrightarrow>
     t_tokenHash k = hash_token env raw \<and> t_purpose k = purpose \<and> t_usedAt k = None \<and> sql_now now < t_expiresAt k"

text \<open>
  \<open>apply\<close> is given as the change to the row, which the code makes to the row and to its
  in-memory copy alike, and the change to the other tables.
\<close>

definition consume_token ::
  "auth_env \<Rightarrow> time \<Rightarrow> string \<Rightarrow> token_purpose \<Rightarrow> user_status list \<Rightarrow> (user \<Rightarrow> user) \<Rightarrow> (user \<Rightarrow> auth_db \<Rightarrow> auth_db)
     \<Rightarrow> auth_db \<Rightarrow> public_user res \<times> auth_db" where
  "consume_token env now raw purpose allowed change_row also db =
     (let invalid = (fail 400 VALIDATION_FAILED ''This link is invalid or has expired'', db)
      in case List.find (token_usable env now purpose raw) (db_tokens db) of
           None \<Rightarrow> invalid
         | Some k \<Rightarrow>
             (case List.find (\<lambda>u. u_id u = t_userId k) (db_users db) of
                None \<Rightarrow> invalid
              | Some u \<Rightarrow>
                  if u_status u \<notin> set allowed then invalid
                  else
                    (let spent = update_rows (\<lambda>k'. t_id k' = t_id k) (\<lambda>k'. k'\<lparr>t_usedAt := Some now\<rparr>) (db_tokens db);
                         left = delete_rows (\<lambda>k'. t_userId k' = u_id u \<and> t_usedAt k' = None) spent;
                         users = update_rows (\<lambda>v. u_id v = u_id u) change_row (db_users db)
                     in (Inr (to_public_user now (change_row u)),
                         also u (db\<lparr>db_users := users, db_tokens := left\<rparr>)))))"

definition accepted_row :: "string \<Rightarrow> user \<Rightarrow> user" where
  "accepted_row hash u = u\<lparr>u_passwordHash := hash, u_status := Active, u_failedLogins := 0,
                           u_lockedUntil := None, u_lockCount := 0\<rparr>"

definition accept_invite ::
  "auth_env \<Rightarrow> time \<Rightarrow> string \<Rightarrow> string \<Rightarrow> auth_db \<Rightarrow> public_user res \<times> auth_db" where
  "accept_invite env now raw new_pw db =
     consume_token env now raw Invite [Invited] (accepted_row (ae_argon2_hash env new_pw)) (\<lambda>_ db. db) db"

definition reset_row :: "string \<Rightarrow> user \<Rightarrow> user" where
  "reset_row hash u = u\<lparr>u_passwordHash := hash, u_failedLogins := 0, u_lockedUntil := None, u_lockCount := 0\<rparr>"

definition revoke_sessions :: "time \<Rightarrow> user \<Rightarrow> auth_db \<Rightarrow> auth_db" where
  "revoke_sessions now u db =
     db\<lparr>db_sessions := update_rows (\<lambda>s. s_userId s = u_id u \<and> s_revokedAt s = None)
                         (\<lambda>s. s\<lparr>s_revokedAt := Some now\<rparr>) (db_sessions db)\<rparr>"

definition reset_password ::
  "auth_env \<Rightarrow> time \<Rightarrow> string \<Rightarrow> string \<Rightarrow> auth_db \<Rightarrow> public_user res \<times> auth_db" where
  "reset_password env now raw new_pw db =
     consume_token env now raw Reset [Active] (reset_row (ae_argon2_hash env new_pw)) (revoke_sessions now) db"

end
