(* ===== verification/Guards.thy ===== *)
theory Guards
  imports AuthService
begin

text \<open>
  The guards every request passes, in the order \<open>AuthModule\<close> registers them:
  \<open>auth/guards/session.guard.ts\<close>, \<open>roles.guard.ts\<close>, \<open>csrf.guard.ts\<close>, with the role matrix
  (\<open>auth/role-matrix.ts\<close>), the cookie attributes (\<open>auth/cookie-options.ts\<close>) and
  \<open>common/request-context.ts\<close>. A route is its metadata: \<open>@Public()\<close> and the roles of its
  \<open>@Area()\<close>.
\<close>

section \<open>Requests and routes\<close>

record request =
  rq_method :: string
  rq_path :: string
  rq_cookie :: "string option"
  rq_csrfHeader :: "string option"
  rq_user :: "(string \<times> user_role) option"
  rq_sessionId :: "string option"
  rq_sessionTokenHash :: "string option"

datatype area = Content | RedirectsDelete | InboxArea | InboxDelete | UsersArea | SettingsArea | AuditArea

definition ROLES :: "user_role list" where
  "ROLES = [Admin, Editor, Support]"

fun AREA_ROLES :: "area \<Rightarrow> user_role list" where
  "AREA_ROLES Content = [Admin, Editor]"
| "AREA_ROLES RedirectsDelete = [Admin]"
| "AREA_ROLES InboxArea = [Admin, Support]"
| "AREA_ROLES InboxDelete = [Admin]"
| "AREA_ROLES UsersArea = [Admin]"
| "AREA_ROLES SettingsArea = [Admin]"
| "AREA_ROLES AuditArea = [Admin]"

definition all_areas :: "area list" where
  "all_areas = [Content, RedirectsDelete, InboxArea, InboxDelete, UsersArea, SettingsArea, AuditArea]"

definition role_matrix :: "user_role list \<times> (area \<times> user_role list) list" where
  "role_matrix = (ROLES, map (\<lambda>a. (a, AREA_ROLES a)) all_areas)"

record route =
  rt_public :: bool
  rt_area :: "area option"

definition starts_with :: "string \<Rightarrow> string \<Rightarrow> bool" where
  "starts_with p s \<longleftrightarrow> take (length p) s = p"

definition ADMIN_PREFIX :: string where "ADMIN_PREFIX = ''/api/v1/admin''"

definition is_admin_route :: "string \<Rightarrow> bool" where
  "is_admin_route path \<longleftrightarrow>
     starts_with ADMIN_PREFIX path
     \<and> (drop (length ADMIN_PREFIX) path = [] \<or> starts_with ''/'' (drop (length ADMIN_PREFIX) path))"

section \<open>SessionGuard\<close>

definition LAST_SEEN_UPDATE_THROTTLE_MS :: time where
  "LAST_SEEN_UPDATE_THROTTLE_MS = 60 * 1000"

text \<open>The inner join of a session with its user, as the guard's one query selects it.\<close>

definition find_session ::
  "auth_env \<Rightarrow> time \<Rightarrow> string \<Rightarrow> auth_db \<Rightarrow> (session \<times> user) option" where
  "find_session env now token_hash db =
     List.find (\<lambda>(s, u). s_tokenHash s = token_hash \<and> session_live env now s \<and> u_status u = Active)
       (concat (map (\<lambda>s. map (Pair s) (filter (\<lambda>u. u_id u = s_userId s) (db_users db))) (db_sessions db)))"

definition resolve_staff_session ::
  "auth_env \<Rightarrow> time \<Rightarrow> string \<Rightarrow> request \<Rightarrow> auth_db \<Rightarrow> bool \<times> request \<times> auth_db" where
  "resolve_staff_session env now cookie rq db =
     (let th = hash_token env cookie
      in case find_session env now th db of
           None \<Rightarrow> (False, rq, db)
         | Some (s, u) \<Rightarrow>
             (True,
              rq\<lparr>rq_user := Some (u_id u, u_role u), rq_sessionId := Some (s_id s), rq_sessionTokenHash := Some th\<rparr>,
              if LAST_SEEN_UPDATE_THROTTLE_MS < now - s_lastSeenAt s
              then db\<lparr>db_sessions := update_rows (\<lambda>r. s_id r = s_id s) (\<lambda>r. r\<lparr>s_lastSeenAt := now\<rparr>) (db_sessions db)\<rparr>
              else db))"

text \<open>An empty cookie is falsy in JavaScript, like an absent one.\<close>

definition session_guard ::
  "auth_env \<Rightarrow> time \<Rightarrow> route \<Rightarrow> request \<Rightarrow> auth_db \<Rightarrow> request res \<times> auth_db" where
  "session_guard env now rt rq db =
     (let cookie = (case rq_cookie rq of None \<Rightarrow> [] | Some c \<Rightarrow> c)
      in if rt_public rt then
           (if cookie \<noteq> [] then (let (_, rq', db') = resolve_staff_session env now cookie rq db in (Inr rq', db'))
            else (Inr rq, db))
         else if cookie = [] then (fail 401 UNAUTHENTICATED ''Sign-in required'', db)
         else (case resolve_staff_session env now cookie rq db of
                 (False, _, db') \<Rightarrow> (fail 401 UNAUTHENTICATED ''Session expired or revoked'', db')
               | (True, rq', db') \<Rightarrow> (Inr rq', db')))"

section \<open>CsrfGuard and RolesGuard\<close>

definition SAFE_METHODS :: "string list" where
  "SAFE_METHODS = [''GET'', ''HEAD'', ''OPTIONS'']"

definition timing_safe_compare :: "string \<Rightarrow> string \<Rightarrow> bool" where
  "timing_safe_compare a b \<longleftrightarrow> length a = length b \<and> a = b"

definition csrf_guard :: "auth_env \<Rightarrow> route \<Rightarrow> request \<Rightarrow> request res" where
  "csrf_guard env rt rq =
     (if rq_method rq \<in> set SAFE_METHODS then Inr rq
      else if rt_public rt then Inr rq
      else case rq_sessionTokenHash rq of
             None \<Rightarrow> Inr rq
           | Some th \<Rightarrow>
               if th = [] then Inr rq
               else (case rq_csrfHeader rq of
                       None \<Rightarrow> fail 403 FORBIDDEN ''Missing or invalid CSRF token''
                     | Some provided \<Rightarrow>
                         if timing_safe_compare (compute_csrf_token env (ae_app_key env) th) provided then Inr rq
                         else fail 403 FORBIDDEN ''Missing or invalid CSRF token''))"

definition roles_guard :: "route \<Rightarrow> request \<Rightarrow> request res" where
  "roles_guard rt rq =
     (let required = (case rt_area rt of None \<Rightarrow> [] | Some a \<Rightarrow> AREA_ROLES a)
      in if required = [] then Inr rq
         else case rq_user rq of
                None \<Rightarrow> fail 403 FORBIDDEN ''Insufficient role''
              | Some (_, role) \<Rightarrow>
                  if role \<in> set required then Inr rq else fail 403 FORBIDDEN ''Insufficient role'')"

definition guard_chain ::
  "auth_env \<Rightarrow> time \<Rightarrow> route \<Rightarrow> request \<Rightarrow> auth_db \<Rightarrow> request res \<times> auth_db" where
  "guard_chain env now rt rq db =
     (case session_guard env now rt rq db of
        (Inl e, db') \<Rightarrow> (Inl e, db')
      | (Inr rq1, db') \<Rightarrow>
          (case roles_guard rt rq1 of
             Inl e \<Rightarrow> (Inl e, db')
           | Inr rq2 \<Rightarrow> (csrf_guard env rt rq2, db')))"

section \<open>Cookie attributes\<close>

datatype node_env = Development | Staging | Production | TestEnv

definition is_dev_env :: "node_env \<Rightarrow> bool" where
  "is_dev_env n \<longleftrightarrow> n = Development \<or> n = TestEnv"

record cookie_options =
  co_httpOnly :: bool
  co_secure :: bool
  co_sameSite :: string
  co_path :: string
  co_maxAge :: "time option"

definition base_options :: "node_env \<Rightarrow> cookie_options" where
  "base_options n = \<lparr>co_httpOnly = True, co_secure = (\<not> is_dev_env n), co_sameSite = ''strict'',
                      co_path = ''/'', co_maxAge = None\<rparr>"

definition session_cookie_options :: "node_env \<Rightarrow> time \<Rightarrow> cookie_options" where
  "session_cookie_options n max_age = (base_options n)\<lparr>co_maxAge := Some max_age\<rparr>"

definition clear_session_cookie_options :: "node_env \<Rightarrow> cookie_options" where
  "clear_session_cookie_options n = base_options n"

end
