(* ===== verification/AuthProps.thy ===== *)
theory AuthProps
  imports Guards
begin

text \<open>
  What sign-in, the emailed links, sessions and the guards promise together. \<open>sample_env\<close> is
  a concrete instance of the library functions for the witnesses.
\<close>

section \<open>A concrete environment\<close>

definition sample_env :: auth_env where
  "sample_env = \<lparr>ae_email_eq = (\<lambda>a b. to_lower a = to_lower b),
     ae_argon2_verify = (\<lambda>h p. Inr (h = ''A'' @ p)), ae_argon2_hash = (\<lambda>p. ''A'' @ p),
     ae_dummy_hash = ''dummy'', ae_sha256 = (\<lambda>t. ''H'' @ t), ae_hkdf = (\<lambda>k i. k @ i), ae_hmac = (\<lambda>k m. k @ m),
     ae_app_key = ''K'', ae_idle_hours = 8, ae_absolute_days = 30, ae_frontend_base = ''https://x.org'',
     ae_role_label = (\<lambda>r l. ''role'')\<rparr>"

definition argon2_ok :: "auth_env \<Rightarrow> bool" where
  "argon2_ok env \<longleftrightarrow> (\<forall>p. ae_argon2_verify env (ae_argon2_hash env p) p = Inr True)"

lemma argon2_ok_sample: "argon2_ok sample_env"
  by (simp add: argon2_ok_def sample_env_def)

section \<open>Sign-in\<close>

lemma write_audit_frame [simp]:
  "db_users (write_audit now a c l ip db) = db_users db"
  "db_sessions (write_audit now a c l ip db) = db_sessions db"
  "db_tokens (write_audit now a c l ip db) = db_tokens db"
  by (simp_all add: write_audit_def)

lemma register_failed_attempt_frame [simp]:
  "db_sessions (register_failed_attempt now i db) = db_sessions db"
  "db_tokens (register_failed_attempt now i db) = db_tokens db"
  "db_users (register_failed_attempt now i db)
    = update_rows (\<lambda>u. u_id u = i) (register_failed_row now) (db_users db)"
  by (simp_all add: register_failed_attempt_def)

lemma sign_in_cases:
  obtains (refused) "\<forall>r \<in> set (db_users (as_db st)). \<not> (u_id r = u_id u \<and> u_status r = Active)"
      "sign_in env now sid token rq u st = (invalid_credentials,
         st\<lparr>as_db := write_audit now (Some (u_id u)) ALoginFailed (Some (u_name u)) (lq_ipHash rq) (as_db st)\<rparr>)"
  | (opened) r st' where "sign_in env now sid token rq u st = (Inr r, st')"
      "\<exists>v \<in> set (db_users (as_db st)). u_id v = u_id u \<and> u_status v = Active"
      "lr_token r = token" "lr_csrfToken r = compute_csrf_token env (ae_app_key env) (hash_token env token)"
      "db_users (as_db st') = update_rows (\<lambda>r. u_id r = u_id u \<and> u_status r = Active) (signed_in_row now) (db_users (as_db st))"
      "db_sessions (as_db st') = db_sessions (as_db st) @ [new_session env now sid token rq (u_id u)]"
      "db_tokens (as_db st') = db_tokens (as_db st)"
      "as_attempts st' = reset_email_rate_limit (lq_email rq) (as_attempts st)"
proof (cases "affected (\<lambda>r. u_id r = u_id u \<and> u_status r = Active) (db_users (as_db st)) = 0")
  case True
  then show ?thesis by (intro refused) (auto simp: affected_0_iff sign_in_def Let_def)
next
  case False
  then obtain r st' where s: "sign_in env now sid token rq u st = (Inr r, st')"
    by (auto simp: sign_in_def Let_def)
  from False have "\<exists>v \<in> set (db_users (as_db st)). u_id v = u_id u \<and> u_status v = Active"
    by (auto simp: affected_0_iff)
  then show ?thesis
    by (rule opened [OF s]) (use s False in \<open>auto simp: sign_in_def Let_def\<close>)
qed

text \<open>
  C3: a sign-in succeeds only for the account the address selects, when it is
  active, outside a brute-force lock and given its password, and still active at the guarded
  write whatever other requests committed meanwhile. It then adds exactly one session, holding
  only the hash of the returned token, takes nobody's password or status back, and clears the
  limiter.
\<close>

theorem login_success:
  assumes "login env now race sid token rq st = (Inr r, st', hs)"
  shows "\<exists>u. find_by_email (ae_email_eq env) (lq_email rq) (as_db st) = Some u
    \<and> u_status u = Active \<and> \<not> is_brute_force_locked u now
    \<and> password_verify env (u_passwordHash u) (lq_password rq)
    \<and> (\<exists>v \<in> set (db_users (race (as_db st))). u_id v = u_id u \<and> u_status v = Active)
    \<and> db_sessions (as_db st') = db_sessions (race (as_db st)) @ [new_session env now sid token rq (u_id u)]
    \<and> db_tokens (as_db st') = db_tokens (race (as_db st))
    \<and> map (\<lambda>v. (u_id v, u_passwordHash v, u_status v, u_role v)) (db_users (as_db st'))
        = map (\<lambda>v. (u_id v, u_passwordHash v, u_status v, u_role v)) (db_users (race (as_db st)))
    \<and> lr_token r = token \<and> as_attempts st' (to_lower (lq_email rq)) = None"
proof -
  obtain att u st1 where u: "find_by_email (ae_email_eq env) (lq_email rq) (as_db st) = Some u"
    and usable: "usable_account u now" "password_verify env (u_passwordHash u) (lq_password rq)"
    and st1: "st1 = \<lparr>as_db = race (as_db st), as_attempts = att\<rparr>"
    and sign: "sign_in env now sid token rq u st1 = (Inr r, st')"
    using assms
    by (auto simp: login_def invalid_credentials_def Let_def split: sum.splits option.splits if_splits prod.splits)
  show ?thesis
  proof (rule sign_in_cases [of st1 u env now sid token rq])
    fix r' st2
    assume "sign_in env now sid token rq u st1 = (Inr r', st2)"
      and "\<exists>v \<in> set (db_users (as_db st1)). u_id v = u_id u \<and> u_status v = Active"
      and "lr_token r' = token"
      and "db_users (as_db st2) = update_rows (\<lambda>r. u_id r = u_id u \<and> u_status r = Active) (signed_in_row now) (db_users (as_db st1))"
      and "db_sessions (as_db st2) = db_sessions (as_db st1) @ [new_session env now sid token rq (u_id u)]"
      and "db_tokens (as_db st2) = db_tokens (as_db st1)"
      and "as_attempts st2 = reset_email_rate_limit (lq_email rq) (as_attempts st1)"
    then show ?thesis
      using u usable sign st1
      by (auto simp: usable_account_def reset_email_rate_limit_def map_update_rows signed_in_row_def)
  qed (use sign in \<open>auto simp: invalid_credentials_def\<close>)
qed

text \<open>
  C40: every refused sign-in below the limit, whether the address is
  unknown, disabled, invited, locked, raced or the password wrong, gives the same 401 problem
  after exactly one Argon2 run, and opens no session.
\<close>

theorem login_refusals_alike:
  assumes "login env now race sid token rq st = (res, st', hs)"
    and "\<not> failed_with res 429 RATE_LIMITED"
  shows "length hs = 1
    \<and> (\<not> ok res \<longrightarrow> res = fail 401 UNAUTHENTICATED ''Invalid email or password''
         \<and> db_sessions (as_db st') = db_sessions (race (as_db st))
         \<and> db_tokens (as_db st') = db_tokens (race (as_db st))
         \<and> map (\<lambda>v. (u_id v, u_passwordHash v, u_status v, u_role v)) (db_users (as_db st'))
             = map (\<lambda>v. (u_id v, u_passwordHash v, u_status v, u_role v)) (db_users (race (as_db st))))"
proof -
  obtain att where att: "check_email_rate_limit (lq_email rq) (as_attempts st) = Inr att"
    using assms by (auto simp: login_def check_email_rate_limit_def Let_def split: if_splits)
  define st1 where "st1 = \<lparr>as_db = race (as_db st), as_attempts = att\<rparr>"
  show ?thesis
  proof (cases "\<exists>u. find_by_email (ae_email_eq env) (lq_email rq) (as_db st) = Some u
      \<and> usable_account u now \<and> password_verify env (u_passwordHash u) (lq_password rq)")
    case False
    then show ?thesis using assms(1) att
      by (auto simp: login_def Let_def invalid_credentials_def map_update_rows split: option.splits if_splits)
  next
    case True
    then obtain u where "find_by_email (ae_email_eq env) (lq_email rq) (as_db st) = Some u"
      "usable_account u now" "password_verify env (u_passwordHash u) (lq_password rq)" by auto
    then have sign: "sign_in env now sid token rq u st1 = (res, st')" "length hs = 1"
      using assms(1) att by (auto simp: login_def Let_def st1_def split: prod.splits)
    show ?thesis
      by (rule sign_in_cases [of st1 u env now sid token rq])
        (use sign in \<open>auto simp: invalid_credentials_def st1_def\<close>)
  qed
qed

definition sample_state :: auth_state where
  "sample_state = \<lparr>as_db = two_admins\<lparr>db_users := [ada\<lparr>u_passwordHash := ''Apw''\<rparr>, bob]\<rparr>, as_attempts = (\<lambda>_. None)\<rparr>"

definition sample_login :: login_request where
  "sample_login = \<lparr>lq_email = ''A@x.org'', lq_password = ''pw'', lq_userAgent = None, lq_ipHash = None\<rparr>"

lemmas sample_auth = sample_state_def sample_login_def sample_env_def sample_accounts

lemmas login_defs = login_def check_email_rate_limit_def LOGIN_ATTEMPT_LIMIT_def find_by_email_def usable_account_def
  is_brute_force_locked_def password_verify_def sign_in_def affected_def invalid_credentials_def
  write_audit_def register_failed_attempt_def

lemma to_lower_samples [simp]:
  "to_lower ''A@x.org'' = ''a@x.org''" "to_lower ''a@X.org'' = ''a@x.org''" "to_lower ''a@x.org'' = ''a@x.org''"
  "to_lower ''b@x.org'' = ''b@x.org''" "to_lower ''no@x.org'' = ''no@x.org''"
  by code_simp+

theorem login_success_witness:
  "\<exists>st' :: auth_state. db_sessions (as_db st') = db_sessions two_admins @ [new_session sample_env 5 ''9'' ''tok'' sample_login ''1'']
     \<and> as_attempts st' ''a@x.org'' = None"
proof -
  obtain r st' hs where r: "login sample_env 5 (\<lambda>db. db) ''9'' ''tok'' sample_login sample_state = (Inr r, st', hs)"
    by (simp add: sample_auth login_defs Let_def)
  from login_success [OF r]
  have "db_sessions (as_db st') = db_sessions two_admins @ [new_session sample_env 5 ''9'' ''tok'' sample_login ''1'']"
    and "as_attempts st' ''a@x.org'' = None"
    by (simp_all add: sample_auth find_by_email_def)
  then show ?thesis by blast
qed

theorem login_refusals_alike_witness:
  "length (snd (snd (login sample_env 5 (\<lambda>db. db) ''9'' ''tok'' (sample_login\<lparr>lq_email := ''no@x.org''\<rparr>) sample_state))) = 1"
proof -
  let ?l = "login sample_env 5 (\<lambda>db. db) ''9'' ''tok'' (sample_login\<lparr>lq_email := ''no@x.org''\<rparr>) sample_state"
  have "\<not> failed_with (fst ?l) 429 RATE_LIMITED"
    by (simp add: sample_auth login_defs Let_def)
  then show ?thesis
    using login_refusals_alike [of sample_env 5 "\<lambda>db. db" "''9''" "''tok''" _ _ "fst ?l" "fst (snd ?l)" "snd (snd ?l)"]
    by simp
qed

section \<open>The limiter\<close>

text \<open>A run of sign-in requests, each with its time, race, session id and token.\<close>

type_synonym login_call = "time \<times> (auth_db \<Rightarrow> auth_db) \<times> string \<times> string \<times> login_request"

definition call_login :: "auth_env \<Rightarrow> login_call \<Rightarrow> auth_state \<Rightarrow> login_result res \<times> auth_state \<times> string list" where
  "call_login env c st = (case c of (now, race, sid, token, rq) \<Rightarrow> login env now race sid token rq st)"

definition call_email :: "login_call \<Rightarrow> string" where
  "call_email c = (case c of (now, race, sid, token, rq) \<Rightarrow> lq_email rq)"

fun login_run :: "auth_env \<Rightarrow> login_call list \<Rightarrow> auth_state \<Rightarrow> bool list \<times> auth_state" where
  "login_run env [] st = ([], st)"
| "login_run env (c # cs) st =
     (let (res, st1, _) = call_login env c st; (oks, st2) = login_run env cs st1 in (ok res # oks, st2))"

definition attempts_of :: "string \<Rightarrow> auth_state \<Rightarrow> nat" where
  "attempts_of key st = (case as_attempts st key of None \<Rightarrow> 0 | Some n \<Rightarrow> n)"

lemma failed_login_counts:
  assumes "login env now race sid token rq st = (res, st', hs)" "\<not> ok res"
    and "attempts_of (to_lower (lq_email rq)) st < 5"
  shows "attempts_of (to_lower (lq_email rq)) st' = attempts_of (to_lower (lq_email rq)) st + 1"
proof -
  let ?key = "to_lower (lq_email rq)"
  let ?att = "(as_attempts st)(?key \<mapsto> attempts_of ?key st + 1)"
  have lim: "check_email_rate_limit (lq_email rq) (as_attempts st) = Inr ?att"
    using assms(3) by (simp add: check_email_rate_limit_def Let_def LOGIN_ATTEMPT_LIMIT_def attempts_of_def)
  have "as_attempts st' = ?att"
    using assms(1,2) lim
    by (auto simp: login_def sign_in_def Let_def split: option.splits if_splits)
  then show ?thesis by (simp add: attempts_of_def)
qed

lemma limited_login:
  assumes "5 \<le> attempts_of (to_lower (lq_email rq)) st"
  shows "login env now race sid token rq st =
    (fail 429 RATE_LIMITED ''Too many login attempts for this account - try again shortly'', st, [])"
proof -
  have "check_email_rate_limit (lq_email rq) (as_attempts st) =
      fail 429 RATE_LIMITED ''Too many login attempts for this account - try again shortly''"
    using assms by (auto simp: check_email_rate_limit_def Let_def LOGIN_ATTEMPT_LIMIT_def attempts_of_def)
  then show ?thesis by (simp add: login_def fail_def)
qed

lemma failed_run_counts:
  assumes "login_run env cs st = (oks, st')" "True \<notin> set oks"
    and "\<forall>c \<in> set cs. to_lower (call_email c) = key"
    and "attempts_of key st + length cs \<le> 5"
  shows "attempts_of key st' = attempts_of key st + length cs"
  using assms
proof (induction cs arbitrary: st oks)
  case Nil
  then show ?case by simp
next
  case (Cons c cs)
  obtain res st1 hs where c: "call_login env c st = (res, st1, hs)" by (metis prod_cases3)
  obtain oks' where run: "login_run env cs st1 = (oks', st')" and oks: "oks = ok res # oks'"
    using Cons.prems(1) c by (auto simp: Let_def split: prod.splits)
  have "attempts_of key st1 = attempts_of key st + 1"
    using failed_login_counts c Cons.prems oks
    by (auto simp: call_login_def call_email_def split: prod.splits)
  then show ?case using Cons.IH [OF run] Cons.prems oks by simp
qed

text \<open>
  After five failed sign-ins for one address, whatever its letter
  case, the next one is refused with 429 before the database or Argon2 is touched, even with
  the right password, as long as the limiter's entry lives.
\<close>

theorem sixth_attempt_limited:
  assumes "login_run env cs st = (oks, st')" "length cs = 5" "True \<notin> set oks"
    and "\<forall>c \<in> set cs. to_lower (call_email c) = to_lower (lq_email rq)"
    and "as_attempts st (to_lower (lq_email rq)) = None"
  shows "login env now race sid token rq st' =
    (fail 429 RATE_LIMITED ''Too many login attempts for this account - try again shortly'', st', [])"
  using failed_run_counts [OF assms(1,3,4)] assms(2,5)
  by (intro limited_login) (simp add: attempts_of_def)

theorem sixth_attempt_limited_witness:
  "\<exists>st' :: auth_state. snd (snd (login sample_env 9 (\<lambda>db. db) ''9'' ''tok'' sample_login st')) = []"
proof -
  let ?bad = "(5, \<lambda>db. db, ''9'', ''t'', sample_login\<lparr>lq_email := ''a@X.org'', lq_password := ''no''\<rparr>)"
  obtain oks st' where run: "login_run sample_env (replicate 5 ?bad) sample_state = (oks, st')"
    by (meson surj_pair)
  have oks: "oks = replicate 5 False"
    using run
    by (simp add: numeral_eq_Suc sample_auth login_defs call_login_def Let_def register_failed_row_def
        failed_attempt_set_def LOCK_THRESHOLD_def LOCK_DECAY_HOURS_def hours_def)
  show ?thesis
    using sixth_attempt_limited [OF run, of sample_login 9 "\<lambda>db. db" "''9''" "''tok''"] oks
    by (intro exI [of _ st']) (simp add: call_email_def sample_login_def sample_state_def)
qed

section \<open>Emailed links\<close>

lemma sql_now_le: "sql_now now \<le> now"
  by (simp add: sql_now_def minus_mod_eq_div_mult [symmetric])

lemma consume_token_Some:
  assumes "List.find (token_usable env now purpose raw) (db_tokens db) = Some k"
    and "List.find (\<lambda>u. u_id u = t_userId k) (db_users db) = Some u" "u_status u \<in> set allowed"
  shows "consume_token env now raw purpose allowed f g db =
    (Inr (to_public_user now (f u)),
     g u (db\<lparr>db_users := update_rows (\<lambda>v. u_id v = u_id u) f (db_users db),
             db_tokens := delete_rows (\<lambda>k'. t_userId k' = u_id u \<and> t_usedAt k' = None)
               (update_rows (\<lambda>k'. t_id k' = t_id k) (\<lambda>k'. k'\<lparr>t_usedAt := Some now\<rparr>) (db_tokens db))\<rparr>))"
  using assms by (simp add: consume_token_def Let_def)

lemma consume_tokenE:
  assumes "consume_token env now raw purpose allowed f g db = (Inr pu, db')"
  obtains k u where "List.find (token_usable env now purpose raw) (db_tokens db) = Some k"
    "List.find (\<lambda>u. u_id u = t_userId k) (db_users db) = Some u" "u_status u \<in> set allowed"
  using assms by (auto simp: consume_token_def Let_def split: option.splits if_splits)

lemma revoke_sessions_frame [simp]:
  "db_users (revoke_sessions now u db) = db_users db"
  "db_tokens (revoke_sessions now u db) = db_tokens db"
  by (simp_all add: revoke_sessions_def)

lemma spent_link:
  assumes "consume_token env now raw purpose allowed f g db = (Inr pu, db')"
    and "distinct (map t_tokenHash (db_tokens db))"
    and "\<And>u db. db_tokens (g u db) = db_tokens db" and "\<And>u. u_id (f u) = u_id u"
  shows "\<forall>k \<in> set (db_tokens db'). t_tokenHash k = hash_token env raw \<longrightarrow> t_usedAt k \<noteq> None"
    and "\<forall>k \<in> set (db_tokens db'). t_userId k = pu_id pu \<longrightarrow> t_usedAt k \<noteq> None"
proof -
  obtain k u where k: "List.find (token_usable env now purpose raw) (db_tokens db) = Some k"
    and u: "List.find (\<lambda>u. u_id u = t_userId k) (db_users db) = Some u" "u_status u \<in> set allowed"
    using assms(1) by (rule consume_tokenE)
  have mem: "k \<in> set (db_tokens db)" "t_tokenHash k = hash_token env raw"
    using find_SomeD [OF k] by (auto simp: token_usable_def)
  have "u_id u = t_userId k" using find_SomeD [OF u(1)] by simp
  then show "\<forall>k \<in> set (db_tokens db'). t_userId k = pu_id pu \<longrightarrow> t_usedAt k \<noteq> None"
    using assms(1) consume_token_Some [OF k u, of f g] assms(3,4)
    by (auto simp: table_simps to_public_user_def)
  have "\<And>k'. k' \<in> set (db_tokens db) \<Longrightarrow> t_tokenHash k' = hash_token env raw \<Longrightarrow> k' = k"
    using assms(2) mem by (auto intro: distinct_key_eq)
  then show "\<forall>k \<in> set (db_tokens db'). t_tokenHash k = hash_token env raw \<longrightarrow> t_usedAt k \<noteq> None"
    using assms(1) consume_token_Some [OF k u, of f g] assms(3)
    by (auto simp: table_simps)
qed

lemma consume_token_used:
  assumes "\<forall>k \<in> set (db_tokens db). t_tokenHash k = hash_token env raw \<longrightarrow> t_usedAt k \<noteq> None"
  shows "consume_token env now raw purpose allowed f g db
    = (fail 400 VALIDATION_FAILED ''This link is invalid or has expired'', db)"
proof -
  have "List.find (token_usable env now purpose raw) (db_tokens db) = None"
    using assms by (auto simp: find_None_iff_ex token_usable_def)
  then show ?thesis by (simp add: consume_token_def)
qed

text \<open>
  C29: a reset or invitation link works once. After it has been used it is
  refused with the same 400 for both purposes, at any later time and with any password, without
  changing anything, and the account has no other outstanding link left.
\<close>

theorem link_single_use:
  assumes "reset_password env now raw pw db = (Inr pu, db') \<or> accept_invite env now raw pw db = (Inr pu, db')"
    and "distinct (map t_tokenHash (db_tokens db))"
  shows "reset_password env later raw pw' db' = (fail 400 VALIDATION_FAILED ''This link is invalid or has expired'', db')
    \<and> accept_invite env later raw pw' db' = (fail 400 VALIDATION_FAILED ''This link is invalid or has expired'', db')
    \<and> (\<forall>k \<in> set (db_tokens db'). t_userId k = pu_id pu \<longrightarrow> t_usedAt k \<noteq> None)"
proof -
  have "\<forall>k \<in> set (db_tokens db'). t_tokenHash k = hash_token env raw \<longrightarrow> t_usedAt k \<noteq> None"
    using assms(1) spent_link(1) [OF _ assms(2)]
    by (auto simp: reset_password_def accept_invite_def reset_row_def accepted_row_def)
  moreover have "\<forall>k \<in> set (db_tokens db'). t_userId k = pu_id pu \<longrightarrow> t_usedAt k \<noteq> None"
    using assms(1)
  proof
    assume "reset_password env now raw pw db = (Inr pu, db')"
    from spent_link(2) [OF this [unfolded reset_password_def] assms(2)] show ?thesis
      by (simp add: reset_row_def)
  next
    assume "accept_invite env now raw pw db = (Inr pu, db')"
    from spent_link(2) [OF this [unfolded accept_invite_def] assms(2)] show ?thesis
      by (simp add: accepted_row_def)
  qed
  ultimately show ?thesis
    by (simp add: reset_password_def accept_invite_def consume_token_used)
qed

lemma login_ok:
  assumes "find_by_email (ae_email_eq env) (lq_email rq) (as_db st) = Some u"
    and "usable_account u now" "password_verify env (u_passwordHash u) (lq_password rq)"
    and "attempts_of (to_lower (lq_email rq)) st < 5"
  shows "ok (fst (login env now (\<lambda>db. db) sid token rq st))"
proof -
  have "u \<in> set (db_users (as_db st))" "u_status u = Active"
    using assms(1,2) by (auto simp: find_by_email_def usable_account_def dest: find_SomeD)
  then have "affected (\<lambda>r. u_id r = u_id u \<and> u_status r = Active) (db_users (as_db st)) \<noteq> 0"
    by (auto simp: affected_0_iff)
  then show ?thesis using assms
    by (auto simp: login_def check_email_rate_limit_def Let_def LOGIN_ATTEMPT_LIMIT_def attempts_of_def
        sign_in_def split: option.splits)
qed

lemma new_token_found:
  assumes "hash_token env raw \<notin> t_tokenHash ` set ks" "later < now + lifetime"
  shows "List.find (token_usable env later purpose raw) (ks @ [new_token env now purpose lifetime tid raw i])
    = Some (new_token env now purpose lifetime tid raw i)"
proof -
  have "\<forall>k \<in> set ks. t_tokenHash k \<noteq> hash_token env raw"
    using assms(1) by (metis image_eqI)
  then have "List.find (token_usable env later purpose raw) ks = None"
    by (auto simp: find_None_iff_ex token_usable_def)
  then show ?thesis
    using assms(2) sql_now_le [of later] by (simp add: find_append token_usable_def new_token_def)
qed

lemma password_verify_hash: "argon2_ok env \<Longrightarrow> password_verify env (ae_argon2_hash env p) p"
  by (simp add: argon2_ok_def password_verify_def)

text \<open>
  C28: the forgotten-password path works end to end. When the address selects
  an active account, the mailed link used within the hour sets the new password, revokes every
  session of that account and no other, clears a running lock, and the next sign-in with the
  new password succeeds.
\<close>

theorem reset_then_sign_in:
  assumes "argon2_ok env" and "distinct (map u_id (db_users db))"
    and "find_by_email (ae_email_eq env) email db = Some u" "u_status u = Active"
    and "hash_token env raw \<notin> t_tokenHash ` set (db_tokens db)"
    and "send_password_reset env now tid raw email db = (db1, mails)"
    and "later < now + minutes 60"
    and "lq_email rq = email" "lq_password rq = pw" "attempts_of (to_lower email) st < 5"
  shows "length mails = 1
    \<and> (\<exists>pu db2. reset_password env later raw pw db1 = (Inr pu, db2) \<and> pu_id pu = u_id u
        \<and> (\<forall>s \<in> set (db_sessions db2). s_userId s = u_id u \<longrightarrow> s_revokedAt s \<noteq> None)
        \<and> filter (\<lambda>s. s_userId s \<noteq> u_id u) (db_sessions db2) = filter (\<lambda>s. s_userId s \<noteq> u_id u) (db_sessions db)
        \<and> ok (fst (login env at (\<lambda>db. db) sid token rq (st\<lparr>as_db := db2\<rparr>))))"
proof -
  let ?k = "new_token env now Reset (minutes RESET_TOKEN_MINUTES) tid raw (u_id u)"
  let ?f = "reset_row (ae_argon2_hash env pw)"
  have db1: "db1 = db\<lparr>db_tokens := db_tokens db @ [?k]\<rparr>" and mails: "length mails = 1"
    using assms(3,4,6) by (auto simp: send_password_reset_def)
  have k: "List.find (token_usable env later Reset raw) (db_tokens db1) = Some ?k"
    using new_token_found [OF assms(5), of later now "minutes RESET_TOKEN_MINUTES"] assms(7)
    by (simp add: db1 RESET_TOKEN_MINUTES_def)
  have "u \<in> set (db_users db)"
    using assms(3) by (auto simp: find_by_email_def dest: find_SomeD)
  then have u: "List.find (\<lambda>v. u_id v = t_userId ?k) (db_users db1) = Some u"
    using find_map_key [OF assms(2)] by (simp add: db1 new_token_def)
  obtain db2 where reset: "reset_password env later raw pw db1 = (Inr (to_public_user later (?f u)), db2)"
    and users2: "db_users db2 = update_rows (\<lambda>v. u_id v = u_id u) ?f (db_users db)"
    and sessions2: "db_sessions db2 = update_rows (\<lambda>s. s_userId s = u_id u \<and> s_revokedAt s = None)
        (\<lambda>s. s\<lparr>s_revokedAt := Some later\<rparr>) (db_sessions db)"
    using consume_token_Some [OF k u, of "[Active]" ?f "revoke_sessions later"] assms(4)
    by (auto simp: reset_password_def db1 revoke_sessions_def)
  have "find_by_email (ae_email_eq env) email db2 = Some (?f u)"
    using assms(3) unfolding find_by_email_def users2
    by (subst find_update_rows) (auto simp: reset_row_def)
  then have "ok (fst (login env at (\<lambda>db. db) sid token rq (st\<lparr>as_db := db2\<rparr>)))"
    using assms(1,4,8-10)
    by (intro login_ok [of _ _ _ "?f u"])
      (auto simp: usable_account_def reset_row_def is_brute_force_locked_def password_verify_hash attempts_of_def)
  moreover have "filter (\<lambda>s. s_userId s \<noteq> u_id u) (db_sessions db2) = filter (\<lambda>s. s_userId s \<noteq> u_id u) (db_sessions db)"
    unfolding sessions2 by (rule filter_update_rows) auto
  moreover have "\<forall>s \<in> set (db_sessions db2). s_userId s = u_id u \<longrightarrow> s_revokedAt s \<noteq> None"
    by (auto simp: sessions2 table_simps)
  ultimately show ?thesis
    using reset mails by (auto simp: to_public_user_def reset_row_def)
qed

text \<open>
  C32: an invitation completes end to end. The invited row cannot sign in;
  the mailed link used within 48 hours makes the account active with the chosen password and
  the role the admin gave, and the next sign-in succeeds.
\<close>

theorem invite_accept_sign_in:
  assumes "argon2_ok env" and "ae_email_eq env email email" and "uid \<notin> u_id ` set (db_users db)"
    and "hash_token env raw \<notin> t_tokenHash ` set (db_tokens db)"
    and "invite env now uid tid raw inviter email name role db = (Inr pu, db1, mails)"
    and "later < now + hours 48"
    and "lq_email rq = email" "lq_password rq = pw" "attempts_of (to_lower email) st < 5"
  shows "\<not> ok (fst (login env at (\<lambda>db. db) sid token rq (st\<lparr>as_db := db1\<rparr>)))
    \<and> (\<exists>pu2 db2. accept_invite env later raw pw db1 = (Inr pu2, db2)
        \<and> pu_id pu2 = uid \<and> pu_role pu2 = role \<and> pu_status pu2 = Active
        \<and> ok (fst (login env at (\<lambda>db. db) sid token rq (st\<lparr>as_db := db2\<rparr>))))"
proof -
  let ?k = "new_token env now Invite (hours INVITE_TOKEN_HOURS) tid raw uid"
  let ?f = "accepted_row (ae_argon2_hash env pw)"
  define u where "u = invited_row now uid email name role"
  then have u_props: "u_id u = uid" "u_status u = Invited" "u_role u = role" "u_email u = email"
    by (simp_all add: invited_row_def)
  have none: "find_by_email (ae_email_eq env) email db = None"
    and db1: "db1 = db\<lparr>db_users := db_users db @ [u], db_tokens := db_tokens db @ [?k]\<rparr>"
    using assms(5) u_props(1)
    by (auto simp: invite_def create_invited_user_def Let_def u_def fail_def split: option.splits)
  have found1: "find_by_email (ae_email_eq env) email db1 = Some u"
    using none assms(2) u_props by (simp add: find_by_email_def db1 find_append)
  have refused: "\<not> ok (fst (login env at (\<lambda>db. db) sid token rq (st\<lparr>as_db := db1\<rparr>)))"
    using found1 assms(7) u_props
    by (auto simp: login_def Let_def usable_account_def invalid_credentials_def split: sum.splits)
  have k: "List.find (token_usable env later Invite raw) (db_tokens db1) = Some ?k"
    using new_token_found [OF assms(4), of later now "hours INVITE_TOKEN_HOURS"] assms(6)
    by (simp add: db1 INVITE_TOKEN_HOURS_def)
  have "List.find (\<lambda>v. u_id v = uid) (db_users db) = None"
    using assms(3) by (auto simp: find_None_iff_ex)
  then have u: "List.find (\<lambda>v. u_id v = t_userId ?k) (db_users db1) = Some u"
    using u_props by (simp add: db1 find_append new_token_def)
  obtain db2 where accept: "accept_invite env later raw pw db1 = (Inr (to_public_user later (?f u)), db2)"
    and users2: "db_users db2 = update_rows (\<lambda>v. u_id v = u_id u) ?f (db_users db1)"
    using consume_token_Some [OF k u, of "[Invited]" ?f "\<lambda>_ db. db"] u_props
    by (auto simp: accept_invite_def db1)
  have "find_by_email (ae_email_eq env) email db2 = Some (?f u)"
    using found1 unfolding find_by_email_def users2
    by (subst find_update_rows) (auto simp: accepted_row_def)
  then have "ok (fst (login env at (\<lambda>db. db) sid token rq (st\<lparr>as_db := db2\<rparr>)))"
    using assms(1,7-9)
    by (intro login_ok [of _ _ _ "?f u"])
      (auto simp: usable_account_def accepted_row_def is_brute_force_locked_def password_verify_hash attempts_of_def)
  then show ?thesis
    using accept refused u_props by (auto simp: to_public_user_def accepted_row_def)
qed

lemmas token_defs = consume_token_def token_usable_def reset_password_def accept_invite_def send_password_reset_def
  invite_def create_invited_user_def invited_row_def new_token_def find_by_email_def sql_now_def hash_token_def
  minutes_def hours_def RESET_TOKEN_MINUTES_def INVITE_TOKEN_HOURS_def

definition with_reset_link :: auth_db where
  "with_reset_link = fst (send_password_reset sample_env 1000 ''4'' ''raw'' ''A@x.org'' two_admins)"

theorem link_single_use_witness:
  "\<exists>pu db'. reset_password sample_env 5000 ''raw'' ''newpass1'' with_reset_link = (Inr pu, db')
     \<and> \<not> ok (fst (reset_password sample_env 6000 ''raw'' ''newpass2'' db'))"
proof -
  obtain pu db' where r: "reset_password sample_env 5000 ''raw'' ''newpass1'' with_reset_link = (Inr pu, db')"
    by (simp add: with_reset_link_def sample_auth token_defs Let_def)
  moreover have "distinct (map t_tokenHash (db_tokens with_reset_link))"
    by (simp add: with_reset_link_def sample_auth token_defs)
  ultimately show ?thesis
    using link_single_use [of sample_env 5000 "''raw''" "''newpass1''" with_reset_link pu db' 6000 "''newpass2''"] by auto
qed

theorem reset_then_sign_in_witness:
  "\<exists>pu db2. reset_password sample_env 5000 ''raw'' ''newpass1'' with_reset_link = (Inr pu, db2)
     \<and> ok (fst (login sample_env 7000 (\<lambda>db. db) ''9'' ''tok'' (sample_login\<lparr>lq_password := ''newpass1''\<rparr>)
                  (sample_state\<lparr>as_db := db2\<rparr>)))"
proof -
  have "distinct (map u_id (db_users two_admins))"
    "find_by_email (ae_email_eq sample_env) ''A@x.org'' two_admins = Some ada" "u_status ada = Active"
    "hash_token sample_env ''raw'' \<notin> t_tokenHash ` set (db_tokens two_admins)"
    "send_password_reset sample_env 1000 ''4'' ''raw'' ''A@x.org'' two_admins
      = (with_reset_link, snd (send_password_reset sample_env 1000 ''4'' ''raw'' ''A@x.org'' two_admins))"
    "(5000::int) < 1000 + minutes 60"
    "lq_email (sample_login\<lparr>lq_password := ''newpass1''\<rparr>) = ''A@x.org''"
    "lq_password (sample_login\<lparr>lq_password := ''newpass1''\<rparr>) = ''newpass1''"
    "attempts_of (to_lower ''A@x.org'') sample_state < 5"
    by (simp_all add: with_reset_link_def sample_auth find_by_email_def hash_token_def minutes_def attempts_of_def)
  from reset_then_sign_in [OF argon2_ok_sample this, of 7000 "''9''" "''tok''"] show ?thesis by blast
qed

theorem invite_accept_sign_in_witness:
  "\<exists>db1 pu db2. accept_invite sample_env 5000 ''raw'' ''newpass1'' db1 = (Inr pu, db2) \<and> pu_role pu = Editor
     \<and> ok (fst (login sample_env 7000 (\<lambda>db. db) ''9'' ''tok'' (sample_login\<lparr>lq_email := ''no@x.org''\<rparr>)
                  (sample_state\<lparr>as_db := two_admins\<rparr>))) = False"
proof -
  let ?i = "invite sample_env 1000 ''3'' ''4'' ''raw'' (to_public_user 0 ada) ''no@x.org'' ''New'' Editor two_admins"
  obtain pu db1 mails where i: "?i = (Inr pu, db1, mails)"
    by (simp add: sample_auth token_defs Let_def)
  have "ae_email_eq sample_env ''no@x.org'' ''no@x.org''" "''3'' \<notin> u_id ` set (db_users two_admins)"
    "hash_token sample_env ''raw'' \<notin> t_tokenHash ` set (db_tokens two_admins)"
    "(5000::int) < 1000 + hours 48"
    "lq_email (sample_login\<lparr>lq_email := ''no@x.org'', lq_password := ''newpass1''\<rparr>) = ''no@x.org''"
    "lq_password (sample_login\<lparr>lq_email := ''no@x.org'', lq_password := ''newpass1''\<rparr>) = ''newpass1''"
    "attempts_of (to_lower ''no@x.org'') sample_state < 5"
    by (simp_all add: sample_auth hash_token_def hours_def attempts_of_def)
  from invite_accept_sign_in [OF argon2_ok_sample this(1-3) i this(4-7)]
  obtain pu2 db2 where "accept_invite sample_env 5000 ''raw'' ''newpass1'' db1 = (Inr pu2, db2)" "pu_role pu2 = Editor"
    by blast
  moreover have "\<not> ok (fst (login sample_env 7000 (\<lambda>db. db) ''9'' ''tok'' (sample_login\<lparr>lq_email := ''no@x.org''\<rparr>)
      (sample_state\<lparr>as_db := two_admins\<rparr>)))"
    by (simp add: sample_auth login_defs Let_def)
  ultimately show ?thesis by blast
qed

section \<open>Requests and sessions\<close>

definition session_rows :: "auth_db \<Rightarrow> (session \<times> user) list" where
  "session_rows db = concat (map (\<lambda>s. map (Pair s) (filter (\<lambda>u. u_id u = s_userId s) (db_users db))) (db_sessions db))"

lemma set_session_rows:
  "(s, u) \<in> set (session_rows db) \<longleftrightarrow> s \<in> set (db_sessions db) \<and> u \<in> set (db_users db) \<and> u_id u = s_userId s"
  by (auto simp: session_rows_def)

lemma find_session_Some:
  assumes "find_session env now th db = Some (s, u)"
  shows "s \<in> set (db_sessions db)" "u \<in> set (db_users db)" "u_id u = s_userId s"
    "s_tokenHash s = th" "session_live env now s" "u_status u = Active"
  using find_SomeD [OF assms [unfolded find_session_def, folded session_rows_def]]
  by (auto simp: set_session_rows)

lemma find_session_None:
  "find_session env now th db = None \<longleftrightarrow>
    (\<forall>s \<in> set (db_sessions db). \<forall>u \<in> set (db_users db). u_id u = s_userId s \<longrightarrow> s_tokenHash s = th \<longrightarrow>
       session_live env now s \<longrightarrow> u_status u \<noteq> Active)"
  unfolding find_session_def session_rows_def [symmetric] find_None_iff_ex
  by (auto simp: set_session_rows)



lemma unresolved_session:
  assumes "find_session env now (hash_token env c) db = None" "\<not> rt_public rt" "rq_cookie rq = Some c" "c \<noteq> []"
  shows "session_guard env now rt rq db = (fail 401 UNAUTHENTICATED ''Session expired or revoked'', db)"
  using assms by (simp add: session_guard_def resolve_staff_session_def)

text \<open>
  Ending a session, by signing out or from the session list, takes
  effect on the next request: whatever route it addresses, the old cookie gets 401. A staff
  member who is not an admin can only do that to their own session, and ending one session
  leaves every other one as it was.
\<close>

theorem ended_session_rejected:
  assumes "end_session id_eq now actor role target db = (Inr (), db')"
    and "distinct (map s_tokenHash (db_sessions db))"
  shows "\<exists>s \<in> set (db_sessions db). id_eq (s_id s) target \<and> (role = Admin \<or> s_userId s = actor)
    \<and> db' = logout now (s_id s) db
    \<and> filter (\<lambda>r. s_id r \<noteq> s_id s) (db_sessions db') = filter (\<lambda>r. s_id r \<noteq> s_id s) (db_sessions db)
    \<and> (\<forall>c rt rq later. s_tokenHash s = hash_token env c \<and> c \<noteq> [] \<and> rq_cookie rq = Some c \<and> \<not> rt_public rt \<longrightarrow>
         fst (guard_chain env later rt rq db') = fail 401 UNAUTHENTICATED ''Session expired or revoked'')"
proof -
  obtain s where s: "s \<in> set (db_sessions db)" "id_eq (s_id s) target" "role = Admin \<or> s_userId s = actor"
    and db': "db' = logout now (s_id s) db"
    using assms(1) by (auto simp: end_session_def split: option.splits if_splits dest: find_SomeD)
  have "fst (guard_chain env later rt rq db') = fail 401 UNAUTHENTICATED ''Session expired or revoked''"
    if "s_tokenHash s = hash_token env c" "c \<noteq> []" "rq_cookie rq = Some c" "\<not> rt_public rt" for c rt rq later
  proof -
    have "find_session env later (hash_token env c) db' = None"
      using that(1) s(1) assms(2) unfolding find_session_None db' logout_def
      by (auto simp: table_simps session_live_def dest: distinct_key_eq [where key = s_tokenHash])
    from unresolved_session [OF this that(4,3,2)] show ?thesis
      by (simp add: guard_chain_def fail_def)
  qed
  moreover have "filter (\<lambda>r. s_id r \<noteq> s_id s) (db_sessions db') = filter (\<lambda>r. s_id r \<noteq> s_id s) (db_sessions db)"
    unfolding db' logout_def by (simp add: filter_update_rows)
  ultimately show ?thesis using s db' by blast
qed

theorem ended_session_rejected_witness:
  "\<exists>s \<in> set (db_sessions two_admins). s_id s = ''7'' \<and> snd (end_session (=) 5 ''1'' Editor ''7'' two_admins) = logout 5 (s_id s) two_admins"
proof -
  have e: "end_session (=) 5 ''1'' Editor ''7'' two_admins = (Inr (), snd (end_session (=) 5 ''1'' Editor ''7'' two_admins))"
    and d: "distinct (map s_tokenHash (db_sessions two_admins))"
    by (simp_all add: sample_accounts end_session_def)
  from ended_session_rejected [OF e d, of sample_env] show ?thesis by blast
qed

section \<open>A disabled account stays out\<close>

datatype outsider_op =
    OpLogin login_call
  | OpForgot time string string string
  | OpAccept time string string
  | OpReset time string string
  | OpRequest time route request

text \<open>What anyone can do without a staff member's help; a sign-in here is not raced.\<close>

fun outsider_step :: "auth_env \<Rightarrow> outsider_op \<Rightarrow> auth_state \<Rightarrow> auth_state" where
  "outsider_step env (OpLogin (now, _, sid, token, rq)) st = fst (snd (login env now (\<lambda>db. db) sid token rq st))"
| "outsider_step env (OpForgot now tid raw email) st = st\<lparr>as_db := fst (send_password_reset env now tid raw email (as_db st))\<rparr>"
| "outsider_step env (OpAccept now raw pw) st = st\<lparr>as_db := snd (accept_invite env now raw pw (as_db st))\<rparr>"
| "outsider_step env (OpReset now raw pw) st = st\<lparr>as_db := snd (reset_password env now raw pw (as_db st))\<rparr>"
| "outsider_step env (OpRequest now rt rq) st = st\<lparr>as_db := snd (guard_chain env now rt rq (as_db st))\<rparr>"

definition stays_disabled :: "string \<Rightarrow> user list \<Rightarrow> auth_state \<Rightarrow> bool" where
  "stays_disabled i rows st \<longleftrightarrow>
     filter (\<lambda>u. u_id u = i) (db_users (as_db st)) = rows \<and> (\<forall>u \<in> set rows. u_status u = Disabled)"

lemma stays_disabled_status:
  "stays_disabled i rows st \<Longrightarrow> u \<in> set (db_users (as_db st)) \<Longrightarrow> u_id u = i \<Longrightarrow> u_status u = Disabled"
  by (auto simp: stays_disabled_def)

lemma stays_disabled_update_rows:
  assumes "stays_disabled i rows st"
    and "db_users (as_db st') = update_rows P f (db_users (as_db st))"
    and "\<And>u. P u \<Longrightarrow> u_id u \<noteq> i" "\<And>u. u_id (f u) = u_id u"
  shows "stays_disabled i rows st'"
proof -
  have "filter (\<lambda>u. u_id u = i) (update_rows P f (db_users (as_db st))) = filter (\<lambda>u. u_id u = i) (db_users (as_db st))"
    using assms(3,4) by (intro filter_update_rows) auto
  then show ?thesis using assms(1,2) by (simp add: stays_disabled_def)
qed

lemma stays_disabled_same_users:
  "stays_disabled i rows st \<Longrightarrow> db_users (as_db st') = db_users (as_db st) \<Longrightarrow> stays_disabled i rows st'"
  by (simp add: stays_disabled_def)

lemma consume_keeps_disabled:
  assumes "stays_disabled i rows st" "Disabled \<notin> set allowed"
    and "\<And>u. u_id (f u) = u_id u" "\<And>u db. db_users (g u db) = db_users db"
  shows "stays_disabled i rows (st\<lparr>as_db := snd (consume_token env now raw purpose allowed f g (as_db st))\<rparr>)"
proof (cases "consume_token env now raw purpose allowed f g (as_db st)")
  case (Pair r db')
  show ?thesis
  proof (cases r)
    case (Inl e)
    then have "db' = as_db st" using Pair
      by (auto simp: consume_token_def Let_def split: option.splits if_splits)
    then show ?thesis using assms(1) Pair by simp
  next
    case (Inr pu)
    obtain k u where k: "List.find (token_usable env now purpose raw) (db_tokens (as_db st)) = Some k"
      and u: "List.find (\<lambda>u. u_id u = t_userId k) (db_users (as_db st)) = Some u" "u_status u \<in> set allowed"
      using Pair Inr consume_tokenE by metis
    have "u_id u \<noteq> i" using assms(1,2) u by (auto dest!: find_SomeD dest: stays_disabled_status)
    moreover have "db_users (snd (consume_token env now raw purpose allowed f g (as_db st)))
        = update_rows (\<lambda>v. u_id v = u_id u) f (db_users (as_db st))"
      using consume_token_Some [OF k u, of f g] assms(4) by simp
    ultimately show ?thesis
      using assms(3) by (intro stays_disabled_update_rows [OF assms(1), where f = f and P = "\<lambda>v. u_id v = u_id u"]) auto
  qed
qed

lemma resolve_users: "resolve_staff_session env now c rq db = (b, rq', db') \<Longrightarrow> db_users db' = db_users db"
  by (cases "find_session env now (hash_token env c) db")
    (auto simp: resolve_staff_session_def Let_def split: if_splits)

lemma session_guard_users: "db_users (snd (session_guard env now rt rq db)) = db_users db"
proof -
  obtain b rq' db' where r: "resolve_staff_session env now (case rq_cookie rq of None \<Rightarrow> [] | Some c \<Rightarrow> c) rq db = (b, rq', db')"
    by (metis prod_cases3)
  then show ?thesis
    using resolve_users [OF r] by (cases b) (auto simp: session_guard_def Let_def)
qed

lemma guard_chain_users [simp]: "db_users (snd (guard_chain env now rt rq db)) = db_users db"
  using session_guard_users [of env now rt rq db]
  by (auto simp: guard_chain_def split: prod.splits sum.splits)

lemma csrf_guard_Inr: "csrf_guard env rt rq = Inr rq' \<Longrightarrow> rq' = rq"
  by (auto simp: csrf_guard_def split: if_splits option.splits)

lemma roles_guard_Inr: "roles_guard rt rq = Inr rq' \<Longrightarrow> rq' = rq"
  by (auto simp: roles_guard_def Let_def split: if_splits option.splits)

lemma guarded_user:
  assumes "fst (guard_chain env now rt rq db) = Inr rq'" "\<not> rt_public rt"
  obtains c s u where "find_session env now (hash_token env c) db = Some (s, u)"
    "rq_user rq' = Some (u_id u, u_role u)"
proof -
  obtain db' where "session_guard env now rt rq db = (Inr rq', db')"
    using assms(1) csrf_guard_Inr roles_guard_Inr
    by (auto simp: guard_chain_def split: prod.splits sum.splits) blast
  then show ?thesis
    using assms(2) that
    by (cases "find_session env now (hash_token env (case rq_cookie rq of None \<Rightarrow> [] | Some c \<Rightarrow> c)) db")
      (auto simp: session_guard_def resolve_staff_session_def Let_def split: if_splits)
qed

lemma login_keeps_disabled:
  assumes "stays_disabled i rows st"
  shows "stays_disabled i rows (fst (snd (login env now (\<lambda>db. db) sid token rq st)))"
proof (cases "check_email_rate_limit (lq_email rq) (as_attempts st)")
  case (Inl e)
  then show ?thesis using assms by (simp add: login_def)
next
  case (Inr att)
  define st1 where "st1 = \<lparr>as_db = as_db st, as_attempts = att\<rparr>"
  have st1: "stays_disabled i rows st1"
    using assms by (simp add: st1_def stays_disabled_def)
  show ?thesis
  proof (cases "find_by_email (ae_email_eq env) (lq_email rq) (as_db st)")
    case None
    then show ?thesis using Inr assms
      by (auto simp: login_def Let_def intro: stays_disabled_same_users)
  next
    case (Some u)
    note u = Some
    have mem: "u \<in> set (db_users (as_db st))" using u by (auto simp: find_by_email_def dest: find_SomeD)
    show ?thesis
    proof (cases "usable_account u now")
      case False
      then show ?thesis using Inr u assms
        by (auto simp: login_def Let_def intro: stays_disabled_same_users)
    next
      case True
      then have ne: "u_id u \<noteq> i"
        using assms mem by (auto simp: usable_account_def dest: stays_disabled_status)
      show ?thesis
      proof (cases "password_verify env (u_passwordHash u) (lq_password rq)")
        case False
        then show ?thesis using Inr u True ne
          by (intro stays_disabled_update_rows [OF assms, where P = "\<lambda>v. u_id v = u_id u" and f = "register_failed_row now"])
            (auto simp: login_def Let_def)
      next
        case True
        have "stays_disabled i rows (snd (sign_in env now sid token rq u st1))"
        proof (rule sign_in_cases [of st1 u env now sid token rq])
          fix r st'
          assume s: "sign_in env now sid token rq u st1 = (Inr r, st')"
            and "db_users (as_db st') = update_rows (\<lambda>r. u_id r = u_id u \<and> u_status r = Active)
              (signed_in_row now) (db_users (as_db st1))"
          then show ?thesis
            using ne unfolding s snd_conv
            by (intro stays_disabled_update_rows [OF st1, where f = "signed_in_row now"
                and P = "\<lambda>r. u_id r = u_id u \<and> u_status r = Active"])
              (auto simp: signed_in_row_def)
        qed (auto intro: stays_disabled_same_users [OF st1])
        then show ?thesis using Inr u True \<open>usable_account u now\<close>
          by (auto simp: login_def Let_def st1_def split: prod.splits)
      qed
    qed
  qed
qed

interpretation outsider: kept_invariant "outsider_step env" "stays_disabled i rows" for env i rows
proof unfold_locales
  fix st op
  assume inv: "stays_disabled i rows st"
  show "stays_disabled i rows (outsider_step env op st)"
  proof (cases op)
    case (OpLogin c)
    then show ?thesis using login_keeps_disabled [OF inv] by (cases c) auto
  next
    case (OpForgot now tid raw email)
    then show ?thesis
      by (auto simp: send_password_reset_def split: option.splits intro!: stays_disabled_same_users [OF inv])
  next
    case (OpAccept now raw pw)
    then show ?thesis
      by (auto simp: accept_invite_def accepted_row_def intro!: consume_keeps_disabled [OF inv])
  next
    case (OpReset now raw pw)
    then show ?thesis
      by (auto simp: reset_password_def reset_row_def intro!: consume_keeps_disabled [OF inv])
  next
    case (OpRequest now rt rq)
    then show ?thesis by (auto intro!: stays_disabled_same_users [OF inv])
  qed
qed

text \<open>
  Whatever sign-ins, forgotten-password requests, emailed links and
  requests with whatever cookies follow, in any order, a disabled account stays disabled, its
  row untouched down to the failure counters, and no request passes the guards of a private route as that account.
\<close>

theorem disabled_stays_out:
  assumes "\<forall>u \<in> set (db_users (as_db st)). u_id u = i \<longrightarrow> u_status u = Disabled"
    and "st' = fold (outsider_step env) ops st"
  shows "(\<forall>u \<in> set (db_users (as_db st')). u_id u = i \<longrightarrow> u_status u = Disabled)
    \<and> filter (\<lambda>u. u_id u = i) (db_users (as_db st')) = filter (\<lambda>u. u_id u = i) (db_users (as_db st))
    \<and> (\<forall>now rt rq rq' role. \<not> rt_public rt \<longrightarrow>
         fst (guard_chain env now rt rq (as_db st')) = Inr rq' \<longrightarrow> rq_user rq' \<noteq> Some (i, role))"
proof -
  define rows where "rows = filter (\<lambda>u. u_id u = i) (db_users (as_db st))"
  have "stays_disabled i rows st" using assms(1) by (simp add: stays_disabled_def rows_def)
  then have inv: "stays_disabled i rows st'"
    unfolding assms(2) by (rule outsider.fold_inv)
  have "rq_user rq' \<noteq> Some (i, role)"
    if staff: "\<not> rt_public rt" and pass: "fst (guard_chain env now rt rq (as_db st')) = Inr rq'"
    for now rt rq rq' role
  proof -
    obtain c s u where f: "find_session env now (hash_token env c) (as_db st') = Some (s, u)"
      and "rq_user rq' = Some (u_id u, u_role u)"
      using pass staff by (rule guarded_user)
    then show ?thesis
      using find_session_Some(2,6) [OF f] stays_disabled_status [OF inv] by fastforce
  qed
  then show ?thesis
    using inv stays_disabled_status [OF inv] by (auto simp: stays_disabled_def rows_def)
qed

definition sample_disabled :: auth_state where
  "sample_disabled = sample_state\<lparr>as_db := two_admins\<lparr>db_users := [ada, bob\<lparr>u_status := Disabled\<rparr>]\<rparr>\<rparr>"

theorem disabled_stays_out_witness:
  "filter (\<lambda>u. u_id u = ''2'') (db_users (as_db (fold (outsider_step sample_env)
     [OpForgot 1 ''5'' ''r'' ''b@x.org'', OpReset 2 ''r'' ''pw'', OpAccept 3 ''r'' ''pw''] sample_disabled)))
   = [bob\<lparr>u_status := Disabled\<rparr>]"
proof -
  have "\<forall>u \<in> set (db_users (as_db sample_disabled)). u_id u = ''2'' \<longrightarrow> u_status u = Disabled"
    by (simp add: sample_disabled_def sample_auth)
  from disabled_stays_out [OF this refl, THEN conjunct2, THEN conjunct1]
  have "filter (\<lambda>u. u_id u = ''2'') (db_users (as_db (fold (outsider_step sample_env)
      [OpForgot 1 ''5'' ''r'' ''b@x.org'', OpReset 2 ''r'' ''pw'', OpAccept 3 ''r'' ''pw''] sample_disabled)))
    = filter (\<lambda>u. u_id u = ''2'') (db_users (as_db sample_disabled))" .
  also have "\<dots> = [bob\<lparr>u_status := Disabled\<rparr>]"
    by (simp add: sample_disabled_def sample_auth)
  finally show ?thesis .
qed

section \<open>The published role matrix\<close>

text \<open>
  The matrix \<open>GET admin/roles\<close> returns is the one the guards
  enforce: on a route of an area, a signed-in role passes exactly when the matrix lists it;
  accounts, settings, the audit log and both delete areas are for admins alone.
\<close>

theorem published_matrix_enforced:
  "(\<forall>(a, roles) \<in> set (snd role_matrix). \<forall>rt rq i role. rt_area rt = Some a \<and> rq_user rq = Some (i, role) \<longrightarrow>
      roles_guard rt rq = (if role \<in> set roles then Inr rq else fail 403 FORBIDDEN ''Insufficient role''))
   \<and> fst ` set (snd role_matrix) = UNIV
   \<and> (\<forall>a \<in> {UsersArea, SettingsArea, AuditArea, RedirectsDelete, InboxDelete}. \<forall>rt rq.
        rt_area rt = Some a \<longrightarrow> ok (roles_guard rt rq) \<longrightarrow> (\<exists>i. rq_user rq = Some (i, Admin)))"
proof -
  have ne: "AREA_ROLES a \<noteq> []" for a by (cases a) auto
  have all: "set all_areas = UNIV"
    using area.exhaust by (auto simp: all_areas_def)
  show ?thesis
    by (auto simp: role_matrix_def roles_guard_def Let_def ne all image_image split: option.splits if_splits)
qed

theorem published_matrix_enforced_witness:
  "\<not> ok (roles_guard \<lparr>rt_public = False, rt_area = Some UsersArea\<rparr>
     \<lparr>rq_method = ''GET'', rq_path = [], rq_cookie = None, rq_csrfHeader = None,
      rq_user = Some (''3'', Editor), rq_sessionId = None, rq_sessionTokenHash = None\<rparr>)"
proof
  assume h: "ok (roles_guard \<lparr>rt_public = False, rt_area = Some UsersArea\<rparr>
     \<lparr>rq_method = ''GET'', rq_path = [], rq_cookie = None, rq_csrfHeader = None,
      rq_user = Some (''3'', Editor), rq_sessionId = None, rq_sessionTokenHash = None\<rparr>)"
  have "\<forall>a \<in> {UsersArea, SettingsArea, AuditArea, RedirectsDelete, InboxDelete}. \<forall>rt rq.
        rt_area rt = Some a \<longrightarrow> ok (roles_guard rt rq) \<longrightarrow> (\<exists>i. rq_user rq = Some (i, Admin))"
    using published_matrix_enforced by blast
  then have "ok (roles_guard rt rq) \<Longrightarrow> rt_area rt = Some UsersArea \<Longrightarrow> \<exists>i. rq_user rq = Some (i, Admin)" for rt rq
    by blast
  from this [OF h] show False by simp
qed

end
