(* ===== verification/SignedLinks.thy ===== *)
theory SignedLinks
  imports AuthData
begin

text \<open>
  Links that carry their own proof: \<open>auth/preview-token.util.ts\<close> (previews of an unpublished
  post) and \<open>contact/newsletter-token.util.ts\<close> (confirm and unsubscribe). HMAC and HKDF are
  those of \<open>auth_env\<close>; \<open>number\<close> is JavaScript's \<open>Number(\<dots>)\<close>, \<open>None\<close> when it is not finite.
  Both kinds share one shape, the interface \<open>signed_message\<close>: what is signed determines what
  was meant.
\<close>

section \<open>Preview tokens\<close>

definition PREVIEW_TOKEN_INFO :: string where "PREVIEW_TOKEN_INFO = ''safeer-preview-v1''"
definition PREVIEW_TOKEN_TTL_SECONDS :: nat where "PREVIEW_TOKEN_TTL_SECONDS = 15 * 60"

definition derive_preview_key :: "auth_env \<Rightarrow> string" where
  "derive_preview_key env = ae_hkdf env (ae_app_key env) PREVIEW_TOKEN_INFO"

definition preview_message :: "string \<times> string \<times> nat \<Rightarrow> string" where
  "preview_message m = (case m of (coll, i, expires) \<Rightarrow> coll @ ''|'' @ i @ ''|'' @ show_nat expires)"

definition sign_preview :: "auth_env \<Rightarrow> string \<Rightarrow> string \<Rightarrow> nat \<Rightarrow> string" where
  "sign_preview env coll i expires = ae_hmac env (derive_preview_key env) (preview_message (coll, i, expires))"

definition issue_preview_token :: "auth_env \<Rightarrow> nat \<Rightarrow> string \<Rightarrow> string \<Rightarrow> string" where
  "issue_preview_token env now coll i =
     (let expires = now + PREVIEW_TOKEN_TTL_SECONDS * 1000
      in show_nat expires @ ''.'' @ sign_preview env coll i expires)"

text \<open>The token up to its first dot and after it, \<open>None\<close> when \<open>indexOf('.') < 1\<close>.\<close>

definition split_at_dot :: "string \<Rightarrow> (string \<times> string) option" where
  "split_at_dot token =
     (let before = takeWhile (\<lambda>c. c \<noteq> CHR ''.'') token
      in if before = [] \<or> before = token then None
         else Some (before, drop (length before + 1) token))"

definition verify_preview_token ::
  "auth_env \<Rightarrow> (string \<Rightarrow> nat option) \<Rightarrow> nat \<Rightarrow> string \<Rightarrow> string \<Rightarrow> string \<Rightarrow> bool" where
  "verify_preview_token env number now coll i token =
     (case split_at_dot token of
        None \<Rightarrow> False
      | Some (expires_raw, signature) \<Rightarrow>
          (case number expires_raw of
             None \<Rightarrow> False
           | Some expires \<Rightarrow>
               if expires < now then False
               else (let expected = sign_preview env coll i expires
                     in length expected = length signature \<and> expected = signature)))"

section \<open>Newsletter tokens\<close>

datatype newsletter_action = Confirm | Unsubscribe

definition CONFIRM_TTL_MS :: nat where "CONFIRM_TTL_MS = 7 * 24 * 60 * 60 * 1000"

definition newsletter_key :: "auth_env \<Rightarrow> string" where
  "newsletter_key env = ae_hkdf env (ae_app_key env) ''safeer-newsletter-v1''"

definition action_name :: "newsletter_action \<Rightarrow> string" where
  "action_name a = (case a of Confirm \<Rightarrow> ''confirm'' | Unsubscribe \<Rightarrow> ''unsubscribe'')"

definition newsletter_message :: "newsletter_action \<times> string \<times> nat option \<Rightarrow> string" where
  "newsletter_message m =
     (case m of (a, address, expires) \<Rightarrow>
        action_name a @ ''|'' @ address @ ''|'' @ (case expires of None \<Rightarrow> [] | Some n \<Rightarrow> show_nat n))"

definition sign_newsletter :: "auth_env \<Rightarrow> newsletter_action \<Rightarrow> string \<Rightarrow> nat option \<Rightarrow> string" where
  "sign_newsletter env a email expires =
     ae_hmac env (newsletter_key env) (newsletter_message (a, to_lower (trim email), expires))"

definition issue_newsletter_token :: "auth_env \<Rightarrow> nat \<Rightarrow> newsletter_action \<Rightarrow> string \<Rightarrow> string" where
  "issue_newsletter_token env now a email =
     (case a of
        Unsubscribe \<Rightarrow> sign_newsletter env a email None
      | Confirm \<Rightarrow>
          (let expires = now + CONFIRM_TTL_MS
           in show_nat expires @ ''.'' @ sign_newsletter env a email (Some expires)))"

definition same_signature :: "string \<Rightarrow> string \<Rightarrow> bool" where
  "same_signature given expected \<longleftrightarrow> length given = length expected \<and> given = expected"

definition verify_newsletter_token ::
  "auth_env \<Rightarrow> (string \<Rightarrow> nat option) \<Rightarrow> nat \<Rightarrow> newsletter_action \<Rightarrow> string \<Rightarrow> string \<Rightarrow> bool" where
  "verify_newsletter_token env number now a email token =
     (case a of
        Unsubscribe \<Rightarrow> same_signature token (sign_newsletter env a email None)
      | Confirm \<Rightarrow>
          (case split_at_dot token of
             None \<Rightarrow> False
           | Some (raw, sig) \<Rightarrow>
               (case number raw of
                  None \<Rightarrow> False
                | Some expires \<Rightarrow>
                    \<not> expires < now \<and> same_signature sig (sign_newsletter env a email (Some expires)))))"

section \<open>What a signature pins down\<close>

locale signed_message =
  fixes message :: "'m \<Rightarrow> string"
    and meant :: "'m \<Rightarrow> bool"
  assumes message_inj: "meant m \<Longrightarrow> meant m' \<Longrightarrow> message m = message m' \<Longrightarrow> m = m'"
begin

lemma signature_inj:
  assumes mac: "\<And>x y. mac x = mac y \<Longrightarrow> x = y" and "meant m" "meant m'"
  shows "mac (message m) = mac (message m') \<longleftrightarrow> m = m'"
  using assms message_inj by blast

end

lemma last_field_inj:
  assumes "a @ [c] @ x = b @ [c] @ y" "c \<notin> set x" "c \<notin> set y"
  shows "a = b \<and> x = y"
proof -
  have "rev x @ c # rev a = rev y @ c # rev b"
    using arg_cong [OF assms(1), of rev] by simp
  then have "rev x = rev y \<and> rev a = rev b"
    using append_sep_inj [of "rev x" c "rev a" "rev y" "rev b"] assms(2,3) by simp
  then show ?thesis by simp
qed

interpretation preview: signed_message preview_message "\<lambda>(coll, i, n). CHR ''|'' \<notin> set coll"
proof unfold_locales
  fix m m' :: "string \<times> string \<times> nat"
  assume m: "case m of (coll, i, n) \<Rightarrow> CHR ''|'' \<notin> set coll"
    and m': "case m' of (coll, i, n) \<Rightarrow> CHR ''|'' \<notin> set coll"
    and eq: "preview_message m = preview_message m'"
  obtain coll i n coll' i' n' where [simp]: "m = (coll, i, n)" "m' = (coll', i', n')"
    by (cases m, cases m') auto
  have "(coll @ ''|'' @ i) @ [CHR ''|''] @ show_nat n = (coll' @ ''|'' @ i') @ [CHR ''|''] @ show_nat n'"
    using eq by (simp add: preview_message_def)
  then have *: "coll @ ''|'' @ i = coll' @ ''|'' @ i' \<and> show_nat n = show_nat n'"
    by (rule last_field_inj) (simp_all add: digit_not_sep is_digit_def)
  then have "coll = coll' \<and> i = i'"
    using m m' append_sep_inj [of coll "CHR ''|''" i coll' i'] by simp
  with * show "m = m'" by simp
qed

interpretation newsletter: signed_message newsletter_message "\<lambda>_. True"
proof unfold_locales
  fix m m' :: "newsletter_action \<times> string \<times> nat option"
  assume eq: "newsletter_message m = newsletter_message m'"
  obtain a e n a' e' n' where [simp]: "m = (a, e, n)" "m' = (a', e', n')"
    by (cases m, cases m') auto
  define tl where "tl = (\<lambda>k :: nat option. case k of None \<Rightarrow> [] | Some n \<Rightarrow> show_nat n)"
  have bar: "CHR ''|'' \<notin> set (tl k)" for k
    by (cases k) (simp_all add: tl_def digit_not_sep is_digit_def)
  have "(action_name a @ ''|'' @ e) @ [CHR ''|''] @ tl n = (action_name a' @ ''|'' @ e') @ [CHR ''|''] @ tl n'"
    using eq by (simp add: newsletter_message_def tl_def)
  then have *: "action_name a @ ''|'' @ e = action_name a' @ ''|'' @ e' \<and> tl n = tl n'"
    by (rule last_field_inj) (simp_all add: bar)
  then have "n = n'"
    using show_nat_not_Nil by (cases n; cases n') (auto simp: tl_def dest: sym)
  moreover have "a = a' \<and> e = e'"
    using * by (cases a; cases a') (simp_all add: action_name_def)
  ultimately show "m = m'" by simp
qed

lemma split_issued:
  "split_at_dot (show_nat n @ CHR ''.'' # sig) = Some (show_nat n, sig)"
proof -
  have "takeWhile (\<lambda>c. c \<noteq> CHR ''.'') (show_nat n @ CHR ''.'' # sig) = show_nat n"
    using digit_not_sep [of "CHR ''.''" n] by (subst takeWhile_append2) (auto simp: is_digit_def)
  then show ?thesis
    by (simp add: split_at_dot_def)
qed

lemma same_signature_iff: "same_signature x y \<longleftrightarrow> x = y"
  by (auto simp: same_signature_def)

lemma split_no_dot: "CHR ''.'' \<notin> set s \<Longrightarrow> split_at_dot s = None"
  using takeWhile_eq_all_conv [of "\<lambda>c. c \<noteq> CHR ''.''" s] by (auto simp: split_at_dot_def Let_def)


section \<open>Tokens are good for what they were issued for\<close>

text \<open>
  A preview token opens exactly the row it was issued for, and only
  for fifteen minutes: for any other collection or id, and once the time is up, it is
  refused. HMAC under the derived key is taken as collision-free, and \<open>Number\<close> as reading back
  the decimal digits of a timestamp.
\<close>

theorem preview_token_scoped:
  assumes mac: "\<And>x y. ae_hmac env (derive_preview_key env) x = ae_hmac env (derive_preview_key env) y \<Longrightarrow> x = y"
    and number: "\<And>n. number (show_nat n) = Some n"
    and coll: "CHR ''|'' \<notin> set coll" "CHR ''|'' \<notin> set coll'"
  shows "verify_preview_token env number now coll i (issue_preview_token env issued coll' i')
    \<longleftrightarrow> coll = coll' \<and> i = i' \<and> now \<le> issued + 15 * 60 * 1000"
proof -
  let ?x = "issued + PREVIEW_TOKEN_TTL_SECONDS * 1000"
  have "sign_preview env coll i ?x = sign_preview env coll' i' ?x \<longleftrightarrow> coll = coll' \<and> i = i'"
    using preview.signature_inj [of "ae_hmac env (derive_preview_key env)" "(coll, i, ?x)" "(coll', i', ?x)"] mac coll
    by (auto simp: sign_preview_def)
  then show ?thesis
    by (auto simp: verify_preview_token_def issue_preview_token_def Let_def split_issued number PREVIEW_TOKEN_TTL_SECONDS_def)
qed

definition open_env :: auth_env where
  "open_env = \<lparr>ae_email_eq = (=), ae_argon2_verify = (\<lambda>h p. Inr (h = p)), ae_argon2_hash = id, ae_dummy_hash = ''d'',
    ae_sha256 = id, ae_hkdf = (\<lambda>k i. k @ i),
    ae_hmac = (\<lambda>k m. concat (map (\<lambda>c. if c = CHR ''.'' then ''~a'' else if c = CHR ''~'' then ''~b'' else [c]) m)),
    ae_app_key = ''k'', ae_idle_hours = 8, ae_absolute_days = 30, ae_frontend_base = ''http'',
    ae_role_label = (\<lambda>_ _. ''role'')\<rparr>"

definition digits_number :: "string \<Rightarrow> nat option" where
  "digits_number s = (if s \<noteq> [] \<and> list_all is_digit s then Some (read_nat s) else None)"

lemma digits_number_show: "digits_number (show_nat n) = Some n"
  using show_nat_digits by (auto simp: digits_number_def list_all_iff)

lemma escape_dots_inj:
  "concat (map (\<lambda>c. if c = CHR ''.'' then ''~a'' else if c = CHR ''~'' then ''~b'' else [c]) x)
     = concat (map (\<lambda>c. if c = CHR ''.'' then ''~a'' else if c = CHR ''~'' then ''~b'' else [c]) y) \<Longrightarrow> x = y"
proof (induction x arbitrary: y)
  case Nil
  then show ?case by (cases y) (auto split: if_splits)
next
  case (Cons a x)
  then show ?case by (cases y) (auto split: if_splits)
qed

lemma open_env_hmac_inj: "ae_hmac open_env k x = ae_hmac open_env k y \<Longrightarrow> x = y"
  using escape_dots_inj by (simp add: open_env_def)

lemma open_env_hmac_no_dot: "CHR ''.'' \<notin> set (ae_hmac open_env k x)"
  by (induction x) (simp_all add: open_env_def)

theorem preview_token_scoped_witness:
  "verify_preview_token open_env digits_number 900000 ''posts'' ''9'' (issue_preview_token open_env 0 ''posts'' ''9'')
    \<longleftrightarrow> ''posts'' = ''posts'' \<and> ''9'' = ''9'' \<and> 900000 \<le> (0::nat) + 15 * 60 * 1000"
  by (rule preview_token_scoped) (auto intro: open_env_hmac_inj simp: digits_number_show)

text \<open>
  A newsletter link works for the action and the address it was
  issued for, whatever the letter case or the blanks around the address, and no other: a
  confirm link never unsubscribes, an unsubscribe link never confirms, and a confirm link
  ends after seven days. HMAC is taken as collision-free with digests in an alphabet
  without a dot (base64url).
\<close>

theorem newsletter_token_scoped:
  assumes mac: "\<And>x y. ae_hmac env (newsletter_key env) x = ae_hmac env (newsletter_key env) y \<Longrightarrow> x = y"
    and base64url: "\<And>x. CHR ''.'' \<notin> set (ae_hmac env (newsletter_key env) x)"
    and number: "\<And>n. number (show_nat n) = Some n"
  shows "verify_newsletter_token env number now a email (issue_newsletter_token env issued a' email')
    \<longleftrightarrow> a = a' \<and> to_lower (trim email) = to_lower (trim email')
       \<and> (a = Unsubscribe \<or> now \<le> issued + 7 * 24 * 60 * 60 * 1000)"
proof -
  have sig: "sign_newsletter env b e n = sign_newsletter env b' e' n'
      \<longleftrightarrow> b = b' \<and> to_lower (trim e) = to_lower (trim e') \<and> n = n'" for b e n b' e' n'
    using newsletter.signature_inj [of "ae_hmac env (newsletter_key env)"
        "(b, to_lower (trim e), n)" "(b', to_lower (trim e'), n')"] mac
    by (auto simp: sign_newsletter_def)
  have no_dot: "CHR ''.'' \<notin> set (sign_newsletter env b e n)" for b e n
    using base64url by (simp add: sign_newsletter_def)
  show ?thesis
  proof (cases a')
    case Confirm
    let ?t = "issue_newsletter_token env issued a' email'"
    have "CHR ''.'' \<in> set ?t"
      using Confirm by (simp add: issue_newsletter_token_def Let_def)
    then have "?t \<noteq> sign_newsletter env Unsubscribe email None"
      using no_dot by metis
    then show ?thesis
      using Confirm
      by (cases a) (auto simp: verify_newsletter_token_def issue_newsletter_token_def Let_def split_issued number
          same_signature_iff sig CONFIRM_TTL_MS_def)
  next
    case Unsubscribe
    then show ?thesis
      by (cases a) (auto simp: verify_newsletter_token_def issue_newsletter_token_def split_no_dot no_dot
          same_signature_iff sig)
  qed
qed

theorem newsletter_token_scoped_witness:
  "verify_newsletter_token open_env digits_number 5 Confirm ''a@x.org'' (issue_newsletter_token open_env 0 Confirm '' a@x.org'')
    \<longleftrightarrow> Confirm = Confirm \<and> to_lower (trim ''a@x.org'') = to_lower (trim '' a@x.org'')
       \<and> (Confirm = Unsubscribe \<or> 5 \<le> (0::nat) + 7 * 24 * 60 * 60 * 1000)"
  by (rule newsletter_token_scoped) (auto intro: open_env_hmac_inj simp: digits_number_show open_env_hmac_no_dot)

end
