(* ===== verification/CacheStore.thy ===== *)
theory CacheStore
  imports SafeerPrelude
begin

text \<open>
  \<open>cache/cache.service.ts\<close>: two stores behind one tag index. The LRU library is not modelled:
  a store is the association list of what it holds, and what the library decides on its own
  (which entries an insertion evicts, whether an entry is too large to be kept, when an entry
  expires) is an argument or a step of the environment. As the library documents, every entry
  that leaves a store, replaced, evicted, expired or deleted, goes through \<open>dispose\<close>.
\<close>

section \<open>State\<close>

record 'v cache_entry =
  ce_value :: 'v
  ce_tags :: "string list"

type_synonym 'v store = "(string \<times> 'v cache_entry) list"
type_synonym tag_index = "string \<Rightarrow> string list option"

record 'v cache_state =
  cs_cache :: "'v store"
  cs_memo :: "bool store"
  cs_index :: tag_index
  cs_versions :: "string \<Rightarrow> nat option"
  cs_epoch :: nat
  cs_hits :: nat
  cs_misses :: nat

definition empty_cache :: "'v cache_state" where
  "empty_cache = \<lparr>cs_cache = [], cs_memo = [], cs_index = (\<lambda>_. None), cs_versions = (\<lambda>_. None),
                  cs_epoch = 0, cs_hits = 0, cs_misses = 0\<rparr>"

section \<open>The tag index\<close>

definition tag_one :: "string \<Rightarrow> string \<Rightarrow> tag_index \<Rightarrow> tag_index" where
  "tag_one key tag idx =
     (case idx tag of
        None \<Rightarrow> idx(tag \<mapsto> [key])
      | Some keys \<Rightarrow> idx(tag \<mapsto> (if key \<in> set keys then keys else keys @ [key])))"

definition tag_key :: "string \<Rightarrow> string list \<Rightarrow> tag_index \<Rightarrow> tag_index" where
  "tag_key key tags idx = fold (tag_one key) tags idx"

definition untag_one :: "string \<Rightarrow> string \<Rightarrow> tag_index \<Rightarrow> tag_index" where
  "untag_one key tag idx =
     (case idx tag of
        None \<Rightarrow> idx
      | Some keys \<Rightarrow>
          (let keys' = removeAll key keys in idx(tag := if keys' = [] then None else Some keys')))"

definition untag_key :: "string \<Rightarrow> string list \<Rightarrow> tag_index \<Rightarrow> tag_index" where
  "untag_key key tags idx = fold (untag_one key) tags idx"

section \<open>One store\<close>

definition store_drop :: "string \<Rightarrow> 'v store \<times> tag_index \<Rightarrow> 'v store \<times> tag_index" where
  "store_drop key s =
     (case map_of (fst s) key of
        None \<Rightarrow> s
      | Some e \<Rightarrow> (filter (\<lambda>kv. fst kv \<noteq> key) (fst s), untag_key key (ce_tags e) (snd s)))"

text \<open>
  Replacing an entry disposes of the old one; the entry itself is kept only if it fits, and the
  library may evict others for it.
\<close>

definition store_put ::
  "string list \<Rightarrow> bool \<Rightarrow> string \<Rightarrow> 'v \<Rightarrow> string list \<Rightarrow> 'v store \<times> tag_index \<Rightarrow> 'v store \<times> tag_index" where
  "store_put victims fits key v tags s =
     (let s1 = (case map_of (fst s) key of None \<Rightarrow> s | Some e \<Rightarrow> (fst s, untag_key key (ce_tags e) (snd s)));
          s2 = store_drop key s1;
          s3 = fold store_drop (filter (\<lambda>k. k \<noteq> key) victims) s2;
          st = (if fits then (key, \<lparr>ce_value = v, ce_tags = tags\<rparr>) # fst s3 else fst s3)
      in (st, tag_key key tags (snd s3)))"

section \<open>The service\<close>

definition cache_get :: "string \<Rightarrow> 'v cache_state \<Rightarrow> 'v option \<times> 'v cache_state" where
  "cache_get key s =
     (case map_of (cs_cache s) key of
        None \<Rightarrow> (None, s\<lparr>cs_misses := cs_misses s + 1\<rparr>)
      | Some e \<Rightarrow> (Some (ce_value e), s\<lparr>cs_hits := cs_hits s + 1\<rparr>))"

definition tag_version :: "'v cache_state \<Rightarrow> string \<Rightarrow> nat" where
  "tag_version s t = (case cs_versions s t of None \<Rightarrow> 0 | Some n \<Rightarrow> n)"

definition version_of :: "string list \<Rightarrow> 'v cache_state \<Rightarrow> string" where
  "version_of tags s =
     show_nat (cs_epoch s) @ '':'' @ join_with '','' (map (\<lambda>t. show_nat (tag_version s t)) tags)"

definition cache_set ::
  "string list \<Rightarrow> bool \<Rightarrow> string \<Rightarrow> 'v \<Rightarrow> string list \<Rightarrow> string option \<Rightarrow> 'v cache_state \<Rightarrow> bool \<times> 'v cache_state" where
  "cache_set victims fits key v tags if_version s =
     (if if_version \<noteq> None \<and> if_version \<noteq> Some (version_of tags s) then (False, s)
      else (let (st, idx) = store_put victims fits key v tags (cs_cache s, cs_index s)
            in (True, s\<lparr>cs_cache := st, cs_index := idx\<rparr>)))"

definition get_memo :: "string \<Rightarrow> 'v cache_state \<Rightarrow> bool option" where
  "get_memo key s = map_option ce_value (map_of (cs_memo s) key)"

definition set_memo ::
  "string list \<Rightarrow> bool \<Rightarrow> string \<Rightarrow> bool \<Rightarrow> string list \<Rightarrow> string option \<Rightarrow> 'v cache_state \<Rightarrow> bool \<times> 'v cache_state" where
  "set_memo victims fits key v tags if_version s =
     (if if_version \<noteq> None \<and> if_version \<noteq> Some (version_of tags s) then (False, s)
      else (let (st, idx) = store_put victims fits key v tags (cs_memo s, cs_index s)
            in (True, s\<lparr>cs_memo := st, cs_index := idx\<rparr>)))"

text \<open>\<open>if (this.cache.delete(key)) purged++; else this.memoCache.delete(key);\<close>\<close>

definition purge_key :: "string \<Rightarrow> nat \<times> 'v cache_state \<Rightarrow> nat \<times> 'v cache_state" where
  "purge_key key ns =
     (let (n, s) = ns in
      case map_of (cs_cache s) key of
        Some _ \<Rightarrow> (let (st, idx) = store_drop key (cs_cache s, cs_index s)
                   in (n + 1, s\<lparr>cs_cache := st, cs_index := idx\<rparr>))
      | None \<Rightarrow> (let (st, idx) = store_drop key (cs_memo s, cs_index s)
                  in (n, s\<lparr>cs_memo := st, cs_index := idx\<rparr>)))"

definition purge_tag :: "string \<Rightarrow> 'v cache_state \<Rightarrow> nat \<times> 'v cache_state" where
  "purge_tag tag s =
     (let s1 = s\<lparr>cs_versions := (cs_versions s)(tag \<mapsto> tag_version s tag + 1)\<rparr>
      in case cs_index s1 tag of
           None \<Rightarrow> (0, s1)
         | Some keys \<Rightarrow>
             (let (n, s2) = fold purge_key keys (0, s1)
              in (n, s2\<lparr>cs_index := (cs_index s2)(tag := None)\<rparr>)))"

definition clear :: "'v cache_state \<Rightarrow> 'v cache_state" where
  "clear s = s\<lparr>cs_epoch := cs_epoch s + 1, cs_cache := [], cs_memo := [], cs_index := (\<lambda>_. None)\<rparr>"

record cache_stats =
  st_entries :: nat
  st_maxEntries :: nat
  st_hits :: nat
  st_misses :: nat
  st_hitRate :: "nat \<times> nat"
  st_uptimeSeconds :: int

text \<open>The hit rate is kept as the fraction the code divides out, \<open>0/1\<close> when nothing was read.\<close>

definition stats :: "nat \<Rightarrow> time \<Rightarrow> time \<Rightarrow> 'v cache_state \<Rightarrow> cache_stats" where
  "stats max_entries started now s =
     (let total = cs_hits s + cs_misses s
      in \<lparr>st_entries = length (cs_cache s), st_maxEntries = max_entries, st_hits = cs_hits s, st_misses = cs_misses s,
          st_hitRate = (if total = 0 then (0, 1) else (cs_hits s, total)),
          st_uptimeSeconds = (now - started) div 1000\<rparr>)"

text \<open>Expiry and eviction on the library's own account.\<close>

definition expire_entry :: "string \<Rightarrow> 'v cache_state \<Rightarrow> 'v cache_state" where
  "expire_entry key s =
     (let (st, idx) = store_drop key (cs_cache s, cs_index s) in s\<lparr>cs_cache := st, cs_index := idx\<rparr>)"

definition expire_memo :: "string \<Rightarrow> 'v cache_state \<Rightarrow> 'v cache_state" where
  "expire_memo key s =
     (let (st, idx) = store_drop key (cs_memo s, cs_index s) in s\<lparr>cs_memo := st, cs_index := idx\<rparr>)"

section \<open>Laws of the index\<close>

named_theorems index_simps

definition in_index :: "tag_index \<Rightarrow> string \<Rightarrow> string \<Rightarrow> bool" where
  "in_index idx tag key \<longleftrightarrow> (\<exists>keys. idx tag = Some keys \<and> key \<in> set keys)"

lemma in_index_tag_one [index_simps]:
  "in_index (tag_one key tag idx) t k \<longleftrightarrow> (t = tag \<and> k = key) \<or> in_index idx t k"
  by (auto simp: in_index_def tag_one_def split: option.splits)

lemma in_index_tag_key [index_simps]:
  "in_index (tag_key key tags idx) t k \<longleftrightarrow> (t \<in> set tags \<and> k = key) \<or> in_index idx t k"
  by (induction tags arbitrary: idx) (auto simp: tag_key_def in_index_tag_one)

lemma in_index_untag_one [index_simps]:
  "in_index (untag_one key tag idx) t k \<longleftrightarrow> in_index idx t k \<and> \<not> (t = tag \<and> k = key)"
proof (cases "idx tag")
  case None
  then show ?thesis by (auto simp: in_index_def untag_one_def)
next
  case (Some keys)
  have "in_index (untag_one key tag idx) tag k \<longleftrightarrow> k \<in> set (removeAll key keys)"
    using Some by (cases "removeAll key keys = []") (auto simp: in_index_def untag_one_def Let_def)
  moreover have "t \<noteq> tag \<Longrightarrow> untag_one key tag idx t = idx t"
    using Some by (simp add: untag_one_def Let_def)
  ultimately show ?thesis
    using Some by (cases "t = tag") (auto simp: in_index_def)
qed

lemma in_index_untag_key [index_simps]:
  "in_index (untag_key key tags idx) t k \<longleftrightarrow> in_index idx t k \<and> \<not> (t \<in> set tags \<and> k = key)"
  by (induction tags arbitrary: idx) (auto simp: untag_key_def in_index_untag_one)

section \<open>The interface of a tagged store\<close>

text \<open>
  What \<open>purgeTag\<close> needs of what it drops keys from: dropping a key removes its entry, and the
  index loses nothing about the other keys. One store is an instance, and so are the two
  stores behind \<open>purge_key\<close> as long as no key is in both.
\<close>

locale tagged_store =
  fixes contents :: "'s \<Rightarrow> (string \<times> string list) set"
    and index :: "'s \<Rightarrow> tag_index"
    and drop_key :: "string \<Rightarrow> 's \<Rightarrow> 's"
    and inv :: "'s \<Rightarrow> bool"
  assumes drop_inv: "inv s \<Longrightarrow> inv (drop_key k s)"
    and drop_contents: "inv s \<Longrightarrow> contents (drop_key k s) = {c \<in> contents s. fst c \<noteq> k}"
    and drop_index_sub: "in_index (index (drop_key k s)) t k' \<Longrightarrow> in_index (index s) t k'"
    and drop_index_keep: "k' \<noteq> k \<Longrightarrow> in_index (index s) t k' \<Longrightarrow> in_index (index (drop_key k s)) t k'"
begin

definition covered :: "'s \<Rightarrow> bool" where
  "covered s \<longleftrightarrow> inv s \<and> (\<forall>(k, tags) \<in> contents s. \<forall>t \<in> set tags. in_index (index s) t k)"

lemma coveredD: "covered s \<Longrightarrow> (k, tags) \<in> contents s \<Longrightarrow> t \<in> set tags \<Longrightarrow> in_index (index s) t k"
  by (auto simp: covered_def)

lemma drop_covered:
  assumes "covered s"
  shows "covered (drop_key k s)"
proof -
  have "in_index (index (drop_key k s)) t k'"
    if "(k', tags) \<in> contents (drop_key k s)" "t \<in> set tags" for k' tags t
    using that assms drop_contents [of s k]
    by (intro drop_index_keep) (auto simp: covered_def intro: coveredD)
  then show ?thesis using assms by (auto simp: covered_def drop_inv)
qed

lemma fold_drop_covered: "covered s \<Longrightarrow> covered (fold drop_key ks s)"
  by (induction ks arbitrary: s) (auto intro: drop_covered)

lemma fold_drop_contents: "inv s \<Longrightarrow> contents (fold drop_key ks s) = {c \<in> contents s. fst c \<notin> set ks}"
  by (induction ks arbitrary: s) (auto simp: drop_contents drop_inv)

lemma fold_drop_index_sub: "in_index (index (fold drop_key ks s)) t k \<Longrightarrow> in_index (index s) t k"
  by (induction ks arbitrary: s) (auto dest: drop_index_sub)

lemma purged:
  assumes "covered s" "\<And>k. in_index (index s) tag k \<Longrightarrow> k \<in> set keys"
  shows "\<forall>(k, tags) \<in> contents (fold drop_key keys s). tag \<notin> set tags"
  using assms by (auto simp: fold_drop_contents covered_def)

lemma unindexed_purged:
  assumes "covered s" "index s tag = None"
  shows "\<forall>(k, tags) \<in> contents s. tag \<notin> set tags"
  using assms by (fastforce simp: covered_def in_index_def)

end

definition store_contents :: "'v store \<Rightarrow> (string \<times> string list) set" where
  "store_contents st = (\<lambda>(k, e). (k, ce_tags e)) ` set st"

lemma filter_absent: "k \<notin> fst ` set st \<Longrightarrow> filter (\<lambda>kv. fst kv \<noteq> k) st = st"
  by (auto simp: filter_id_conv)

lemma map_of_key: "map_of st k = None \<longleftrightarrow> k \<notin> fst ` set st"
  by (rule map_of_eq_None_iff)

lemma store_drop_fst: "fst (store_drop k s) = filter (\<lambda>kv. fst kv \<noteq> k) (fst s)"
proof (cases "map_of (fst s) k")
  case None
  then have "k \<notin> fst ` set (fst s)" using map_of_key by metis
  with None show ?thesis by (simp add: store_drop_def filter_absent)
next
  case (Some e)
  then show ?thesis by (simp add: store_drop_def)
qed

lemma store_drop_index:
  "in_index (snd (store_drop k s)) t k' \<Longrightarrow> in_index (snd s) t k'"
  "k' \<noteq> k \<Longrightarrow> in_index (snd s) t k' \<Longrightarrow> in_index (snd (store_drop k s)) t k'"
  by (auto simp: store_drop_def index_simps split: option.splits)

lemma store_contents_filter: "store_contents (filter (\<lambda>kv. fst kv \<noteq> k) st) = {c \<in> store_contents st. fst c \<noteq> k}"
  by (auto simp: store_contents_def)

interpretation single: tagged_store "\<lambda>s. store_contents (fst s)" snd store_drop "\<lambda>s. distinct (map fst (fst s))"
  by unfold_locales
    (auto simp: store_drop_fst store_contents_filter intro: distinct_map_filter store_drop_index)

text \<open>The two stores together, with no key in both.\<close>

definition cache_contents :: "'v cache_state \<Rightarrow> (string \<times> string list) set" where
  "cache_contents s = store_contents (cs_cache s) \<union> store_contents (cs_memo s)"

definition keys_apart :: "'v cache_state \<Rightarrow> bool" where
  "keys_apart s \<longleftrightarrow> distinct (map fst (cs_cache s)) \<and> distinct (map fst (cs_memo s))
     \<and> fst ` set (cs_cache s) \<inter> fst ` set (cs_memo s) = {}"

definition purge_one :: "string \<Rightarrow> 'v cache_state \<Rightarrow> 'v cache_state" where
  "purge_one k s = snd (purge_key k (0, s))"

lemma purge_one_in_cache:
  assumes "k \<in> fst ` set (cs_cache s)"
  shows "purge_one k s = s\<lparr>cs_cache := fst (store_drop k (cs_cache s, cs_index s)),
      cs_index := snd (store_drop k (cs_cache s, cs_index s))\<rparr>"
proof -
  obtain e where "map_of (cs_cache s) k = Some e"
    using assms map_of_key [of "cs_cache s" k] by auto
  then show ?thesis by (simp add: purge_one_def purge_key_def split: prod.splits)
qed

lemma purge_one_not_in_cache:
  assumes "k \<notin> fst ` set (cs_cache s)"
  shows "purge_one k s = s\<lparr>cs_memo := fst (store_drop k (cs_memo s, cs_index s)),
      cs_index := snd (store_drop k (cs_memo s, cs_index s))\<rparr>"
  using assms map_of_key [of "cs_cache s" k]
  by (simp add: purge_one_def purge_key_def split: prod.splits)

lemma purge_one_stores:
  "cs_cache (purge_one k s) = filter (\<lambda>kv. fst kv \<noteq> k) (cs_cache s)"
  "cs_memo (purge_one k s) = (if k \<in> fst ` set (cs_cache s) then cs_memo s else filter (\<lambda>kv. fst kv \<noteq> k) (cs_memo s))"
  by (cases "k \<in> fst ` set (cs_cache s)";
      simp add: purge_one_in_cache purge_one_not_in_cache store_drop_fst filter_absent)+

lemma purge_one_index_sub: "in_index (cs_index (purge_one k s)) t k' \<Longrightarrow> in_index (cs_index s) t k'"
  using store_drop_index(1) [where s = "(cs_cache s, cs_index s)" and k = k]
    store_drop_index(1) [where s = "(cs_memo s, cs_index s)" and k = k]
  by (cases "k \<in> fst ` set (cs_cache s)") (simp_all add: purge_one_in_cache purge_one_not_in_cache)

lemma purge_one_index_keep:
  "k' \<noteq> k \<Longrightarrow> in_index (cs_index s) t k' \<Longrightarrow> in_index (cs_index (purge_one k s)) t k'"
  using store_drop_index(2) [where s = "(cs_cache s, cs_index s)" and k = k]
    store_drop_index(2) [where s = "(cs_memo s, cs_index s)" and k = k]
  by (cases "k \<in> fst ` set (cs_cache s)") (simp_all add: purge_one_in_cache purge_one_not_in_cache)

lemma purge_one_apart: "keys_apart s \<Longrightarrow> keys_apart (purge_one k s)"
  by (auto simp: keys_apart_def purge_one_stores intro: distinct_map_filter)

lemma purge_one_contents:
  assumes "keys_apart s"
  shows "cache_contents (purge_one k s) = {c \<in> cache_contents s. fst c \<noteq> k}"
proof (cases "k \<in> fst ` set (cs_cache s)")
  case True
  then have "filter (\<lambda>kv. fst kv \<noteq> k) (cs_memo s) = cs_memo s"
    using assms by (intro filter_absent) (auto simp: keys_apart_def)
  then have "store_contents (cs_memo s) = {c \<in> store_contents (cs_memo s). fst c \<noteq> k}"
    using store_contents_filter [of k "cs_memo s"] by simp
  then show ?thesis
    using True by (auto simp: cache_contents_def purge_one_stores store_contents_filter)
next
  case False
  then show ?thesis by (auto simp: cache_contents_def purge_one_stores store_contents_filter)
qed

interpretation service: tagged_store cache_contents cs_index purge_one keys_apart
  by unfold_locales (auto simp: purge_one_apart purge_one_contents intro: purge_one_index_sub purge_one_index_keep)

section \<open>Requests to the service\<close>

text \<open>
  The two callers' keys: \<open>CacheInterceptor.buildCacheKey\<close> starts every key with \<open>GET:\<close>,
  \<open>MediaService.isPubliclyReadable\<close> with \<open>asset-public:\<close>.
\<close>

definition response_key :: "string \<Rightarrow> string" where
  "response_key rest = ''GET:'' @ rest"

definition memo_key :: "string \<Rightarrow> string" where
  "memo_key asset_id = ''asset-public:'' @ asset_id"

datatype 'v cache_op =
    Get string
  | Set "string list" bool string 'v "string list" "string option"
  | SetMemo "string list" bool string bool "string list" "string option"
  | PurgeTag string
  | Clear
  | Expire string
  | ExpireMemo string

fun cache_step :: "'v cache_op \<Rightarrow> 'v cache_state \<Rightarrow> 'v cache_state" where
  "cache_step (Get rest) s = snd (cache_get (response_key rest) s)"
| "cache_step (Set victims fits rest v tags ver) s = snd (cache_set victims fits (response_key rest) v tags ver s)"
| "cache_step (SetMemo victims fits i b tags ver) s = snd (set_memo victims fits (memo_key i) b tags ver s)"
| "cache_step (PurgeTag t) s = snd (purge_tag t s)"
| "cache_step Clear s = clear s"
| "cache_step (Expire k) s = expire_entry k s"
| "cache_step (ExpireMemo k) s = expire_memo k s"

definition cache_wf :: "'v cache_state \<Rightarrow> bool" where
  "cache_wf s \<longleftrightarrow>
     keys_apart s
     \<and> (\<forall>k \<in> fst ` set (cs_cache s). take 4 k = ''GET:'')
     \<and> (\<forall>k \<in> fst ` set (cs_memo s). take 4 k \<noteq> ''GET:'')
     \<and> (\<forall>(k, tags) \<in> cache_contents s. \<forall>t \<in> set tags. in_index (cs_index s) t k)"

lemma response_key_prefix [simp]: "take 4 (response_key r) = ''GET:''" "take 4 (memo_key i) \<noteq> ''GET:''"
  by (simp_all add: response_key_def memo_key_def)

lemma cache_wf_covered: "cache_wf s \<Longrightarrow> service.covered s"
  by (simp add: cache_wf_def service.covered_def)

lemma cache_wf_index:
  "cache_wf s \<Longrightarrow> (k, tags) \<in> cache_contents s \<Longrightarrow> t \<in> set tags \<Longrightarrow> in_index (cs_index s) t k"
  by (auto simp: cache_wf_def)

lemma cache_wfI:
  assumes "keys_apart s" "\<And>k. k \<in> fst ` set (cs_cache s) \<Longrightarrow> take 4 k = ''GET:''"
    and "\<And>k. k \<in> fst ` set (cs_memo s) \<Longrightarrow> take 4 k \<noteq> ''GET:''"
    and "\<And>k tags t. (k, tags) \<in> store_contents (cs_cache s) \<Longrightarrow> t \<in> set tags \<Longrightarrow> in_index (cs_index s) t k"
    and "\<And>k tags t. (k, tags) \<in> store_contents (cs_memo s) \<Longrightarrow> t \<in> set tags \<Longrightarrow> in_index (cs_index s) t k"
  shows "cache_wf s"
proof -
  have "\<forall>(k, tags) \<in> cache_contents s. \<forall>t \<in> set tags. in_index (cs_index s) t k"
    using assms(4,5) by (auto simp: cache_contents_def)
  moreover have "\<forall>k \<in> fst ` set (cs_cache s). take 4 k = ''GET:''" "\<forall>k \<in> fst ` set (cs_memo s). take 4 k \<noteq> ''GET:''"
    using assms(2,3) by blast+
  ultimately show ?thesis using assms(1) by (simp add: cache_wf_def)
qed

lemma cache_wf_index_stores:
  "cache_wf s \<Longrightarrow> (k, tags) \<in> store_contents (cs_cache s) \<Longrightarrow> t \<in> set tags \<Longrightarrow> in_index (cs_index s) t k"
  "cache_wf s \<Longrightarrow> (k, tags) \<in> store_contents (cs_memo s) \<Longrightarrow> t \<in> set tags \<Longrightarrow> in_index (cs_index s) t k"
  by (erule cache_wf_index; simp add: cache_contents_def)+

lemma cache_wf_keys:
  assumes "cache_wf s"
  shows "k \<in> fst ` set (cs_cache s) \<Longrightarrow> take 4 k = ''GET:''"
    and "k \<in> fst ` set (cs_memo s) \<Longrightarrow> take 4 k \<noteq> ''GET:''"
    and "k \<in> fst ` set (cs_cache s) \<Longrightarrow> k \<notin> fst ` set (cs_memo s)"
  using assms unfolding cache_wf_def by blast+

text \<open>Inserting into one store.\<close>

lemma store_contents_Cons [simp]:
  "store_contents ((k, e) # st) = insert (k, ce_tags e) (store_contents st)"
  by (simp add: store_contents_def)

lemma keys_store_contents: "fst ` store_contents st = fst ` set st"
  by (auto simp: store_contents_def image_image case_prod_beta)

lemma store_drop_keep:
  "k \<notin> fst ` set (fst s) \<Longrightarrow> in_index (snd s) t k \<Longrightarrow> in_index (snd (store_drop j s)) t k"
  using store_drop_index(2) [of k j s t] map_of_key [of "fst s" j]
  by (cases "k = j") (auto simp: store_drop_def)

lemma fold_store_drop_keep:
  "k \<notin> fst ` set (fst s) \<Longrightarrow> in_index (snd s) t k \<Longrightarrow> in_index (snd (fold store_drop ks s)) t k"
proof (induction ks arbitrary: s)
  case (Cons j ks)
  have "k \<notin> fst ` set (fst (store_drop j s))"
    using Cons.prems(1) by (auto simp: store_drop_fst)
  then have "in_index (snd (fold store_drop ks (store_drop j s))) t k"
    using Cons.prems store_drop_keep by (intro Cons.IH)
  then show ?case by simp
qed simp

lemma fold_store_drop_other:
  "k \<notin> set ks \<Longrightarrow> in_index (snd s) t k \<Longrightarrow> in_index (snd (fold store_drop ks s)) t k"
proof (induction ks arbitrary: s)
  case (Cons j ks)
  have "in_index (snd (fold store_drop ks (store_drop j s))) t k"
    using Cons.prems store_drop_index(2) [of k j s t] by (intro Cons.IH) auto
  then show ?case by simp
qed simp

lemma fold_store_drop_distinct:
  "distinct (map fst (fst s)) \<Longrightarrow> distinct (map fst (fst (fold store_drop ks s)))"
proof (induction ks arbitrary: s)
  case (Cons j ks)
  have "distinct (map fst (fst (store_drop j s)))"
    using Cons.prems by (auto simp: store_drop_fst intro: distinct_map_filter)
  then have "distinct (map fst (fst (fold store_drop ks (store_drop j s))))"
    by (rule Cons.IH)
  then show ?case by simp
qed simp

lemma store_put_result:
  assumes "store_put victims fits key v tags (st, idx) = (st', idx')" "distinct (map fst st)"
  shows "distinct (map fst st')"
    and "store_contents st' \<subseteq> insert (key, tags) {c \<in> store_contents st. fst c \<noteq> key}"
    and "(k', tgs) \<in> store_contents st' \<Longrightarrow> t \<in> set tgs \<Longrightarrow>
      (\<forall>k tgs'. (k, tgs') \<in> store_contents st \<longrightarrow> (\<forall>t \<in> set tgs'. in_index idx t k)) \<Longrightarrow> in_index idx' t k'"
    and "k' \<noteq> key \<Longrightarrow> k' \<notin> fst ` set st \<Longrightarrow> in_index idx t k' \<Longrightarrow> in_index idx' t k'"
proof -
  define s1 where "s1 = (case map_of st key of None \<Rightarrow> (st, idx) | Some e \<Rightarrow> (st, untag_key key (ce_tags e) idx))"
  define s2 where "s2 = store_drop key s1"
  define vs where "vs = filter (\<lambda>k. k \<noteq> key) victims"
  define s3 where "s3 = fold store_drop vs s2"
  have out: "st' = (if fits then (key, \<lparr>ce_value = v, ce_tags = tags\<rparr>) # fst s3 else fst s3)"
      "idx' = tag_key key tags (snd s3)"
    using assms(1) by (cases "map_of st key"; auto simp: store_put_def Let_def s1_def s2_def s3_def vs_def)+
  have s1: "fst s1 = st" "\<And>t k. k \<noteq> key \<Longrightarrow> in_index idx t k \<Longrightarrow> in_index (snd s1) t k"
    by (auto simp: s1_def index_simps split: option.splits)
  have c2: "store_contents (fst s2) = {c \<in> store_contents st. fst c \<noteq> key}"
    by (simp add: s2_def store_drop_fst s1(1) store_contents_filter)
  have d2: "distinct (map fst (fst s2))"
    using assms(2) by (auto simp: s2_def store_drop_fst s1(1) intro: distinct_map_filter)
  have i2: "k \<noteq> key \<Longrightarrow> in_index idx t k \<Longrightarrow> in_index (snd s2) t k" for t k
    unfolding s2_def by (intro store_drop_index(2) s1(2))
  have c3: "store_contents (fst s3) = {c \<in> store_contents (fst s2). fst c \<notin> set vs}"
    unfolding s3_def using single.fold_drop_contents [OF d2] .
  have d3: "distinct (map fst (fst s3))"
    unfolding s3_def using d2 by (rule fold_store_drop_distinct)
  have nk: "key \<notin> fst ` set (fst s3)"
    unfolding keys_store_contents [symmetric] c3 c2 by auto
  show "distinct (map fst st')" using d3 nk by (simp add: out)
  show sub: "store_contents st' \<subseteq> insert (key, tags) {c \<in> store_contents st. fst c \<noteq> key}"
    using c3 c2 by (auto simp: out)
  have "k' \<notin> fst ` set st \<Longrightarrow> k' \<notin> fst ` set (fst s2)"
    by (auto simp: s2_def store_drop_fst s1(1))
  then show "k' \<noteq> key \<Longrightarrow> k' \<notin> fst ` set st \<Longrightarrow> in_index idx t k' \<Longrightarrow> in_index idx' t k'"
    unfolding out in_index_tag_key s3_def by (intro disjI2 fold_store_drop_keep i2) auto
  show "in_index idx' t k'" if "(k', tgs) \<in> store_contents st'" "t \<in> set tgs"
    "\<forall>k tgs'. (k, tgs') \<in> store_contents st \<longrightarrow> (\<forall>t \<in> set tgs'. in_index idx t k)"
  proof (cases "(k', tgs) = (key, tags)")
    case True
    then show ?thesis using that(2) by (simp add: out in_index_tag_key)
  next
    case False
    then have "(k', tgs) \<in> store_contents (fst s3)" using that(1) by (auto simp: out split: if_splits)
    then have "(k', tgs) \<in> store_contents st" "k' \<noteq> key" "k' \<notin> set vs" using c3 c2 by auto
    then show ?thesis
      using that(2,3) unfolding out in_index_tag_key s3_def by (intro disjI2 fold_store_drop_other i2) auto
  qed
qed

lemma cache_wf_put_cache:
  assumes "cache_wf s" "store_put victims fits key v tags (cs_cache s, cs_index s) = (st, idx)" "take 4 key = ''GET:''"
  shows "cache_wf (s\<lparr>cs_cache := st, cs_index := idx\<rparr>)"
proof -
  have d: "distinct (map fst (cs_cache s))" using assms(1) by (simp add: cache_wf_def keys_apart_def)
  note put = store_put_result [OF assms(2) d]
  have keys: "fst ` set st \<subseteq> insert key (fst ` set (cs_cache s))"
    using put(2) unfolding keys_store_contents [symmetric] by auto
  have memo: "\<And>k. k \<in> fst ` set (cs_memo s) \<Longrightarrow> k \<noteq> key \<and> k \<notin> fst ` set (cs_cache s)"
    using cache_wf_keys [OF assms(1)] assms(3) by blast
  have "keys_apart (s\<lparr>cs_cache := st, cs_index := idx\<rparr>)"
    using put(1) keys memo assms(1) by (auto simp: cache_wf_def keys_apart_def)
  moreover have "in_index idx t k"
    if c: "(k, tgs) \<in> store_contents st" and t: "t \<in> set tgs" for k tgs t
    using cache_wf_index_stores [OF assms(1)] by (intro put(3) [OF c t]) blast
  moreover have "in_index idx t k" if c: "(k, tgs) \<in> store_contents (cs_memo s)" and t: "t \<in> set tgs" for k tgs t
  proof -
    have "k \<in> fst ` set (cs_memo s)" using c unfolding keys_store_contents [symmetric] by force
    moreover have "in_index (cs_index s) t k"
      using cache_wf_index_stores [OF assms(1)] c t by blast
    ultimately show ?thesis using memo put(4) by blast
  qed
  moreover have "k \<in> fst ` set st \<Longrightarrow> take 4 k = ''GET:''" for k
    using keys cache_wf_keys(1) [OF assms(1)] assms(3) by blast
  ultimately show ?thesis
    using cache_wf_keys(2) [OF assms(1)] by (intro cache_wfI) simp_all
qed

lemma cache_wf_put_memo:
  assumes "cache_wf s" "store_put victims fits key v tags (cs_memo s, cs_index s) = (st, idx)" "take 4 key \<noteq> ''GET:''"
  shows "cache_wf (s\<lparr>cs_memo := st, cs_index := idx\<rparr>)"
proof -
  have d: "distinct (map fst (cs_memo s))" using assms(1) by (simp add: cache_wf_def keys_apart_def)
  note put = store_put_result [OF assms(2) d]
  have keys: "fst ` set st \<subseteq> insert key (fst ` set (cs_memo s))"
    using put(2) unfolding keys_store_contents [symmetric] by auto
  have cache: "\<And>k. k \<in> fst ` set (cs_cache s) \<Longrightarrow> k \<noteq> key \<and> k \<notin> fst ` set (cs_memo s)"
    using cache_wf_keys [OF assms(1)] assms(3) by blast
  have "keys_apart (s\<lparr>cs_memo := st, cs_index := idx\<rparr>)"
    using put(1) keys cache assms(1) by (auto simp: cache_wf_def keys_apart_def)
  moreover have "in_index idx t k"
    if c: "(k, tgs) \<in> store_contents st" and t: "t \<in> set tgs" for k tgs t
    using cache_wf_index_stores [OF assms(1)] by (intro put(3) [OF c t]) blast
  moreover have "in_index idx t k" if c: "(k, tgs) \<in> store_contents (cs_cache s)" and t: "t \<in> set tgs" for k tgs t
  proof -
    have "k \<in> fst ` set (cs_cache s)" using c unfolding keys_store_contents [symmetric] by force
    moreover have "in_index (cs_index s) t k"
      using cache_wf_index_stores [OF assms(1)] c t by blast
    ultimately show ?thesis using cache put(4) by blast
  qed
  moreover have "k \<in> fst ` set st \<Longrightarrow> take 4 k \<noteq> ''GET:''" for k
    using keys cache_wf_keys(2) [OF assms(1)] assms(3) by blast
  ultimately show ?thesis
    using cache_wf_keys(1) [OF assms(1)] by (intro cache_wfI) simp_all
qed

lemma cache_wf_cong:
  "cs_cache s' = cs_cache s \<Longrightarrow> cs_memo s' = cs_memo s \<Longrightarrow> cs_index s' = cs_index s \<Longrightarrow> cache_wf s' = cache_wf s"
  by (simp add: cache_wf_def keys_apart_def cache_contents_def)

text \<open>Dropping a key from one store: the other store's keys are not touched in the index.\<close>

lemma store_drop_subset: "store_contents (fst (store_drop k s)) \<subseteq> store_contents (fst s)"
  by (auto simp: store_drop_fst store_contents_filter)

lemma cache_wf_expire: "cache_wf s \<Longrightarrow> cache_wf (expire_entry k s)"
proof -
  assume wf: "cache_wf s"
  let ?d = "store_drop k (cs_cache s, cs_index s)"
  have eq: "expire_entry k s = s\<lparr>cs_cache := fst ?d, cs_index := snd ?d\<rparr>"
    by (simp add: expire_entry_def split: prod.splits)
  have f: "fst ?d = filter (\<lambda>kv. fst kv \<noteq> k) (cs_cache s)" by (simp add: store_drop_fst)
  have "in_index (snd ?d) t j" if "(j, tgs) \<in> store_contents (fst ?d)" "t \<in> set tgs" for j tgs t
    using that store_drop_index(2) [of j k "(cs_cache s, cs_index s)" t] cache_wf_index_stores [OF wf, of j tgs t]
    by (auto simp: f store_contents_filter)
  moreover have "in_index (snd ?d) t j" if c: "(j, tgs) \<in> store_contents (cs_memo s)" "t \<in> set tgs" for j tgs t
  proof -
    have "j \<in> fst ` set (cs_memo s)" using c unfolding keys_store_contents [symmetric] by force
    then have "j \<notin> fst ` set (cs_cache s)" using cache_wf_keys [OF wf] by blast
    then show ?thesis using cache_wf_index_stores(2) [OF wf c] store_drop_keep [of j "(cs_cache s, cs_index s)" t k]
      by simp
  qed
  moreover have "keys_apart (s\<lparr>cs_cache := fst ?d, cs_index := snd ?d\<rparr>)"
    using wf by (auto simp: cache_wf_def keys_apart_def f intro: distinct_map_filter)
  ultimately show ?thesis using wf by (auto simp: eq cache_wf_def cache_contents_def f)
qed

lemma cache_wf_expire_memo: "cache_wf s \<Longrightarrow> cache_wf (expire_memo k s)"
proof -
  assume wf: "cache_wf s"
  let ?d = "store_drop k (cs_memo s, cs_index s)"
  have eq: "expire_memo k s = s\<lparr>cs_memo := fst ?d, cs_index := snd ?d\<rparr>"
    by (simp add: expire_memo_def split: prod.splits)
  have f: "fst ?d = filter (\<lambda>kv. fst kv \<noteq> k) (cs_memo s)" by (simp add: store_drop_fst)
  have "in_index (snd ?d) t j" if "(j, tgs) \<in> store_contents (fst ?d)" "t \<in> set tgs" for j tgs t
    using that store_drop_index(2) [of j k "(cs_memo s, cs_index s)" t] cache_wf_index_stores [OF wf, of j tgs t]
    by (auto simp: f store_contents_filter)
  moreover have "in_index (snd ?d) t j" if c: "(j, tgs) \<in> store_contents (cs_cache s)" "t \<in> set tgs" for j tgs t
  proof -
    have "j \<in> fst ` set (cs_cache s)" using c unfolding keys_store_contents [symmetric] by force
    then have "j \<notin> fst ` set (cs_memo s)" using cache_wf_keys [OF wf] by blast
    then show ?thesis using cache_wf_index_stores(1) [OF wf c] store_drop_keep [of j "(cs_memo s, cs_index s)" t k]
      by simp
  qed
  moreover have "keys_apart (s\<lparr>cs_memo := fst ?d, cs_index := snd ?d\<rparr>)"
    using wf by (auto simp: cache_wf_def keys_apart_def f intro: distinct_map_filter)
  ultimately show ?thesis using wf by (auto simp: eq cache_wf_def cache_contents_def f)
qed

section \<open>Purging\<close>

lemma fold_purge_key: "snd (fold purge_key keys (n, s)) = fold purge_one keys s"
proof (induction keys arbitrary: n s)
  case (Cons k keys)
  have "purge_key k (n, s) = (fst (purge_key k (n, s)), purge_one k s)"
    by (auto simp: purge_key_def purge_one_def split: option.splits prod.splits)
  then show ?case using Cons by (metis fold_simps(2))
qed simp

definition bump :: "string \<Rightarrow> 'v cache_state \<Rightarrow> 'v cache_state" where
  "bump tag s = s\<lparr>cs_versions := (cs_versions s)(tag \<mapsto> tag_version s tag + 1)\<rparr>"

lemma bump_fields [simp]:
  "cs_cache (bump tag s) = cs_cache s" "cs_memo (bump tag s) = cs_memo s" "cs_index (bump tag s) = cs_index s"
  "cs_epoch (bump tag s) = cs_epoch s"
  by (simp_all add: bump_def)

definition purge_keys :: "string \<Rightarrow> 'v cache_state \<Rightarrow> string list" where
  "purge_keys tag s = (case cs_index s tag of None \<Rightarrow> [] | Some keys \<Rightarrow> keys)"

lemma snd_purge_tag:
  "snd (purge_tag tag s) = (let s2 = fold purge_one (purge_keys tag s) (bump tag s)
     in s2\<lparr>cs_index := (cs_index s2)(tag := None)\<rparr>)"
proof (cases "cs_index s tag")
  case None
  then have "s\<lparr>cs_versions := v, cs_index := (cs_index s)(tag := None)\<rparr> = s\<lparr>cs_versions := v\<rparr>" for v
    by (simp add: fun_upd_idem)
  then show ?thesis
    using None by (simp add: purge_tag_def Let_def purge_keys_def bump_def fun_upd_idem)
next
  case (Some keys)
  then show ?thesis
    using fold_purge_key [of keys 0 "bump tag s"]
    by (auto simp: purge_tag_def Let_def purge_keys_def bump_def split: prod.splits)
qed

lemma purge_keys_index: "in_index (cs_index s) tag k \<longleftrightarrow> k \<in> set (purge_keys tag s)"
  by (cases "cs_index s tag") (auto simp: in_index_def purge_keys_def)

lemma purge_one_frame:
  "cs_versions (purge_one k s) = cs_versions s \<and> cs_epoch (purge_one k s) = cs_epoch s"
  by (cases "k \<in> fst ` set (cs_cache s)") (simp_all add: purge_one_in_cache purge_one_not_in_cache)

lemma fold_purge_one_frame:
  "cs_versions (fold purge_one ks s) = cs_versions s \<and> cs_epoch (fold purge_one ks s) = cs_epoch s"
  by (induction ks arbitrary: s) (auto simp: purge_one_frame)

lemma fold_purge_one_sub:
  "set (cs_cache (fold purge_one ks s)) \<subseteq> set (cs_cache s) \<and> set (cs_memo (fold purge_one ks s)) \<subseteq> set (cs_memo s)"
proof (induction ks arbitrary: s)
  case (Cons k ks)
  have "set (cs_cache (purge_one k s)) \<subseteq> set (cs_cache s)" "set (cs_memo (purge_one k s)) \<subseteq> set (cs_memo s)"
    by (auto simp: purge_one_stores)
  then show ?case using Cons.IH [of "purge_one k s"] by auto
qed simp

lemma cache_wf_bump: "cache_wf (bump tag s) = cache_wf s"
  by (rule cache_wf_cong) auto

lemma purge_tag_result:
  assumes "cache_wf s"
  shows "cache_wf (snd (purge_tag tag s))"
    and "cache_contents (snd (purge_tag tag s)) = {(k, tags) \<in> cache_contents s. k \<notin> set (purge_keys tag s)}"
    and "\<forall>(k, tags) \<in> cache_contents (snd (purge_tag tag s)). tag \<notin> set tags"
proof -
  define s2 where "s2 = fold purge_one (purge_keys tag s) (bump tag s)"
  have eq: "snd (purge_tag tag s) = s2\<lparr>cs_index := (cs_index s2)(tag := None)\<rparr>"
    by (simp add: snd_purge_tag s2_def Let_def)
  have cov: "service.covered (bump tag s)" using assms cache_wf_covered cache_wf_bump by metis
  then have cov2: "service.covered s2" unfolding s2_def by (rule service.fold_drop_covered)
  have gone: "\<forall>(k, tags) \<in> cache_contents s2. tag \<notin> set tags"
    unfolding s2_def using purge_keys_index [of s tag] by (intro service.purged [OF cov]) simp
  have contents: "cache_contents (s2\<lparr>cs_index := i\<rparr>) = cache_contents s2" for i
    by (simp add: cache_contents_def)
  have bumpc: "cache_contents (bump tag s) = cache_contents s" by (simp add: cache_contents_def)
  have inv: "keys_apart (bump tag s)" using cov by (simp add: service.covered_def)
  have "cache_contents s2 = {c \<in> cache_contents s. fst c \<notin> set (purge_keys tag s)}"
    using service.fold_drop_contents [OF inv, of "purge_keys tag s"] by (simp add: s2_def bumpc)
  then show "cache_contents (snd (purge_tag tag s)) = {(k, tags) \<in> cache_contents s. k \<notin> set (purge_keys tag s)}"
    unfolding eq contents by (simp add: case_prod_beta' split_def)
  show "\<forall>(k, tags) \<in> cache_contents (snd (purge_tag tag s)). tag \<notin> set tags"
    using gone unfolding eq contents .
  have idx2: "in_index ((cs_index s2)(tag := None)) t k" if "(k, tags) \<in> cache_contents s2" "t \<in> set tags" for k tags t
  proof -
    have "t \<noteq> tag" using that gone by auto
    then show ?thesis using service.coveredD [OF cov2 that] by (simp add: in_index_def)
  qed
  have "(k, tags) \<in> store_contents (cs_cache s2) \<Longrightarrow> t \<in> set tags \<Longrightarrow> in_index ((cs_index s2)(tag := None)) t k"
    "(k, tags) \<in> store_contents (cs_memo s2) \<Longrightarrow> t \<in> set tags \<Longrightarrow> in_index ((cs_index s2)(tag := None)) t k" for k tags t
    by (erule idx2 [rotated]; simp add: cache_contents_def)+
  moreover have "keys_apart s2" using cov2 by (simp add: service.covered_def)
  moreover have "fst ` set (cs_cache s2) \<subseteq> fst ` set (cs_cache s)" "fst ` set (cs_memo s2) \<subseteq> fst ` set (cs_memo s)"
    using fold_purge_one_sub [of "purge_keys tag s" "bump tag s"] by (auto simp: s2_def)
  then have "k \<in> fst ` set (cs_cache s2) \<Longrightarrow> take 4 k = ''GET:''" "k \<in> fst ` set (cs_memo s2) \<Longrightarrow> take 4 k \<noteq> ''GET:''" for k
    using cache_wf_keys(1) [OF assms, of k] cache_wf_keys(2) [OF assms, of k] by (meson subsetD)+
  ultimately show "cache_wf (snd (purge_tag tag s))"
    unfolding eq by (intro cache_wfI) (simp_all add: keys_apart_def)
qed

section \<open>What a run of requests keeps\<close>

lemma cache_wf_clear: "cache_wf (clear s)"
  by (rule cache_wfI) (simp_all add: clear_def keys_apart_def store_contents_def)

lemma cache_wf_step: "cache_wf s \<Longrightarrow> cache_wf (cache_step op s)"
proof (cases op)
  case (Get k)
  then show "cache_wf s \<Longrightarrow> ?thesis"
    by (auto simp: cache_get_def split: option.splits intro: cache_wf_cong [THEN iffD2])
next
  case (Set vs f k v tags ver)
  then show "cache_wf s \<Longrightarrow> ?thesis"
    using cache_wf_put_cache [of s vs f "response_key k" v tags]
    by (auto simp: cache_set_def split: prod.splits)
next
  case (SetMemo vs f k v tags ver)
  then show "cache_wf s \<Longrightarrow> ?thesis"
    using cache_wf_put_memo [of s vs f "memo_key k" v tags]
    by (auto simp: set_memo_def split: prod.splits)
qed (auto intro: purge_tag_result(1) cache_wf_clear cache_wf_expire cache_wf_expire_memo)

interpretation cache_runs: kept_invariant cache_step cache_wf
  by unfold_locales (rule cache_wf_step)

lemma cache_wf_empty: "cache_wf empty_cache"
  by (rule cache_wfI) (simp_all add: empty_cache_def keys_apart_def store_contents_def)

lemma map_of_contents: "map_of st k = Some e \<Longrightarrow> (k, ce_tags e) \<in> store_contents st"
  by (force simp: store_contents_def dest: map_of_SomeD)

text \<open>
  Whatever lookups, insertions, purges, clears and library evictions
  came before, purging a tag leaves no page response and no publication memo carrying it, so no
  later lookup can return one, and invents no entry.
\<close>

theorem purge_removes_tagged:
  assumes "s = fold cache_step ops empty_cache" and "s' = snd (purge_tag tag s)"
  shows "(\<forall>k e. map_of (cs_cache s') k = Some e \<longrightarrow> tag \<notin> set (ce_tags e))
    \<and> (\<forall>k e. map_of (cs_memo s') k = Some e \<longrightarrow> tag \<notin> set (ce_tags e))
    \<and> cache_contents s' \<subseteq> cache_contents s"
proof -
  have "cache_wf s" unfolding assms(1) by (intro cache_runs.fold_inv cache_wf_empty)
  note purged = purge_tag_result [OF this, of tag, folded assms(2)]
  have "(k, tags) \<in> store_contents (cs_cache s') \<Longrightarrow> tag \<notin> set tags"
    "(k, tags) \<in> store_contents (cs_memo s') \<Longrightarrow> tag \<notin> set tags" for k tags
    using purged(3) by (auto simp: cache_contents_def)
  then have "\<forall>k e. map_of (cs_cache s') k = Some e \<longrightarrow> tag \<notin> set (ce_tags e)"
    "\<forall>k e. map_of (cs_memo s') k = Some e \<longrightarrow> tag \<notin> set (ce_tags e)"
    using map_of_contents by metis+
  moreover have "cache_contents s' \<subseteq> cache_contents s"
    using purged(2) by auto
  ultimately show ?thesis by blast
qed

definition sample_cache_ops :: "nat cache_op list" where
  "sample_cache_ops = [Set [] True ''/news:'' 1 [''news'', ''home''] None, SetMemo [] True ''7'' True [''news''] None]"

theorem purge_removes_tagged_witness:
  "\<not> (\<exists>k e. map_of (cs_cache (snd (purge_tag ''news'' (fold cache_step sample_cache_ops empty_cache)))) k = Some e
     \<and> ''news'' \<in> set (ce_tags e))"
  using purge_removes_tagged [OF refl refl, of "''news''" sample_cache_ops] by blast

section \<open>Snapshots\<close>

lemma tag_version_step:
  "tag_version (cache_step op s) t = tag_version s t + (if op = PurgeTag t then 1 else 0)"
  "cs_epoch (cache_step op s) = cs_epoch s + (if op = Clear then 1 else 0)"
  by (cases op; auto simp: cache_get_def cache_set_def set_memo_def clear_def expire_entry_def expire_memo_def
        tag_version_def snd_purge_tag Let_def fold_purge_one_frame bump_def split: option.splits prod.splits)+

lemma tag_version_run:
  "tag_version (fold cache_step ops s) t = tag_version s t + count_list ops (PurgeTag t)"
  "cs_epoch (fold cache_step ops s) = cs_epoch s + count_list ops Clear"
  by (induction ops arbitrary: s) (auto simp: tag_version_step)

lemma version_of_eq:
  "version_of tags s = version_of tags s' \<longleftrightarrow>
    cs_epoch s = cs_epoch s' \<and> (\<forall>t \<in> set tags. tag_version s t = tag_version s' t)"
proof
  assume eq: "version_of tags s = version_of tags s'"
  have nd: "\<not> is_digit (CHR '':'')" "\<not> is_digit (CHR '','')" by (simp_all add: is_digit_def)
  have "show_nat (cs_epoch s) = show_nat (cs_epoch s') \<and>
      join_with '','' (map (\<lambda>t. show_nat (tag_version s t)) tags)
      = join_with '','' (map (\<lambda>t. show_nat (tag_version s' t)) tags)"
    using eq digit_not_sep [OF nd(1)]
    by (intro append_sep_inj [where c = "CHR '':''"]) (auto simp: version_of_def)
  then have "cs_epoch s = cs_epoch s'" "map (tag_version s) tags = map (tag_version s') tags"
    using join_nats_inj [OF nd(2), of "map (tag_version s) tags" "map (tag_version s') tags"]
    by (auto simp: comp_def)
  then show "cs_epoch s = cs_epoch s' \<and> (\<forall>t \<in> set tags. tag_version s t = tag_version s' t)" by simp
next
  assume "cs_epoch s = cs_epoch s' \<and> (\<forall>t \<in> set tags. tag_version s t = tag_version s' t)"
  then show "version_of tags s = version_of tags s'"
    by (simp add: version_of_def cong: map_cong)
qed

lemma version_of_run:
  "version_of tags s = version_of tags (fold cache_step ops s) \<longleftrightarrow>
    Clear \<notin> set ops \<and> (\<forall>t \<in> set tags. PurgeTag t \<notin> set ops)"
  by (auto simp: version_of_eq tag_version_run count_list_0_iff)

text \<open>
  A value read under a snapshot of its tags' versions is stored,
  in either store, exactly when none of those tags was purged and nothing was cleared since the
  snapshot was taken, whatever else happened in between; a refused insertion changes nothing.
\<close>

theorem stale_snapshot_refused:
  assumes "s = fold cache_step ops s0" and "purged = (Clear \<in> set ops \<or> (\<exists>t \<in> set tags. PurgeTag t \<in> set ops))"
  shows "fst (cache_set vs fits key v tags (Some (version_of tags s0)) s) = (\<not> purged)
    \<and> fst (set_memo vs fits mkey b tags (Some (version_of tags s0)) s) = (\<not> purged)
    \<and> (purged \<longrightarrow> snd (cache_set vs fits key v tags (Some (version_of tags s0)) s) = s
         \<and> snd (set_memo vs fits mkey b tags (Some (version_of tags s0)) s) = s)
    \<and> (\<not> purged \<longrightarrow> fits \<longrightarrow>
         fst (cache_get key (snd (cache_set vs fits key v tags (Some (version_of tags s0)) s))) = Some v)"
proof -
  have eq: "(version_of tags s0 = version_of tags s) = (\<not> purged)"
    unfolding assms by (auto simp: version_of_run)
  have put: "map_of (fst (store_put vs True key v tags st)) key = Some \<lparr>ce_value = v, ce_tags = tags\<rparr>"
    for st :: "'a store \<times> tag_index"
    by (simp add: store_put_def Let_def)
  show ?thesis
  proof (cases purged)
    case True
    then show ?thesis using eq by (auto simp: cache_set_def set_memo_def)
  next
    case False
    then show ?thesis using eq put [of "(cs_cache s, cs_index s)"]
      by (auto simp: cache_set_def set_memo_def cache_get_def split: prod.splits)
  qed
qed

theorem stale_snapshot_refused_witness:
  "\<not> fst (cache_set [] True ''GET:/x:'' (1::nat) [''home''] (Some (version_of [''home''] (empty_cache :: nat cache_state)))
     (fold cache_step [PurgeTag ''home''] empty_cache))"
  using stale_snapshot_refused [OF refl refl, of "[]" True "''GET:/x:''" "1::nat" "[''home'']" empty_cache "[PurgeTag ''home'']"]
  by simp

end
