(* ===== verification/CacheHttp.thy ===== *)
theory CacheHttp
  imports CacheStore
begin

text \<open>
  The cache as requests meet it: \<open>common/query/list-params.ts\<close>, the route decorators and
  \<open>cache/cache.interceptor.ts\<close> (key, lookup, snapshot, conditional store, response headers),
  \<open>cache/cache-tag-registry.ts\<close> and \<open>cache-tag-assertion.ts\<close> (the boot check), and
  \<open>cache/cache.controller.ts\<close>. A handler is a function from the cache as it is when the handler
  starts to its outcome and the cache as it is when the handler ends: everything other requests
  do meanwhile is in the second.
\<close>

section \<open>Query strings\<close>

text \<open>\<open>querystring.parse\<close> gives a string, or an array for a repeated key.\<close>

datatype query_value = QStr string | QArr "string list"

type_synonym query = "(string \<times> query_value) list"

definition as_string :: "query_value option \<Rightarrow> string option" where
  "as_string v = (case v of Some (QStr s) \<Rightarrow> Some s | _ \<Rightarrow> None)"

definition read_string :: "query \<Rightarrow> string \<Rightarrow> string option" where
  "read_string q key = as_string (map_of q key)"

text \<open>\<open>String(value)\<close>: an array prints as its elements joined by commas.\<close>

fun to_js_string :: "query_value \<Rightarrow> string" where
  "to_js_string (QStr s) = s"
| "to_js_string (QArr xs) = join_with '','' xs"

text \<open>
  \<open>Number.parseInt(s, 10)\<close>: leading white space, an optional sign, then the longest run of
  digits; no digits is \<open>NaN\<close>.
\<close>

definition parse_int :: "string \<Rightarrow> int option" where
  "parse_int s =
     (let t = dropWhile is_space s;
          neg = (t \<noteq> [] \<and> hd t = CHR ''-'');
          u = (if t \<noteq> [] \<and> hd t \<in> {CHR ''-'', CHR ''+''} then tl t else t);
          ds = takeWhile is_digit u
      in if ds = [] then None else Some (if neg then - int (read_nat ds) else int (read_nat ds)))"

definition MAX_OFFSET :: int where "MAX_OFFSET = 20000"

record page_limit =
  pl_page :: int
  pl_limit :: int
  pl_offset :: int
  pl_beyondMaxOffset :: bool

text \<open>\<open>parseInt(..) || d\<close> replaces both \<open>NaN\<close> and 0 by \<open>d\<close>.\<close>

definition or_default :: "int option \<Rightarrow> int \<Rightarrow> int" where
  "or_default v d = (case v of None \<Rightarrow> d | Some n \<Rightarrow> if n = 0 then d else n)"

definition read_page_limit :: "int \<Rightarrow> int \<Rightarrow> query \<Rightarrow> page_limit" where
  "read_page_limit default_limit max_limit q =
     (let page_raw = (case read_string q ''page'' of None \<Rightarrow> ''1'' | Some s \<Rightarrow> s);
          page = max 1 (or_default (parse_int page_raw) 1);
          limit = min max_limit (max 1 (case read_string q ''limit'' of
                    None \<Rightarrow> default_limit | Some s \<Rightarrow> or_default (parse_int s) default_limit));
          raw = (page - 1) * limit
      in \<lparr>pl_page = page, pl_limit = limit, pl_offset = min raw MAX_OFFSET, pl_beyondMaxOffset = (MAX_OFFSET < raw)\<rparr>)"

definition escape_like_value :: "string \<Rightarrow> string" where
  "escape_like_value v =
     concat (map (\<lambda>c. if c \<in> {CHR 0x5C, CHR ''%'', CHR ''_''} then [CHR 0x5C, c] else [c]) v)"

section \<open>The interceptor\<close>

record cached_route =
  cr_tags :: "string list"
  cr_keyParams :: "string list option"
  cr_previewAware :: bool

definition cache_key_params :: "cached_route \<Rightarrow> string list" where
  "cache_key_params r = (case cr_keyParams r of None \<Rightarrow> [] | Some ks \<Rightarrow> ks)"

definition build_cache_key :: "string \<Rightarrow> query \<Rightarrow> string list \<Rightarrow> string" where
  "build_cache_key path q params =
     (let parts = concat (map (\<lambda>k. case map_of q k of None \<Rightarrow> [] | Some v \<Rightarrow> [k @ ''='' @ to_js_string v]) params)
      in ''GET:'' @ path @ '':'' @ join_with ''&'' parts)"

record 'v handled =
  hd_body :: 'v
  hd_skipCacheWrite :: bool
  hd_previewVerified :: bool

datatype cache_headers = NoCacheHeaders | PublicMaxAge | PrivateNoStore

definition intercept ::
  "cached_route \<Rightarrow> string \<Rightarrow> string \<Rightarrow> query \<Rightarrow> ('v cache_state \<Rightarrow> 'v handled res \<times> 'v cache_state)
     \<Rightarrow> string list \<Rightarrow> bool \<Rightarrow> 'v cache_state \<Rightarrow> 'v res \<times> cache_headers \<times> 'v cache_state" where
  "intercept r method path q handle victims fits s =
     (if method \<noteq> ''GET'' then
        (case handle s of
           (Inl e, s') \<Rightarrow> (Inl e, NoCacheHeaders, s')
         | (Inr h, s') \<Rightarrow> (Inr (hd_body h), NoCacheHeaders, s'))
      else
        (let preview_requested = (cr_previewAware r \<and> map_of q ''preview'' \<noteq> None);
             key = build_cache_key path q (cache_key_params r);
             (cached, s1) = (if preview_requested then (None, s) else cache_get key s)
         in case cached of
              Some v \<Rightarrow> (Inr v, PublicMaxAge, s1)
            | None \<Rightarrow>
                (let version = version_of (cr_tags r) s1
                 in case handle s1 of
                      (Inl e, s2) \<Rightarrow> (Inl e, NoCacheHeaders, s2)
                    | (Inr h, s2) \<Rightarrow>
                        if hd_previewVerified h then (Inr (hd_body h), PrivateNoStore, s2)
                        else if hd_skipCacheWrite h then (Inr (hd_body h), PublicMaxAge, s2)
                        else (Inr (hd_body h), PublicMaxAge,
                              snd (cache_set victims fits key (hd_body h) (cr_tags r) (Some version) s2)))))"

section \<open>The boot check\<close>

definition declare_purger :: "string option list \<Rightarrow> string set \<Rightarrow> string set" where
  "declare_purger tags purgers = purgers \<union> {t. Some t \<in> set tags \<and> t \<noteq> []}"

definition collect_served_tags :: "(string \<times> cached_route) list \<Rightarrow> string set \<times> string list" where
  "collect_served_tags handlers =
     (\<Union> (set (map (\<lambda>(_, r). set (cr_tags r)) handlers)),
      map fst (filter (\<lambda>(_, r). cr_keyParams r = None) handlers))"

definition on_application_bootstrap :: "(string \<times> cached_route) list \<Rightarrow> string set \<Rightarrow> unit res" where
  "on_application_bootstrap handlers purged =
     (let (served, undeclared) = collect_served_tags handlers
      in if undeclared \<noteq> [] then Inl (OtherExn ''Cached route handler(s) with @CacheTags but no @CacheKeyParams'')
         else if \<not> served \<subseteq> purged then Inl (OtherExn ''Cache tag(s) served by a route but purged by nothing'')
         else Inr ())"

section \<open>The admin's purge\<close>

definition clear_route :: "query_value option \<Rightarrow> 'v cache_state \<Rightarrow> (nat \<times> string option) \<times> 'v cache_state" where
  "clear_route tag_raw s =
     (case tag_raw of
        Some _ \<Rightarrow>
          (case as_string tag_raw of
             Some t \<Rightarrow> if t \<noteq> [] then (let (n, s') = purge_tag t s in ((n, Some t), s')) else ((0, Some t), s)
           | None \<Rightarrow> ((0, None), s))
      | None \<Rightarrow> ((length (cs_cache s), None), clear s))"

section \<open>Paging parameters\<close>

text \<open>
  Whatever the query string holds, the page is at least 1, the limit
  between 1 and the route's maximum, and the offset handed to the database at most 20000; when
  the requested page lies beyond that the flag is set, otherwise the offset is exact.
\<close>

theorem page_limit_bounds:
  assumes "1 \<le> default_limit" "1 \<le> max_limit" and "pl = read_page_limit default_limit max_limit q"
  shows "1 \<le> pl_page pl \<and> 1 \<le> pl_limit pl \<and> pl_limit pl \<le> max_limit
    \<and> 0 \<le> pl_offset pl \<and> pl_offset pl \<le> 20000
    \<and> (pl_beyondMaxOffset pl \<longleftrightarrow> 20000 < (pl_page pl - 1) * pl_limit pl)
    \<and> (\<not> pl_beyondMaxOffset pl \<longrightarrow> pl_offset pl = (pl_page pl - 1) * pl_limit pl)"
  using assms(1,2) unfolding assms(3)
  by (simp add: read_page_limit_def Let_def MAX_OFFSET_def)

theorem page_limit_bounds_witness:
  "pl_offset (read_page_limit 12 48 [(''page'', QStr ''900000000''), (''limit'', QStr ''-5'')]) \<le> 20000"
  using page_limit_bounds [OF _ _ refl, of 12 48] by simp

section \<open>What is never stored\<close>

lemma cache_get_frame [simp]:
  "cs_cache (snd (cache_get k s)) = cs_cache s" "version_of tags (snd (cache_get k s)) = version_of tags s"
  by (auto simp: cache_get_def version_of_def tag_version_def split: option.splits)

text \<open>
  A failed handler, a response shown to the holder of a preview token
  and a response the handler asked not to cache all leave the store exactly as the handler left
  it; a failure carries no cache headers and a preview is marked private. A preview request on
  a route that supports previews is never answered from the cache.
\<close>

theorem private_never_stored:
  assumes "handle s1 = (out, s2)" and "s1 = (if preview then s else snd (cache_get (build_cache_key path q (cache_key_params r)) s))"
    and "preview = (cr_previewAware r \<and> map_of q ''preview'' \<noteq> None)"
    and "preview \<or> fst (cache_get (build_cache_key path q (cache_key_params r)) s) = None"
    and "\<forall>h. out = Inr h \<longrightarrow> hd_previewVerified h \<or> hd_skipCacheWrite h"
  shows "snd (snd (intercept r ''GET'' path q handle victims fits s)) = s2
    \<and> (\<forall>e. out = Inl e \<longrightarrow> intercept r ''GET'' path q handle victims fits s = (Inl e, NoCacheHeaders, s2))
    \<and> (\<forall>h. out = Inr h \<and> hd_previewVerified h \<longrightarrow>
         intercept r ''GET'' path q handle victims fits s = (Inr (hd_body h), PrivateNoStore, s2))"
proof -
  let ?key = "build_cache_key path q (cache_key_params r)"
  have "intercept r ''GET'' path q handle victims fits s =
      (case out of Inl e \<Rightarrow> (Inl e, NoCacheHeaders, s2)
       | Inr h \<Rightarrow> if hd_previewVerified h then (Inr (hd_body h), PrivateNoStore, s2)
                 else (Inr (hd_body h), PublicMaxAge, s2))"
    using assms
    by (cases preview; cases out; cases "cache_get ?key s") (auto simp: intercept_def Let_def)
  then show ?thesis by (auto split: sum.splits)
qed

definition news_route :: cached_route where
  "news_route = \<lparr>cr_tags = [''news''], cr_keyParams = Some [], cr_previewAware = True\<rparr>"

theorem private_never_stored_witness:
  "snd (snd (intercept news_route ''GET'' ''/news/x'' [(''preview'', QStr ''t'')]
     (\<lambda>s. (Inr \<lparr>hd_body = (1::nat), hd_skipCacheWrite = False, hd_previewVerified = True\<rparr>, s)) [] True empty_cache)) = empty_cache"
  using private_never_stored [of "\<lambda>s. (Inr \<lparr>hd_body = (1::nat), hd_skipCacheWrite = False, hd_previewVerified = True\<rparr>, s)"
      empty_cache _ empty_cache True empty_cache "''/news/x''" "[(''preview'', QStr ''t'')]" news_route "[]" True]
  by (simp add: news_route_def)

section \<open>Cached pages against the database\<close>

text \<open>
  Requests interleave: a write commits and its purges follow one by one; a read misses, takes
  its snapshot, reads the database and stores, each a step of its own. \<open>render key d\<close> is what
  the handler of \<open>key\<close> makes of database content \<open>d\<close>, \<open>tags key\<close> the tags of its route. A
  write announces the tags it will purge, which must meet the tags of every page it changes:
  that is the contract \<open>CacheTagAssertion\<close> exists for.
\<close>

datatype 'v flight = Missed string string | Rendered string string 'v

record ('d, 'v) site =
  site_db :: 'd
  site_cache :: "'v cache_state"
  site_pending :: "string set"
  site_flights :: "'v flight list"

inductive site_step ::
  "(string \<Rightarrow> 'd \<Rightarrow> 'v) \<Rightarrow> (string \<Rightarrow> string list) \<Rightarrow> ('d, 'v) site \<Rightarrow> ('d, 'v) site \<Rightarrow> bool"
  for render tags where
  written: "(\<And>k. render k d \<noteq> render k (site_db w) \<Longrightarrow> set (tags k) \<inter> set ts \<noteq> {}) \<Longrightarrow>
    site_step render tags w (w\<lparr>site_db := d, site_pending := site_pending w \<union> set ts\<rparr>)"
| purged: "site_step render tags w
    (w\<lparr>site_cache := cache_step (PurgeTag t) (site_cache w), site_pending := site_pending w - {t}\<rparr>)"
| missed: "site_step render tags w
    (w\<lparr>site_cache := cache_step (Get k) (site_cache w),
       site_flights := Missed k (version_of (tags k) (site_cache w)) # site_flights w\<rparr>)"
| handled: "site_flights w = fs @ Missed k ver # gs \<Longrightarrow>
    site_step render tags w (w\<lparr>site_flights := fs @ Rendered k ver (render k (site_db w)) # gs\<rparr>)"
| stored: "site_flights w = fs @ Rendered k ver v # gs \<Longrightarrow>
    site_step render tags w
      (w\<lparr>site_cache := cache_step (Set vs fits k v (tags k) (Some ver)) (site_cache w), site_flights := fs @ gs\<rparr>)"
| lost: "site_flights w = fs @ f # gs \<Longrightarrow> site_step render tags w (w\<lparr>site_flights := fs @ gs\<rparr>)"
| housekeeping: "op \<in> {Expire j, ExpireMemo j, Clear} \<Longrightarrow>
    site_step render tags w (w\<lparr>site_cache := cache_step op (site_cache w)\<rparr>)"

definition initial_site :: "'d \<Rightarrow> ('d, 'v) site" where
  "initial_site d = \<lparr>site_db = d, site_cache = empty_cache, site_pending = {}, site_flights = []\<rparr>"

definition reachable_site :: "(string \<Rightarrow> 'd \<Rightarrow> 'v) \<Rightarrow> (string \<Rightarrow> string list) \<Rightarrow> 'd \<Rightarrow> ('d, 'v) site \<Rightarrow> bool" where
  "reachable_site render tags d w \<longleftrightarrow> (site_step render tags)\<^sup>*\<^sup>* (initial_site d) w"

text \<open>
  The invariant: an entry or a finished rendering is what the handler would answer now, or one
  of its tags is still to be purged, or, for a rendering, was purged after its snapshot.
\<close>

definition fresh :: "(string \<Rightarrow> 'd \<Rightarrow> 'v) \<Rightarrow> (string \<Rightarrow> string list) \<Rightarrow> ('d, 'v) site \<Rightarrow> string \<Rightarrow> 'v \<Rightarrow> bool" where
  "fresh render tags w k v \<longleftrightarrow> v = render k (site_db w) \<or> set (tags k) \<inter> site_pending w \<noteq> {}"

definition since :: "string \<Rightarrow> string list \<Rightarrow> 'v cache_state \<Rightarrow> bool \<Rightarrow> bool" where
  "since ver ts c purged \<longleftrightarrow> (\<exists>c0 ops. ver = version_of ts c0 \<and> c = fold cache_step ops c0
     \<and> (purged \<longrightarrow> Clear \<in> set ops \<or> (\<exists>t \<in> set ts. PurgeTag t \<in> set ops)))"

fun flight_ok :: "(string \<Rightarrow> 'd \<Rightarrow> 'v) \<Rightarrow> (string \<Rightarrow> string list) \<Rightarrow> ('d, 'v) site \<Rightarrow> 'v flight \<Rightarrow> bool" where
  "flight_ok render tags w (Missed k ver) = since ver (tags k) (site_cache w) False"
| "flight_ok render tags w (Rendered k ver v) =
     (since ver (tags k) (site_cache w) False \<and> (fresh render tags w k v \<or> since ver (tags k) (site_cache w) True))"

definition entry_ok :: "(string \<Rightarrow> 'd \<Rightarrow> 'v) \<Rightarrow> (string \<Rightarrow> string list) \<Rightarrow> ('d, 'v) site \<Rightarrow> string \<times> 'v cache_entry \<Rightarrow> bool" where
  "entry_ok render tags w ke \<longleftrightarrow> (\<exists>k. fst ke = response_key k \<and> ce_tags (snd ke) = tags k
     \<and> fresh render tags w k (ce_value (snd ke)))"

definition coherent :: "(string \<Rightarrow> 'd \<Rightarrow> 'v) \<Rightarrow> (string \<Rightarrow> string list) \<Rightarrow> ('d, 'v) site \<Rightarrow> bool" where
  "coherent render tags w \<longleftrightarrow>
     cache_wf (site_cache w)
     \<and> (\<forall>ke \<in> set (cs_cache (site_cache w)). entry_ok render tags w ke)
     \<and> (\<forall>f \<in> set (site_flights w). flight_ok render tags w f)"

lemma since_step: "since ver ts c p \<Longrightarrow> since ver ts (cache_step op c) p"
proof -
  assume "since ver ts c p"
  then obtain c0 ops where "ver = version_of ts c0" "c = fold cache_step ops c0"
    "p \<longrightarrow> Clear \<in> set ops \<or> (\<exists>t \<in> set ts. PurgeTag t \<in> set ops)"
    by (auto simp: since_def)
  then show ?thesis
    unfolding since_def by (intro exI [of _ c0] exI [of _ "ops @ [op]"]) auto
qed

lemma since_purge: "since ver ts c p \<Longrightarrow> t \<in> set ts \<Longrightarrow> since ver ts (cache_step (PurgeTag t) c) True"
proof -
  assume "since ver ts c p" "t \<in> set ts"
  then obtain c0 ops where "ver = version_of ts c0" "c = fold cache_step ops c0"
    by (auto simp: since_def)
  then show ?thesis
    using \<open>t \<in> set ts\<close> unfolding since_def by (intro exI [of _ c0] exI [of _ "ops @ [PurgeTag t]"]) auto
qed

lemma since_now: "since (version_of ts c) ts c False"
  unfolding since_def by (intro exI [of _ c] exI [of _ "[]"]) simp

lemma since_True_refused:
  assumes "since ver ts c True"
  shows "ver \<noteq> version_of ts c"
  using assms by (auto simp: since_def version_of_run)

text \<open>Entries of the response store under each request.\<close>

lemma store_drop_set: "set (fst (store_drop k s)) \<subseteq> set (fst s)"
  by (auto simp: store_drop_fst)

lemma fold_store_drop_set: "set (fst (fold store_drop ks s)) \<subseteq> set (fst s)"
proof (induction ks arbitrary: s)
  case (Cons k ks)
  show ?case using Cons.IH [of "store_drop k s"] store_drop_set [of k s] by simp
qed simp

lemma store_put_set:
  assumes "store_put vs fits key v tags (st, idx) = (st', idx')"
  shows "set st' \<subseteq> insert (key, \<lparr>ce_value = v, ce_tags = tags\<rparr>) (set st)"
proof -
  define s1 where "s1 = (case map_of st key of None \<Rightarrow> (st, idx) | Some e \<Rightarrow> (st, untag_key key (ce_tags e) idx))"
  define s3 where "s3 = fold store_drop (filter (\<lambda>k. k \<noteq> key) vs) (store_drop key s1)"
  have "st' = (if fits then (key, \<lparr>ce_value = v, ce_tags = tags\<rparr>) # fst s3 else fst s3)"
    using assms by (cases "map_of st key") (auto simp: store_put_def Let_def s1_def s3_def)
  moreover have "fst s1 = st" by (simp add: s1_def split: option.splits)
  then have "set (fst s3) \<subseteq> set st"
    using fold_store_drop_set [of "filter (\<lambda>k. k \<noteq> key) vs" "store_drop key s1"] store_drop_set [of key s1]
    by (auto simp: s3_def)
  ultimately show ?thesis by auto
qed

lemma cache_step_other_entries:
  assumes "\<And>vs f k v ts ver. op \<noteq> Set vs f k v ts ver"
  shows "set (cs_cache (cache_step op c)) \<subseteq> set (cs_cache c)"
proof (cases op)
  case (Set vs f k v ts ver)
  then show ?thesis using assms by simp
next
  case (PurgeTag t)
  then show ?thesis
    using fold_purge_one_sub [of "purge_keys t c" "bump t c"] by (simp add: snd_purge_tag Let_def)
next
  case (Expire k)
  then show ?thesis by (auto simp: expire_entry_def store_drop_def split: prod.splits option.splits)
qed (auto simp: cache_get_def set_memo_def clear_def expire_memo_def split: option.splits prod.splits)

lemma fresh_cong:
  "site_pending w' = site_pending w \<Longrightarrow> site_db w' = site_db w \<Longrightarrow> fresh render tags w' = fresh render tags w"
  by (intro ext) (simp add: fresh_def)

lemma entry_ok_mono:
  "entry_ok render tags w ke \<Longrightarrow> (\<And>k v. fresh render tags w k v \<Longrightarrow> fresh render tags w' k v) \<Longrightarrow> entry_ok render tags w' ke"
  unfolding entry_ok_def by blast

lemma flight_ok_mono:
  assumes "flight_ok render tags w f" "\<And>k v. fresh render tags w k v \<Longrightarrow> fresh render tags w' k v"
    and "site_cache w' = site_cache w \<or> (\<exists>op. site_cache w' = cache_step op (site_cache w))"
  shows "flight_ok render tags w' f"
proof -
  have s: "since ver ts (site_cache w) p \<Longrightarrow> since ver ts (site_cache w') p" for ver ts p
    using assms(3) since_step by metis
  show ?thesis
  proof (cases f)
    case (Missed k ver)
    then show ?thesis using assms(1) s by simp
  next
    case (Rendered k ver v)
    then have "since ver (tags k) (site_cache w) False"
      "fresh render tags w k v \<or> since ver (tags k) (site_cache w) True"
      using assms(1) by simp_all
    then have "since ver (tags k) (site_cache w') False"
      "fresh render tags w' k v \<or> since ver (tags k) (site_cache w') True"
      using s assms(2) by blast+
    then show ?thesis using Rendered by simp
  qed
qed

lemma coherentI:
  assumes "coherent render tags w" "\<And>k v. fresh render tags w k v \<Longrightarrow> fresh render tags w' k v"
    and "site_cache w' = site_cache w \<or>
      (\<exists>op. site_cache w' = cache_step op (site_cache w) \<and> (\<forall>vs f k v ts ver. op \<noteq> Set vs f k v ts ver))"
    and "\<And>f. f \<in> set (site_flights w') \<Longrightarrow> f \<in> set (site_flights w) \<or> flight_ok render tags w' f"
  shows "coherent render tags w'"
proof -
  have "cache_wf (site_cache w')"
    using assms(1,3) cache_wf_step unfolding coherent_def by metis
  moreover have "set (cs_cache (site_cache w')) \<subseteq> set (cs_cache (site_cache w))"
    using assms(3) cache_step_other_entries by (metis order_refl)
  then have "entry_ok render tags w' ke" if "ke \<in> set (cs_cache (site_cache w'))" for ke
    using that assms(1) entry_ok_mono [OF _ assms(2)] unfolding coherent_def by blast
  moreover have "site_cache w' = site_cache w \<or> (\<exists>op. site_cache w' = cache_step op (site_cache w))"
    using assms(3) by blast
  then have "flight_ok render tags w' f" if "f \<in> set (site_flights w')" for f
    using that assms(1,4) flight_ok_mono [OF _ assms(2)] unfolding coherent_def by blast
  ultimately show ?thesis unfolding coherent_def by blast
qed

lemma coherent_purged:
  assumes "coherent render tags w"
  shows "coherent render tags
    (w\<lparr>site_cache := cache_step (PurgeTag t) (site_cache w), site_pending := site_pending w - {t}\<rparr>)"
proof -
  let ?c = "cache_step (PurgeTag t) (site_cache w)"
  let ?w = "w\<lparr>site_cache := ?c, site_pending := site_pending w - {t}\<rparr>"
  have wf: "cache_wf (site_cache w)" using assms by (simp add: coherent_def)
  have fresh: "fresh render tags w k v \<Longrightarrow> t \<notin> set (tags k) \<Longrightarrow> fresh render tags ?w k v" for k v
    by (auto simp: fresh_def)
  have "entry_ok render tags ?w ke" if ke: "ke \<in> set (cs_cache ?c)" for ke
  proof -
    have "ke \<in> set (cs_cache (site_cache w))"
      using ke cache_step_other_entries [of "PurgeTag t" "site_cache w"] by auto
    then have ok: "entry_ok render tags w ke" using assms by (simp add: coherent_def)
    have "(fst ke, ce_tags (snd ke)) \<in> cache_contents ?c"
      using ke by (force simp: cache_contents_def store_contents_def)
    then have "t \<notin> set (ce_tags (snd ke))"
      using purge_tag_result(3) [OF wf, of t] by auto
    then show ?thesis using ok fresh unfolding entry_ok_def by metis
  qed
  moreover have "flight_ok render tags ?w f" if ok: "flight_ok render tags w f" for f
  proof (cases f)
    case (Missed k ver)
    then have "since ver (tags k) (site_cache w) False" using ok by simp
    then have "since ver (tags k) ?c False" by (rule since_step)
    then show ?thesis using Missed by (simp del: cache_step.simps)
  next
    case (Rendered k ver v)
    then have s: "since ver (tags k) (site_cache w) False"
      and d: "fresh render tags w k v \<or> since ver (tags k) (site_cache w) True" using ok by simp_all
    have "since ver (tags k) ?c False" using s by (rule since_step)
    moreover have "t \<in> set (tags k) \<Longrightarrow> since ver (tags k) ?c True" using s by (rule since_purge)
    moreover have "since ver (tags k) (site_cache w) True \<Longrightarrow> since ver (tags k) ?c True" by (rule since_step)
    ultimately show ?thesis using Rendered fresh d by (auto simp del: cache_step.simps)
  qed
  ultimately show ?thesis using assms cache_wf_step [OF wf]
    by (simp add: coherent_def del: cache_step.simps)
qed

lemma coherent_stored:
  assumes "coherent render tags w" "site_flights w = fs @ Rendered k ver v # gs"
  shows "coherent render tags
    (w\<lparr>site_cache := cache_step (Set vs fits k v (tags k) (Some ver)) (site_cache w), site_flights := fs @ gs\<rparr>)"
proof -
  let ?op = "Set vs fits k v (tags k) (Some ver)"
  let ?c = "cache_step ?op (site_cache w)"
  let ?w = "w\<lparr>site_cache := ?c, site_flights := fs @ gs\<rparr>"
  have fresh: "fresh render tags ?w = fresh render tags w" by (rule fresh_cong) simp_all
  have fl: "flight_ok render tags w (Rendered k ver v)" using assms by (simp add: coherent_def)
  have "entry_ok render tags ?w ke" if ke: "ke \<in> set (cs_cache ?c)" for ke
  proof (cases "ke \<in> set (cs_cache (site_cache w))")
    case True
    then show ?thesis using assms(1) by (simp add: coherent_def entry_ok_def fresh del: cache_step.simps)
  next
    case False
    have current: "ver = version_of (tags k) (site_cache w)"
      using ke False by (auto simp: cache_set_def split: if_splits)
    then have ok: "fresh render tags w k v" using fl since_True_refused by fastforce
    obtain st idx where put: "store_put vs fits (response_key k) v (tags k)
        (cs_cache (site_cache w), cs_index (site_cache w)) = (st, idx)" by fastforce
    then have "cs_cache ?c = st" using current by (simp add: cache_set_def)
    then have "ke = (response_key k, \<lparr>ce_value = v, ce_tags = tags k\<rparr>)"
      using ke False store_put_set [OF put] by blast
    then show ?thesis using ok
      by (auto simp: entry_ok_def fresh simp del: cache_step.simps intro!: exI [of _ k])
  qed
  moreover have "flight_ok render tags ?w f" if "flight_ok render tags w f" for f
    using that by (rule flight_ok_mono) (auto simp: fresh simp del: cache_step.simps)
  ultimately show ?thesis using assms cache_wf_step [of "site_cache w" ?op]
    by (simp add: coherent_def del: cache_step.simps)
qed

lemma coherent_step: "site_step render tags w w' \<Longrightarrow> coherent render tags w \<Longrightarrow> coherent render tags w'"
proof (induction rule: site_step.induct)
  case (written d w ts)
  have "fresh render tags w k v \<Longrightarrow>
      fresh render tags (w\<lparr>site_db := d, site_pending := site_pending w \<union> set ts\<rparr>) k v" for k v
    using written(1) [of k] by (auto simp: fresh_def)
  then show ?case by (intro coherentI [OF written(2)]) auto
next
  case (purged w t)
  then show ?case by (rule coherent_purged)
next
  case (missed w k)
  have "since (version_of (tags k) (site_cache w)) (tags k) (cache_step (Get k) (site_cache w)) False"
    by (intro since_step since_now)
  then show ?case
    by (intro coherentI [OF missed]) (auto simp: fresh_def simp del: cache_step.simps)
next
  case (handled w fs k ver gs)
  then have "since ver (tags k) (site_cache w) False" by (simp add: coherent_def)
  then show ?case
    using handled(1) by (intro coherentI [OF handled(2)]) (auto simp: fresh_def)
next
  case (stored w fs k ver v gs vs fits)
  then show ?case by (intro coherent_stored)
next
  case (lost w fs f gs)
  then show ?case by (intro coherentI [OF lost(2)]) (auto simp: fresh_def)
next
  case (housekeeping op j w)
  then have "\<forall>vs f k v ts ver. op \<noteq> Set vs f k v ts ver" by auto
  then have "\<exists>o'. cache_step op (site_cache w) = cache_step o' (site_cache w) \<and> (\<forall>vs f k v ts ver. o' \<noteq> Set vs f k v ts ver)"
    by blast
  then show ?case
    by (intro coherentI [OF housekeeping(2)]) (simp_all add: fresh_def)
qed

lemma coherent_initial: "coherent render tags (initial_site d)"
  by (simp add: coherent_def initial_site_def cache_wf_empty) (simp add: empty_cache_def)

lemma coherent_reachable:
  assumes "reachable_site render tags d w"
  shows "coherent render tags w"
  using assms unfolding reachable_site_def
  by (induction rule: rtranclp_induct) (auto intro: coherent_initial coherent_step)

text \<open>
  In every reachable state of interleaved writes, purges, reads and
  evictions, a cached page is exactly what its handler would answer from the database now,
  unless one of its tags is still to be purged by a committed write; once the purges are done,
  the cache answers as if it were not there.
\<close>

theorem cached_pages_fresh:
  assumes "reachable_site render tags d w"
    and "map_of (cs_cache (site_cache w)) (response_key k) = Some e"
    and "set (tags k) \<inter> site_pending w = {}"
  shows "ce_value e = render k (site_db w) \<and> ce_tags e = tags k"
proof -
  have "(response_key k, e) \<in> set (cs_cache (site_cache w))"
    using assms(2) by (rule map_of_SomeD)
  then have "entry_ok render tags w (response_key k, e)"
    using coherent_reachable [OF assms(1)] by (simp add: coherent_def)
  then show ?thesis
    using assms(3) by (auto simp: entry_ok_def response_key_def fresh_def)
qed

definition sample_site :: "(nat, nat) site" where
  "sample_site = \<lparr>site_db = 3,
     site_cache = cache_step (Set [] True ''/n:'' 3 [''news''] (Some (version_of [''news''] (empty_cache :: nat cache_state))))
       (cache_step (Get ''/n:'') empty_cache),
     site_pending = {}, site_flights = []\<rparr>"

theorem cached_pages_fresh_witness:
  "\<exists>e. map_of (cs_cache (site_cache sample_site)) (response_key ''/n:'') = Some e \<and> ce_value e = 3"
proof -
  let ?render = "\<lambda>_ d. d :: nat" and ?tags = "\<lambda>_ :: string. [''news'']"
  let ?ver = "version_of [''news''] (empty_cache :: nat cache_state)"
  let ?w1 = "\<lparr>site_db = 3, site_cache = cache_step (Get ''/n:'') empty_cache, site_pending = {},
      site_flights = [Missed ''/n:'' ?ver]\<rparr>"
  let ?w2 = "?w1\<lparr>site_flights := [Rendered ''/n:'' ?ver 3]\<rparr>"
  have "site_step ?render ?tags (initial_site 3) ?w1"
    using site_step.missed [of ?render ?tags "initial_site 3" "''/n:''"]
    by (simp add: initial_site_def del: cache_step.simps)
  moreover have "site_step ?render ?tags ?w1 ?w2"
    using site_step.handled [of ?w1 "[]" "''/n:''" ?ver "[]" ?render ?tags] by (simp del: cache_step.simps)
  moreover have "site_step ?render ?tags ?w2 sample_site"
    using site_step.stored [of ?w2 "[]" "''/n:''" ?ver 3 "[]" ?render ?tags "[]" True]
    by (simp add: sample_site_def del: cache_step.simps)
  ultimately have "reachable_site ?render ?tags 3 sample_site"
    unfolding reachable_site_def by (meson converse_rtranclp_into_rtranclp rtranclp.rtrancl_refl)
  moreover have "site_pending sample_site = {}" "site_db sample_site = 3" by (simp_all add: sample_site_def)
  moreover obtain e where "map_of (cs_cache (site_cache sample_site)) (response_key ''/n:'') = Some e"
    by (simp add: sample_site_def cache_set_def cache_get_def store_put_def empty_cache_def version_of_def tag_version_def
        Let_def split: option.splits prod.splits)
  ultimately show ?thesis
    using cached_pages_fresh [of ?render ?tags 3 sample_site "''/n:''"] by auto
qed

end
