(* ===== verification/CrudKernel.thy ===== *)
theory CrudKernel
  imports Guards CacheHttp
begin

text \<open>
  \<open>common/crud/crud.factory.ts\<close>: the kernel behind most admin collections, over rows of any
  type \<open>'e\<close>. \<open>crud_options\<close> are the factory's options together with the columns the kernel
  itself reads. A handler returns its result, the tables, the audit context it leaves on the
  request and the cache tags it purged, in order. SQL text comparison is the parameter \<open>ceq\<close>;
  the id in a path is compared with the id column by \<open>id_eq\<close>. What a \<open>DELETE\<close> meets in other
  tables is the parameter \<open>referenced\<close>, what a unique key refuses is \<open>duplicate\<close>.
\<close>

section \<open>Redirect rows\<close>

record redirect =
  rd_id :: string
  rd_fromPath :: string
  rd_toPath :: string
  rd_statusCode :: nat
  rd_hits :: nat

text \<open>\<open>clearRedirectsInto\<close> and the rewrite of a renamed path in \<open>saveWithRedirect\<close>.\<close>

definition clear_redirects_into ::
  "(string \<Rightarrow> string \<Rightarrow> bool) \<Rightarrow> string \<Rightarrow> redirect list \<Rightarrow> redirect list" where
  "clear_redirects_into ceq path rs =
     delete_rows (\<lambda>r. ceq (rd_fromPath r) path \<or> ceq (rd_fromPath r) (rd_toPath r)) rs"

definition move_redirects ::
  "(string \<Rightarrow> string \<Rightarrow> bool) \<Rightarrow> string \<Rightarrow> string \<Rightarrow> string \<Rightarrow> redirect list \<Rightarrow> redirect list" where
  "move_redirects ceq new_id from_path to_path rs =
     (let repointed = update_rows (\<lambda>r. ceq (rd_toPath r) from_path) (\<lambda>r. r\<lparr>rd_toPath := to_path\<rparr>) rs;
          left = delete_rows (\<lambda>r. ceq (rd_fromPath r) from_path) repointed
      in left @ [\<lparr>rd_id = new_id, rd_fromPath = from_path, rd_toPath = to_path, rd_statusCode = 301, rd_hits = 0\<rparr>])"

section \<open>Options and state\<close>

record 'e crud_options =
  o_entityType :: string
  o_extraPurgeTags :: "string list"
  o_deleteArea :: area
  o_publishable :: bool
  o_sortable :: bool
  o_searchable :: "('e \<Rightarrow> string option) list"
  o_column :: "string \<Rightarrow> ('e \<Rightarrow> string \<Rightarrow> bool) option"
  o_sortOrder :: "'e \<Rightarrow> int"
  o_rowNumber :: "'e \<Rightarrow> int"
  o_listEnrich :: "('e list \<Rightarrow> 'e list) option"
  o_label :: "'e \<Rightarrow> string"
  o_id :: "'e \<Rightarrow> string"
  o_isPublished :: "'e \<Rightarrow> bool"
  o_setPublished :: "bool \<Rightarrow> 'e \<Rightarrow> 'e"
  o_setSortOrder :: "int \<Rightarrow> 'e \<Rightarrow> 'e"
  o_slug :: "'e \<Rightarrow> string"
  o_publishRules :: "('e \<Rightarrow> unit res) option"
  o_onPublish :: "('e \<Rightarrow> 'e) option"
  o_publishWarnings :: "('e \<Rightarrow> string list) option"
  o_redirectFrom :: "('e \<Rightarrow> string option) option"
  o_duplicate :: "'e \<Rightarrow> 'e list \<Rightarrow> bool"
  o_referenced :: "'e \<Rightarrow> bool"

record asset_row =
  as_id :: string
  as_isImage :: bool
  as_altAr :: "string option"

record 'e crud_db =
  cd_rows :: "'e list"
  cd_redirects :: "redirect list"
  cd_assets :: "asset_row list"

record 'e audit_context =
  ac_action :: audit_action
  ac_entityType :: string
  ac_entityId :: "string option"
  ac_entityLabel :: string
  ac_before :: "'e option"
  ac_after :: "'e option"

type_synonym ('e, 'a) handler_result = "'a res \<times> 'e crud_db \<times> 'e audit_context option \<times> string list"

text \<open>A created or updated row comes back with its warnings when the collection declares them.\<close>

type_synonym 'e with_warnings = "'e \<times> string list option"

section \<open>Shared steps\<close>

definition is_row_referenced_error :: "exn \<Rightarrow> bool" where
  "is_row_referenced_error e =
     (case e of QueryFailed code errno \<Rightarrow> code = Some ''ER_ROW_IS_REFERENCED_2'' \<or> errno = Some 1451 | _ \<Rightarrow> False)"

definition assert_alt_text_ready :: "(string \<Rightarrow> string \<Rightarrow> bool) \<Rightarrow> asset_row list \<Rightarrow> string list \<Rightarrow> unit res" where
  "assert_alt_text_ready id_eq assets asset_ids =
     (if asset_ids = [] then Inr ()
      else case List.find (\<lambda>r. as_isImage r \<and> (as_altAr r = None \<or> as_altAr r = Some []))
                  (filter (\<lambda>r. \<exists>i \<in> set asset_ids. id_eq (as_id r) i) assets) of
             Some r \<Rightarrow> fail_with 409 ALT_TEXT_REQUIRED
                         ''This image needs Arabic alt text before it can be attached'' [(''assetId'', JStr (as_id r))]
           | None \<Rightarrow> Inr ())"

definition find_or_not_found :: "'e crud_options \<Rightarrow> (string \<Rightarrow> string \<Rightarrow> bool) \<Rightarrow> string \<Rightarrow> 'e crud_db \<Rightarrow> 'e res" where
  "find_or_not_found opts id_eq i db =
     (case List.find (\<lambda>e. id_eq (o_id opts e) i) (cd_rows db) of
        None \<Rightarrow> fail 404 NOT_FOUND ''Not found''
      | Some e \<Rightarrow> Inr e)"

definition run_rules :: "'e crud_options \<Rightarrow> 'e \<Rightarrow> unit res" where
  "run_rules opts e = (case o_publishRules opts of None \<Rightarrow> Inr () | Some f \<Rightarrow> f e)"

definition run_on_publish :: "'e crud_options \<Rightarrow> 'e \<Rightarrow> 'e" where
  "run_on_publish opts e = (case o_onPublish opts of None \<Rightarrow> e | Some f \<Rightarrow> f e)"

definition apply_publish_rules :: "'e crud_options \<Rightarrow> 'e \<Rightarrow> 'e res" where
  "apply_publish_rules opts e =
     (let e' = run_on_publish opts e in case run_rules opts e' of Inl x \<Rightarrow> Inl x | Inr _ \<Rightarrow> Inr e')"

definition with_row_warnings :: "'e crud_options \<Rightarrow> 'e \<Rightarrow> 'e with_warnings" where
  "with_row_warnings opts e =
     (case o_publishWarnings opts of
        None \<Rightarrow> (e, None)
      | Some f \<Rightarrow> (e, Some (if o_isPublished opts e then f e else [])))"

definition purge_list :: "'e crud_options \<Rightarrow> string list" where
  "purge_list opts = o_entityType opts # o_extraPurgeTags opts"

definition save_row :: "'e crud_options \<Rightarrow> 'e \<Rightarrow> 'e list \<Rightarrow> 'e list res" where
  "save_row opts e rows =
     (if o_duplicate opts e (filter (\<lambda>r. o_id opts r \<noteq> o_id opts e) rows)
      then Inl (QueryFailed (Some ''ER_DUP_ENTRY'') (Some 1062))
      else Inr (if o_id opts e \<in> o_id opts ` set rows
                then update_rows (\<lambda>r. o_id opts r = o_id opts e) (\<lambda>_. e) rows else rows @ [e]))"

text \<open>The save of an update: its tables and whether the redirects tag is purged.\<close>

definition save_with_redirect ::
  "'e crud_options \<Rightarrow> (string \<Rightarrow> string \<Rightarrow> bool) \<Rightarrow> string \<Rightarrow> 'e \<Rightarrow> 'e \<Rightarrow> 'e crud_db \<Rightarrow> ('e crud_db \<times> string list) res" where
  "save_with_redirect opts ceq redirect_id entity before db =
     (let plain = (case save_row opts entity (cd_rows db) of
                     Inl x \<Rightarrow> Inl x | Inr rows \<Rightarrow> Inr (db\<lparr>cd_rows := rows\<rparr>, []))
      in case o_redirectFrom opts of
           None \<Rightarrow> plain
         | Some path_of \<Rightarrow>
             if o_slug opts before = [] \<or> o_slug opts entity = [] \<or> o_slug opts before = o_slug opts entity then plain
             else (case path_of entity of
                     None \<Rightarrow> plain
                   | Some to_path \<Rightarrow> if to_path = [] then plain else
                       (case save_row opts entity (cd_rows db) of
                          Inl x \<Rightarrow> Inl x
                        | Inr rows \<Rightarrow>
                            (let moved = (case path_of before of
                                            Some from_path \<Rightarrow>
                                              if o_isPublished opts before \<and> from_path \<noteq> [] \<and> from_path \<noteq> to_path
                                              then move_redirects ceq redirect_id from_path to_path (cd_redirects db)
                                              else cd_redirects db
                                          | None \<Rightarrow> cd_redirects db)
                             in Inr (db\<lparr>cd_rows := rows, cd_redirects := clear_redirects_into ceq to_path moved\<rparr>,
                                     [''redirects''])))))"

section \<open>The list route\<close>

definition RESERVED_QUERY_KEYS :: "string list" where
  "RESERVED_QUERY_KEYS = [''page'', ''limit'', ''q'', ''published'']"

definition DEFAULT_PAGE_SIZE :: int where "DEFAULT_PAGE_SIZE = 20"
definition MAX_PAGE_SIZE :: int where "MAX_PAGE_SIZE = 100"

text \<open>
  SQL's \<open>LIKE \<dots> ESCAPE '\\'\<close>, with the collation's comparison of characters as a parameter.
\<close>

function sql_like :: "(char \<Rightarrow> char \<Rightarrow> bool) \<Rightarrow> string \<Rightarrow> string \<Rightarrow> bool" where
  "sql_like ceq [] s = (s = [])"
| "sql_like ceq (c # p) s =
     (if c = CHR 0x5C then
        (case p of
           [] \<Rightarrow> False
         | d # p' \<Rightarrow> (case s of [] \<Rightarrow> False | x # s' \<Rightarrow> ceq d x \<and> sql_like ceq p' s'))
      else if c = CHR ''%'' then
        sql_like ceq p s \<or> (case s of [] \<Rightarrow> False | x # s' \<Rightarrow> sql_like ceq (c # p) s')
      else (case s of [] \<Rightarrow> False | x # s' \<Rightarrow> (c = CHR ''_'' \<or> ceq c x) \<and> sql_like ceq p s'))"
  by pat_completeness auto
termination by (relation "measure (\<lambda>(_, p, s). length p + length s)") auto

record 'e paged_result =
  pg_data :: "'e list"
  pg_total :: nat
  pg_page :: int
  pg_limit :: int

text \<open>\<open>id DESC\<close>, or \<open>sort_order ASC, id ASC\<close> for a sortable collection.\<close>

definition in_list_order :: "'e crud_options \<Rightarrow> 'e list \<Rightarrow> 'e list" where
  "in_list_order opts rows =
     (if o_sortable opts then sort_key (o_sortOrder opts) (sort_key (o_rowNumber opts) rows)
      else sort_key (\<lambda>e. - o_rowNumber opts e) rows)"

definition list_filter :: "'e crud_options \<Rightarrow> (char \<Rightarrow> char \<Rightarrow> bool) \<Rightarrow> query \<Rightarrow> 'e \<Rightarrow> bool" where
  "list_filter opts ceq q e \<longleftrightarrow>
     (case read_string q ''q'' of
        None \<Rightarrow> True
      | Some t \<Rightarrow> t = [] \<or> o_searchable opts = []
          \<or> (\<exists>f \<in> set (o_searchable opts). case f e of
                None \<Rightarrow> False
              | Some v \<Rightarrow> sql_like ceq (''%'' @ escape_like_value t @ ''%'') v))
     \<and> (case read_string q ''published'' of
           None \<Rightarrow> True
         | Some p \<Rightarrow> o_publishable opts \<longrightarrow> o_isPublished opts e = (p = ''true''))
     \<and> (\<forall>(k, v) \<in> set q. k \<notin> set RESERVED_QUERY_KEYS \<longrightarrow>
           (case o_column opts k of
              None \<Rightarrow> True
            | Some matches \<Rightarrow> (case v of QStr w \<Rightarrow> matches e w | QArr _ \<Rightarrow> True)))"

definition crud_list :: "'e crud_options \<Rightarrow> (char \<Rightarrow> char \<Rightarrow> bool) \<Rightarrow> query \<Rightarrow> 'e crud_db \<Rightarrow> 'e paged_result" where
  "crud_list opts ceq q db =
     (let pl = read_page_limit DEFAULT_PAGE_SIZE MAX_PAGE_SIZE q;
          rows = in_list_order opts (filter (list_filter opts ceq q) (cd_rows db));
          page = take (nat (pl_limit pl)) (drop (nat (pl_offset pl)) rows);
          data = (if pl_beyondMaxOffset pl then []
                  else if page = [] then page
                  else case o_listEnrich opts of None \<Rightarrow> page | Some f \<Rightarrow> f page)
      in \<lparr>pg_data = data, pg_total = length rows, pg_page = pl_page pl, pg_limit = pl_limit pl\<rparr>)"

section \<open>The handlers\<close>

definition crud_get :: "'e crud_options \<Rightarrow> (string \<Rightarrow> string \<Rightarrow> bool) \<Rightarrow> string \<Rightarrow> 'e crud_db \<Rightarrow> 'e res" where
  "crud_get opts id_eq i db = find_or_not_found opts id_eq i db"

definition crud_create ::
  "'e crud_options \<Rightarrow> (string \<Rightarrow> string \<Rightarrow> bool) \<Rightarrow> (string \<Rightarrow> string \<Rightarrow> bool) \<Rightarrow> string list \<Rightarrow> 'e \<Rightarrow> 'e crud_db
     \<Rightarrow> ('e, 'e with_warnings) handler_result" where
  "crud_create opts id_eq ceq asset_ids draft db =
     (case assert_alt_text_ready id_eq (cd_assets db) asset_ids of
        Inl x \<Rightarrow> (Inl x, db, None, [])
      | Inr _ \<Rightarrow>
          (case (if o_isPublished opts draft then apply_publish_rules opts draft else Inr draft) of
             Inl x \<Rightarrow> (Inl x, db, None, [])
           | Inr e \<Rightarrow>
               (case save_row opts e (cd_rows db) of
                  Inl x \<Rightarrow> (Inl x, db, None, [])
                | Inr rows \<Rightarrow>
                    (let live = (case o_redirectFrom opts of None \<Rightarrow> None | Some f \<Rightarrow> f e);
                         (rs, tags) = (case live of
                                         Some p \<Rightarrow> if p \<noteq> [] then (clear_redirects_into ceq p (cd_redirects db), [''redirects''])
                                                   else (cd_redirects db, [])
                                       | None \<Rightarrow> (cd_redirects db, []))
                     in (Inr (with_row_warnings opts e),
                         db\<lparr>cd_rows := rows, cd_redirects := rs\<rparr>,
                         Some \<lparr>ac_action = ACreate, ac_entityType = o_entityType opts, ac_entityId = Some (o_id opts e),
                               ac_entityLabel = o_label opts e, ac_before = None, ac_after = Some e\<rparr>,
                         tags @ purge_list opts)))))"

text \<open>\<open>UPDATE \<dots> WHERE id = ?\<close> per item; the audit label carries the count.\<close>

definition crud_reorder ::
  "'e crud_options \<Rightarrow> (string \<Rightarrow> string \<Rightarrow> bool) \<Rightarrow> (string \<times> int) list \<Rightarrow> 'e crud_db \<Rightarrow> ('e, nat) handler_result" where
  "crud_reorder opts id_eq items db =
     (let rows = fold (\<lambda>(i, n). update_rows (\<lambda>r. id_eq (o_id opts r) i) (o_setSortOrder opts n)) items (cd_rows db)
      in (Inr (length items), db\<lparr>cd_rows := rows\<rparr>,
          Some \<lparr>ac_action = AUpdate, ac_entityType = o_entityType opts, ac_entityId = None,
                ac_entityLabel = ''reorder ('' @ show_nat (length items) @ '' items)'', ac_before = None, ac_after = None\<rparr>,
          purge_list opts))"

definition crud_update ::
  "'e crud_options \<Rightarrow> (string \<Rightarrow> string \<Rightarrow> bool) \<Rightarrow> (string \<Rightarrow> string \<Rightarrow> bool) \<Rightarrow> string \<Rightarrow> string list \<Rightarrow> string \<Rightarrow> ('e \<Rightarrow> 'e)
     \<Rightarrow> 'e crud_db \<Rightarrow> ('e, 'e with_warnings) handler_result" where
  "crud_update opts id_eq ceq redirect_id asset_ids i assign db =
     (case assert_alt_text_ready id_eq (cd_assets db) asset_ids of
        Inl x \<Rightarrow> (Inl x, db, None, [])
      | Inr _ \<Rightarrow>
          (case find_or_not_found opts id_eq i db of
             Inl x \<Rightarrow> (Inl x, db, None, [])
           | Inr before \<Rightarrow>
               (let entity = assign before;
                    was = o_isPublished opts before;
                    is_now = o_isPublished opts entity;
                    entity' = (if is_now \<and> \<not> was then run_on_publish opts entity else entity)
                in case (if is_now then run_rules opts entity' else Inr ()) of
                     Inl x \<Rightarrow> (Inl x, db, None, [])
                   | Inr _ \<Rightarrow>
                       (case save_with_redirect opts ceq redirect_id entity' before db of
                          Inl x \<Rightarrow> (Inl x, db, None, [])
                        | Inr (db', tags) \<Rightarrow>
                            (Inr (with_row_warnings opts entity'), db',
                             Some \<lparr>ac_action = (if was = is_now then AUpdate else if is_now then APublish else AUnpublish),
                                   ac_entityType = o_entityType opts, ac_entityId = Some i, ac_entityLabel = o_label opts entity',
                                   ac_before = Some before, ac_after = Some entity'\<rparr>,
                             tags @ purge_list opts)))))"

definition crud_publish ::
  "'e crud_options \<Rightarrow> (string \<Rightarrow> string \<Rightarrow> bool) \<Rightarrow> string \<Rightarrow> bool option \<Rightarrow> 'e crud_db
     \<Rightarrow> ('e, 'e with_warnings) handler_result" where
  "crud_publish opts id_eq i is_published db =
     (case find_or_not_found opts id_eq i db of
        Inl x \<Rightarrow> (Inl x, db, None, [])
      | Inr before \<Rightarrow>
          (let next_state = (case is_published of None \<Rightarrow> True | Some b \<Rightarrow> b);
               e1 = o_setPublished opts next_state before;
               e2 = (if next_state \<and> \<not> o_isPublished opts before then run_on_publish opts e1 else e1)
           in case (if next_state then run_rules opts e2 else Inr ()) of
                Inl x \<Rightarrow> (Inl x, db, None, [])
              | Inr _ \<Rightarrow>
                  (case save_row opts e2 (cd_rows db) of
                     Inl x \<Rightarrow> (Inl x, db, None, [])
                   | Inr rows \<Rightarrow>
                       (Inr (with_row_warnings opts e2), db\<lparr>cd_rows := rows\<rparr>,
                        Some \<lparr>ac_action = (if next_state then APublish else AUnpublish), ac_entityType = o_entityType opts,
                              ac_entityId = Some i, ac_entityLabel = o_label opts e2, ac_before = None, ac_after = None\<rparr>,
                        purge_list opts))))"

definition crud_remove ::
  "'e crud_options \<Rightarrow> (string \<Rightarrow> string \<Rightarrow> bool) \<Rightarrow> string \<Rightarrow> 'e crud_db \<Rightarrow> ('e, unit) handler_result" where
  "crud_remove opts id_eq i db =
     (case find_or_not_found opts id_eq i db of
        Inl x \<Rightarrow> (Inl x, db, None, [])
      | Inr e \<Rightarrow>
          if o_referenced opts e
          then (let err = QueryFailed (Some ''ER_ROW_IS_REFERENCED_2'') (Some 1451)
                in (if is_row_referenced_error err
                    then fail 409 RESOURCE_IN_USE (''\"'' @ o_label opts e @ ''\" is referenced by other records and cannot be deleted'')
                    else Inl err, db, None, []))
          else (Inr (), db\<lparr>cd_rows := delete_rows (\<lambda>r. o_id opts r = o_id opts e) (cd_rows db)\<rparr>,
                Some \<lparr>ac_action = ADelete, ac_entityType = o_entityType opts, ac_entityId = Some i,
                      ac_entityLabel = o_label opts e, ac_before = Some e, ac_after = None\<rparr>,
                purge_list opts))"

section \<open>Searching\<close>

lemma sql_like_literal:
  "sql_like ceq (concat (map (\<lambda>c. if c \<in> {CHR 0x5C, CHR ''%'', CHR ''_''} then [CHR 0x5C, c] else [c]) q) @ p) s \<longleftrightarrow>
    (\<exists>m s'. s = m @ s' \<and> list_all2 ceq q m \<and> sql_like ceq p s')"
proof (induction q arbitrary: s)
  case Nil
  then show ?case by auto
next
  case (Cons c q)
  let ?esc = "concat (map (\<lambda>c. if c \<in> {CHR 0x5C, CHR ''%'', CHR ''_''} then [CHR 0x5C, c] else [c]) q)"
  have step: "sql_like ceq ((if c \<in> {CHR 0x5C, CHR ''%'', CHR ''_''} then [CHR 0x5C, c] else [c]) @ ?esc @ p) s
      = (case s of [] \<Rightarrow> False | x # s' \<Rightarrow> ceq c x \<and> sql_like ceq (?esc @ p) s')"
    by (auto split: list.splits)
  have "sql_like ceq (concat (map (\<lambda>c. if c \<in> {CHR 0x5C, CHR ''%'', CHR ''_''} then [CHR 0x5C, c] else [c]) (c # q)) @ p) s
      = (case s of [] \<Rightarrow> False | x # s' \<Rightarrow> ceq c x \<and> sql_like ceq (?esc @ p) s')"
    using step by simp
  then show ?case
    unfolding Cons.IH
    by (cases s) (auto simp: list_all2_Cons1 Cons_eq_append_conv)
qed

lemma sql_like_percent: "sql_like ceq [CHR ''%''] s"
  by (induction s) auto

lemma sql_like_prefix_percent:
  "sql_like ceq (CHR ''%'' # p) s \<longleftrightarrow> (\<exists>a b. s = a @ b \<and> sql_like ceq p b)"
proof (induction s)
  case Nil
  then show ?case by auto
next
  case (Cons x s)
  have "sql_like ceq (CHR ''%'' # p) (x # s) \<longleftrightarrow> sql_like ceq p (x # s) \<or> sql_like ceq (CHR ''%'' # p) s"
    by simp
  also have "\<dots> \<longleftrightarrow> sql_like ceq p (x # s) \<or> (\<exists>a b. s = a @ b \<and> sql_like ceq p b)"
    using Cons.IH by simp
  also have "\<dots> \<longleftrightarrow> (\<exists>a b. x # s = a @ b \<and> sql_like ceq p b)"
    by (auto simp: Cons_eq_append_conv)
  finally show ?case .
qed

text \<open>
  The escaping makes a search term match literally. Whatever percent
  signs, underscores and backslashes an editor or visitor types, \<open>%term%\<close> matches a value
  exactly when the value contains the term, character by character under the collation.
\<close>

theorem search_term_literal:
  "sql_like ceq (''%'' @ escape_like_value term_typed @ ''%'') s \<longleftrightarrow>
    (\<exists>a m b. s = a @ m @ b \<and> list_all2 ceq term_typed m)"
proof -
  have "sql_like ceq (''%'' @ escape_like_value term_typed @ ''%'') s \<longleftrightarrow>
      (\<exists>a b. s = a @ b \<and> sql_like ceq (escape_like_value term_typed @ ''%'') b)"
    using sql_like_prefix_percent [of ceq "escape_like_value term_typed @ ''%''" s] by simp
  also have "\<dots> \<longleftrightarrow> (\<exists>a m b. s = a @ m @ b \<and> list_all2 ceq term_typed m)"
    unfolding escape_like_value_def sql_like_literal using sql_like_percent by (metis append.assoc)
  finally show ?thesis .
qed

end
