(* ===== verification/ContentData.thy ===== *)
theory ContentData
  imports CrudKernel
begin

text \<open>
  The content tables (\<open>database/entities\<close>), one record per entity with its columns in order, and
  the options each admin controller gives the CRUD kernel. A date column is its text
  \<open>YYYY-MM-DD\<close>; relations are looked up by the readers. How MySQL compares a column with a
  query parameter, by type, is \<open>sql_compare\<close>; what still references a row is \<open>referenced\<close>.
\<close>

section \<open>Enumerations\<close>

datatype board_group = GBoard | GExecutive

datatype org_tone = ToneAuto | ToneNeutral | ToneSky | ToneGreen | ToneBrand

datatype partner_category = CatGovernment | CatUniversity | CatAssociation | CatSupporter

datatype doc_section_group = SecGovernance | SecOther

datatype testimonial_status = StatusPending | StatusPublished | StatusHidden

datatype testimonial_source = SourceManual | SourceContactForm

datatype about_kind = KindVision | KindMission | KindGoal | KindCarePillar

datatype media_kind = MediaImage | MediaPdf

datatype variant_label = VariantThumb | VariantCard | VariantFull

fun board_group_name :: "board_group \<Rightarrow> string" where
  "board_group_name GBoard = ''board''"
| "board_group_name GExecutive = ''executive''"

fun org_tone_name :: "org_tone \<Rightarrow> string" where
  "org_tone_name ToneAuto = ''auto''"
| "org_tone_name ToneNeutral = ''neutral''"
| "org_tone_name ToneSky = ''sky''"
| "org_tone_name ToneGreen = ''green''"
| "org_tone_name ToneBrand = ''brand''"

fun partner_category_name :: "partner_category \<Rightarrow> string" where
  "partner_category_name CatGovernment = ''government''"
| "partner_category_name CatUniversity = ''university''"
| "partner_category_name CatAssociation = ''association''"
| "partner_category_name CatSupporter = ''supporter''"

fun doc_section_group_name :: "doc_section_group \<Rightarrow> string" where
  "doc_section_group_name SecGovernance = ''governance''"
| "doc_section_group_name SecOther = ''other''"

fun testimonial_status_name :: "testimonial_status \<Rightarrow> string" where
  "testimonial_status_name StatusPending = ''pending''"
| "testimonial_status_name StatusPublished = ''published''"
| "testimonial_status_name StatusHidden = ''hidden''"

fun testimonial_source_name :: "testimonial_source \<Rightarrow> string" where
  "testimonial_source_name SourceManual = ''manual''"
| "testimonial_source_name SourceContactForm = ''contact_form''"

fun about_kind_name :: "about_kind \<Rightarrow> string" where
  "about_kind_name KindVision = ''vision''"
| "about_kind_name KindMission = ''mission''"
| "about_kind_name KindGoal = ''goal''"
| "about_kind_name KindCarePillar = ''care_pillar''"

fun media_kind_name :: "media_kind \<Rightarrow> string" where
  "media_kind_name MediaImage = ''image''"
| "media_kind_name MediaPdf = ''pdf''"

fun variant_label_name :: "variant_label \<Rightarrow> string" where
  "variant_label_name VariantThumb = ''thumb''"
| "variant_label_name VariantCard = ''card''"
| "variant_label_name VariantFull = ''full''"

section \<open>Rows\<close>

record media_asset =
  ma_id :: string
  ma_publicId :: string
  ma_kind :: media_kind
  ma_mimeType :: string
  ma_sizeBytes :: nat
  ma_originalName :: string
  ma_storageKey :: string
  ma_checksumSha256 :: string
  ma_widthPx :: "nat option"
  ma_heightPx :: "nat option"
  ma_altAr :: "string option"
  ma_altEn :: "string option"
  ma_uploadedBy :: "string option"
  ma_createdAt :: time
  ma_updatedAt :: time

record media_variant =
  mv_id :: string
  mv_assetId :: string
  mv_label :: variant_label
  mv_storageKey :: string
  mv_widthPx :: nat
  mv_sizeBytes :: nat

record news_category =
  nc_id :: string
  nc_slug :: string
  nc_nameAr :: string
  nc_nameEn :: "string option"
  nc_sortOrder :: int
  nc_createdAt :: time
  nc_updatedAt :: time

record post =
  po_id :: string
  po_slug :: string
  po_titleAr :: string
  po_titleEn :: "string option"
  po_excerptAr :: "string option"
  po_excerptEn :: "string option"
  po_bodyAr :: "string option"
  po_bodyEn :: "string option"
  po_categoryId :: string
  po_coverAssetId :: "string option"
  po_publishedOn :: "string option"
  po_isFeatured :: bool
  po_isLegacy :: bool
  po_isPublished :: bool
  po_createdBy :: "string option"
  po_createdAt :: time
  po_updatedAt :: time

record board_member =
  bm_id :: string
  bm_nameAr :: string
  bm_nameEn :: "string option"
  bm_roleAr :: string
  bm_roleEn :: "string option"
  bm_grp :: board_group
  bm_orgPositionId :: "string option"
  bm_isLead :: bool
  bm_bioAr :: "string option"
  bm_bioEn :: "string option"
  bm_photoAssetId :: "string option"
  bm_isPublished :: bool
  bm_sortOrder :: int
  bm_createdAt :: time
  bm_updatedAt :: time

record org_position =
  op_id :: string
  op_nameAr :: string
  op_nameEn :: "string option"
  op_parentId :: "string option"
  op_tone :: org_tone
  op_showHolders :: bool
  op_isPublished :: bool
  op_sortOrder :: int
  op_createdAt :: time
  op_updatedAt :: time

record partner =
  pt_id :: string
  pt_nameAr :: string
  pt_nameEn :: "string option"
  pt_category :: partner_category
  pt_url :: "string option"
  pt_logoAssetId :: "string option"
  pt_isPublished :: bool
  pt_sortOrder :: int
  pt_createdAt :: time
  pt_updatedAt :: time

record page =
  pa_id :: string
  pa_slug :: string
  pa_titleAr :: string
  pa_titleEn :: "string option"
  pa_metaTitleAr :: "string option"
  pa_metaTitleEn :: "string option"
  pa_metaDescriptionAr :: "string option"
  pa_metaDescriptionEn :: "string option"
  pa_isPublished :: bool
  pa_needsReview :: bool
  pa_createdAt :: time
  pa_updatedAt :: time

record page_section =
  ps_id :: string
  ps_pageId :: string
  ps_sectionKey :: string
  ps_labelAr :: "string option"
  ps_labelEn :: "string option"
  ps_headingAr :: "string option"
  ps_headingEn :: "string option"
  ps_bodyAr :: "string option"
  ps_bodyEn :: "string option"
  ps_primaryButtonLabelAr :: "string option"
  ps_primaryButtonLabelEn :: "string option"
  ps_primaryButtonUrl :: "string option"
  ps_secondaryButtonLabelAr :: "string option"
  ps_secondaryButtonLabelEn :: "string option"
  ps_secondaryButtonUrl :: "string option"
  ps_imageAssetId :: "string option"
  ps_isPublished :: bool
  ps_sortOrder :: int
  ps_createdAt :: time
  ps_updatedAt :: time

record doc_category =
  dc_id :: string
  dc_slug :: string
  dc_nameAr :: string
  dc_nameEn :: "string option"
  dc_sectionGroup :: doc_section_group
  dc_isPublished :: bool
  dc_sortOrder :: int

record safeer_document =
  dd_id :: string
  dd_categoryId :: string
  dd_titleAr :: string
  dd_titleEn :: "string option"
  dd_metaAr :: "string option"
  dd_metaEn :: "string option"
  dd_assetId :: "string option"
  dd_docDate :: "string option"
  dd_downloadCount :: nat
  dd_isPublished :: bool
  dd_sortOrder :: int
  dd_createdAt :: time
  dd_updatedAt :: time

record licence =
  li_id :: string
  li_titleAr :: string
  li_titleEn :: "string option"
  li_number :: "string option"
  li_issuerAr :: "string option"
  li_issuerEn :: "string option"
  li_issuedOn :: "string option"
  li_expiresOn :: "string option"
  li_assetId :: "string option"
  li_isPrimary :: bool
  li_isPublished :: bool
  li_sortOrder :: int
  li_createdAt :: time
  li_updatedAt :: time

record stat =
  sx_id :: string
  sx_value :: "string option"
  sx_labelAr :: string
  sx_labelEn :: "string option"
  sx_subAr :: "string option"
  sx_subEn :: "string option"
  sx_isPublished :: bool
  sx_sortOrder :: int
  sx_createdAt :: time
  sx_updatedAt :: time

record testimonial =
  te_id :: string
  te_quoteAr :: string
  te_quoteEn :: "string option"
  te_authorName :: string
  te_authorDescAr :: "string option"
  te_authorDescEn :: "string option"
  te_status :: testimonial_status
  te_isFeatured :: bool
  te_source :: testimonial_source
  te_sourceMessageId :: "string option"
  te_sortOrder :: int
  te_createdAt :: time
  te_updatedAt :: time

record testimonial_theme =
  tt_id :: string
  tt_titleAr :: string
  tt_titleEn :: "string option"
  tt_descriptionAr :: "string option"
  tt_descriptionEn :: "string option"
  tt_isImprovement :: bool
  tt_sortOrder :: int
  tt_createdAt :: time
  tt_updatedAt :: time

record work_area =
  wa_id :: string
  wa_icon :: "string option"
  wa_titleAr :: string
  wa_titleEn :: "string option"
  wa_isPublished :: bool
  wa_sortOrder :: int
  wa_createdAt :: time
  wa_updatedAt :: time

record work_area_item =
  wi_id :: string
  wi_workAreaId :: string
  wi_textAr :: string
  wi_textEn :: "string option"
  wi_sortOrder :: int
  wi_isPublished :: bool
  wi_createdAt :: time
  wi_updatedAt :: time

record about_item =
  ai_id :: string
  ai_kind :: about_kind
  ai_icon :: "string option"
  ai_titleAr :: string
  ai_titleEn :: "string option"
  ai_bodyAr :: "string option"
  ai_bodyEn :: "string option"
  ai_isPublished :: bool
  ai_sortOrder :: int
  ai_createdAt :: time
  ai_updatedAt :: time

record site_settings =
  si_id :: string
  si_orgNameAr :: string
  si_orgNameEn :: "string option"
  si_taglineAr :: "string option"
  si_taglineEn :: "string option"
  si_footerBlurbAr :: "string option"
  si_footerBlurbEn :: "string option"
  si_rightsLineAr :: "string option"
  si_rightsLineEn :: "string option"
  si_phone :: "string option"
  si_email :: "string option"
  si_addressAr :: "string option"
  si_addressEn :: "string option"
  si_facebookUrl :: "string option"
  si_instagramUrl :: "string option"
  si_xUrl :: "string option"
  si_youtubeUrl :: "string option"
  si_linkedinUrl :: "string option"
  si_whatsappUrl :: "string option"
  si_tiktokUrl :: "string option"
  si_mapEmbedUrl :: "string option"
  si_mapLat :: "string option"
  si_mapLng :: "string option"
  si_enEnabled :: bool
  si_seoTitleAr :: "string option"
  si_seoTitleEn :: "string option"
  si_seoDescriptionAr :: "string option"
  si_seoDescriptionEn :: "string option"
  si_licenceNo :: "string option"
  si_licenceIssuerAr :: "string option"
  si_licenceIssuerEn :: "string option"
  si_encryptionKeyCheck :: "string option"
  si_updatedBy :: "string option"
  si_updatedAt :: time

section \<open>Columns a list can be filtered by\<close>

record sql_compare =
  sc_id :: "string \<Rightarrow> string \<Rightarrow> bool"
  sc_text :: "string \<Rightarrow> string \<Rightarrow> bool"
  sc_int :: "int \<Rightarrow> string \<Rightarrow> bool"
  sc_time :: "time \<Rightarrow> string \<Rightarrow> bool"

definition eq_opt :: "(string \<Rightarrow> string \<Rightarrow> bool) \<Rightarrow> string option \<Rightarrow> string \<Rightarrow> bool" where
  "eq_opt eq col v = (case col of None \<Rightarrow> False | Some x \<Rightarrow> eq x v)"

definition news_category_columns :: "sql_compare \<Rightarrow> (string \<times> (news_category \<Rightarrow> string \<Rightarrow> bool)) list" where
  "news_category_columns c =
     [(''id'', \<lambda>e v. sc_id c (nc_id e) v),
      (''slug'', \<lambda>e v. sc_text c (nc_slug e) v),
      (''nameAr'', \<lambda>e v. sc_text c (nc_nameAr e) v),
      (''nameEn'', \<lambda>e v. eq_opt (sc_text c) (nc_nameEn e) v),
      (''sortOrder'', \<lambda>e v. sc_int c (nc_sortOrder e) v),
      (''createdAt'', \<lambda>e v. sc_time c (nc_createdAt e) v),
      (''updatedAt'', \<lambda>e v. sc_time c (nc_updatedAt e) v)]"

definition post_columns :: "sql_compare \<Rightarrow> (string \<times> (post \<Rightarrow> string \<Rightarrow> bool)) list" where
  "post_columns c =
     [(''id'', \<lambda>e v. sc_id c (po_id e) v),
      (''slug'', \<lambda>e v. sc_text c (po_slug e) v),
      (''titleAr'', \<lambda>e v. sc_text c (po_titleAr e) v),
      (''titleEn'', \<lambda>e v. eq_opt (sc_text c) (po_titleEn e) v),
      (''excerptAr'', \<lambda>e v. eq_opt (sc_text c) (po_excerptAr e) v),
      (''excerptEn'', \<lambda>e v. eq_opt (sc_text c) (po_excerptEn e) v),
      (''bodyAr'', \<lambda>e v. eq_opt (sc_text c) (po_bodyAr e) v),
      (''bodyEn'', \<lambda>e v. eq_opt (sc_text c) (po_bodyEn e) v),
      (''categoryId'', \<lambda>e v. sc_id c (po_categoryId e) v),
      (''coverAssetId'', \<lambda>e v. eq_opt (sc_id c) (po_coverAssetId e) v),
      (''publishedOn'', \<lambda>e v. eq_opt (sc_text c) (po_publishedOn e) v),
      (''isFeatured'', \<lambda>e v. sc_int c (of_bool (po_isFeatured e)) v),
      (''isLegacy'', \<lambda>e v. sc_int c (of_bool (po_isLegacy e)) v),
      (''isPublished'', \<lambda>e v. sc_int c (of_bool (po_isPublished e)) v),
      (''createdBy'', \<lambda>e v. eq_opt (sc_id c) (po_createdBy e) v),
      (''createdAt'', \<lambda>e v. sc_time c (po_createdAt e) v),
      (''updatedAt'', \<lambda>e v. sc_time c (po_updatedAt e) v)]"

definition board_member_columns :: "sql_compare \<Rightarrow> (string \<times> (board_member \<Rightarrow> string \<Rightarrow> bool)) list" where
  "board_member_columns c =
     [(''id'', \<lambda>e v. sc_id c (bm_id e) v),
      (''nameAr'', \<lambda>e v. sc_text c (bm_nameAr e) v),
      (''nameEn'', \<lambda>e v. eq_opt (sc_text c) (bm_nameEn e) v),
      (''roleAr'', \<lambda>e v. sc_text c (bm_roleAr e) v),
      (''roleEn'', \<lambda>e v. eq_opt (sc_text c) (bm_roleEn e) v),
      (''grp'', \<lambda>e v. sc_text c (board_group_name (bm_grp e)) v),
      (''orgPositionId'', \<lambda>e v. eq_opt (sc_id c) (bm_orgPositionId e) v),
      (''isLead'', \<lambda>e v. sc_int c (of_bool (bm_isLead e)) v),
      (''bioAr'', \<lambda>e v. eq_opt (sc_text c) (bm_bioAr e) v),
      (''bioEn'', \<lambda>e v. eq_opt (sc_text c) (bm_bioEn e) v),
      (''photoAssetId'', \<lambda>e v. eq_opt (sc_id c) (bm_photoAssetId e) v),
      (''isPublished'', \<lambda>e v. sc_int c (of_bool (bm_isPublished e)) v),
      (''sortOrder'', \<lambda>e v. sc_int c (bm_sortOrder e) v),
      (''createdAt'', \<lambda>e v. sc_time c (bm_createdAt e) v),
      (''updatedAt'', \<lambda>e v. sc_time c (bm_updatedAt e) v)]"

definition org_position_columns :: "sql_compare \<Rightarrow> (string \<times> (org_position \<Rightarrow> string \<Rightarrow> bool)) list" where
  "org_position_columns c =
     [(''id'', \<lambda>e v. sc_id c (op_id e) v),
      (''nameAr'', \<lambda>e v. sc_text c (op_nameAr e) v),
      (''nameEn'', \<lambda>e v. eq_opt (sc_text c) (op_nameEn e) v),
      (''parentId'', \<lambda>e v. eq_opt (sc_id c) (op_parentId e) v),
      (''tone'', \<lambda>e v. sc_text c (org_tone_name (op_tone e)) v),
      (''showHolders'', \<lambda>e v. sc_int c (of_bool (op_showHolders e)) v),
      (''isPublished'', \<lambda>e v. sc_int c (of_bool (op_isPublished e)) v),
      (''sortOrder'', \<lambda>e v. sc_int c (op_sortOrder e) v),
      (''createdAt'', \<lambda>e v. sc_time c (op_createdAt e) v),
      (''updatedAt'', \<lambda>e v. sc_time c (op_updatedAt e) v)]"

definition partner_columns :: "sql_compare \<Rightarrow> (string \<times> (partner \<Rightarrow> string \<Rightarrow> bool)) list" where
  "partner_columns c =
     [(''id'', \<lambda>e v. sc_id c (pt_id e) v),
      (''nameAr'', \<lambda>e v. sc_text c (pt_nameAr e) v),
      (''nameEn'', \<lambda>e v. eq_opt (sc_text c) (pt_nameEn e) v),
      (''category'', \<lambda>e v. sc_text c (partner_category_name (pt_category e)) v),
      (''url'', \<lambda>e v. eq_opt (sc_text c) (pt_url e) v),
      (''logoAssetId'', \<lambda>e v. eq_opt (sc_id c) (pt_logoAssetId e) v),
      (''isPublished'', \<lambda>e v. sc_int c (of_bool (pt_isPublished e)) v),
      (''sortOrder'', \<lambda>e v. sc_int c (pt_sortOrder e) v),
      (''createdAt'', \<lambda>e v. sc_time c (pt_createdAt e) v),
      (''updatedAt'', \<lambda>e v. sc_time c (pt_updatedAt e) v)]"

definition page_columns :: "sql_compare \<Rightarrow> (string \<times> (page \<Rightarrow> string \<Rightarrow> bool)) list" where
  "page_columns c =
     [(''id'', \<lambda>e v. sc_id c (pa_id e) v),
      (''slug'', \<lambda>e v. sc_text c (pa_slug e) v),
      (''titleAr'', \<lambda>e v. sc_text c (pa_titleAr e) v),
      (''titleEn'', \<lambda>e v. eq_opt (sc_text c) (pa_titleEn e) v),
      (''metaTitleAr'', \<lambda>e v. eq_opt (sc_text c) (pa_metaTitleAr e) v),
      (''metaTitleEn'', \<lambda>e v. eq_opt (sc_text c) (pa_metaTitleEn e) v),
      (''metaDescriptionAr'', \<lambda>e v. eq_opt (sc_text c) (pa_metaDescriptionAr e) v),
      (''metaDescriptionEn'', \<lambda>e v. eq_opt (sc_text c) (pa_metaDescriptionEn e) v),
      (''isPublished'', \<lambda>e v. sc_int c (of_bool (pa_isPublished e)) v),
      (''needsReview'', \<lambda>e v. sc_int c (of_bool (pa_needsReview e)) v),
      (''createdAt'', \<lambda>e v. sc_time c (pa_createdAt e) v),
      (''updatedAt'', \<lambda>e v. sc_time c (pa_updatedAt e) v)]"

definition page_section_columns :: "sql_compare \<Rightarrow> (string \<times> (page_section \<Rightarrow> string \<Rightarrow> bool)) list" where
  "page_section_columns c =
     [(''id'', \<lambda>e v. sc_id c (ps_id e) v),
      (''pageId'', \<lambda>e v. sc_id c (ps_pageId e) v),
      (''sectionKey'', \<lambda>e v. sc_text c (ps_sectionKey e) v),
      (''labelAr'', \<lambda>e v. eq_opt (sc_text c) (ps_labelAr e) v),
      (''labelEn'', \<lambda>e v. eq_opt (sc_text c) (ps_labelEn e) v),
      (''headingAr'', \<lambda>e v. eq_opt (sc_text c) (ps_headingAr e) v),
      (''headingEn'', \<lambda>e v. eq_opt (sc_text c) (ps_headingEn e) v),
      (''bodyAr'', \<lambda>e v. eq_opt (sc_text c) (ps_bodyAr e) v),
      (''bodyEn'', \<lambda>e v. eq_opt (sc_text c) (ps_bodyEn e) v),
      (''primaryButtonLabelAr'', \<lambda>e v. eq_opt (sc_text c) (ps_primaryButtonLabelAr e) v),
      (''primaryButtonLabelEn'', \<lambda>e v. eq_opt (sc_text c) (ps_primaryButtonLabelEn e) v),
      (''primaryButtonUrl'', \<lambda>e v. eq_opt (sc_text c) (ps_primaryButtonUrl e) v),
      (''secondaryButtonLabelAr'', \<lambda>e v. eq_opt (sc_text c) (ps_secondaryButtonLabelAr e) v),
      (''secondaryButtonLabelEn'', \<lambda>e v. eq_opt (sc_text c) (ps_secondaryButtonLabelEn e) v),
      (''secondaryButtonUrl'', \<lambda>e v. eq_opt (sc_text c) (ps_secondaryButtonUrl e) v),
      (''imageAssetId'', \<lambda>e v. eq_opt (sc_id c) (ps_imageAssetId e) v),
      (''isPublished'', \<lambda>e v. sc_int c (of_bool (ps_isPublished e)) v),
      (''sortOrder'', \<lambda>e v. sc_int c (ps_sortOrder e) v),
      (''createdAt'', \<lambda>e v. sc_time c (ps_createdAt e) v),
      (''updatedAt'', \<lambda>e v. sc_time c (ps_updatedAt e) v)]"

definition doc_category_columns :: "sql_compare \<Rightarrow> (string \<times> (doc_category \<Rightarrow> string \<Rightarrow> bool)) list" where
  "doc_category_columns c =
     [(''id'', \<lambda>e v. sc_id c (dc_id e) v),
      (''slug'', \<lambda>e v. sc_text c (dc_slug e) v),
      (''nameAr'', \<lambda>e v. sc_text c (dc_nameAr e) v),
      (''nameEn'', \<lambda>e v. eq_opt (sc_text c) (dc_nameEn e) v),
      (''sectionGroup'', \<lambda>e v. sc_text c (doc_section_group_name (dc_sectionGroup e)) v),
      (''isPublished'', \<lambda>e v. sc_int c (of_bool (dc_isPublished e)) v),
      (''sortOrder'', \<lambda>e v. sc_int c (dc_sortOrder e) v)]"

definition safeer_document_columns :: "sql_compare \<Rightarrow> (string \<times> (safeer_document \<Rightarrow> string \<Rightarrow> bool)) list" where
  "safeer_document_columns c =
     [(''id'', \<lambda>e v. sc_id c (dd_id e) v),
      (''categoryId'', \<lambda>e v. sc_id c (dd_categoryId e) v),
      (''titleAr'', \<lambda>e v. sc_text c (dd_titleAr e) v),
      (''titleEn'', \<lambda>e v. eq_opt (sc_text c) (dd_titleEn e) v),
      (''metaAr'', \<lambda>e v. eq_opt (sc_text c) (dd_metaAr e) v),
      (''metaEn'', \<lambda>e v. eq_opt (sc_text c) (dd_metaEn e) v),
      (''assetId'', \<lambda>e v. eq_opt (sc_id c) (dd_assetId e) v),
      (''docDate'', \<lambda>e v. eq_opt (sc_text c) (dd_docDate e) v),
      (''downloadCount'', \<lambda>e v. sc_int c (int (dd_downloadCount e)) v),
      (''isPublished'', \<lambda>e v. sc_int c (of_bool (dd_isPublished e)) v),
      (''sortOrder'', \<lambda>e v. sc_int c (dd_sortOrder e) v),
      (''createdAt'', \<lambda>e v. sc_time c (dd_createdAt e) v),
      (''updatedAt'', \<lambda>e v. sc_time c (dd_updatedAt e) v)]"

definition licence_columns :: "sql_compare \<Rightarrow> (string \<times> (licence \<Rightarrow> string \<Rightarrow> bool)) list" where
  "licence_columns c =
     [(''id'', \<lambda>e v. sc_id c (li_id e) v),
      (''titleAr'', \<lambda>e v. sc_text c (li_titleAr e) v),
      (''titleEn'', \<lambda>e v. eq_opt (sc_text c) (li_titleEn e) v),
      (''number'', \<lambda>e v. eq_opt (sc_text c) (li_number e) v),
      (''issuerAr'', \<lambda>e v. eq_opt (sc_text c) (li_issuerAr e) v),
      (''issuerEn'', \<lambda>e v. eq_opt (sc_text c) (li_issuerEn e) v),
      (''issuedOn'', \<lambda>e v. eq_opt (sc_text c) (li_issuedOn e) v),
      (''expiresOn'', \<lambda>e v. eq_opt (sc_text c) (li_expiresOn e) v),
      (''assetId'', \<lambda>e v. eq_opt (sc_id c) (li_assetId e) v),
      (''isPrimary'', \<lambda>e v. sc_int c (of_bool (li_isPrimary e)) v),
      (''isPublished'', \<lambda>e v. sc_int c (of_bool (li_isPublished e)) v),
      (''sortOrder'', \<lambda>e v. sc_int c (li_sortOrder e) v),
      (''createdAt'', \<lambda>e v. sc_time c (li_createdAt e) v),
      (''updatedAt'', \<lambda>e v. sc_time c (li_updatedAt e) v)]"

definition stat_columns :: "sql_compare \<Rightarrow> (string \<times> (stat \<Rightarrow> string \<Rightarrow> bool)) list" where
  "stat_columns c =
     [(''id'', \<lambda>e v. sc_id c (sx_id e) v),
      (''value'', \<lambda>e v. eq_opt (sc_text c) (sx_value e) v),
      (''labelAr'', \<lambda>e v. sc_text c (sx_labelAr e) v),
      (''labelEn'', \<lambda>e v. eq_opt (sc_text c) (sx_labelEn e) v),
      (''subAr'', \<lambda>e v. eq_opt (sc_text c) (sx_subAr e) v),
      (''subEn'', \<lambda>e v. eq_opt (sc_text c) (sx_subEn e) v),
      (''isPublished'', \<lambda>e v. sc_int c (of_bool (sx_isPublished e)) v),
      (''sortOrder'', \<lambda>e v. sc_int c (sx_sortOrder e) v),
      (''createdAt'', \<lambda>e v. sc_time c (sx_createdAt e) v),
      (''updatedAt'', \<lambda>e v. sc_time c (sx_updatedAt e) v)]"

definition testimonial_columns :: "sql_compare \<Rightarrow> (string \<times> (testimonial \<Rightarrow> string \<Rightarrow> bool)) list" where
  "testimonial_columns c =
     [(''id'', \<lambda>e v. sc_id c (te_id e) v),
      (''quoteAr'', \<lambda>e v. sc_text c (te_quoteAr e) v),
      (''quoteEn'', \<lambda>e v. eq_opt (sc_text c) (te_quoteEn e) v),
      (''authorName'', \<lambda>e v. sc_text c (te_authorName e) v),
      (''authorDescAr'', \<lambda>e v. eq_opt (sc_text c) (te_authorDescAr e) v),
      (''authorDescEn'', \<lambda>e v. eq_opt (sc_text c) (te_authorDescEn e) v),
      (''status'', \<lambda>e v. sc_text c (testimonial_status_name (te_status e)) v),
      (''isFeatured'', \<lambda>e v. sc_int c (of_bool (te_isFeatured e)) v),
      (''source'', \<lambda>e v. sc_text c (testimonial_source_name (te_source e)) v),
      (''sourceMessageId'', \<lambda>e v. eq_opt (sc_id c) (te_sourceMessageId e) v),
      (''sortOrder'', \<lambda>e v. sc_int c (te_sortOrder e) v),
      (''createdAt'', \<lambda>e v. sc_time c (te_createdAt e) v),
      (''updatedAt'', \<lambda>e v. sc_time c (te_updatedAt e) v)]"

definition testimonial_theme_columns :: "sql_compare \<Rightarrow> (string \<times> (testimonial_theme \<Rightarrow> string \<Rightarrow> bool)) list" where
  "testimonial_theme_columns c =
     [(''id'', \<lambda>e v. sc_id c (tt_id e) v),
      (''titleAr'', \<lambda>e v. sc_text c (tt_titleAr e) v),
      (''titleEn'', \<lambda>e v. eq_opt (sc_text c) (tt_titleEn e) v),
      (''descriptionAr'', \<lambda>e v. eq_opt (sc_text c) (tt_descriptionAr e) v),
      (''descriptionEn'', \<lambda>e v. eq_opt (sc_text c) (tt_descriptionEn e) v),
      (''isImprovement'', \<lambda>e v. sc_int c (of_bool (tt_isImprovement e)) v),
      (''sortOrder'', \<lambda>e v. sc_int c (tt_sortOrder e) v),
      (''createdAt'', \<lambda>e v. sc_time c (tt_createdAt e) v),
      (''updatedAt'', \<lambda>e v. sc_time c (tt_updatedAt e) v)]"

definition work_area_columns :: "sql_compare \<Rightarrow> (string \<times> (work_area \<Rightarrow> string \<Rightarrow> bool)) list" where
  "work_area_columns c =
     [(''id'', \<lambda>e v. sc_id c (wa_id e) v),
      (''icon'', \<lambda>e v. eq_opt (sc_text c) (wa_icon e) v),
      (''titleAr'', \<lambda>e v. sc_text c (wa_titleAr e) v),
      (''titleEn'', \<lambda>e v. eq_opt (sc_text c) (wa_titleEn e) v),
      (''isPublished'', \<lambda>e v. sc_int c (of_bool (wa_isPublished e)) v),
      (''sortOrder'', \<lambda>e v. sc_int c (wa_sortOrder e) v),
      (''createdAt'', \<lambda>e v. sc_time c (wa_createdAt e) v),
      (''updatedAt'', \<lambda>e v. sc_time c (wa_updatedAt e) v)]"

definition work_area_item_columns :: "sql_compare \<Rightarrow> (string \<times> (work_area_item \<Rightarrow> string \<Rightarrow> bool)) list" where
  "work_area_item_columns c =
     [(''id'', \<lambda>e v. sc_id c (wi_id e) v),
      (''workAreaId'', \<lambda>e v. sc_id c (wi_workAreaId e) v),
      (''textAr'', \<lambda>e v. sc_text c (wi_textAr e) v),
      (''textEn'', \<lambda>e v. eq_opt (sc_text c) (wi_textEn e) v),
      (''sortOrder'', \<lambda>e v. sc_int c (wi_sortOrder e) v),
      (''isPublished'', \<lambda>e v. sc_int c (of_bool (wi_isPublished e)) v),
      (''createdAt'', \<lambda>e v. sc_time c (wi_createdAt e) v),
      (''updatedAt'', \<lambda>e v. sc_time c (wi_updatedAt e) v)]"

definition about_item_columns :: "sql_compare \<Rightarrow> (string \<times> (about_item \<Rightarrow> string \<Rightarrow> bool)) list" where
  "about_item_columns c =
     [(''id'', \<lambda>e v. sc_id c (ai_id e) v),
      (''kind'', \<lambda>e v. sc_text c (about_kind_name (ai_kind e)) v),
      (''icon'', \<lambda>e v. eq_opt (sc_text c) (ai_icon e) v),
      (''titleAr'', \<lambda>e v. sc_text c (ai_titleAr e) v),
      (''titleEn'', \<lambda>e v. eq_opt (sc_text c) (ai_titleEn e) v),
      (''bodyAr'', \<lambda>e v. eq_opt (sc_text c) (ai_bodyAr e) v),
      (''bodyEn'', \<lambda>e v. eq_opt (sc_text c) (ai_bodyEn e) v),
      (''isPublished'', \<lambda>e v. sc_int c (of_bool (ai_isPublished e)) v),
      (''sortOrder'', \<lambda>e v. sc_int c (ai_sortOrder e) v),
      (''createdAt'', \<lambda>e v. sc_time c (ai_createdAt e) v),
      (''updatedAt'', \<lambda>e v. sc_time c (ai_updatedAt e) v)]"

section \<open>The admin collections\<close>

definition news_category_options :: "sql_compare \<Rightarrow> (news_category \<Rightarrow> bool) \<Rightarrow> news_category crud_options" where
  "news_category_options c referenced =
     \<lparr>o_entityType = ''news_categories'', o_extraPurgeTags = [''news'', ''home''], o_deleteArea = Content,
      o_publishable = False, o_sortable = True, o_searchable = [Some \<circ> nc_slug, Some \<circ> nc_nameAr, nc_nameEn],
      o_column = map_of (news_category_columns c), o_sortOrder = nc_sortOrder,
      o_rowNumber = (\<lambda>e. int (read_nat (nc_id e))), o_listEnrich = None, o_label = nc_nameAr, o_id = nc_id,
      o_isPublished = (\<lambda>_. False), o_setPublished = (\<lambda>_ e. e),
      o_setSortOrder = (\<lambda>n e. e\<lparr>nc_sortOrder := n\<rparr>), o_slug = nc_slug,
      o_publishRules = None,
      o_onPublish = None,
      o_publishWarnings = None,
      o_redirectFrom = None,
      o_duplicate = (\<lambda>e rows. \<exists>r \<in> set rows. sc_text c (nc_slug r) (nc_slug e)), o_referenced = referenced\<rparr>"

definition post_options :: "sql_compare \<Rightarrow> (post \<Rightarrow> bool) \<Rightarrow> string \<Rightarrow> post crud_options" where
  "post_options c referenced today =
     \<lparr>o_entityType = ''posts'', o_extraPurgeTags = [''home'', ''news''], o_deleteArea = Content,
      o_publishable = True, o_sortable = False, o_searchable = [Some \<circ> po_titleAr, po_titleEn, po_excerptAr, po_excerptEn],
      o_column = map_of (post_columns c), o_sortOrder = (\<lambda>_. 0),
      o_rowNumber = (\<lambda>e. int (read_nat (po_id e))), o_listEnrich = None, o_label = po_titleAr, o_id = po_id,
      o_isPublished = po_isPublished, o_setPublished = (\<lambda>b e. e\<lparr>po_isPublished := b\<rparr>),
      o_setSortOrder = (\<lambda>_ e. e), o_slug = po_slug,
      o_publishRules = None,
      o_onPublish = Some (\<lambda>e. if po_publishedOn e = None \<or> po_publishedOn e = Some [] then e\<lparr>po_publishedOn := Some today\<rparr> else e),
      o_publishWarnings = Some (\<lambda>e. if po_coverAssetId e = None \<or> po_coverAssetId e = Some [] then [''COVER_MISSING''] else []),
      o_redirectFrom = Some (\<lambda>e. if po_slug e \<noteq> [] then Some (''/news/'' @ po_slug e) else None),
      o_duplicate = (\<lambda>e rows. \<exists>r \<in> set rows. sc_text c (po_slug r) (po_slug e)), o_referenced = referenced\<rparr>"

definition board_member_options :: "sql_compare \<Rightarrow> (board_member \<Rightarrow> bool) \<Rightarrow> board_member crud_options" where
  "board_member_options c referenced =
     \<lparr>o_entityType = ''board_members'', o_extraPurgeTags = [''board_members'', ''home'', ''org_chart''], o_deleteArea = Content,
      o_publishable = True, o_sortable = True, o_searchable = [Some \<circ> bm_nameAr, bm_nameEn, Some \<circ> bm_roleAr, bm_roleEn],
      o_column = map_of (board_member_columns c), o_sortOrder = bm_sortOrder,
      o_rowNumber = (\<lambda>e. int (read_nat (bm_id e))), o_listEnrich = None, o_label = bm_nameAr, o_id = bm_id,
      o_isPublished = bm_isPublished, o_setPublished = (\<lambda>b e. e\<lparr>bm_isPublished := b\<rparr>),
      o_setSortOrder = (\<lambda>n e. e\<lparr>bm_sortOrder := n\<rparr>), o_slug = (\<lambda>_. []),
      o_publishRules = None,
      o_onPublish = None,
      o_publishWarnings = None,
      o_redirectFrom = None,
      o_duplicate = (\<lambda>e rows. False), o_referenced = referenced\<rparr>"

definition org_position_options :: "sql_compare \<Rightarrow> (org_position \<Rightarrow> bool) \<Rightarrow> org_position crud_options" where
  "org_position_options c referenced =
     \<lparr>o_entityType = ''org_positions'', o_extraPurgeTags = [''org_chart''], o_deleteArea = Content,
      o_publishable = True, o_sortable = True, o_searchable = [Some \<circ> op_nameAr, op_nameEn],
      o_column = map_of (org_position_columns c), o_sortOrder = op_sortOrder,
      o_rowNumber = (\<lambda>e. int (read_nat (op_id e))), o_listEnrich = None, o_label = op_nameAr, o_id = op_id,
      o_isPublished = op_isPublished, o_setPublished = (\<lambda>b e. e\<lparr>op_isPublished := b\<rparr>),
      o_setSortOrder = (\<lambda>n e. e\<lparr>op_sortOrder := n\<rparr>), o_slug = (\<lambda>_. []),
      o_publishRules = None,
      o_onPublish = None,
      o_publishWarnings = None,
      o_redirectFrom = None,
      o_duplicate = (\<lambda>e rows. False), o_referenced = referenced\<rparr>"

definition partner_options :: "sql_compare \<Rightarrow> (partner \<Rightarrow> bool) \<Rightarrow> partner crud_options" where
  "partner_options c referenced =
     \<lparr>o_entityType = ''partners'', o_extraPurgeTags = [''partners'', ''home''], o_deleteArea = Content,
      o_publishable = True, o_sortable = True, o_searchable = [Some \<circ> pt_nameAr, pt_nameEn],
      o_column = map_of (partner_columns c), o_sortOrder = pt_sortOrder,
      o_rowNumber = (\<lambda>e. int (read_nat (pt_id e))), o_listEnrich = None, o_label = pt_nameAr, o_id = pt_id,
      o_isPublished = pt_isPublished, o_setPublished = (\<lambda>b e. e\<lparr>pt_isPublished := b\<rparr>),
      o_setSortOrder = (\<lambda>n e. e\<lparr>pt_sortOrder := n\<rparr>), o_slug = (\<lambda>_. []),
      o_publishRules = None,
      o_onPublish = None,
      o_publishWarnings = None,
      o_redirectFrom = None,
      o_duplicate = (\<lambda>e rows. False), o_referenced = referenced\<rparr>"

definition page_options :: "sql_compare \<Rightarrow> (page \<Rightarrow> bool) \<Rightarrow> (page list \<Rightarrow> page list) \<Rightarrow> page crud_options" where
  "page_options c referenced enrich =
     \<lparr>o_entityType = ''pages'', o_extraPurgeTags = [''pages'', ''home''], o_deleteArea = Content,
      o_publishable = True, o_sortable = False, o_searchable = [Some \<circ> pa_slug, Some \<circ> pa_titleAr, pa_titleEn],
      o_column = map_of (page_columns c), o_sortOrder = (\<lambda>_. 0),
      o_rowNumber = (\<lambda>e. int (read_nat (pa_id e))), o_listEnrich = Some enrich, o_label = pa_titleAr, o_id = pa_id,
      o_isPublished = pa_isPublished, o_setPublished = (\<lambda>b e. e\<lparr>pa_isPublished := b\<rparr>),
      o_setSortOrder = (\<lambda>_ e. e), o_slug = pa_slug,
      o_publishRules = None,
      o_onPublish = None,
      o_publishWarnings = None,
      o_redirectFrom = None,
      o_duplicate = (\<lambda>e rows. \<exists>r \<in> set rows. sc_text c (pa_slug r) (pa_slug e)), o_referenced = referenced\<rparr>"

definition page_section_options :: "sql_compare \<Rightarrow> (page_section \<Rightarrow> bool) \<Rightarrow> page_section crud_options" where
  "page_section_options c referenced =
     \<lparr>o_entityType = ''page_sections'', o_extraPurgeTags = [''pages'', ''home''], o_deleteArea = Content,
      o_publishable = True, o_sortable = True, o_searchable = [ps_headingAr, ps_headingEn, ps_labelAr, ps_labelEn],
      o_column = map_of (page_section_columns c), o_sortOrder = ps_sortOrder,
      o_rowNumber = (\<lambda>e. int (read_nat (ps_id e))), o_listEnrich = None, o_label = ps_sectionKey, o_id = ps_id,
      o_isPublished = ps_isPublished, o_setPublished = (\<lambda>b e. e\<lparr>ps_isPublished := b\<rparr>),
      o_setSortOrder = (\<lambda>n e. e\<lparr>ps_sortOrder := n\<rparr>), o_slug = (\<lambda>_. []),
      o_publishRules = None,
      o_onPublish = None,
      o_publishWarnings = None,
      o_redirectFrom = None,
      o_duplicate = (\<lambda>e rows. \<exists>r \<in> set rows. sc_id c (ps_pageId r) (ps_pageId e) \<and> sc_text c (ps_sectionKey r) (ps_sectionKey e)), o_referenced = referenced\<rparr>"

definition doc_category_options :: "sql_compare \<Rightarrow> (doc_category \<Rightarrow> bool) \<Rightarrow> doc_category crud_options" where
  "doc_category_options c referenced =
     \<lparr>o_entityType = ''doc_categories'', o_extraPurgeTags = [''documents'', ''home''], o_deleteArea = Content,
      o_publishable = False, o_sortable = True, o_searchable = [Some \<circ> dc_slug, Some \<circ> dc_nameAr, dc_nameEn],
      o_column = map_of (doc_category_columns c), o_sortOrder = dc_sortOrder,
      o_rowNumber = (\<lambda>e. int (read_nat (dc_id e))), o_listEnrich = None, o_label = dc_nameAr, o_id = dc_id,
      o_isPublished = dc_isPublished, o_setPublished = (\<lambda>b e. e\<lparr>dc_isPublished := b\<rparr>),
      o_setSortOrder = (\<lambda>n e. e\<lparr>dc_sortOrder := n\<rparr>), o_slug = dc_slug,
      o_publishRules = None,
      o_onPublish = None,
      o_publishWarnings = None,
      o_redirectFrom = None,
      o_duplicate = (\<lambda>e rows. \<exists>r \<in> set rows. sc_text c (dc_slug r) (dc_slug e)), o_referenced = referenced\<rparr>"

definition safeer_document_options :: "sql_compare \<Rightarrow> (safeer_document \<Rightarrow> bool) \<Rightarrow> safeer_document crud_options" where
  "safeer_document_options c referenced =
     \<lparr>o_entityType = ''documents'', o_extraPurgeTags = [''documents'', ''home''], o_deleteArea = Content,
      o_publishable = True, o_sortable = False, o_searchable = [Some \<circ> dd_titleAr, dd_titleEn],
      o_column = map_of (safeer_document_columns c), o_sortOrder = dd_sortOrder,
      o_rowNumber = (\<lambda>e. int (read_nat (dd_id e))), o_listEnrich = None, o_label = dd_titleAr, o_id = dd_id,
      o_isPublished = dd_isPublished, o_setPublished = (\<lambda>b e. e\<lparr>dd_isPublished := b\<rparr>),
      o_setSortOrder = (\<lambda>n e. e\<lparr>dd_sortOrder := n\<rparr>), o_slug = (\<lambda>_. []),
      o_publishRules = None,
      o_onPublish = None,
      o_publishWarnings = None,
      o_redirectFrom = None,
      o_duplicate = (\<lambda>e rows. False), o_referenced = referenced\<rparr>"

definition licence_options :: "sql_compare \<Rightarrow> (licence \<Rightarrow> bool) \<Rightarrow> licence crud_options" where
  "licence_options c referenced =
     \<lparr>o_entityType = ''licences'', o_extraPurgeTags = [''site_settings'', ''home''], o_deleteArea = Content,
      o_publishable = True, o_sortable = True, o_searchable = [Some \<circ> li_titleAr, li_titleEn, li_number],
      o_column = map_of (licence_columns c), o_sortOrder = li_sortOrder,
      o_rowNumber = (\<lambda>e. int (read_nat (li_id e))), o_listEnrich = None, o_label = li_titleAr, o_id = li_id,
      o_isPublished = li_isPublished, o_setPublished = (\<lambda>b e. e\<lparr>li_isPublished := b\<rparr>),
      o_setSortOrder = (\<lambda>n e. e\<lparr>li_sortOrder := n\<rparr>), o_slug = (\<lambda>_. []),
      o_publishRules = None,
      o_onPublish = None,
      o_publishWarnings = None,
      o_redirectFrom = None,
      o_duplicate = (\<lambda>e rows. False), o_referenced = referenced\<rparr>"

definition stat_options :: "sql_compare \<Rightarrow> (stat \<Rightarrow> bool) \<Rightarrow> stat crud_options" where
  "stat_options c referenced =
     \<lparr>o_entityType = ''stats'', o_extraPurgeTags = [''home''], o_deleteArea = Content,
      o_publishable = True, o_sortable = True, o_searchable = [Some \<circ> sx_labelAr, sx_labelEn],
      o_column = map_of (stat_columns c), o_sortOrder = sx_sortOrder,
      o_rowNumber = (\<lambda>e. int (read_nat (sx_id e))), o_listEnrich = None, o_label = sx_labelAr, o_id = sx_id,
      o_isPublished = sx_isPublished, o_setPublished = (\<lambda>b e. e\<lparr>sx_isPublished := b\<rparr>),
      o_setSortOrder = (\<lambda>n e. e\<lparr>sx_sortOrder := n\<rparr>), o_slug = (\<lambda>_. []),
      o_publishRules = None,
      o_onPublish = None,
      o_publishWarnings = None,
      o_redirectFrom = None,
      o_duplicate = (\<lambda>e rows. False), o_referenced = referenced\<rparr>"

definition testimonial_options :: "sql_compare \<Rightarrow> (testimonial \<Rightarrow> bool) \<Rightarrow> testimonial crud_options" where
  "testimonial_options c referenced =
     \<lparr>o_entityType = ''testimonials'', o_extraPurgeTags = [''testimonials'', ''home''], o_deleteArea = InboxArea,
      o_publishable = False, o_sortable = True, o_searchable = [Some \<circ> te_authorName, Some \<circ> te_quoteAr, te_quoteEn],
      o_column = map_of (testimonial_columns c), o_sortOrder = te_sortOrder,
      o_rowNumber = (\<lambda>e. int (read_nat (te_id e))), o_listEnrich = None, o_label = te_authorName, o_id = te_id,
      o_isPublished = (\<lambda>_. False), o_setPublished = (\<lambda>_ e. e),
      o_setSortOrder = (\<lambda>n e. e\<lparr>te_sortOrder := n\<rparr>), o_slug = (\<lambda>_. []),
      o_publishRules = None,
      o_onPublish = None,
      o_publishWarnings = None,
      o_redirectFrom = None,
      o_duplicate = (\<lambda>e rows. False), o_referenced = referenced\<rparr>"

definition testimonial_theme_options :: "sql_compare \<Rightarrow> (testimonial_theme \<Rightarrow> bool) \<Rightarrow> testimonial_theme crud_options" where
  "testimonial_theme_options c referenced =
     \<lparr>o_entityType = ''testimonial_themes'', o_extraPurgeTags = [''testimonials'', ''home''], o_deleteArea = InboxArea,
      o_publishable = False, o_sortable = True, o_searchable = [Some \<circ> tt_titleAr, tt_titleEn],
      o_column = map_of (testimonial_theme_columns c), o_sortOrder = tt_sortOrder,
      o_rowNumber = (\<lambda>e. int (read_nat (tt_id e))), o_listEnrich = None, o_label = tt_titleAr, o_id = tt_id,
      o_isPublished = (\<lambda>_. False), o_setPublished = (\<lambda>_ e. e),
      o_setSortOrder = (\<lambda>n e. e\<lparr>tt_sortOrder := n\<rparr>), o_slug = (\<lambda>_. []),
      o_publishRules = None,
      o_onPublish = None,
      o_publishWarnings = None,
      o_redirectFrom = None,
      o_duplicate = (\<lambda>e rows. False), o_referenced = referenced\<rparr>"

definition work_area_options :: "sql_compare \<Rightarrow> (work_area \<Rightarrow> bool) \<Rightarrow> work_area crud_options" where
  "work_area_options c referenced =
     \<lparr>o_entityType = ''work_areas'', o_extraPurgeTags = [''work_areas'', ''home''], o_deleteArea = Content,
      o_publishable = True, o_sortable = True, o_searchable = [Some \<circ> wa_titleAr, wa_titleEn],
      o_column = map_of (work_area_columns c), o_sortOrder = wa_sortOrder,
      o_rowNumber = (\<lambda>e. int (read_nat (wa_id e))), o_listEnrich = None, o_label = wa_titleAr, o_id = wa_id,
      o_isPublished = wa_isPublished, o_setPublished = (\<lambda>b e. e\<lparr>wa_isPublished := b\<rparr>),
      o_setSortOrder = (\<lambda>n e. e\<lparr>wa_sortOrder := n\<rparr>), o_slug = (\<lambda>_. []),
      o_publishRules = None,
      o_onPublish = None,
      o_publishWarnings = None,
      o_redirectFrom = None,
      o_duplicate = (\<lambda>e rows. False), o_referenced = referenced\<rparr>"

definition work_area_item_options :: "sql_compare \<Rightarrow> (work_area_item \<Rightarrow> bool) \<Rightarrow> work_area_item crud_options" where
  "work_area_item_options c referenced =
     \<lparr>o_entityType = ''work_area_items'', o_extraPurgeTags = [''work_areas'', ''home''], o_deleteArea = Content,
      o_publishable = True, o_sortable = True, o_searchable = [Some \<circ> wi_textAr, wi_textEn],
      o_column = map_of (work_area_item_columns c), o_sortOrder = wi_sortOrder,
      o_rowNumber = (\<lambda>e. int (read_nat (wi_id e))), o_listEnrich = None, o_label = wi_textAr, o_id = wi_id,
      o_isPublished = wi_isPublished, o_setPublished = (\<lambda>b e. e\<lparr>wi_isPublished := b\<rparr>),
      o_setSortOrder = (\<lambda>n e. e\<lparr>wi_sortOrder := n\<rparr>), o_slug = (\<lambda>_. []),
      o_publishRules = None,
      o_onPublish = None,
      o_publishWarnings = None,
      o_redirectFrom = None,
      o_duplicate = (\<lambda>e rows. False), o_referenced = referenced\<rparr>"

definition about_item_options :: "sql_compare \<Rightarrow> (about_item \<Rightarrow> bool) \<Rightarrow> about_item crud_options" where
  "about_item_options c referenced =
     \<lparr>o_entityType = ''about_items'', o_extraPurgeTags = [''home''], o_deleteArea = Content,
      o_publishable = True, o_sortable = True, o_searchable = [Some \<circ> ai_titleAr, ai_titleEn],
      o_column = map_of (about_item_columns c), o_sortOrder = ai_sortOrder,
      o_rowNumber = (\<lambda>e. int (read_nat (ai_id e))), o_listEnrich = None, o_label = ai_titleAr, o_id = ai_id,
      o_isPublished = ai_isPublished, o_setPublished = (\<lambda>b e. e\<lparr>ai_isPublished := b\<rparr>),
      o_setSortOrder = (\<lambda>n e. e\<lparr>ai_sortOrder := n\<rparr>), o_slug = (\<lambda>_. []),
      o_publishRules = None,
      o_onPublish = None,
      o_publishWarnings = None,
      o_redirectFrom = None,
      o_duplicate = (\<lambda>e rows. False), o_referenced = referenced\<rparr>"

end
