(* ===== verification/TextRules.thy ===== *)
theory TextRules
  imports SafeerPrelude
begin

text \<open>
  The text helpers: \<open>common/text/normalize-ar.ts\<close>, \<open>common/text/slugify.ts\<close>,
  \<open>common/validation/slug.ts\<close>, \<open>common/validation/safe-url.ts\<close> and \<open>common/csv.ts\<close>. Where
  characters beyond ASCII matter a text is the list of its code points. \<open>toLowerCase\<close> and
  \<open>normalize('NFKD')\<close> on code points and the platform's URL parser are parameters.
\<close>

type_synonym codes = "nat list"

section \<open>Arabic normalisation\<close>

definition space_code :: "nat \<Rightarrow> bool" where
  "space_code c \<longleftrightarrow> c \<in> {9, 10, 11, 12, 13, 32, 160, 0x1680, 0x2028, 0x2029, 0x202F, 0x205F, 0x3000, 0xFEFF}
     \<or> (0x2000 \<le> c \<and> c \<le> 0x200A)"

definition trim_codes :: "codes \<Rightarrow> codes" where
  "trim_codes s = rev (dropWhile space_code (rev (dropWhile space_code s)))"

function squeeze_spaces :: "codes \<Rightarrow> codes" where
  "squeeze_spaces [] = []"
| "squeeze_spaces (c # cs) =
     (if space_code c then 32 # squeeze_spaces (dropWhile space_code cs) else c # squeeze_spaces cs)"
  by pat_completeness auto
termination
  by (relation "measure length") (auto simp: length_dropWhile_le le_imp_less_Suc)

definition replace_code :: "nat set \<Rightarrow> nat \<Rightarrow> codes \<Rightarrow> codes" where
  "replace_code from to s = map (\<lambda>c. if c \<in> from then to else c) s"

definition normalize_ar :: "(codes \<Rightarrow> codes) \<Rightarrow> codes \<Rightarrow> codes" where
  "normalize_ar lower s =
     (let s1 = filter (\<lambda>c. \<not> (0x64B \<le> c \<and> c \<le> 0x652) \<and> c \<noteq> 0x640) (lower s);
          s2 = replace_code {0x623, 0x625, 0x622} 0x627 s1;
          s3 = replace_code {0x629} 0x647 s2;
          s4 = replace_code {0x649} 0x64A s3;
          s5 = replace_code {0x624} 0x648 s4;
          s6 = replace_code {0x626} 0x64A s5
      in trim_codes (squeeze_spaces s6))"

section \<open>Slugs\<close>

definition slug_char :: "char \<Rightarrow> bool" where
  "slug_char c \<longleftrightarrow> is_digit c \<or> (97 \<le> (of_char c :: nat) \<and> (of_char c :: nat) \<le> 122)"

text \<open>\<open>SLUG_RE\<close> as the automaton it denotes; the flag says whether a word has begun.\<close>

fun slug_run :: "bool \<Rightarrow> string \<Rightarrow> bool" where
  "slug_run begun [] = begun"
| "slug_run begun (c # cs) =
     (if slug_char c then slug_run True cs else c = CHR ''-'' \<and> begun \<and> slug_run False cs)"

definition SLUG_RE :: "string \<Rightarrow> bool" where "SLUG_RE s = slug_run False s"
definition SLUG_MAX :: nat where "SLUG_MAX = 180"

definition RESERVED_POST_SLUGS :: "string list" where
  "RESERVED_POST_SLUGS = [''featured'', ''new'', ''edit'', ''preview'', ''admin'', ''api'', ''sitemap'', ''search'',
                          ''feed'', ''rss'', ''categories'', ''category'']"

definition is_valid_slug :: "string list \<Rightarrow> string \<Rightarrow> bool" where
  "is_valid_slug reserved s \<longleftrightarrow> length s \<le> SLUG_MAX \<and> SLUG_RE s \<and> s \<notin> set reserved"

text \<open>\<open>slugSchema\<close>: what a hand-set slug becomes, \<open>None\<close> when it is refused.\<close>

definition slug_schema :: "string list \<Rightarrow> string \<Rightarrow> string option" where
  "slug_schema reserved raw =
     (let s = trim raw
      in if 1 \<le> length s \<and> length s \<le> SLUG_MAX \<and> SLUG_RE s \<and> s \<notin> set reserved then Some s else None)"

definition slug_code :: "nat \<Rightarrow> bool" where
  "slug_code c \<longleftrightarrow> (48 \<le> c \<and> c \<le> 57) \<or> (97 \<le> c \<and> c \<le> 122)"

function hyphenate :: "codes \<Rightarrow> string" where
  "hyphenate [] = []"
| "hyphenate (c # cs) =
     (if slug_code c then char_of c # hyphenate cs
      else CHR ''-'' # hyphenate (dropWhile (\<lambda>d. \<not> slug_code d) cs))"
  by pat_completeness auto
termination
  by (relation "measure length") (auto simp: length_dropWhile_le le_imp_less_Suc)

definition strip_trailing_hyphens :: "string \<Rightarrow> string" where
  "strip_trailing_hyphens s = rev (dropWhile (\<lambda>c. c = CHR ''-'') (rev s))"

definition slugify_en :: "(codes \<Rightarrow> codes) \<Rightarrow> (codes \<Rightarrow> codes) \<Rightarrow> codes \<Rightarrow> string" where
  "slugify_en lower nfkd s =
     (let marks_off = filter (\<lambda>c. \<not> (0x300 \<le> c \<and> c \<le> 0x36F)) (nfkd (lower s))
      in strip_trailing_hyphens (dropWhile (\<lambda>c. c = CHR ''-'') (hyphenate marks_off)))"

definition slug_base :: "(codes \<Rightarrow> codes) \<Rightarrow> (codes \<Rightarrow> codes) \<Rightarrow> codes option \<Rightarrow> codes option \<Rightarrow> string" where
  "slug_base lower nfkd title_en title_ar =
     (let given = (\<lambda>t. case t of None \<Rightarrow> [] | Some s \<Rightarrow> s)
      in if trim_codes (given title_en) \<noteq> [] then slugify_en lower nfkd (given title_en)
         else if trim_codes (given title_ar) \<noteq> [] then slugify_en lower nfkd (normalize_ar lower (given title_ar))
         else [])"

text \<open>\<open>replace(/-[^-]*$/, '')\<close>: cut at the last hyphen, if there is one.\<close>

definition cut_last_word :: "string \<Rightarrow> string" where
  "cut_last_word s =
     (let tail = takeWhile (\<lambda>c. c \<noteq> CHR ''-'') (rev s)
      in if length tail = length s then s else take (length s - length tail - 1) s)"

text \<open>The candidates in the order they are tried, and the loop over them with its fuel.\<close>

definition slug_candidate :: "string \<Rightarrow> nat \<Rightarrow> string" where
  "slug_candidate base i = (if i < 2 then base else base @ ''-'' @ show_nat i)"

fun first_free :: "(string \<Rightarrow> bool) \<Rightarrow> string \<Rightarrow> nat \<Rightarrow> nat \<Rightarrow> string option" where
  "first_free taken base i 0 = None"
| "first_free taken base i (Suc fuel) =
     (if taken (slug_candidate base i) then first_free taken base (i + 1) fuel else Some (slug_candidate base i))"

definition slug_stem :: "(codes \<Rightarrow> codes) \<Rightarrow> (codes \<Rightarrow> codes) \<Rightarrow> codes option \<Rightarrow> codes option \<Rightarrow> string \<Rightarrow> string list \<Rightarrow> string" where
  "slug_stem lower nfkd title_en title_ar fallback reserved =
     (let full = slug_base lower nfkd title_en title_ar;
          base = strip_trailing_hyphens
                   (if SLUG_MAX - 6 < length full then cut_last_word (take (SLUG_MAX - 6) full) else full)
      in if is_valid_slug reserved base then base else fallback)"

definition generate_unique_slug ::
  "(codes \<Rightarrow> codes) \<Rightarrow> (codes \<Rightarrow> codes) \<Rightarrow> (string \<Rightarrow> bool) \<Rightarrow> codes option \<Rightarrow> codes option \<Rightarrow> string \<Rightarrow> string list \<Rightarrow> nat
     \<Rightarrow> string option" where
  "generate_unique_slug lower nfkd taken title_en title_ar fallback reserved fuel =
     first_free taken (slug_stem lower nfkd title_en title_ar fallback reserved) 1 fuel"

lemma slug_run_word: "slug_run True w" if "list_all slug_char w"
  using that by (induction w) auto

lemma slug_run_suffix:
  "slug_run b s \<Longrightarrow> w \<noteq> [] \<Longrightarrow> list_all slug_char w \<Longrightarrow> slug_run b (s @ CHR ''-'' # w)"
proof (induction s arbitrary: b)
  case Nil
  have "\<not> slug_char (CHR ''-'')" by (simp add: slug_char_def is_digit_def)
  with Nil show ?case
    by (cases w) (auto simp: slug_run_word)
next
  case (Cons c s)
  then show ?case by (auto split: if_splits)
qed

lemma show_nat_slug_chars: "list_all slug_char (show_nat n)"
  using show_nat_digits by (auto simp: list_all_iff slug_char_def)

lemma candidate_slug: "SLUG_RE base \<Longrightarrow> SLUG_RE (slug_candidate base i)"
  using slug_run_suffix [of False base "show_nat i"] show_nat_slug_chars
  by (simp add: SLUG_RE_def slug_candidate_def)

lemma candidate_inj:
  assumes "1 \<le> i" "1 \<le> j" "slug_candidate base i = slug_candidate base j"
  shows "i = j"
  using assms by (auto simp: slug_candidate_def split: if_splits)

lemma length_show_nat: "n < 10 ^ k \<Longrightarrow> 0 < k \<Longrightarrow> length (show_nat n) \<le> k"
proof (induction k arbitrary: n)
  case 0
  then show ?case by simp
next
  case (Suc k)
  show ?case
  proof (cases "n < 10")
    case True
    then show ?thesis by (subst show_nat.simps) simp
  next
    case False
    then have "0 < k" using Suc.prems by (cases k) auto
    moreover have "n div 10 < 10 ^ k" using Suc.prems by (simp add: div_less_iff_less_mult mult.commute)
    ultimately show ?thesis
      using Suc.IH [of "n div 10"] False by (subst show_nat.simps) simp
  qed
qed

lemma first_free_some:
  assumes "\<exists>j. i \<le> j \<and> j < i + fuel \<and> \<not> taken (slug_candidate base j)"
  shows "\<exists>j. i \<le> j \<and> j < i + fuel \<and> first_free taken base i fuel = Some (slug_candidate base j)
    \<and> \<not> taken (slug_candidate base j)"
  using assms
proof (induction fuel arbitrary: i)
  case 0
  then show ?case by auto
next
  case (Suc fuel)
  show ?case
  proof (cases "taken (slug_candidate base i)")
    case True
    obtain j where j: "i \<le> j" "j < i + Suc fuel" "\<not> taken (slug_candidate base j)"
      using Suc.prems by blast
    with True have "i + 1 \<le> j" by (cases "i = j") auto
    with j have "\<exists>j. i + 1 \<le> j \<and> j < i + 1 + fuel \<and> \<not> taken (slug_candidate base j)"
      by (intro exI [of _ j]) simp
    then obtain k where "i + 1 \<le> k" "k < i + 1 + fuel" "\<not> taken (slug_candidate base k)"
        "first_free taken base (i + 1) fuel = Some (slug_candidate base k)"
      using Suc.IH by blast
    with True show ?thesis by (intro exI [of _ k]) simp
  next
    case False
    then show ?thesis by (intro exI [of _ i]) simp
  qed
qed

lemma some_candidate_free:
  assumes apart: "\<And>s c c'. same s c \<Longrightarrow> same s c' \<Longrightarrow> SLUG_RE c \<Longrightarrow> SLUG_RE c' \<Longrightarrow> c = c'"
    and "SLUG_RE base"
  shows "\<exists>j. 1 \<le> j \<and> j < 1 + Suc (length slugs) \<and> \<not> (\<exists>s \<in> set slugs. same s (slug_candidate base j))"
proof (rule ccontr)
  assume none: "\<not> ?thesis"
  define holder where "holder j = (SOME s. s \<in> set slugs \<and> same s (slug_candidate base j))" for j
  have holds: "holder j \<in> set slugs \<and> same (holder j) (slug_candidate base j)" if "j \<in> {1..Suc (length slugs)}" for j
  proof -
    have "j < 1 + Suc (length slugs)" "1 \<le> j" using that by auto
    then have "\<exists>s. s \<in> set slugs \<and> same s (slug_candidate base j)" using none by blast
    then show ?thesis unfolding holder_def by (rule someI_ex)
  qed
  have "inj_on holder {1..Suc (length slugs)}"
  proof (rule inj_onI)
    fix i j assume ij: "i \<in> {1..Suc (length slugs)}" "j \<in> {1..Suc (length slugs)}" "holder i = holder j"
    then have "same (holder i) (slug_candidate base i)" "same (holder i) (slug_candidate base j)"
      using holds by (force, metis)
    then have "slug_candidate base i = slug_candidate base j"
      using apart candidate_slug \<open>SLUG_RE base\<close> by blast
    then show "i = j" using ij candidate_inj by auto
  qed
  then have "card {1..Suc (length slugs)} \<le> card (set slugs)"
    using holds by (intro card_inj_on_le [where f = holder]) auto
  also have "\<dots> \<le> length slugs" by (rule card_length)
  finally show False by simp
qed

text \<open>
  C38: slug generation always ends, within one round more than
  there are rows, and its slug is taken by no row, well formed, within the length limit (below
  ninety thousand rows) and not a reserved word, whatever the titles. The column's comparison
  \<open>same\<close> is only asked not to identify two different well-formed slugs.
\<close>

theorem generated_slug_free_and_valid:
  assumes apart: "\<And>s c c'. same s c \<Longrightarrow> same s c' \<Longrightarrow> SLUG_RE c \<Longrightarrow> SLUG_RE c' \<Longrightarrow> c = c'"
    and fallback: "SLUG_RE fallback" "length fallback \<le> 174" "fallback \<notin> set RESERVED_POST_SLUGS"
    and few: "length slugs < 90000"
  shows "\<exists>s. generate_unique_slug lower nfkd (\<lambda>c. \<exists>r \<in> set slugs. same r c) title_en title_ar fallback
                RESERVED_POST_SLUGS (Suc (length slugs)) = Some s
      \<and> \<not> (\<exists>r \<in> set slugs. same r s) \<and> is_valid_slug RESERVED_POST_SLUGS s"
proof -
  let ?base = "slug_stem lower nfkd title_en title_ar fallback RESERVED_POST_SLUGS"
  have stem_cut: "length (strip_trailing_hyphens (if SLUG_MAX - 6 < length f then cut_last_word (take (SLUG_MAX - 6) f) else f)) \<le> 174" for f
  proof -
    have strip: "length (strip_trailing_hyphens s) \<le> length s" for s
      using length_dropWhile_le [of _ "rev s"] by (simp add: strip_trailing_hyphens_def)
    have cut: "length (cut_last_word s) \<le> length s" for s
      by (simp add: cut_last_word_def Let_def)
    show ?thesis
    proof (cases "SLUG_MAX - 6 < length f")
      case True
      have "length (cut_last_word (take (SLUG_MAX - 6) f)) \<le> length (take (SLUG_MAX - 6) f)" by (rule cut)
      also have "\<dots> \<le> 174" by (simp add: SLUG_MAX_def)
      finally show ?thesis using True strip le_trans by fastforce
    next
      case False
      then show ?thesis using strip [of f] by (simp add: SLUG_MAX_def)
    qed
  qed
  have base: "SLUG_RE ?base" "length ?base \<le> 174" "?base \<notin> set RESERVED_POST_SLUGS"
    using fallback stem_cut [of "slug_base lower nfkd title_en title_ar"]
    by (auto simp: slug_stem_def Let_def is_valid_slug_def)
  obtain j where j: "1 \<le> j" "j < 1 + Suc (length slugs)"
      "first_free (\<lambda>c. \<exists>r \<in> set slugs. same r c) ?base 1 (Suc (length slugs)) = Some (slug_candidate ?base j)"
      "\<not> (\<exists>r \<in> set slugs. same r (slug_candidate ?base j))"
    using first_free_some [of 1 "Suc (length slugs)" "\<lambda>c. \<exists>r \<in> set slugs. same r c"]
      some_candidate_free [of same ?base slugs] apart base(1) by blast
  have "length (show_nat j) \<le> 5"
    using few j by (intro length_show_nat) auto
  then have "length (slug_candidate ?base j) \<le> SLUG_MAX"
    using base(2) by (simp add: slug_candidate_def SLUG_MAX_def)
  moreover have "slug_candidate ?base j \<notin> set RESERVED_POST_SLUGS"
  proof (cases "j < 2")
    case True
    then show ?thesis using base(3) by (simp add: slug_candidate_def)
  next
    case False
    then have "CHR ''-'' \<in> set (slug_candidate ?base j)" by (simp add: slug_candidate_def)
    moreover have "\<forall>w \<in> set RESERVED_POST_SLUGS. CHR ''-'' \<notin> set w" by (simp add: RESERVED_POST_SLUGS_def)
    ultimately show ?thesis by blast
  qed
  ultimately show ?thesis
    using j(3,4) candidate_slug [OF base(1)] by (auto simp: generate_unique_slug_def is_valid_slug_def)
qed

theorem generated_slug_free_and_valid_witness:
  "\<exists>s. generate_unique_slug id id (\<lambda>c. \<exists>r \<in> set [''abc'', ''abc-2'']. r = c) (Some [97, 98, 99]) None ''post-1''
                RESERVED_POST_SLUGS (Suc (length [''abc'', ''abc-2''])) = Some s
      \<and> \<not> (\<exists>r \<in> set [''abc'', ''abc-2'']. r = s) \<and> is_valid_slug RESERVED_POST_SLUGS s"
  by (rule generated_slug_free_and_valid)
    (simp_all add: RESERVED_POST_SLUGS_def SLUG_RE_def slug_char_def is_digit_def)


section \<open>URLs stored by editors\<close>

record url =
  url_protocol :: string
  url_hostname :: string
  url_username :: string
  url_password :: string
  url_port :: string
  url_pathname :: string

definition ALLOWED_SCHEMES :: "string list" where
  "ALLOWED_SCHEMES = [''https:'', ''http:'', ''mailto:'', ''tel:'']"

definition bad_url_char :: "char \<Rightarrow> bool" where
  "bad_url_char c \<longleftrightarrow> is_space c \<or> c = CHR 0x5C"

definition SITE_PATH_RE :: "string \<Rightarrow> bool" where
  "SITE_PATH_RE s \<longleftrightarrow>
     (case s of
        [] \<Rightarrow> False
      | c # cs \<Rightarrow> c = CHR ''/'' \<and> (cs = [] \<or> hd cs \<noteq> CHR ''/'') \<and> list_all (\<lambda>d. \<not> bad_url_char d) cs)"

definition is_safe_url :: "(string \<Rightarrow> url option) \<Rightarrow> string \<Rightarrow> bool \<Rightarrow> bool" where
  "is_safe_url parse v relative \<longleftrightarrow>
     (if relative \<and> SITE_PATH_RE v then True
      else if list_ex bad_url_char v then False
      else case parse v of
             None \<Rightarrow> False
           | Some u \<Rightarrow>
               if url_protocol u \<notin> set ALLOWED_SCHEMES then False
               else url_protocol u = ''mailto:'' \<or> url_protocol u = ''tel:'' \<or> url_hostname u \<noteq> [])"

definition MAP_EMBED_ALLOW_LIST :: "(string \<times> string) list" where
  "MAP_EMBED_ALLOW_LIST = [(''www.google.com'', ''/maps/embed''), (''www.openstreetmap.org'', ''/'')]"

definition has_prefix :: "string \<Rightarrow> string \<Rightarrow> bool" where
  "has_prefix p s \<longleftrightarrow> take (length p) s = p"

definition is_map_embed_url :: "(string \<Rightarrow> url option) \<Rightarrow> string \<Rightarrow> bool" where
  "is_map_embed_url parse v \<longleftrightarrow>
     (if \<not> is_safe_url parse v False then False
      else case parse v of
             None \<Rightarrow> False
           | Some u \<Rightarrow>
               url_protocol u = ''https:'' \<and> url_username u = [] \<and> url_password u = [] \<and> url_port u = []
               \<and> list_ex (\<lambda>(host, prefix). url_hostname u = host \<and> has_prefix prefix (url_pathname u)) MAP_EMBED_ALLOW_LIST)"

text \<open>\<open>safeUrl\<close> and \<open>mapEmbedUrl\<close>: the trimmed value, \<open>None\<close> when it is refused.\<close>

definition safe_url :: "(string \<Rightarrow> url option) \<Rightarrow> bool \<Rightarrow> nat \<Rightarrow> string \<Rightarrow> string option" where
  "safe_url parse relative max_length raw =
     (let v = trim raw in if length v \<le> max_length \<and> is_safe_url parse v relative then Some v else None)"

definition map_embed_url :: "(string \<Rightarrow> url option) \<Rightarrow> string \<Rightarrow> string option" where
  "map_embed_url parse raw =
     (let v = trim raw in if length v \<le> 500 \<and> is_map_embed_url parse v then Some v else None)"

section \<open>CSV exports\<close>

abbreviation dquote :: char where "dquote \<equiv> CHR 0x22"
abbreviation cr :: char where "cr \<equiv> CHR 0x0D"
abbreviation lf :: char where "lf \<equiv> CHR 0x0A"

definition formula_char :: "char \<Rightarrow> bool" where
  "formula_char c \<longleftrightarrow> c \<in> {CHR ''='', CHR ''+'', CHR ''-'', CHR ''@'', CHR 0x09, CHR 0x0D}"

definition FORMULA_TRIGGER :: "string \<Rightarrow> bool" where
  "FORMULA_TRIGGER s \<longleftrightarrow> (case s of [] \<Rightarrow> False | c # _ \<Rightarrow> formula_char c)"

definition double_quotes :: "string \<Rightarrow> string" where
  "double_quotes s = concat (map (\<lambda>c. if c = dquote then [dquote, dquote] else [c]) s)"

definition neutral_cell :: "string \<Rightarrow> string" where
  "neutral_cell raw = (if FORMULA_TRIGGER raw then CHR 0x27 # raw else raw)"

definition escape_csv_field :: "string \<Rightarrow> string" where
  "escape_csv_field raw =
     (let v = neutral_cell raw
      in if v \<noteq> raw \<or> list_ex (\<lambda>c. c \<in> {dquote, CHR '','', cr, lf}) v then dquote # double_quotes v @ [dquote]
         else v)"

definition csv_line :: "string list \<Rightarrow> string" where
  "csv_line cells = join_with '','' (map escape_csv_field cells)"

definition to_csv :: "'r list \<Rightarrow> (string \<times> ('r \<Rightarrow> string)) list \<Rightarrow> string" where
  "to_csv rows columns =
     join_with [cr, lf] (csv_line (map fst columns) # map (\<lambda>r. csv_line (map (\<lambda>c. snd c r) columns)) rows)"

definition UTF8_BOM :: string where "UTF8_BOM = [CHR 0xEF, CHR 0xBB, CHR 0xBF]"

definition to_csv_with_bom :: "'r list \<Rightarrow> (string \<times> ('r \<Rightarrow> string)) list \<Rightarrow> string" where
  "to_csv_with_bom rows columns = UTF8_BOM @ to_csv rows columns"

text \<open>A reader of RFC 4180, the specification of what a spreadsheet makes of the file.\<close>

datatype csv_mode = AtStart | Bare | Quoted | Closed

fun csv_read :: "csv_mode \<Rightarrow> string \<Rightarrow> string list \<Rightarrow> string \<Rightarrow> string list list" where
  "csv_read m cell row [] = [row @ [cell]]"
| "csv_read Quoted cell row (c # cs) =
     (if c = dquote then csv_read Closed cell row cs else csv_read Quoted (cell @ [c]) row cs)"
| "csv_read Closed cell row (c # cs) =
     (if c = dquote then csv_read Quoted (cell @ [dquote]) row cs
      else if c = CHR '','' then csv_read AtStart [] (row @ [cell]) cs
      else if c = lf then (row @ [cell]) # csv_read AtStart [] [] cs
      else if c = cr then csv_read Closed cell row cs
      else csv_read Closed (cell @ [c]) row cs)"
| "csv_read m cell row (c # cs) =
     (if c = dquote \<and> m = AtStart then csv_read Quoted cell row cs
      else if c = CHR '','' then csv_read AtStart [] (row @ [cell]) cs
      else if c = lf then (row @ [cell]) # csv_read AtStart [] [] cs
      else if c = cr then csv_read m cell row cs
      else csv_read Bare (cell @ [c]) row cs)"

text \<open>The rest of the file after a cell: nothing, the next cell or the next line.\<close>

definition after_cell :: "string list \<Rightarrow> string \<Rightarrow> string list list" where
  "after_cell row rest = csv_read Closed (last row) (butlast row) rest"

definition cell_ends :: "string \<Rightarrow> bool" where
  "cell_ends rest \<longleftrightarrow> rest = [] \<or> hd rest = CHR '','' \<or> take 2 rest = [cr, lf]"

lemma read_bare:
  assumes "\<forall>c \<in> set s. c \<notin> {dquote, CHR '','', cr, lf}" and "cell_ends rest" and "m = Bare \<or> m = AtStart"
  shows "csv_read m cell row (s @ rest) = csv_read Closed (cell @ s) row rest"
  using assms
proof (induction s arbitrary: m cell)
  case Nil
  then show ?case
    by (cases rest; cases "tl rest"; cases m) (auto simp: cell_ends_def)
next
  case (Cons c s)
  have "csv_read m cell row ((c # s) @ rest) = csv_read Bare (cell @ [c]) row (s @ rest)"
    using Cons.prems by (cases m) auto
  then show ?case using Cons.IH [of Bare "cell @ [c]"] Cons.prems by simp
qed

lemma read_quoted:
  "csv_read Quoted cell row (double_quotes s @ dquote # rest) = csv_read Closed (cell @ s) row rest"
proof (induction s arbitrary: cell)
  case Nil
  then show ?case by (simp add: double_quotes_def)
next
  case (Cons c s)
  have "double_quotes (c # s) = (if c = dquote then [dquote, dquote] else [c]) @ double_quotes s"
    by (simp add: double_quotes_def)
  then show ?case using Cons.IH [of "cell @ [c]"] by (cases "c = dquote") auto
qed

lemma read_cell:
  assumes "cell_ends rest"
  shows "csv_read AtStart [] row (escape_csv_field raw @ rest) = csv_read Closed (neutral_cell raw) row rest"
proof (cases "neutral_cell raw \<noteq> raw \<or> list_ex (\<lambda>c. c \<in> {dquote, CHR '','', cr, lf}) (neutral_cell raw)")
  case True
  then have "escape_csv_field raw = dquote # double_quotes (neutral_cell raw) @ [dquote]"
    by (simp add: escape_csv_field_def Let_def)
  then show ?thesis using read_quoted [of "[]" row "neutral_cell raw" rest] by simp
next
  case False
  then have "escape_csv_field raw = raw" "neutral_cell raw = raw" "\<forall>c \<in> set raw. c \<notin> {dquote, CHR '','', cr, lf}"
    by (auto simp: escape_csv_field_def Let_def list_ex_iff)
  then show ?thesis using read_bare [of raw rest AtStart "[]" row] assms by simp
qed

lemma read_line:
  assumes "cells \<noteq> []" and "rest = [] \<or> take 2 rest = [cr, lf]"
  shows "csv_read AtStart [] row (csv_line cells @ rest)
    = csv_read Closed (neutral_cell (last cells)) (row @ map neutral_cell (butlast cells)) rest"
  using assms(1)
proof (induction cells arbitrary: row)
  case Nil
  then show ?case by simp
next
  case (Cons c cells)
  show ?case
  proof (cases "cells = []")
    case True
    then show ?thesis
      using read_cell [of rest row c] assms(2) by (auto simp: csv_line_def cell_ends_def)
  next
    case False
    then have line: "csv_line (c # cells) = escape_csv_field c @ CHR '','' # csv_line cells"
      by (cases cells) (simp_all add: csv_line_def)
    have "csv_read AtStart [] row (csv_line (c # cells) @ rest)
        = csv_read Closed (neutral_cell c) row (CHR '','' # csv_line cells @ rest)"
      using read_cell [of "CHR '','' # csv_line cells @ rest" row c] by (simp add: line cell_ends_def)
    also have "\<dots> = csv_read AtStart [] (row @ [neutral_cell c]) (csv_line cells @ rest)" by simp
    finally show ?thesis using Cons.IH False by simp
  qed
qed

lemma read_lines:
  assumes "ls \<noteq> []" and "\<forall>l \<in> set ls. l \<noteq> []"
  shows "csv_read AtStart [] [] (join_with [cr, lf] (map csv_line ls)) = map (map neutral_cell) ls"
  using assms
proof (induction ls)
  case Nil
  then show ?case by simp
next
  case (Cons l ls)
  have whole: "map neutral_cell l = map neutral_cell (butlast l) @ [neutral_cell (last l)]"
    using Cons.prems by (metis append_butlast_last_id list.set_intros(1) map_append list.simps(8,9))
  show ?case
  proof (cases "ls = []")
    case True
    then show ?thesis
      using read_line [of l "[]" "[]"] Cons.prems whole by simp
  next
    case False
    let ?rest = "join_with [cr, lf] (map csv_line ls)"
    have "join_with [cr, lf] (map csv_line (l # ls)) = csv_line l @ cr # lf # ?rest"
      using False by (cases ls) simp_all
    then show ?thesis
      using read_line [of l "cr # lf # ?rest" "[]"] Cons False whole by simp
  qed
qed

text \<open>
  C39: an export reads back, cell for cell, as the rows that went in, whatever
  quotes, commas and line breaks the cells hold, except that a cell a spreadsheet would run as
  a formula carries an apostrophe in front.
\<close>

theorem csv_reads_back:
  assumes "columns \<noteq> []"
  shows "csv_read AtStart [] [] (to_csv rows columns)
      = map (map neutral_cell) (map fst columns # map (\<lambda>r. map (\<lambda>c. snd c r) columns) rows)
    \<and> (\<forall>l \<in> set (csv_read AtStart [] [] (to_csv rows columns)). \<forall>cell \<in> set l. \<not> FORMULA_TRIGGER cell)"
proof -
  let ?ls = "map fst columns # map (\<lambda>r. map (\<lambda>c. snd c r) columns) rows"
  have "to_csv rows columns = join_with [cr, lf] (map csv_line ?ls)"
    by (simp add: to_csv_def comp_def)
  then have read: "csv_read AtStart [] [] (to_csv rows columns) = map (map neutral_cell) ?ls"
    using read_lines [of ?ls] assms by auto
  have "\<not> FORMULA_TRIGGER (neutral_cell raw)" for raw
    by (auto simp: neutral_cell_def FORMULA_TRIGGER_def formula_char_def split: list.splits)
  then show ?thesis unfolding read by auto
qed

theorem csv_reads_back_witness:
  "csv_read AtStart [] [] (to_csv [''=1'', ''a,b''] [(''name'', \<lambda>s :: string. s)])
      = map (map neutral_cell) (map fst [(''name'', \<lambda>s :: string. s)] # map (\<lambda>r. map (\<lambda>c. snd c r) [(''name'', \<lambda>s :: string. s)]) [''=1'', ''a,b''])"
  by (rule csv_reads_back [THEN conjunct1]) simp

end
