(* ===== verification/Redirects.thy ===== *)
theory Redirects
  imports ContentData TextRules
begin

text \<open>
  Redirects and the posts that move them: \<open>redirects/redirects.controller.ts\<close> with its DTO,
  \<open>redirects/redirects-public.controller.ts\<close>, \<open>news/admin-news.controller.ts\<close> with its DTO. The
  admin handlers run the CRUD kernel over the redirects table; a renamed post writes to the
  same table through \<open>saveWithRedirect\<close>. The table's \<open>created_at\<close> is not tracked. \<open>ceq\<close> is the
  collation's equality of paths.
\<close>

section \<open>The redirect collection\<close>

definition redirect_columns :: "sql_compare \<Rightarrow> (string \<times> (redirect \<Rightarrow> string \<Rightarrow> bool)) list" where
  "redirect_columns c =
     [(''id'', \<lambda>e v. sc_id c (rd_id e) v),
      (''fromPath'', \<lambda>e v. sc_text c (rd_fromPath e) v),
      (''toPath'', \<lambda>e v. sc_text c (rd_toPath e) v),
      (''statusCode'', \<lambda>e v. sc_int c (int (rd_statusCode e)) v),
      (''hits'', \<lambda>e v. sc_int c (int (rd_hits e)) v)]"

definition redirect_options :: "sql_compare \<Rightarrow> redirect crud_options" where
  "redirect_options c =
     \<lparr>o_entityType = ''redirects'', o_extraPurgeTags = [''redirects''], o_deleteArea = RedirectsDelete,
      o_publishable = False, o_sortable = False, o_searchable = [Some \<circ> rd_fromPath, Some \<circ> rd_toPath],
      o_column = map_of (redirect_columns c), o_sortOrder = (\<lambda>_. 0),
      o_rowNumber = (\<lambda>e. int (read_nat (rd_id e))), o_listEnrich = None, o_label = rd_fromPath, o_id = rd_id,
      o_isPublished = (\<lambda>_. False), o_setPublished = (\<lambda>_ e. e),
      o_setSortOrder = (\<lambda>_ e. e), o_slug = (\<lambda>_. []),
      o_publishRules = None, o_onPublish = None, o_publishWarnings = None, o_redirectFrom = None,
      o_duplicate = (\<lambda>e rows. \<exists>r \<in> set rows. sc_text c (rd_fromPath r) (rd_fromPath e)),
      o_referenced = (\<lambda>_. False)\<rparr>"

definition site_path :: "string \<Rightarrow> string option" where
  "site_path raw =
     (let v = trim raw in if 2 \<le> length v \<and> length v \<le> 255 \<and> SITE_PATH_RE v then Some v else None)"

record redirect_dto =
  rx_fromPath :: "string option"
  rx_toPath :: "string option"
  rx_statusCode :: "nat option"

definition good_status :: "nat option \<Rightarrow> bool" where
  "good_status s \<longleftrightarrow> s = None \<or> s = Some 301 \<or> s = Some 302"

text \<open>A field that is absent stays absent; one that is present must be a site path.\<close>

definition path_field :: "string option \<Rightarrow> string option option" where
  "path_field f = (case f of None \<Rightarrow> Some None | Some raw \<Rightarrow> map_option Some (site_path raw))"

definition update_redirect_schema :: "redirect_dto \<Rightarrow> redirect_dto res" where
  "update_redirect_schema d =
     (case (path_field (rx_fromPath d), path_field (rx_toPath d)) of
        (Some f, Some t) \<Rightarrow>
          if good_status (rx_statusCode d)
          then Inr \<lparr>rx_fromPath = f, rx_toPath = t, rx_statusCode = rx_statusCode d\<rparr> else Inl (ZodExn None)
      | _ \<Rightarrow> Inl (ZodExn None))"

definition create_redirect_schema :: "redirect_dto \<Rightarrow> redirect_dto res" where
  "create_redirect_schema d =
     (case update_redirect_schema d of
        Inl e \<Rightarrow> Inl e
      | Inr v \<Rightarrow>
          if rx_fromPath v = None \<or> rx_toPath v = None \<or> rx_fromPath v = rx_toPath v then Inl (ZodExn None) else Inr v)"

section \<open>The admin handlers\<close>

definition assert_no_chain ::
  "(string \<Rightarrow> string \<Rightarrow> bool) \<Rightarrow> string option \<Rightarrow> string \<Rightarrow> string \<Rightarrow> redirect list \<Rightarrow> unit res" where
  "assert_no_chain ceq self_id from_path to_path rs =
     (let others = filter (\<lambda>r. Some (rd_id r) \<noteq> self_id)
            (filter (\<lambda>r. ceq (rd_fromPath r) to_path \<or> ceq (rd_toPath r) from_path \<or> ceq (rd_fromPath r) from_path) rs)
      in if \<exists>r \<in> set others. rd_fromPath r = from_path
         then fail 409 REDIRECT_CHAIN (''A redirect from '' @ from_path @ '' already exists'')
         else if others \<noteq> [] then fail 409 REDIRECT_CHAIN ''Redirects must not chain - point the redirect at the final page''
         else Inr ())"

definition redirect_db :: "redirect list \<Rightarrow> redirect crud_db" where
  "redirect_db rs = \<lparr>cd_rows = rs, cd_redirects = [], cd_assets = []\<rparr>"

definition create_redirect ::
  "sql_compare \<Rightarrow> string \<Rightarrow> redirect_dto \<Rightarrow> redirect list \<Rightarrow> (redirect, redirect with_warnings) handler_result" where
  "create_redirect c new_id body rs =
     (let refuse = (\<lambda>e. (Inl e, redirect_db rs, None, []))
      in case create_redirect_schema body of
           Inl e \<Rightarrow> refuse e
         | Inr d \<Rightarrow>
             (let f = the (rx_fromPath d); t = the (rx_toPath d)
              in case assert_no_chain (sc_text c) None f t rs of
                   Inl e \<Rightarrow> refuse e
                 | Inr _ \<Rightarrow>
                     crud_create (redirect_options c) (sc_id c) (sc_text c) []
                       \<lparr>rd_id = new_id, rd_fromPath = f, rd_toPath = t,
                        rd_statusCode = (case rx_statusCode d of None \<Rightarrow> 301 | Some s \<Rightarrow> s), rd_hits = 0\<rparr>
                       (redirect_db rs)))"

definition assign_redirect :: "redirect_dto \<Rightarrow> redirect \<Rightarrow> redirect" where
  "assign_redirect d r =
     r\<lparr>rd_fromPath := (case rx_fromPath d of None \<Rightarrow> rd_fromPath r | Some f \<Rightarrow> f),
       rd_toPath := (case rx_toPath d of None \<Rightarrow> rd_toPath r | Some t \<Rightarrow> t),
       rd_statusCode := (case rx_statusCode d of None \<Rightarrow> rd_statusCode r | Some s \<Rightarrow> s)\<rparr>"

definition update_redirect ::
  "sql_compare \<Rightarrow> string \<Rightarrow> redirect_dto \<Rightarrow> redirect list \<Rightarrow> (redirect, redirect with_warnings) handler_result" where
  "update_redirect c i body rs =
     (let refuse = (\<lambda>e. (Inl e, redirect_db rs, None, []))
      in case update_redirect_schema body of
           Inl e \<Rightarrow> refuse e
         | Inr d \<Rightarrow>
             (let checked = (case List.find (\<lambda>r. sc_id c (rd_id r) i) rs of
                               None \<Rightarrow> Inr ()
                             | Some current \<Rightarrow>
                                 (let f = (case rx_fromPath d of None \<Rightarrow> rd_fromPath current | Some f \<Rightarrow> f);
                                      t = (case rx_toPath d of None \<Rightarrow> rd_toPath current | Some t \<Rightarrow> t)
                                  in if f = t then fail 400 VALIDATION_FAILED ''fromPath and toPath must differ''
                                     else assert_no_chain (sc_text c) (Some i) f t rs))
              in case checked of
                   Inl e \<Rightarrow> refuse e
                 | Inr _ \<Rightarrow>
                     crud_update (redirect_options c) (sc_id c) (sc_text c) [] [] i (assign_redirect d) (redirect_db rs)))"

definition remove_redirect :: "sql_compare \<Rightarrow> string \<Rightarrow> redirect list \<Rightarrow> (redirect, unit) handler_result" where
  "remove_redirect c i rs = crud_remove (redirect_options c) (sc_id c) i (redirect_db rs)"

section \<open>The public route\<close>

record resolved =
  rs_toPath :: string
  rs_statusCode :: nat

definition resolve_redirect :: "(string \<Rightarrow> string \<Rightarrow> bool) \<Rightarrow> query \<Rightarrow> redirect list \<Rightarrow> resolved res \<times> redirect list" where
  "resolve_redirect ceq q rs =
     (case read_string q ''path'' of
        None \<Rightarrow> (fail 400 VALIDATION_FAILED ''A \"path\" query parameter is required'', rs)
      | Some path \<Rightarrow>
          if path = [] then (fail 400 VALIDATION_FAILED ''A \"path\" query parameter is required'', rs)
          else (case List.find (\<lambda>r. ceq (rd_fromPath r) path) rs of
                  None \<Rightarrow> (fail 404 NOT_FOUND ''No redirect is registered for this path'', rs)
                | Some r \<Rightarrow>
                    (Inr \<lparr>rs_toPath = rd_toPath r, rs_statusCode = rd_statusCode r\<rparr>,
                     update_rows (\<lambda>x. rd_id x = rd_id r) (\<lambda>x. x\<lparr>rd_hits := rd_hits x + 1\<rparr>) rs)))"

section \<open>Posts\<close>

record text_env =
  tx_codes :: "string \<Rightarrow> codes"
  tx_lower :: "codes \<Rightarrow> codes"
  tx_nfkd :: "codes \<Rightarrow> codes"

text \<open>The fields of \<open>updatePostSchema\<close>; a nullable field holds \<open>Some None\<close> when it is set to null.\<close>

record post_dto =
  pd_slug :: "string option"
  pd_titleAr :: "string option"
  pd_titleEn :: "string option option"
  pd_excerptAr :: "string option option"
  pd_excerptEn :: "string option option"
  pd_bodyAr :: "string option option"
  pd_bodyEn :: "string option option"
  pd_categoryId :: "string option"
  pd_coverAssetId :: "string option option"
  pd_publishedOn :: "string option option"
  pd_isFeatured :: "bool option"
  pd_isLegacy :: "bool option"
  pd_isPublished :: "bool option"

definition given :: "'a option \<Rightarrow> 'a \<Rightarrow> 'a" where
  "given f old = (case f of None \<Rightarrow> old | Some v \<Rightarrow> v)"

definition assign_post :: "post_dto \<Rightarrow> post \<Rightarrow> post" where
  "assign_post d p =
     p\<lparr>po_slug := given (pd_slug d) (po_slug p), po_titleAr := given (pd_titleAr d) (po_titleAr p),
       po_titleEn := given (pd_titleEn d) (po_titleEn p), po_excerptAr := given (pd_excerptAr d) (po_excerptAr p),
       po_excerptEn := given (pd_excerptEn d) (po_excerptEn p), po_bodyAr := given (pd_bodyAr d) (po_bodyAr p),
       po_bodyEn := given (pd_bodyEn d) (po_bodyEn p), po_categoryId := given (pd_categoryId d) (po_categoryId p),
       po_coverAssetId := given (pd_coverAssetId d) (po_coverAssetId p),
       po_publishedOn := given (pd_publishedOn d) (po_publishedOn p),
       po_isFeatured := given (pd_isFeatured d) (po_isFeatured p), po_isLegacy := given (pd_isLegacy d) (po_isLegacy p),
       po_isPublished := given (pd_isPublished d) (po_isPublished p)\<rparr>"

text \<open>The asset ids of a body, as \<open>assertAltTextReady\<close> collects them.\<close>

definition post_asset_ids :: "post_dto \<Rightarrow> string list" where
  "post_asset_ids d = (case pd_coverAssetId d of Some (Some a) \<Rightarrow> [a] | _ \<Rightarrow> [])"

definition blank_post :: "string \<Rightarrow> time \<Rightarrow> post" where
  "blank_post new_id now =
     \<lparr>po_id = new_id, po_slug = [], po_titleAr = [], po_titleEn = None, po_excerptAr = None, po_excerptEn = None,
      po_bodyAr = None, po_bodyEn = None, po_categoryId = [], po_coverAssetId = None, po_publishedOn = None,
      po_isFeatured = False, po_isLegacy = False, po_isPublished = False, po_createdBy = None,
      po_createdAt = now, po_updatedAt = now\<rparr>"

definition create_post ::
  "sql_compare \<Rightarrow> text_env \<Rightarrow> string \<Rightarrow> nat \<Rightarrow> string \<Rightarrow> string \<Rightarrow> post_dto \<Rightarrow> post crud_db
     \<Rightarrow> (post, post with_warnings) handler_result" where
  "create_post c tx today now new_id user_id d db =
     (let opts = post_options c (\<lambda>_. False) today;
          taken = (\<lambda>s. \<exists>p \<in> set (cd_rows db). sc_text c (po_slug p) s);
          draft = assign_post d (blank_post new_id (int now))
      in case generate_unique_slug (tx_lower tx) (tx_nfkd tx) taken (map_option (tx_codes tx) (po_titleEn draft))
                (Some (tx_codes tx (po_titleAr draft))) (''post-'' @ show_nat now) RESERVED_POST_SLUGS
                (Suc (length (cd_rows db))) of
           None \<Rightarrow> (Inl (OtherExn ''no free slug''), db, None, [])
         | Some s \<Rightarrow>
             crud_create opts (sc_id c) (sc_text c) (post_asset_ids d)
               (draft\<lparr>po_slug := s, po_createdBy := Some user_id\<rparr>) db)"

definition update_post ::
  "sql_compare \<Rightarrow> string \<Rightarrow> string \<Rightarrow> string \<Rightarrow> post_dto \<Rightarrow> post crud_db \<Rightarrow> (post, post with_warnings) handler_result" where
  "update_post c today redirect_id i body db =
     (let refuse = (\<lambda>e. (Inl e, db, None, []));
          slug = (case pd_slug body of None \<Rightarrow> Some None
                  | Some raw \<Rightarrow> map_option Some (slug_schema RESERVED_POST_SLUGS raw))
      in case slug of
           None \<Rightarrow> refuse (ZodExn None)
         | Some s \<Rightarrow>
             (let d = body\<lparr>pd_slug := s\<rparr>;
                  holder = (case s of None \<Rightarrow> None
                            | Some v \<Rightarrow> List.find (\<lambda>p. sc_text c (po_slug p) v) (cd_rows db))
              in case holder of
                   Some p \<Rightarrow>
                     if po_id p \<noteq> i then (fail 409 SLUG_TAKEN ''That slug is already in use'', db, None, [])
                     else crud_update (post_options c (\<lambda>_. False) today) (sc_id c) (sc_text c) redirect_id
                            (post_asset_ids d) i (assign_post d) db
                 | None \<Rightarrow>
                     crud_update (post_options c (\<lambda>_. False) today) (sc_id c) (sc_text c) redirect_id
                       (post_asset_ids d) i (assign_post d) db))"

definition delete_legacy :: "sql_compare \<Rightarrow> post crud_db \<Rightarrow> (post, nat) handler_result" where
  "delete_legacy c db =
     (let legacy = filter po_isLegacy (cd_rows db); opts = post_options c (\<lambda>_. False) []
      in if legacy = [] then (Inr 0, db, None, [])
         else (Inr (length legacy), db\<lparr>cd_rows := delete_rows po_isLegacy (cd_rows db)\<rparr>,
               Some \<lparr>ac_action = ADelete, ac_entityType = o_entityType opts, ac_entityId = None,
                     ac_entityLabel = ''bulk-delete legacy posts ('' @ show_nat (length legacy) @ '')'',
                     ac_before = None, ac_after = None\<rparr>,
               purge_list opts))"

section \<open>What every write keeps\<close>

text \<open>
  One request at a time over the posts and the redirects. Every insert into the redirects table
  draws the next value of its auto-increment counter.
\<close>

record publishing =
  pb_posts :: "post crud_db"
  pb_nextId :: nat

datatype publish_op =
    RedirectCreate redirect_dto
  | RedirectUpdate string redirect_dto
  | RedirectRemove string
  | PostCreate string nat string string post_dto
  | PostUpdate string string post_dto
  | PostPublish string string "bool option"
  | PostRemove string
  | PostLegacy

definition with_redirects :: "(redirect, 'a) handler_result \<Rightarrow> publishing \<Rightarrow> publishing" where
  "with_redirects r s =
     (let db = fst (snd r) in s\<lparr>pb_posts := (pb_posts s)\<lparr>cd_redirects := cd_rows db\<rparr>, pb_nextId := Suc (pb_nextId s)\<rparr>)"

definition with_posts :: "(post, 'a) handler_result \<Rightarrow> publishing \<Rightarrow> publishing" where
  "with_posts r s = s\<lparr>pb_posts := fst (snd r), pb_nextId := Suc (pb_nextId s)\<rparr>"

fun publish_step :: "sql_compare \<Rightarrow> text_env \<Rightarrow> publish_op \<Rightarrow> publishing \<Rightarrow> publishing" where
  "publish_step c tx (RedirectCreate d) s =
     with_redirects (create_redirect c (show_nat (pb_nextId s)) d (cd_redirects (pb_posts s))) s"
| "publish_step c tx (RedirectUpdate i d) s = with_redirects (update_redirect c i d (cd_redirects (pb_posts s))) s"
| "publish_step c tx (RedirectRemove i) s = with_redirects (remove_redirect c i (cd_redirects (pb_posts s))) s"
| "publish_step c tx (PostCreate today now new_id user d) s = with_posts (create_post c tx today now new_id user d (pb_posts s)) s"
| "publish_step c tx (PostUpdate today i d) s =
     with_posts (update_post c today (show_nat (pb_nextId s)) i d (pb_posts s)) s"
| "publish_step c tx (PostPublish today i b) s =
     with_posts (crud_publish (post_options c (\<lambda>_. False) today) (sc_id c) i b (pb_posts s)) s"
| "publish_step c tx (PostRemove i) s = with_posts (crud_remove (post_options c (\<lambda>_. False) []) (sc_id c) i (pb_posts s)) s"
| "publish_step c tx PostLegacy s = with_posts (delete_legacy c (pb_posts s)) s"

definition redirects_ok :: "sql_compare \<Rightarrow> nat \<Rightarrow> redirect list \<Rightarrow> bool" where
  "redirects_ok c n rs \<longleftrightarrow>
     distinct (map rd_id rs) \<and> (\<forall>r \<in> set rs. \<exists>k < n. rd_id r = show_nat k)
     \<and> (\<forall>r \<in> set rs. rd_fromPath r \<noteq> rd_toPath r \<and> rd_toPath r \<noteq> [])
     \<and> (\<forall>r \<in> set rs. \<forall>s \<in> set rs. sc_text c (rd_toPath r) (rd_fromPath s) \<longrightarrow> r = s)"

definition publishing_ok :: "sql_compare \<Rightarrow> publishing \<Rightarrow> bool" where
  "publishing_ok c s \<longleftrightarrow> redirects_ok c (pb_nextId s) (cd_redirects (pb_posts s))"

text \<open>What the comparisons are asked for: paths compare reflexively and symmetrically, and two
  auto-increment ids, written in decimal, are equal only when they are the same.\<close>

definition good_compare :: "sql_compare \<Rightarrow> bool" where
  "good_compare c \<longleftrightarrow> reflp (sc_text c) \<and> symp (sc_text c)
     \<and> (\<forall>m n. sc_id c (show_nat m) (show_nat n) \<longleftrightarrow> m = n)"

lemma redirects_ok_mono: "redirects_ok c n rs \<Longrightarrow> n \<le> m \<Longrightarrow> redirects_ok c m rs"
  unfolding redirects_ok_def by (meson order_less_le_trans)

lemma redirects_ok_delete: "redirects_ok c n rs \<Longrightarrow> redirects_ok c n (delete_rows P rs)"
  unfolding redirects_ok_def by (auto simp: delete_rows_def intro: distinct_map_filter)

lemma redirects_ok_clear: "redirects_ok c n rs \<Longrightarrow> redirects_ok c n (clear_redirects_into ceq p rs)"
  unfolding clear_redirects_into_def by (rule redirects_ok_delete)

lemma distinct_keys_eq: "distinct (map k xs) \<Longrightarrow> x \<in> set xs \<Longrightarrow> y \<in> set xs \<Longrightarrow> k x = k y \<Longrightarrow> x = y"
  by (auto simp: distinct_map inj_on_def)

lemma distinct_map_update_rows:
  "(\<And>x. k (f x) = k x) \<Longrightarrow> map k (update_rows P f xs) = map k xs"
  by (simp add: update_rows_def)

lemma redirects_ok_move:
  assumes c: "good_compare c" and inv: "redirects_ok c n rs" and "f \<noteq> t" "t \<noteq> []"
  shows "redirects_ok c (Suc n) (clear_redirects_into (sc_text c) t (move_redirects (sc_text c) (show_nat n) f t rs))"
proof -
  define eq where "eq = sc_text c"
  define g :: "redirect \<Rightarrow> redirect" where "g = (\<lambda>r. if eq (rd_toPath r) f then r\<lparr>rd_toPath := t\<rparr> else r)"
  define new :: redirect where "new = \<lparr>rd_id = show_nat n, rd_fromPath = f, rd_toPath = t, rd_statusCode = 301, rd_hits = 0\<rparr>"
  define kept where "kept = filter (\<lambda>r. \<not> eq (rd_fromPath r) f) (map g rs)"
  define out where "out = filter (\<lambda>r. \<not> (eq (rd_fromPath r) t \<or> eq (rd_fromPath r) (rd_toPath r))) (kept @ [new])"
  have refl: "eq x x" and sym: "eq x y \<Longrightarrow> eq y x" for x y
    using c by (auto simp: good_compare_def reflp_def symp_def eq_def)
  have is_out: "clear_redirects_into (sc_text c) t (move_redirects (sc_text c) (show_nat n) f t rs) = out"
    unfolding clear_redirects_into_def move_redirects_def delete_rows_def update_rows_def Let_def
      out_def kept_def new_def g_def eq_def by simp
  have g: "rd_id (g r) = rd_id r" "rd_fromPath (g r) = rd_fromPath r" for r
    by (simp_all add: g_def)
  have member: "(r = new \<or> r \<in> set kept) \<and> \<not> eq (rd_fromPath r) t" if "r \<in> set out" for r
    using that unfolding out_def by (auto simp del: filter.simps filter_append)
  have kept: "\<exists>r0 \<in> set rs. r = g r0" if "r \<in> set kept" for r
    using that by (auto simp: kept_def)
  have below: "\<exists>k < n. rd_id r = show_nat k" if r: "r \<in> set kept" for r
  proof -
    obtain r0 where "r0 \<in> set rs" "r = g r0" using kept [OF r] by blast
    then show ?thesis using inv g(1) by (auto simp: redirects_ok_def)
  qed
  have ids: "map rd_id (map g rs) = map rd_id rs" using g(1) by simp
  have "distinct (map rd_id (map g rs))" unfolding ids using inv by (simp add: redirects_ok_def)
  then have "distinct (map rd_id kept)" unfolding kept_def by (rule distinct_map_filter)
  moreover have "show_nat n \<notin> rd_id ` set kept" using below by fastforce
  ultimately have "distinct (map rd_id (kept @ [new]))" by (simp add: new_def)
  then have dist: "distinct (map rd_id out)" unfolding out_def by (rule distinct_map_filter)
  have no_hop: "r = s" if rs: "r \<in> set out" "s \<in> set out" "eq (rd_toPath r) (rd_fromPath s)" for r s
  proof -
    have "rd_toPath r \<noteq> t" using rs(3) member [OF rs(2)] sym by blast
    then have "r \<in> set kept" using member [OF rs(1)] by (auto simp: new_def)
    then obtain r0 where r0: "r0 \<in> set rs" "r = r0" "\<not> eq (rd_toPath r0) f"
      using kept \<open>rd_toPath r \<noteq> t\<close> by (fastforce simp: g_def split: if_splits)
    have "s \<noteq> new" using rs(3) r0 sym by (auto simp: new_def)
    then obtain s0 where s0: "s0 \<in> set rs" "s = g s0" using member [OF rs(2)] kept by blast
    then have "eq (rd_toPath r0) (rd_fromPath s0)" using rs(3) r0(2) g(2) by metis
    then have "r0 = s0" using inv r0(1) s0(1) by (auto simp: redirects_ok_def eq_def)
    then show ?thesis using r0 s0 by (simp add: g_def)
  qed
  have differ: "rd_fromPath r \<noteq> rd_toPath r \<and> rd_toPath r \<noteq> []" if r: "r \<in> set out" for r
  proof (cases "r = new")
    case True
    then show ?thesis using assms(3,4) by (simp add: new_def)
  next
    case False
    then obtain r0 where "r0 \<in> set rs" "r = g r0" using member [OF r] kept by blast
    then show ?thesis
      using member [OF r] assms(4) inv refl by (auto simp: redirects_ok_def g_def split: if_splits)
  qed
  have ids_below: "\<exists>k < Suc n. rd_id r = show_nat k" if r: "r \<in> set out" for r
    using member [OF r] below less_SucI by (fastforce simp: new_def)
  have "redirects_ok c (Suc n) out"
    unfolding redirects_ok_def using dist no_hop differ ids_below unfolding eq_def by blast
  then show ?thesis by (simp only: is_out)
qed

lemma redirects_ok_append:
  assumes c: "good_compare c" and inv: "redirects_ok c n rs" and differ: "f \<noteq> t" "t \<noteq> []"
    and check: "assert_no_chain (sc_text c) None f t rs = Inr u"
    and r: "rd_id r = show_nat n" "rd_fromPath r = f" "rd_toPath r = t"
  shows "redirects_ok c (Suc n) (rs @ [r])"
proof -
  have sym: "sc_text c x y \<Longrightarrow> sc_text c y x" for x y
    using c by (auto simp: good_compare_def symp_def)
  have free: "\<not> sc_text c (rd_fromPath s) t \<and> \<not> sc_text c (rd_toPath s) f" if "s \<in> set rs" for s
    using check that by (auto simp: assert_no_chain_def Let_def filter_empty_conv split: if_splits)
  have "show_nat n \<notin> rd_id ` set rs"
    using inv by (fastforce simp: redirects_ok_def)
  moreover have "\<exists>k < Suc n. rd_id s = show_nat k" if "s \<in> set (rs @ [r])" for s
    using that inv r(1) less_SucI by (fastforce simp: redirects_ok_def)
  moreover have "x = y" if "x \<in> set (rs @ [r])" "y \<in> set (rs @ [r])" "sc_text c (rd_toPath x) (rd_fromPath y)" for x y
    using that inv free sym r(2,3) unfolding redirects_ok_def by auto
  ultimately show ?thesis
    using inv r differ unfolding redirects_ok_def by auto
qed

lemma redirects_ok_replace:
  assumes c: "good_compare c" and inv: "redirects_ok c n rs" and differ: "f \<noteq> t" "t \<noteq> []"
    and e: "e \<in> set rs" and i: "sc_id c (rd_id e) i"
    and check: "assert_no_chain (sc_text c) (Some i) f t rs = Inr u"
    and r: "rd_id r = rd_id e" "rd_fromPath r = f" "rd_toPath r = t"
  shows "redirects_ok c n (update_rows (\<lambda>x. rd_id x = rd_id e) (\<lambda>_. r) rs)"
proof -
  have sym: "sc_text c x y \<Longrightarrow> sc_text c y x" for x y
    using c by (auto simp: good_compare_def symp_def)
  have ids: "distinct (map rd_id rs)" and canon: "\<And>x. x \<in> set rs \<Longrightarrow> \<exists>k. rd_id x = show_nat k"
    using inv by (auto simp: redirects_ok_def)
  have only: "x = e" if x: "x \<in> set rs" and xi: "rd_id x = i" for x
  proof -
    obtain k where "rd_id x = show_nat k" using canon [OF x] by blast
    moreover obtain m where "rd_id e = show_nat m" using canon [OF e] by blast
    ultimately have "rd_id x = show_nat k" "rd_id e = show_nat m" .
    then have "rd_id x = rd_id e" using c i xi by (auto simp: good_compare_def)
    then show ?thesis using distinct_keys_eq [OF ids x e] by blast
  qed
  have free: "\<not> sc_text c (rd_fromPath s) t \<and> \<not> sc_text c (rd_toPath s) f" if "s \<in> set rs" "s \<noteq> e" for s
    using check that only by (auto simp: assert_no_chain_def Let_def filter_empty_conv split: if_splits)
  let ?out = "update_rows (\<lambda>x. rd_id x = rd_id e) (\<lambda>_. r) rs"
  have elem: "x = r \<or> (x \<in> set rs \<and> x \<noteq> e)" if "x \<in> set ?out" for x
    using that by (auto simp: update_rows_def)
  have "map rd_id ?out = map rd_id rs" using r(1) by (auto simp: update_rows_def)
  then have "distinct (map rd_id ?out)" using ids by simp
  moreover have "x = y" if "x \<in> set ?out" "y \<in> set ?out" "sc_text c (rd_toPath x) (rd_fromPath y)" for x y
    using elem [OF that(1)] elem [OF that(2)] that(3) inv free sym r(2,3) unfolding redirects_ok_def by auto
  moreover have "\<exists>k < n. rd_id x = show_nat k" if "x \<in> set ?out" for x
    using elem [OF that] inv r(1) e unfolding redirects_ok_def by auto
  moreover have "rd_fromPath x \<noteq> rd_toPath x \<and> rd_toPath x \<noteq> []" if "x \<in> set ?out" for x
    using elem [OF that] inv r(2,3) differ unfolding redirects_ok_def by auto
  ultimately show ?thesis unfolding redirects_ok_def by blast
qed

section \<open>The handlers keep it\<close>

lemma schema_fields:
  assumes "update_redirect_schema body = Inr d"
  shows "rx_fromPath d \<noteq> Some []" "rx_toPath d \<noteq> Some []"
  using assms
  by (auto simp: update_redirect_schema_def path_field_def site_path_def Let_def split: option.splits if_splits)

lemma create_schema_fields:
  assumes "create_redirect_schema body = Inr d"
  shows "\<exists>f t. rx_fromPath d = Some f \<and> rx_toPath d = Some t \<and> f \<noteq> t \<and> t \<noteq> []"
proof -
  obtain v where v: "update_redirect_schema body = Inr v" "d = v" "rx_fromPath v \<noteq> None" "rx_toPath v \<noteq> None"
      "rx_fromPath v \<noteq> rx_toPath v"
    using assms by (auto simp: create_redirect_schema_def split: sum.splits if_splits)
  then show ?thesis using schema_fields(2) [OF v(1)] by auto
qed

lemma create_redirect_ok:
  assumes c: "good_compare c" and inv: "redirects_ok c n rs"
  shows "redirects_ok c (Suc n) (cd_rows (fst (snd (create_redirect c (show_nat n) body rs))))"
proof -
  have stay: "redirects_ok c (Suc n) rs" using redirects_ok_mono [OF inv] by simp
  show ?thesis
  proof (cases "create_redirect_schema body")
    case (Inl e)
    then show ?thesis using stay by (simp add: create_redirect_def redirect_db_def)
  next
    case (Inr d)
    obtain f t where ft: "rx_fromPath d = Some f" "rx_toPath d = Some t" "f \<noteq> t" "t \<noteq> []"
      using create_schema_fields [OF Inr] by blast
    show ?thesis
    proof (cases "assert_no_chain (sc_text c) None f t rs")
      case (Inl e)
      then show ?thesis using stay Inr ft by (simp add: create_redirect_def redirect_db_def Let_def)
    next
      case (Inr u)
      define r where "r = \<lparr>rd_id = show_nat n, rd_fromPath = f, rd_toPath = t,
          rd_statusCode = (case rx_statusCode d of None \<Rightarrow> 301 | Some s \<Rightarrow> s), rd_hits = 0\<rparr>"
      have res: "create_redirect c (show_nat n) body rs
          = crud_create (redirect_options c) (sc_id c) (sc_text c) [] r (redirect_db rs)"
        using Inr \<open>create_redirect_schema body = Inr d\<close> ft by (simp add: create_redirect_def Let_def r_def)
      have new: "show_nat n \<notin> rd_id ` set rs"
        using inv by (fastforce simp: redirects_ok_def)
      have "cd_rows (fst (snd (crud_create (redirect_options c) (sc_id c) (sc_text c) [] r (redirect_db rs))))
          \<in> {rs, rs @ [r]}"
        using new by (simp add: crud_create_def assert_alt_text_ready_def redirect_options_def save_row_def
            redirect_db_def r_def)
      moreover have "redirects_ok c (Suc n) (rs @ [r])"
        using redirects_ok_append [OF c inv ft(3,4) Inr] by (simp add: r_def)
      ultimately show ?thesis using stay res by auto
    qed
  qed
qed

lemma crud_update_redirect_rows:
  "cd_rows (fst (snd (crud_update (redirect_options c) (sc_id c) (sc_text c) [] [] i (assign_redirect d) (redirect_db rs))))
    \<in> {rs} \<union> {update_rows (\<lambda>x. rd_id x = rd_id e) (\<lambda>_. assign_redirect d e) rs | e.
              List.find (\<lambda>r. sc_id c (rd_id r) i) rs = Some e}"
proof (cases "List.find (\<lambda>r. sc_id c (rd_id r) i) rs")
  case None
  then show ?thesis
    by (simp add: crud_update_def assert_alt_text_ready_def find_or_not_found_def redirect_db_def redirect_options_def)
next
  case (Some e)
  then have "rd_id e \<in> rd_id ` set rs" by (auto simp: find_Some_iff)
  then show ?thesis
    using Some by (simp add: crud_update_def assert_alt_text_ready_def find_or_not_found_def redirect_db_def
        redirect_options_def save_with_redirect_def save_row_def assign_redirect_def Let_def)
qed

lemma update_redirect_ok:
  assumes c: "good_compare c" and inv: "redirects_ok c n rs"
  shows "redirects_ok c n (cd_rows (fst (snd (update_redirect c i body rs))))"
proof (cases "update_redirect_schema body")
  case (Inl e)
  then show ?thesis using inv by (simp add: update_redirect_def redirect_db_def)
next
  case (Inr d)
  note schema = Inr
  show ?thesis
  proof (cases "List.find (\<lambda>r. sc_id c (rd_id r) i) rs")
    case None
    then have "update_redirect c i body rs
        = crud_update (redirect_options c) (sc_id c) (sc_text c) [] [] i (assign_redirect d) (redirect_db rs)"
      using Inr by (simp add: update_redirect_def Let_def)
    then show ?thesis using crud_update_redirect_rows [of c i d rs] None inv by auto
  next
    case (Some e)
    define f where "f = (case rx_fromPath d of None \<Rightarrow> rd_fromPath e | Some f \<Rightarrow> f)"
    define t where "t = (case rx_toPath d of None \<Rightarrow> rd_toPath e | Some t \<Rightarrow> t)"
    have e: "e \<in> set rs" "sc_id c (rd_id e) i" using Some by (auto simp: find_Some_iff)
    have t: "t \<noteq> []"
      using schema_fields(2) [OF schema] e(1) inv by (auto simp: t_def redirects_ok_def split: option.splits)
    show ?thesis
    proof (cases "f = t")
      case True
      then show ?thesis
        using Inr Some inv by (simp add: update_redirect_def Let_def f_def t_def redirect_db_def)
    next
      case False
      show ?thesis
      proof (cases "assert_no_chain (sc_text c) (Some i) f t rs")
        case (Inl x)
        then show ?thesis
          using \<open>f \<noteq> t\<close> schema Some inv by (simp add: update_redirect_def Let_def f_def t_def redirect_db_def)
      next
        case (Inr u)
        have res: "update_redirect c i body rs
            = crud_update (redirect_options c) (sc_id c) (sc_text c) [] [] i (assign_redirect d) (redirect_db rs)"
          using Inr \<open>f \<noteq> t\<close> schema Some by (simp add: update_redirect_def Let_def f_def t_def)
        have "redirects_ok c n (update_rows (\<lambda>x. rd_id x = rd_id e) (\<lambda>_. assign_redirect d e) rs)"
          by (rule redirects_ok_replace [OF c inv False t e Inr])
            (simp_all add: assign_redirect_def f_def t_def)
        then show ?thesis using crud_update_redirect_rows [of c i d rs] Some inv res by auto
      qed
    qed
  qed
qed

lemma remove_redirect_ok:
  assumes "redirects_ok c n rs"
  shows "redirects_ok c n (cd_rows (fst (snd (remove_redirect c i rs))))"
proof (cases "List.find (\<lambda>r. sc_id c (rd_id r) i) rs")
  case None
  then show ?thesis
    using assms by (simp add: remove_redirect_def crud_remove_def find_or_not_found_def redirect_options_def redirect_db_def)
next
  case (Some e)
  then show ?thesis
    using redirects_ok_delete [OF assms]
    by (simp add: remove_redirect_def crud_remove_def find_or_not_found_def redirect_options_def redirect_db_def)
qed

text \<open>What the kernel's writes to another collection do to the redirects table.\<close>

definition touched :: "(string \<Rightarrow> string \<Rightarrow> bool) \<Rightarrow> string \<Rightarrow> redirect list \<Rightarrow> redirect list \<Rightarrow> bool" where
  "touched ceq redirect_id rs rs' \<longleftrightarrow>
     rs' = rs \<or> (\<exists>t. t \<noteq> [] \<and> (rs' = clear_redirects_into ceq t rs
       \<or> (\<exists>f. f \<noteq> t \<and> rs' = clear_redirects_into ceq t (move_redirects ceq redirect_id f t rs))))"

lemma touched_ok:
  assumes "good_compare c" "redirects_ok c n rs" "touched (sc_text c) (show_nat n) rs rs'"
  shows "redirects_ok c (Suc n) rs'"
proof -
  have stay: "redirects_ok c (Suc n) rs" using redirects_ok_mono [OF assms(2)] by simp
  from assms(3) consider "rs' = rs" | t where "rs' = clear_redirects_into (sc_text c) t rs"
    | t f where "t \<noteq> []" "f \<noteq> t" "rs' = clear_redirects_into (sc_text c) t (move_redirects (sc_text c) (show_nat n) f t rs)"
    unfolding touched_def by blast
  then show ?thesis
  proof cases
    case 1
    then show ?thesis using stay by simp
  next
    case 2
    then show ?thesis using redirects_ok_clear [OF stay] by simp
  next
    case 3
    then show ?thesis using redirects_ok_move [OF assms(1,2)] by simp
  qed
qed

lemma save_with_redirect_touched:
  assumes "save_with_redirect opts ceq rid e b db = Inr (db', tags)"
  shows "touched ceq rid (cd_redirects db) (cd_redirects db')"
proof (cases "o_redirectFrom opts")
  case None
  then show ?thesis using assms by (auto simp: save_with_redirect_def Let_def touched_def split: sum.splits)
next
  case (Some path_of)
  show ?thesis
  proof (cases "o_slug opts b = [] \<or> o_slug opts e = [] \<or> o_slug opts b = o_slug opts e \<or> path_of e = None \<or> path_of e = Some []")
    case True
    then show ?thesis
      using assms Some by (auto simp: save_with_redirect_def Let_def touched_def split: sum.splits if_splits option.splits)
  next
    case False
    then obtain t where t: "path_of e = Some t" "t \<noteq> []" by auto
    obtain rows where "save_row opts e (cd_rows db) = Inr rows"
      using assms Some False t by (auto simp: save_with_redirect_def Let_def split: sum.splits)
    then have "cd_redirects db' = clear_redirects_into ceq t
        (case path_of b of
           Some f \<Rightarrow> if o_isPublished opts b \<and> f \<noteq> [] \<and> f \<noteq> t then move_redirects ceq rid f t (cd_redirects db)
                     else cd_redirects db
         | None \<Rightarrow> cd_redirects db)"
      using assms Some False t by (auto simp: save_with_redirect_def Let_def)
    then show ?thesis using t unfolding touched_def by (auto split: option.splits if_splits)
  qed
qed

lemma crud_create_touched:
  "touched ceq rid (cd_redirects db) (cd_redirects (fst (snd (crud_create opts id_eq ceq assets draft db))))"
proof -
  have live: "touched ceq rid rs (fst (case live of
      Some p \<Rightarrow> if p \<noteq> [] then (clear_redirects_into ceq p rs, [''redirects'']) else (rs, []) | None \<Rightarrow> (rs, [])))"
    for live :: "string option" and rs
    by (cases live) (auto simp: touched_def)
  show ?thesis
    using live by (auto simp: crud_create_def Let_def touched_def split: sum.splits prod.splits option.splits)
qed

lemma crud_update_touched:
  "touched ceq rid (cd_redirects db) (cd_redirects (fst (snd (crud_update opts id_eq ceq rid assets i f db))))"
proof -
  have same: "touched ceq rid rs rs" for rs by (simp add: touched_def)
  show ?thesis
    using save_with_redirect_touched
    by (auto simp: crud_update_def Let_def same split: sum.splits prod.splits)
qed

lemma crud_publish_redirects:
  "cd_redirects (fst (snd (crud_publish opts id_eq i b db))) = cd_redirects db"
  by (simp add: crud_publish_def Let_def split: sum.split)

lemma crud_remove_redirects:
  "cd_redirects (fst (snd (crud_remove opts id_eq i db))) = cd_redirects db"
  by (simp add: crud_remove_def Let_def split: sum.split)

lemma create_post_touched:
  "touched (sc_text c) rid (cd_redirects db) (cd_redirects (fst (snd (create_post c tx today now new_id user d db))))"
proof -
  have same: "touched ceq rid rs rs" for ceq rs by (simp add: touched_def)
  show ?thesis
    by (auto simp: create_post_def Let_def same crud_create_touched split: option.splits)
qed

lemma update_post_touched:
  "touched (sc_text c) rid (cd_redirects db) (cd_redirects (fst (snd (update_post c today rid i body db))))"
proof -
  have same: "touched ceq rid rs rs" for ceq rs by (simp add: touched_def)
  show ?thesis
    by (auto simp: update_post_def Let_def same crud_update_touched split: option.splits)
qed

interpretation publishing: kept_invariant "publish_step c tx" "\<lambda>s. good_compare c \<and> publishing_ok c s" for c tx
proof unfold_locales
  fix s op
  assume "good_compare c \<and> publishing_ok c s"
  then have c: "good_compare c" and inv: "redirects_ok c (pb_nextId s) (cd_redirects (pb_posts s))"
    by (simp_all add: publishing_ok_def)
  note stay = redirects_ok_mono [OF inv, of "Suc (pb_nextId s)"]
  have posts: "redirects_ok c (Suc (pb_nextId s)) rs'"
    if "touched (sc_text c) (show_nat (pb_nextId s)) (cd_redirects (pb_posts s)) rs'" for rs'
    using touched_ok [OF c inv that] .
  have "publishing_ok c (publish_step c tx op s)"
  proof (cases op)
    case (RedirectCreate d)
    then show ?thesis using create_redirect_ok [OF c inv] by (simp add: publishing_ok_def with_redirects_def Let_def)
  next
    case (RedirectUpdate i d)
    then show ?thesis using update_redirect_ok [OF c stay] by (simp add: publishing_ok_def with_redirects_def Let_def)
  next
    case (RedirectRemove i)
    then show ?thesis using remove_redirect_ok [OF stay] by (simp add: publishing_ok_def with_redirects_def Let_def)
  next
    case (PostCreate today now new_id user d)
    then show ?thesis using posts create_post_touched by (simp add: publishing_ok_def with_posts_def)
  next
    case (PostUpdate today i d)
    then show ?thesis using posts update_post_touched by (simp add: publishing_ok_def with_posts_def)
  next
    case (PostPublish today i b)
    then show ?thesis using stay by (simp add: crud_publish_redirects publishing_ok_def with_posts_def)
  next
    case (PostRemove i)
    then show ?thesis using stay by (simp add: crud_remove_redirects publishing_ok_def with_posts_def)
  next
    case PostLegacy
    then show ?thesis using stay by (simp add: publishing_ok_def with_posts_def delete_legacy_def Let_def)
  qed
  then show "good_compare c \<and> publishing_ok c (publish_step c tx op s)" using c by simp
qed

section \<open>Visitors\<close>

text \<open>
  C27: whatever redirects are created, edited and removed and whatever posts
  are created, renamed, published and removed, in any order, a redirect never leads to another
  one: the path a lookup hands out is not itself redirected, except by a row whose two ends
  differ as text but are equal to the collation.
\<close>

theorem redirects_one_hop:
  assumes c: "good_compare c" and start: "cd_redirects (pb_posts s) = []"
    and rs: "rs = cd_redirects (pb_posts (fold (publish_step c tx) ops s))"
    and hit: "fst (resolve_redirect (sc_text c) [(''path'', QStr p)] rs) = Inr r"
  shows "failed_with (fst (resolve_redirect (sc_text c) [(''path'', QStr (rs_toPath r))] rs)) 404 NOT_FOUND
    \<or> (\<exists>row \<in> set rs. rd_toPath row = rs_toPath r \<and> rd_fromPath row \<noteq> rs_toPath r
          \<and> sc_text c (rd_fromPath row) (rs_toPath r))"
proof -
  have "publishing_ok c s"
    using start by (simp add: publishing_ok_def redirects_ok_def)
  then have "publishing_ok c (fold (publish_step c tx) ops s)"
    using publishing.fold_inv [of c s tx ops] c by simp
  then have inv: "redirects_ok c (pb_nextId (fold (publish_step c tx) ops s)) rs"
    using rs by (simp add: publishing_ok_def)
  obtain x where x: "List.find (\<lambda>r. sc_text c (rd_fromPath r) p) rs = Some x" "rs_toPath r = rd_toPath x"
    using hit by (auto simp: resolve_redirect_def read_string_def as_string_def split: if_splits option.splits)
  then have mem: "x \<in> set rs" by (auto simp: find_Some_iff)
  then have to: "rd_toPath x \<noteq> []" "rd_fromPath x \<noteq> rd_toPath x" using inv by (auto simp: redirects_ok_def)
  show ?thesis
  proof (cases "List.find (\<lambda>r. sc_text c (rd_fromPath r) (rd_toPath x)) rs")
    case None
    then show ?thesis using x to by (simp add: resolve_redirect_def read_string_def as_string_def)
  next
    case (Some y)
    then have y: "y \<in> set rs" "sc_text c (rd_fromPath y) (rd_toPath x)" by (auto simp: find_Some_iff)
    then have "sc_text c (rd_toPath x) (rd_fromPath y)" using c by (auto simp: good_compare_def symp_def)
    then have "x = y" using inv mem y(1) by (auto simp: redirects_ok_def)
    then show ?thesis using mem y x(2) to by auto
  qed
qed

definition exact_compare :: sql_compare where
  "exact_compare = \<lparr>sc_id = (=), sc_text = (=), sc_int = (\<lambda>_ _. False), sc_time = (\<lambda>_ _. False)\<rparr>"

definition ascii_text :: text_env where
  "ascii_text = \<lparr>tx_codes = map of_char, tx_lower = id, tx_nfkd = id\<rparr>"

definition no_posts :: publishing where
  "no_posts = \<lparr>pb_posts = \<lparr>cd_rows = [], cd_redirects = [], cd_assets = []\<rparr>, pb_nextId = 1\<rparr>"

lemma exact_compare_good: "good_compare exact_compare"
  by (simp add: good_compare_def exact_compare_def reflp_def symp_def)

theorem redirects_one_hop_witness:
  "failed_with (fst (resolve_redirect (sc_text exact_compare) [(''path'', QStr ''/b'')]
       (cd_redirects (pb_posts (fold (publish_step exact_compare ascii_text)
          [RedirectCreate \<lparr>rx_fromPath = Some ''/a'', rx_toPath = Some ''/b'', rx_statusCode = None\<rparr>,
           RedirectCreate \<lparr>rx_fromPath = Some ''/b'', rx_toPath = Some ''/c'', rx_statusCode = None\<rparr>] no_posts))))) 404 NOT_FOUND"
proof -
  let ?rs = "cd_redirects (pb_posts (fold (publish_step exact_compare ascii_text)
          [RedirectCreate \<lparr>rx_fromPath = Some ''/a'', rx_toPath = Some ''/b'', rx_statusCode = None\<rparr>,
           RedirectCreate \<lparr>rx_fromPath = Some ''/b'', rx_toPath = Some ''/c'', rx_statusCode = None\<rparr>] no_posts))"
  have rs: "?rs = [\<lparr>rd_id = ''1'', rd_fromPath = ''/a'', rd_toPath = ''/b'', rd_statusCode = 301, rd_hits = 0\<rparr>]"
    by code_simp
  have hit: "fst (resolve_redirect (sc_text exact_compare) [(''path'', QStr ''/a'')] ?rs)
      = Inr \<lparr>rs_toPath = ''/b'', rs_statusCode = 301\<rparr>"
    unfolding rs by code_simp
  have "cd_redirects (pb_posts no_posts) = []" by (simp add: no_posts_def)
  from redirects_one_hop [OF exact_compare_good this refl hit]
  show ?thesis by (auto simp: exact_compare_def)
qed

definition ci_compare :: sql_compare where
  "ci_compare = exact_compare\<lparr>sc_text := (\<lambda>x y. to_lower x = to_lower y)\<rparr>"

text \<open>
  The DTO and \<open>assertNoChain\<close> compare the two ends of a new redirect
  as JavaScript strings, the database compares paths without regard to case. A redirect from
  \<open>/A\<close> to \<open>/a\<close> is accepted, and a visitor of \<open>/a\<close> is then sent to \<open>/a\<close> for ever.
\<close>

theorem case_only_redirect_loops:
  "ok (fst (create_redirect ci_compare ''1'' \<lparr>rx_fromPath = Some ''/NEWS'', rx_toPath = Some ''/news'', rx_statusCode = None\<rparr> []))
    \<and> fst (resolve_redirect (sc_text ci_compare) [(''path'', QStr ''/news'')]
        (cd_rows (fst (snd (create_redirect ci_compare ''1''
           \<lparr>rx_fromPath = Some ''/NEWS'', rx_toPath = Some ''/news'', rx_statusCode = None\<rparr> [])))))
      = Inr \<lparr>rs_toPath = ''/news'', rs_statusCode = 301\<rparr>"
  by code_simp

text \<open>
  When an editor renames a published post, a visitor of the old
  address is sent to the new one, permanently and in one hop, the new address itself is not
  redirected, and the cached lookups are purged.
\<close>

theorem renamed_post_redirects:
  assumes found: "List.find (\<lambda>e. sc_id c (po_id e) i) (cd_rows db) = Some p"
    and live: "po_isPublished p" "po_slug p \<noteq> []"
    and done_: "update_post c today rid i body db = (Inr w, db', ac, tags)"
    and renamed: "po_slug (fst w) \<noteq> po_slug p"
    and apart: "sc_text c (''/news/'' @ po_slug p) (''/news/'' @ po_slug p)"
      "\<not> sc_text c (''/news/'' @ po_slug p) (''/news/'' @ po_slug (fst w))"
  shows "fst (resolve_redirect (sc_text c) [(''path'', QStr (''/news/'' @ po_slug p))] (cd_redirects db'))
      = Inr \<lparr>rs_toPath = ''/news/'' @ po_slug (fst w), rs_statusCode = 301\<rparr>
    \<and> failed_with (fst (resolve_redirect (sc_text c) [(''path'', QStr (''/news/'' @ po_slug (fst w)))] (cd_redirects db')))
        404 NOT_FOUND
    \<and> ''redirects'' \<in> set tags"
proof -
  let ?opts = "post_options c (\<lambda>_. False) today"
  let ?old = "''/news/'' @ po_slug p" and ?new = "''/news/'' @ po_slug (fst w)"
  obtain d where d: "crud_update ?opts (sc_id c) (sc_text c) rid (post_asset_ids d) i (assign_post d) db = (Inr w, db', ac, tags)"
      "\<And>s. pd_slug d = Some s \<Longrightarrow> s \<noteq> []"
  proof -
    have valid: "slug_schema r raw = Some s \<Longrightarrow> s \<noteq> []" for r raw s
      by (auto simp: slug_schema_def Let_def split: if_splits)
    show thesis
      using done_ valid that [of "body\<lparr>pd_slug := None\<rparr>"]
        that [of "body\<lparr>pd_slug := slug_schema RESERVED_POST_SLUGS (the (pd_slug body))\<rparr>"]
      by (auto simp: update_post_def Let_def fail_def split: option.splits if_splits)
  qed
  define e where "e = (if po_isPublished (assign_post d p) \<and> \<not> po_isPublished p then run_on_publish ?opts (assign_post d p) else assign_post d p)"
  have e: "e = assign_post d p" using live(1) by (simp add: e_def)
  obtain save_tags where save: "save_with_redirect ?opts (sc_text c) rid e p db = Inr (db', save_tags)"
      and w: "fst w = e" and tags: "tags = save_tags @ purge_list ?opts"
    using d(1) found live(1)
    by (auto simp: crud_update_def find_or_not_found_def Let_def e run_rules_def with_row_warnings_def post_options_def
        split: sum.splits if_splits prod.splits)
  have slug_e: "po_slug e \<noteq> []"
    using d(2) live(2) by (auto simp: e assign_post_def given_def split: option.splits)
  have differ: "?old \<noteq> ?new" using renamed by simp
  obtain rows where rows: "save_row ?opts e (cd_rows db) = Inr rows"
    using save renamed w slug_e live(2)
    by (auto simp: save_with_redirect_def post_options_def Let_def split: sum.splits)
  have res: "cd_redirects db' = clear_redirects_into (sc_text c) ?new (move_redirects (sc_text c) rid ?old ?new (cd_redirects db))"
      "save_tags = [''redirects'']"
    using save renamed w slug_e live rows differ
    by (auto simp: save_with_redirect_def post_options_def Let_def)
  define left where "left = delete_rows (\<lambda>r. sc_text c (rd_fromPath r) ?old)
      (update_rows (\<lambda>r. sc_text c (rd_toPath r) ?old) (\<lambda>r. r\<lparr>rd_toPath := ?new\<rparr>) (cd_redirects db))"
  define row where "row = \<lparr>rd_id = rid, rd_fromPath = ?old, rd_toPath = ?new, rd_statusCode = 301, rd_hits = 0\<rparr>"
  define P :: "redirect \<Rightarrow> bool" where "P = (\<lambda>r. sc_text c (rd_fromPath r) ?new \<or> sc_text c (rd_fromPath r) (rd_toPath r))"
  have rs: "cd_redirects db' = filter (\<lambda>r. \<not> P r) left @ [row]"
    using apart(2) by (simp add: res(1) clear_redirects_into_def move_redirects_def left_def row_def P_def delete_rows_def)
  have "List.find (\<lambda>r. sc_text c (rd_fromPath r) ?old) (filter (\<lambda>r. \<not> P r) left) = None"
    by (auto simp: find_None_iff left_def delete_rows_def)
  then have old: "List.find (\<lambda>r. sc_text c (rd_fromPath r) ?old) (cd_redirects db') = Some row"
    using apart(1) by (simp add: rs find_append row_def)
  have new: "List.find (\<lambda>r. sc_text c (rd_fromPath r) ?new) (cd_redirects db') = None"
    using apart(2) by (auto simp: rs find_None_iff P_def row_def)
  show ?thesis
    using old new by (simp add: resolve_redirect_def read_string_def as_string_def row_def tags res(2))
qed

definition old_post :: post where
  "old_post = (blank_post ''5'' 0)\<lparr>po_slug := ''old'', po_titleAr := ''t'', po_categoryId := ''1'', po_isPublished := True\<rparr>"

definition rename_body :: post_dto where
  "rename_body = \<lparr>pd_slug = Some ''new-name'', pd_titleAr = None, pd_titleEn = None, pd_excerptAr = None, pd_excerptEn = None,
     pd_bodyAr = None, pd_bodyEn = None, pd_categoryId = None, pd_coverAssetId = None, pd_publishedOn = None,
     pd_isFeatured = None, pd_isLegacy = None, pd_isPublished = None\<rparr>"

definition one_post :: "post crud_db" where
  "one_post = \<lparr>cd_rows = [old_post], cd_redirects = [], cd_assets = []\<rparr>"

theorem renamed_post_redirects_witness:
  "fst (resolve_redirect (sc_text exact_compare) [(''path'', QStr ''/news/old'')]
      (cd_redirects (fst (snd (update_post exact_compare ''2026-01-01'' ''9'' ''5'' rename_body one_post)))))
    = Inr \<lparr>rs_toPath = ''/news/new-name'', rs_statusCode = 301\<rparr>"
proof -
  let ?r = "update_post exact_compare ''2026-01-01'' ''9'' ''5'' rename_body one_post"
  have slug: "slug_schema RESERVED_POST_SLUGS ''new-name'' = Some ''new-name''" by code_simp
  have found: "List.find (\<lambda>e. sc_id exact_compare (po_id e) ''5'') (cd_rows one_post) = Some old_post"
    by (simp add: exact_compare_def one_post_def old_post_def blank_post_def)
  obtain w where r: "fst ?r = Inr w" "po_slug (fst w) = ''new-name''"
    by (simp add: update_post_def slug rename_body_def one_post_def old_post_def blank_post_def exact_compare_def
        crud_update_def assert_alt_text_ready_def post_asset_ids_def find_or_not_found_def post_options_def run_rules_def
        save_with_redirect_def save_row_def assign_post_def given_def with_row_warnings_def Let_def)
  then have whole: "?r = (Inr w, fst (snd ?r), fst (snd (snd ?r)), snd (snd (snd ?r)))" by (metis prod.collapse)
  have live: "po_isPublished old_post" "po_slug old_post \<noteq> []" "po_slug (fst w) \<noteq> po_slug old_post"
      "po_slug old_post = ''old''"
    by (simp_all add: r(2) old_post_def)
  from renamed_post_redirects [OF found live(1,2) whole live(3)]
  show ?thesis by (simp add: r(2) live(4) exact_compare_def)
qed

end
