(* ===== verification/PublicViews.thy ===== *)
theory PublicViews
  imports ContentData
begin

text \<open>
  What a visitor gets to see of a row: the projections of the \<open>public-*.ts\<close> files, over all the
  content tables at once. A joined image is looked up by its id; a projection names every
  column it copies, so a column that is not listed cannot leave the API this way.
\<close>

section \<open>The content\<close>

record content =
  ct_assets :: "media_asset list"
  ct_newsCategories :: "news_category list"
  ct_posts :: "post list"
  ct_board :: "board_member list"
  ct_positions :: "org_position list"
  ct_partners :: "partner list"
  ct_pages :: "page list"
  ct_sections :: "page_section list"
  ct_docCategories :: "doc_category list"
  ct_documents :: "safeer_document list"
  ct_licences :: "licence list"
  ct_stats :: "stat list"
  ct_testimonials :: "testimonial list"
  ct_themes :: "testimonial_theme list"
  ct_workAreas :: "work_area list"
  ct_workAreaItems :: "work_area_item list"
  ct_aboutItems :: "about_item list"
  ct_settings :: "site_settings option"

definition no_content :: content where
  "no_content = \<lparr>ct_assets = [], ct_newsCategories = [], ct_posts = [], ct_board = [], ct_positions = [], ct_partners = [],
     ct_pages = [], ct_sections = [], ct_docCategories = [], ct_documents = [], ct_licences = [], ct_stats = [],
     ct_testimonials = [], ct_themes = [], ct_workAreas = [], ct_workAreaItems = [], ct_aboutItems = [], ct_settings = None\<rparr>"

section \<open>Markdown\<close>

text \<open>
  \<open>common/markdown/markdown.service.ts\<close>: \<open>marked\<close> and \<open>DOMPurify\<close> are the parameters \<open>parse\<close> and
  \<open>sanitize\<close>, which is given the allow-lists. Readers take the composed function \<open>md\<close>.
\<close>

definition ALLOWED_TAGS :: "string list" where
  "ALLOWED_TAGS = [''h2'', ''h3'', ''h4'', ''strong'', ''b'', ''em'', ''i'', ''ul'', ''ol'', ''li'', ''blockquote'', ''a'',
                   ''code'', ''pre'', ''p'', ''br'', ''table'', ''thead'', ''tbody'', ''tr'', ''th'', ''td'']"

definition ALLOWED_ATTR :: "string list" where "ALLOWED_ATTR = [''href'', ''align'']"

definition heading_depth :: "nat \<Rightarrow> nat" where
  "heading_depth d = min 4 (max 2 d)"

definition render_markdown ::
  "((nat \<Rightarrow> nat) \<Rightarrow> string \<Rightarrow> string) \<Rightarrow> (string list \<Rightarrow> string list \<Rightarrow> string \<Rightarrow> string) \<Rightarrow> string option \<Rightarrow> string" where
  "render_markdown parse sanitize markdown =
     (case markdown of
        None \<Rightarrow> []
      | Some s \<Rightarrow> if s = [] then [] else sanitize ALLOWED_TAGS ALLOWED_ATTR (parse heading_depth s))"

definition rendered :: "(string \<Rightarrow> string) \<Rightarrow> string option \<Rightarrow> string option" where
  "rendered md body = (case body of None \<Rightarrow> None | Some s \<Rightarrow> if s = [] then None else Some (md s))"

section \<open>Projections\<close>

record public_media_asset =
  xm_id :: string
  xm_publicId :: string
  xm_kind :: media_kind
  xm_mimeType :: string
  xm_sizeBytes :: nat
  xm_widthPx :: "nat option"
  xm_heightPx :: "nat option"
  xm_altAr :: "string option"
  xm_altEn :: "string option"

record public_news_category =
  xc_id :: string
  xc_slug :: string
  xc_nameAr :: string
  xc_nameEn :: "string option"
  xc_sortOrder :: int

record public_post_summary =
  xp_id :: string
  xp_slug :: string
  xp_titleAr :: string
  xp_titleEn :: "string option"
  xp_excerptAr :: "string option"
  xp_excerptEn :: "string option"
  xp_publishedOn :: "string option"
  xp_isFeatured :: bool
  xp_coverAsset :: "public_media_asset option"
  xp_category :: "public_news_category option"

record public_board_member =
  xb_id :: string
  xb_nameAr :: string
  xb_nameEn :: "string option"
  xb_roleAr :: string
  xb_roleEn :: "string option"
  xb_grp :: board_group
  xb_isLead :: bool
  xb_bioAr :: "string option"
  xb_bioEn :: "string option"
  xb_photoAsset :: "public_media_asset option"
  xb_sortOrder :: int

record public_partner =
  xr_id :: string
  xr_nameAr :: string
  xr_nameEn :: "string option"
  xr_category :: partner_category
  xr_url :: "string option"
  xr_logoAsset :: "public_media_asset option"
  xr_sortOrder :: int

record public_testimonial =
  xt_id :: string
  xt_quoteAr :: string
  xt_quoteEn :: "string option"
  xt_authorName :: string
  xt_authorDescAr :: "string option"
  xt_authorDescEn :: "string option"
  xt_isFeatured :: bool
  xt_sortOrder :: int

record public_testimonial_theme =
  xh_id :: string
  xh_titleAr :: string
  xh_titleEn :: "string option"
  xh_descriptionAr :: "string option"
  xh_descriptionEn :: "string option"
  xh_isImprovement :: bool
  xh_sortOrder :: int

record public_work_area_item =
  xi_id :: string
  xi_textAr :: string
  xi_textEn :: "string option"
  xi_sortOrder :: int

record public_work_area =
  xw_id :: string
  xw_icon :: "string option"
  xw_titleAr :: string
  xw_titleEn :: "string option"
  xw_sortOrder :: int
  xw_items :: "public_work_area_item list"

record public_page_section =
  xs_id :: string
  xs_sectionKey :: string
  xs_labelAr :: "string option"
  xs_labelEn :: "string option"
  xs_headingAr :: "string option"
  xs_headingEn :: "string option"
  xs_bodyAr :: "string option"
  xs_bodyEn :: "string option"
  xs_primaryButtonLabelAr :: "string option"
  xs_primaryButtonLabelEn :: "string option"
  xs_primaryButtonUrl :: "string option"
  xs_secondaryButtonLabelAr :: "string option"
  xs_secondaryButtonLabelEn :: "string option"
  xs_secondaryButtonUrl :: "string option"
  xs_imageAsset :: "public_media_asset option"
  xs_sortOrder :: int

record public_page =
  xg_id :: string
  xg_slug :: string
  xg_titleAr :: string
  xg_titleEn :: "string option"
  xg_metaTitleAr :: "string option"
  xg_metaTitleEn :: "string option"
  xg_metaDescriptionAr :: "string option"
  xg_metaDescriptionEn :: "string option"
  xg_sections :: "public_page_section list"

record public_doc_category =
  xd_id :: string
  xd_slug :: string
  xd_nameAr :: string
  xd_nameEn :: "string option"
  xd_sectionGroup :: doc_section_group

record public_document =
  xo_id :: string
  xo_titleAr :: string
  xo_titleEn :: "string option"
  xo_metaAr :: "string option"
  xo_metaEn :: "string option"
  xo_docDate :: "string option"
  xo_asset :: "public_media_asset option"
  xo_sortOrder :: int

record public_licence =
  xl_id :: string
  xl_titleAr :: string
  xl_titleEn :: "string option"
  xl_number :: "string option"
  xl_issuerAr :: "string option"
  xl_issuerEn :: "string option"
  xl_issuedOn :: "string option"
  xl_expiresOn :: "string option"
  xl_isPrimary :: bool
  xl_asset :: "public_media_asset option"

record public_stat =
  xx_id :: string
  xx_value :: "string option"
  xx_labelAr :: string
  xx_labelEn :: "string option"
  xx_subAr :: "string option"
  xx_subEn :: "string option"
  xx_sortOrder :: int

record public_about_item =
  xa_id :: string
  xa_icon :: "string option"
  xa_titleAr :: string
  xa_titleEn :: "string option"
  xa_bodyAr :: "string option"
  xa_bodyEn :: "string option"
  xa_sortOrder :: int

record public_site_settings =
  xe_id :: string
  xe_orgNameAr :: string
  xe_orgNameEn :: "string option"
  xe_taglineAr :: "string option"
  xe_taglineEn :: "string option"
  xe_footerBlurbAr :: "string option"
  xe_footerBlurbEn :: "string option"
  xe_rightsLineAr :: "string option"
  xe_rightsLineEn :: "string option"
  xe_phone :: "string option"
  xe_email :: "string option"
  xe_addressAr :: "string option"
  xe_addressEn :: "string option"
  xe_facebookUrl :: "string option"
  xe_instagramUrl :: "string option"
  xe_xUrl :: "string option"
  xe_youtubeUrl :: "string option"
  xe_linkedinUrl :: "string option"
  xe_whatsappUrl :: "string option"
  xe_tiktokUrl :: "string option"
  xe_mapEmbedUrl :: "string option"
  xe_mapLat :: "string option"
  xe_mapLng :: "string option"
  xe_enEnabled :: bool
  xe_seoTitleAr :: "string option"
  xe_seoTitleEn :: "string option"
  xe_seoDescriptionAr :: "string option"
  xe_seoDescriptionEn :: "string option"
  xe_licenceNo :: "string option"
  xe_licenceIssuerAr :: "string option"
  xe_licenceIssuerEn :: "string option"

definition to_public_asset_row :: "media_asset \<Rightarrow> public_media_asset" where
  "to_public_asset_row e =
     \<lparr>xm_id = ma_id e, xm_publicId = ma_publicId e, xm_kind = ma_kind e, xm_mimeType = ma_mimeType e,
      xm_sizeBytes = ma_sizeBytes e, xm_widthPx = ma_widthPx e, xm_heightPx = ma_heightPx e,
      xm_altAr = ma_altAr e, xm_altEn = ma_altEn e\<rparr>"

definition asset_of :: "content \<Rightarrow> string option \<Rightarrow> public_media_asset option" where
  "asset_of ct aid =
     (case aid of None \<Rightarrow> None | Some i \<Rightarrow> map_option to_public_asset_row (List.find (\<lambda>a. ma_id a = i) (ct_assets ct)))"

definition to_public_news_category :: "news_category \<Rightarrow> public_news_category" where
  "to_public_news_category e =
     \<lparr>xc_id = nc_id e, xc_slug = nc_slug e, xc_nameAr = nc_nameAr e, xc_nameEn = nc_nameEn e,
      xc_sortOrder = nc_sortOrder e\<rparr>"

definition to_public_post_summary :: "content \<Rightarrow> post \<Rightarrow> public_post_summary" where
  "to_public_post_summary ct e =
     \<lparr>xp_id = po_id e, xp_slug = po_slug e, xp_titleAr = po_titleAr e, xp_titleEn = po_titleEn e,
      xp_excerptAr = po_excerptAr e, xp_excerptEn = po_excerptEn e, xp_publishedOn = po_publishedOn e,
      xp_isFeatured = po_isFeatured e, xp_coverAsset = asset_of ct (po_coverAssetId e),
      xp_category = map_option to_public_news_category (List.find (\<lambda>k. nc_id k = po_categoryId e) (ct_newsCategories ct))\<rparr>"

definition to_public_board_member :: "content \<Rightarrow> board_member \<Rightarrow> public_board_member" where
  "to_public_board_member ct e =
     \<lparr>xb_id = bm_id e, xb_nameAr = bm_nameAr e, xb_nameEn = bm_nameEn e, xb_roleAr = bm_roleAr e,
      xb_roleEn = bm_roleEn e, xb_grp = bm_grp e, xb_isLead = bm_isLead e, xb_bioAr = bm_bioAr e,
      xb_bioEn = bm_bioEn e, xb_photoAsset = asset_of ct (bm_photoAssetId e),
      xb_sortOrder = bm_sortOrder e\<rparr>"

definition to_public_partner :: "content \<Rightarrow> partner \<Rightarrow> public_partner" where
  "to_public_partner ct e =
     \<lparr>xr_id = pt_id e, xr_nameAr = pt_nameAr e, xr_nameEn = pt_nameEn e, xr_category = pt_category e,
      xr_url = pt_url e, xr_logoAsset = asset_of ct (pt_logoAssetId e), xr_sortOrder = pt_sortOrder e\<rparr>"

definition to_public_testimonial :: "testimonial \<Rightarrow> public_testimonial" where
  "to_public_testimonial e =
     \<lparr>xt_id = te_id e, xt_quoteAr = te_quoteAr e, xt_quoteEn = te_quoteEn e,
      xt_authorName = te_authorName e, xt_authorDescAr = te_authorDescAr e,
      xt_authorDescEn = te_authorDescEn e, xt_isFeatured = te_isFeatured e,
      xt_sortOrder = te_sortOrder e\<rparr>"

definition to_public_testimonial_theme :: "testimonial_theme \<Rightarrow> public_testimonial_theme" where
  "to_public_testimonial_theme e =
     \<lparr>xh_id = tt_id e, xh_titleAr = tt_titleAr e, xh_titleEn = tt_titleEn e,
      xh_descriptionAr = tt_descriptionAr e, xh_descriptionEn = tt_descriptionEn e,
      xh_isImprovement = tt_isImprovement e, xh_sortOrder = tt_sortOrder e\<rparr>"

definition to_public_work_area_item :: "work_area_item \<Rightarrow> public_work_area_item" where
  "to_public_work_area_item e =
     \<lparr>xi_id = wi_id e, xi_textAr = wi_textAr e, xi_textEn = wi_textEn e,
      xi_sortOrder = wi_sortOrder e\<rparr>"

definition to_public_work_area :: "work_area_item list \<Rightarrow> work_area \<Rightarrow> public_work_area" where
  "to_public_work_area items e =
     \<lparr>xw_id = wa_id e, xw_icon = wa_icon e, xw_titleAr = wa_titleAr e, xw_titleEn = wa_titleEn e,
      xw_sortOrder = wa_sortOrder e, xw_items = map to_public_work_area_item items\<rparr>"

definition to_public_page_section :: "(string \<Rightarrow> string) \<Rightarrow> content \<Rightarrow> page_section \<Rightarrow> public_page_section" where
  "to_public_page_section md ct e =
     \<lparr>xs_id = ps_id e, xs_sectionKey = ps_sectionKey e, xs_labelAr = ps_labelAr e,
      xs_labelEn = ps_labelEn e, xs_headingAr = ps_headingAr e, xs_headingEn = ps_headingEn e,
      xs_bodyAr = rendered md (ps_bodyAr e), xs_bodyEn = rendered md (ps_bodyEn e),
      xs_primaryButtonLabelAr = ps_primaryButtonLabelAr e,
      xs_primaryButtonLabelEn = ps_primaryButtonLabelEn e,
      xs_primaryButtonUrl = ps_primaryButtonUrl e,
      xs_secondaryButtonLabelAr = ps_secondaryButtonLabelAr e,
      xs_secondaryButtonLabelEn = ps_secondaryButtonLabelEn e,
      xs_secondaryButtonUrl = ps_secondaryButtonUrl e,
      xs_imageAsset = asset_of ct (ps_imageAssetId e), xs_sortOrder = ps_sortOrder e\<rparr>"

definition to_public_page :: "(string \<Rightarrow> string) \<Rightarrow> content \<Rightarrow> page_section list \<Rightarrow> page \<Rightarrow> public_page" where
  "to_public_page md ct sections e =
     \<lparr>xg_id = pa_id e, xg_slug = pa_slug e, xg_titleAr = pa_titleAr e, xg_titleEn = pa_titleEn e,
      xg_metaTitleAr = pa_metaTitleAr e, xg_metaTitleEn = pa_metaTitleEn e,
      xg_metaDescriptionAr = pa_metaDescriptionAr e, xg_metaDescriptionEn = pa_metaDescriptionEn e,
      xg_sections = map (to_public_page_section md ct) sections\<rparr>"

definition to_public_doc_category :: "doc_category \<Rightarrow> public_doc_category" where
  "to_public_doc_category e =
     \<lparr>xd_id = dc_id e, xd_slug = dc_slug e, xd_nameAr = dc_nameAr e, xd_nameEn = dc_nameEn e,
      xd_sectionGroup = dc_sectionGroup e\<rparr>"

definition to_public_document :: "content \<Rightarrow> safeer_document \<Rightarrow> public_document" where
  "to_public_document ct e =
     \<lparr>xo_id = dd_id e, xo_titleAr = dd_titleAr e, xo_titleEn = dd_titleEn e, xo_metaAr = dd_metaAr e,
      xo_metaEn = dd_metaEn e, xo_docDate = dd_docDate e, xo_asset = asset_of ct (dd_assetId e),
      xo_sortOrder = dd_sortOrder e\<rparr>"

definition to_public_licence :: "content \<Rightarrow> licence \<Rightarrow> public_licence" where
  "to_public_licence ct e =
     \<lparr>xl_id = li_id e, xl_titleAr = li_titleAr e, xl_titleEn = li_titleEn e, xl_number = li_number e,
      xl_issuerAr = li_issuerAr e, xl_issuerEn = li_issuerEn e, xl_issuedOn = li_issuedOn e,
      xl_expiresOn = li_expiresOn e, xl_isPrimary = li_isPrimary e,
      xl_asset = asset_of ct (li_assetId e)\<rparr>"

definition to_public_stat :: "stat \<Rightarrow> public_stat" where
  "to_public_stat e =
     \<lparr>xx_id = sx_id e, xx_value = sx_value e, xx_labelAr = sx_labelAr e, xx_labelEn = sx_labelEn e,
      xx_subAr = sx_subAr e, xx_subEn = sx_subEn e, xx_sortOrder = sx_sortOrder e\<rparr>"

definition to_public_about_item :: "(string \<Rightarrow> string) \<Rightarrow> about_item \<Rightarrow> public_about_item" where
  "to_public_about_item md e =
     \<lparr>xa_id = ai_id e, xa_icon = ai_icon e, xa_titleAr = ai_titleAr e, xa_titleEn = ai_titleEn e,
      xa_bodyAr = rendered md (ai_bodyAr e), xa_bodyEn = rendered md (ai_bodyEn e),
      xa_sortOrder = ai_sortOrder e\<rparr>"

definition to_public_site_settings :: "site_settings \<Rightarrow> public_site_settings" where
  "to_public_site_settings e =
     \<lparr>xe_id = si_id e, xe_orgNameAr = si_orgNameAr e, xe_orgNameEn = si_orgNameEn e,
      xe_taglineAr = si_taglineAr e, xe_taglineEn = si_taglineEn e,
      xe_footerBlurbAr = si_footerBlurbAr e, xe_footerBlurbEn = si_footerBlurbEn e,
      xe_rightsLineAr = si_rightsLineAr e, xe_rightsLineEn = si_rightsLineEn e, xe_phone = si_phone e,
      xe_email = si_email e, xe_addressAr = si_addressAr e, xe_addressEn = si_addressEn e,
      xe_facebookUrl = si_facebookUrl e, xe_instagramUrl = si_instagramUrl e, xe_xUrl = si_xUrl e,
      xe_youtubeUrl = si_youtubeUrl e, xe_linkedinUrl = si_linkedinUrl e,
      xe_whatsappUrl = si_whatsappUrl e, xe_tiktokUrl = si_tiktokUrl e,
      xe_mapEmbedUrl = si_mapEmbedUrl e, xe_mapLat = si_mapLat e, xe_mapLng = si_mapLng e,
      xe_enEnabled = si_enEnabled e, xe_seoTitleAr = si_seoTitleAr e, xe_seoTitleEn = si_seoTitleEn e,
      xe_seoDescriptionAr = si_seoDescriptionAr e, xe_seoDescriptionEn = si_seoDescriptionEn e,
      xe_licenceNo = si_licenceNo e, xe_licenceIssuerAr = si_licenceIssuerAr e,
      xe_licenceIssuerEn = si_licenceIssuerEn e\<rparr>"

section \<open>A post in full\<close>

fun word_count :: "bool \<Rightarrow> string \<Rightarrow> nat" where
  "word_count inside [] = 0"
| "word_count inside (c # cs) =
     (if is_space c then word_count False cs else if inside then word_count True cs else Suc (word_count True cs))"

definition WORDS_PER_MINUTE :: nat where "WORDS_PER_MINUTE = 200"

definition estimate_read_minutes :: "string option \<Rightarrow> nat" where
  "estimate_read_minutes body =
     (case body of
        None \<Rightarrow> 1
      | Some s \<Rightarrow> if s = [] then 1
                  else max 1 ((2 * word_count False s + WORDS_PER_MINUTE) div (2 * WORDS_PER_MINUTE)))"

record public_post_detail =
  xq_summary :: public_post_summary
  xq_bodyAr :: "string option"
  xq_bodyEn :: "string option"
  xq_readMinutesAr :: nat
  xq_readMinutesEn :: "nat option"
  xq_related :: "public_post_summary list"
  xq_previewFileQuery :: "string option"

definition to_public_post_detail :: "content \<Rightarrow> post \<Rightarrow> post list \<Rightarrow> public_post_detail" where
  "to_public_post_detail ct p related =
     \<lparr>xq_summary = to_public_post_summary ct p, xq_bodyAr = po_bodyAr p, xq_bodyEn = po_bodyEn p,
      xq_readMinutesAr = estimate_read_minutes (po_bodyAr p),
      xq_readMinutesEn = (case po_bodyEn p of None \<Rightarrow> None
        | Some s \<Rightarrow> if trim s \<noteq> [] then Some (estimate_read_minutes (Some s)) else None),
      xq_related = map (to_public_post_summary ct) related, xq_previewFileQuery = None\<rparr>"

end
