(* ===== verification/OrgChart.thy ===== *)
theory OrgChart
  imports ContentData
begin

text \<open>
  The organisational chart: the write rules of \<open>org-chart/tree-guard.ts\<close>, the handlers of
  \<open>org-chart/admin-org-positions.controller.ts\<close> and the public forest of
  \<open>org-chart/public-org-chart.ts\<close>. The recursion of \<open>walk\<close> carries fuel: it nests only at ids
  it has not seen that have children, of which there are at most as many as rows.
\<close>

section \<open>The tree guard\<close>

definition ORG_MAX_DEPTH :: nat where "ORG_MAX_DEPTH = 5"

type_synonym tree_row = "string \<times> string option"

datatype tree_guard_error = SELF_PARENT | PARENT_NOT_FOUND | CYCLE | TOO_DEEP

text \<open>\<open>byId.get(x)?.parentId ?? null\<close>; a later row of the same id replaces an earlier one in the map.\<close>

definition parent_of :: "tree_row list \<Rightarrow> string \<Rightarrow> string option" where
  "parent_of rows x = (case map_of (rev rows) x of None \<Rightarrow> None | Some p \<Rightarrow> p)"

definition tree_ids :: "tree_row list \<Rightarrow> string set" where
  "tree_ids rows = fst ` set rows \<union> \<Union> (set_option ` snd ` set rows)"

lemma finite_tree_ids [simp]: "finite (tree_ids rows)"
proof -
  have "finite (set_option p)" for p :: "string option" by (cases p) auto
  then show ?thesis by (simp add: tree_ids_def)
qed

lemma parent_of_in: "set_option (parent_of rows x) \<subseteq> tree_ids rows"
  by (auto simp: parent_of_def tree_ids_def dest!: map_of_SomeD split: option.splits)

lemma climb_decreases:
  assumes "x \<notin> set seen"
  shows "card (tree_ids rows \<union> set_option (parent_of rows x) - set (x # seen)) < card (tree_ids rows \<union> {x} - set seen)"
proof (rule psubset_card_mono)
  show "finite (tree_ids rows \<union> {x} - set seen)" by simp
  show "tree_ids rows \<union> set_option (parent_of rows x) - set (x # seen) \<subset> tree_ids rows \<union> {x} - set seen"
    using assms parent_of_in [of rows x] by auto
qed

function descendant_loop :: "tree_row list \<Rightarrow> string \<Rightarrow> string list \<Rightarrow> string option \<Rightarrow> bool" where
  "descendant_loop rows ancestor seen None = False"
| "descendant_loop rows ancestor seen (Some x) =
     (if x \<in> set seen then False
      else if x = ancestor then True
      else descendant_loop rows ancestor (x # seen) (parent_of rows x))"
  by pat_completeness auto
termination
  using climb_decreases
  by (relation "measure (\<lambda>(rows, _, seen, cur). card (tree_ids rows \<union> set_option cur - set seen))") auto

definition is_descendant :: "tree_row list \<Rightarrow> string \<Rightarrow> string \<Rightarrow> bool" where
  "is_descendant rows candidate ancestor = descendant_loop rows ancestor [] (parent_of rows candidate)"

function depth_loop :: "tree_row list \<Rightarrow> string list \<Rightarrow> nat \<Rightarrow> string option \<Rightarrow> nat" where
  "depth_loop rows seen depth None = depth"
| "depth_loop rows seen depth (Some x) =
     (if x \<in> set seen then depth else depth_loop rows (x # seen) (depth + 1) (parent_of rows x))"
  by pat_completeness auto
termination
  using climb_decreases
  by (relation "measure (\<lambda>(rows, seen, _, cur). card (tree_ids rows \<union> set_option cur - set seen))") auto

definition depth_of :: "tree_row list \<Rightarrow> string \<Rightarrow> nat" where
  "depth_of rows i = depth_loop rows [] 0 (Some i)"

definition children_of :: "tree_row list \<Rightarrow> string \<Rightarrow> string list" where
  "children_of rows p = map fst (filter (\<lambda>r. snd r = Some p) rows)"

primrec walk :: "nat \<Rightarrow> (string \<Rightarrow> string list) \<Rightarrow> string \<Rightarrow> string list \<Rightarrow> nat \<times> string list" where
  "walk 0 children node seen = (0, seen)"
| "walk (Suc fuel) children node seen =
     (if node \<in> set seen then (0, seen)
      else (let (deepest, seen') =
              foldl (\<lambda>(deepest, s) child. let (d, s') = walk fuel children child s in (max deepest d, s'))
                (0, node # seen) (children node)
            in (1 + deepest, seen')))"

definition subtree_depth :: "tree_row list \<Rightarrow> string option \<Rightarrow> nat" where
  "subtree_depth rows i =
     (case i of None \<Rightarrow> 1 | Some x \<Rightarrow> fst (walk (length rows + ORG_MAX_DEPTH) (children_of rows) x []))"

definition check_parent :: "tree_row list \<Rightarrow> string option \<Rightarrow> string option \<Rightarrow> tree_guard_error option" where
  "check_parent rows i parent =
     (case parent of
        None \<Rightarrow> if ORG_MAX_DEPTH < subtree_depth rows i then Some TOO_DEEP else None
      | Some p \<Rightarrow>
          if i = Some p then Some SELF_PARENT
          else if map_of (rev rows) p = None then Some PARENT_NOT_FOUND
          else if i \<noteq> None \<and> is_descendant rows p (the i) then Some CYCLE
          else if ORG_MAX_DEPTH < depth_of rows p + subtree_depth rows i then Some TOO_DEEP
          else None)"

section \<open>The admin handlers\<close>

fun guard_message :: "tree_guard_error \<Rightarrow> string" where
  "guard_message SELF_PARENT = ''A position cannot report to itself''"
| "guard_message PARENT_NOT_FOUND = ''The parent position does not exist''"
| "guard_message CYCLE = ''A position cannot report to one of its own sub-positions''"
| "guard_message TOO_DEEP = ''The chart is limited to 5 levels''"

fun guard_name :: "tree_guard_error \<Rightarrow> string" where
  "guard_name SELF_PARENT = ''SELF_PARENT''"
| "guard_name PARENT_NOT_FOUND = ''PARENT_NOT_FOUND''"
| "guard_name CYCLE = ''CYCLE''"
| "guard_name TOO_DEEP = ''TOO_DEEP''"

definition lock_tree :: "org_position list \<Rightarrow> tree_row list" where
  "lock_tree ps = map (\<lambda>p. (op_id p, op_parentId p)) (sort_key (\<lambda>p. read_nat (op_id p)) ps)"

definition assert_parent :: "tree_row list \<Rightarrow> string option \<Rightarrow> string option \<Rightarrow> unit res" where
  "assert_parent rows i parent =
     (case check_parent rows i parent of
        Some e \<Rightarrow> fail_with 400 VALIDATION_FAILED (guard_message e) [(''field'', JStr ''parentId''), (''reason'', JStr (guard_name e))]
      | None \<Rightarrow> Inr ())"

definition next_sort_order :: "sql_compare \<Rightarrow> org_position list \<Rightarrow> string option \<Rightarrow> int" where
  "next_sort_order c ps parent =
     (let siblings = filter (\<lambda>p. case parent of
            None \<Rightarrow> op_parentId p = None
          | Some q \<Rightarrow> (case op_parentId p of None \<Rightarrow> False | Some x \<Rightarrow> sc_id c x q)) ps
      in if siblings = [] then 0 else Max (op_sortOrder ` set siblings) + 1)"

record position_dto =
  od_nameAr :: "string option"
  od_nameEn :: "string option option"
  od_parentId :: "string option option"
  od_tone :: "org_tone option"
  od_showHolders :: "bool option"
  od_isPublished :: "bool option"
  od_sortOrder :: "int option"

definition set_field :: "'a option \<Rightarrow> 'a \<Rightarrow> 'a" where
  "set_field f old = (case f of None \<Rightarrow> old | Some v \<Rightarrow> v)"

definition assign_position :: "position_dto \<Rightarrow> org_position \<Rightarrow> org_position" where
  "assign_position d p =
     p\<lparr>op_nameAr := set_field (od_nameAr d) (op_nameAr p), op_nameEn := set_field (od_nameEn d) (op_nameEn p),
       op_parentId := set_field (od_parentId d) (op_parentId p), op_tone := set_field (od_tone d) (op_tone p),
       op_showHolders := set_field (od_showHolders d) (op_showHolders p),
       op_isPublished := set_field (od_isPublished d) (op_isPublished p),
       op_sortOrder := set_field (od_sortOrder d) (op_sortOrder p)\<rparr>"

text \<open>A row as \<open>manager.create\<close> leaves it, with the columns' defaults.\<close>

definition blank_position :: "string \<Rightarrow> time \<Rightarrow> org_position" where
  "blank_position new_id now =
     \<lparr>op_id = new_id, op_nameAr = [], op_nameEn = None, op_parentId = None, op_tone = ToneAuto, op_showHolders = True,
      op_isPublished = True, op_sortOrder = 0, op_createdAt = now, op_updatedAt = now\<rparr>"

type_synonym org_result = "org_position res \<times> org_position list \<times> org_position audit_context option \<times> string list"

definition org_purges :: "string list" where
  "org_purges = [''org_positions'', ''org_chart'']"

definition create_position :: "sql_compare \<Rightarrow> time \<Rightarrow> string \<Rightarrow> position_dto \<Rightarrow> org_position list \<Rightarrow> org_result" where
  "create_position c now new_id d ps =
     (let parent = set_field (od_parentId d) None
      in case assert_parent (lock_tree ps) None parent of
           Inl e \<Rightarrow> (Inl e, ps, None, [])
         | Inr _ \<Rightarrow>
             (let draft = (assign_position d (blank_position new_id now))\<lparr>op_parentId := parent\<rparr>;
                  saved = (if od_sortOrder d = None then draft\<lparr>op_sortOrder := next_sort_order c ps parent\<rparr> else draft)
              in (Inr saved, ps @ [saved],
                  Some \<lparr>ac_action = ACreate, ac_entityType = ''org_positions'', ac_entityId = Some new_id,
                        ac_entityLabel = op_nameAr saved, ac_before = None, ac_after = Some saved\<rparr>,
                  org_purges)))"

definition update_position :: "sql_compare \<Rightarrow> string \<Rightarrow> position_dto \<Rightarrow> org_position list \<Rightarrow> org_result" where
  "update_position c i d ps =
     (case List.find (\<lambda>p. sc_id c (op_id p) i) ps of
        None \<Rightarrow> (fail 404 NOT_FOUND ''Not found'', ps, None, [])
      | Some before \<Rightarrow>
          (let moving = (case od_parentId d of None \<Rightarrow> False | Some parent \<Rightarrow> parent \<noteq> op_parentId before);
               current = assign_position d before
           in case (if moving then assert_parent (lock_tree ps) (Some i) (op_parentId current) else Inr ()) of
                Inl e \<Rightarrow> (Inl e, ps, None, [])
              | Inr _ \<Rightarrow>
                  (let saved = (if moving \<and> od_sortOrder d = None
                                then current\<lparr>op_sortOrder := next_sort_order c ps (op_parentId current)\<rparr> else current)
                   in (Inr saved, update_rows (\<lambda>p. op_id p = op_id before) (\<lambda>_. saved) ps,
                       Some \<lparr>ac_action = (if op_isPublished before = op_isPublished saved then AUpdate
                                          else if op_isPublished saved then APublish else AUnpublish),
                             ac_entityType = ''org_positions'', ac_entityId = Some i, ac_entityLabel = op_nameAr saved,
                             ac_before = Some before, ac_after = Some saved\<rparr>,
                       org_purges))))"

record org_usage =
  ou_entity :: string
  ou_id :: string
  ou_label :: string

definition position_usages :: "sql_compare \<Rightarrow> string \<Rightarrow> org_position list \<Rightarrow> board_member list \<Rightarrow> org_usage list" where
  "position_usages c i ps members =
     map (\<lambda>p. \<lparr>ou_entity = ''org_positions'', ou_id = op_id p, ou_label = op_nameAr p\<rparr>)
       (filter (\<lambda>p. eq_opt (sc_id c) (op_parentId p) i) ps)
     @ map (\<lambda>m. \<lparr>ou_entity = ''board_members'', ou_id = bm_id m, ou_label = bm_nameAr m\<rparr>)
         (filter (\<lambda>m. eq_opt (sc_id c) (bm_orgPositionId m) i) members)"

definition usage_json :: "org_usage \<Rightarrow> json" where
  "usage_json u = JObj [(''entity'', JStr (ou_entity u)), (''id'', JStr (ou_id u)), (''label'', JStr (ou_label u))]"

definition remove_position :: "sql_compare \<Rightarrow> string \<Rightarrow> board_member list \<Rightarrow> org_position list \<Rightarrow> org_result" where
  "remove_position c i members ps =
     (case List.find (\<lambda>p. sc_id c (op_id p) i) ps of
        None \<Rightarrow> (fail 404 NOT_FOUND ''Not found'', ps, None, [])
      | Some current \<Rightarrow>
          (let usages = position_usages c i ps members
           in if usages \<noteq> []
              then (fail_with 409 RESOURCE_IN_USE (''\"'' @ op_nameAr current @ ''\" still has sub-positions or members'')
                      [(''usages'', JArr (map usage_json usages))], ps, None, [])
              else (Inr current, delete_rows (\<lambda>p. op_id p = op_id current) ps,
                    Some \<lparr>ac_action = ADelete, ac_entityType = ''org_positions'', ac_entityId = Some i,
                          ac_entityLabel = op_nameAr current, ac_before = Some current, ac_after = None\<rparr>,
                    org_purges)))"

section \<open>The public chart\<close>

record org_holder =
  oh_id :: string
  oh_nameAr :: string
  oh_nameEn :: "string option"

datatype org_node =
  OrgNode (on_id: string) (on_nameAr: string) (on_nameEn: "string option") (on_tone: org_tone)
    (on_holders: "org_holder list") (on_children: "org_node list")

definition AUTO_TONES :: "org_tone list" where
  "AUTO_TONES = [ToneNeutral, ToneSky, ToneGreen, ToneBrand]"

definition resolve_tone :: "org_tone \<Rightarrow> nat \<Rightarrow> org_tone" where
  "resolve_tone tone depth = (if tone \<noteq> ToneAuto then tone else AUTO_TONES ! min depth (length AUTO_TONES - 1))"

definition holders_of :: "board_member list \<Rightarrow> string \<Rightarrow> org_holder list" where
  "holders_of members i =
     map (\<lambda>m. \<lparr>oh_id = bm_id m, oh_nameAr = bm_nameAr m, oh_nameEn = bm_nameEn m\<rparr>)
       (filter (\<lambda>m. bm_orgPositionId m = Some i \<and> i \<noteq> []) members)"

text \<open>The children map: a position under an unlisted parent is in no list.\<close>

definition listed_children :: "org_position list \<Rightarrow> string option \<Rightarrow> org_position list" where
  "listed_children ps parent =
     filter (\<lambda>p. op_parentId p = parent \<and> (case op_parentId p of None \<Rightarrow> True | Some q \<Rightarrow> q \<in> op_id ` set ps)) ps"

text \<open>\<open>build\<close> with the levels that are left, \<open>ORG_MAX_DEPTH - depth\<close>.\<close>

primrec build_level :: "nat \<Rightarrow> org_position list \<Rightarrow> board_member list \<Rightarrow> string option \<Rightarrow> org_node list" where
  "build_level 0 ps members parent = []"
| "build_level (Suc left) ps members parent =
     map (\<lambda>p. OrgNode (op_id p) (op_nameAr p) (op_nameEn p) (resolve_tone (op_tone p) (ORG_MAX_DEPTH - Suc left))
                (if op_showHolders p then holders_of members (op_id p) else [])
                (build_level left ps members (Some (op_id p))))
       (listed_children ps parent)"

definition build_org_forest :: "org_position list \<Rightarrow> board_member list \<Rightarrow> org_node list" where
  "build_org_forest ps members = build_level ORG_MAX_DEPTH ps members None"

definition org_chart :: "org_position list \<Rightarrow> board_member list \<Rightarrow> org_node list" where
  "org_chart ps members =
     build_org_forest
       (sort_key op_sortOrder (sort_key (\<lambda>p. read_nat (op_id p)) (filter op_isPublished ps)))
       (sort_key bm_sortOrder (sort_key (\<lambda>m. read_nat (bm_id m))
          (filter (\<lambda>m. bm_isPublished m \<and> bm_orgPositionId m \<noteq> None) members)))"

section \<open>Levels of the tree\<close>

inductive at_level :: "tree_row list \<Rightarrow> string \<Rightarrow> nat \<Rightarrow> bool" for rows where
  root: "(i, None) \<in> set rows \<Longrightarrow> at_level rows i (Suc 0)"
| child: "(i, Some p) \<in> set rows \<Longrightarrow> at_level rows p k \<Longrightarrow> at_level rows i (Suc k)"

inductive below :: "tree_row list \<Rightarrow> string \<Rightarrow> nat \<Rightarrow> string \<Rightarrow> bool" for rows i where
  here: "below rows i 0 i"
| under: "(j, Some p) \<in> set rows \<Longrightarrow> below rows i m p \<Longrightarrow> below rows i (Suc m) j"

inductive_simps below_zero [simp]: "below rows i 0 j"
inductive_cases below_SucE: "below rows i (Suc m) j"

definition tree_ok :: "tree_row list \<Rightarrow> bool" where
  "tree_ok rows \<longleftrightarrow> distinct (map fst rows) \<and> (\<forall>i \<in> fst ` set rows. \<exists>k \<le> ORG_MAX_DEPTH. at_level rows i k)"

lemma row_unique: "distinct (map fst rows) \<Longrightarrow> (i, p) \<in> set rows \<Longrightarrow> (i, q) \<in> set rows \<Longrightarrow> p = q"
  by (metis eq_key_imp_eq_value)

lemma parent_of_row: "distinct (map fst rows) \<Longrightarrow> (i, p) \<in> set rows \<Longrightarrow> parent_of rows i = p"
  using map_of_is_SomeI [of "rev rows" i p] by (simp add: parent_of_def rev_map [symmetric])

lemma at_level_in: "at_level rows i k \<Longrightarrow> i \<in> fst ` set rows"
  by (cases rule: at_level.cases) (auto intro: rev_image_eqI)

lemma at_level_set: "at_level rows i k \<Longrightarrow> set rows \<subseteq> set rows' \<Longrightarrow> at_level rows' i k"
  by (induction rule: at_level.induct) (auto intro: at_level.intros)

lemma tree_ok_perm: "set rows' = set rows \<Longrightarrow> distinct (map fst rows') \<Longrightarrow> tree_ok rows \<Longrightarrow> tree_ok rows'"
  unfolding tree_ok_def using at_level_set by (metis order_refl)

lemma at_level_unique:
  assumes "distinct (map fst rows)"
  shows "at_level rows i k \<Longrightarrow> at_level rows i k' \<Longrightarrow> k = k'"
proof (induction arbitrary: k' rule: at_level.induct)
  case (root i)
  from root.prems show ?case
    by (cases rule: at_level.cases) (use row_unique [OF assms root.hyps] in auto)
next
  case (child i p k)
  from child.prems show ?case
  proof (cases rule: at_level.cases)
    case root
    then show ?thesis using row_unique [OF assms child.hyps(1)] by auto
  next
    case (child p' k'')
    then show ?thesis using row_unique [OF assms \<open>(i, Some p) \<in> set rows\<close>] \<open>\<And>k'. at_level rows p k' \<Longrightarrow> k = k'\<close> by auto
  qed
qed

lemma below_level: "below rows i m j \<Longrightarrow> at_level rows i a \<Longrightarrow> at_level rows j (a + m)"
  by (induction rule: below.induct) (auto intro: at_level.child)

lemma below_down: "below rows c m j \<Longrightarrow> (c, Some i) \<in> set rows \<Longrightarrow> below rows i (Suc m) j"
  by (induction rule: below.induct) (auto intro: below.intros)

lemma below_first: "below rows i m j \<Longrightarrow> (m = 0 \<and> j = i) \<or> (\<exists>n c. m = Suc n \<and> (c, Some i) \<in> set rows \<and> below rows c n j)"
  by (induction rule: below.induct) (auto intro: below.intros)

lemma below_same_top:
  assumes "distinct (map fst rows)"
  shows "below rows x m j \<Longrightarrow> below rows y m j \<Longrightarrow> x = y"
proof (induction m arbitrary: j)
  case 0
  then show ?case by simp
next
  case (Suc m)
  obtain p where p: "(j, Some p) \<in> set rows" "below rows x m p" using Suc.prems(1) by (rule below_SucE)
  obtain q where q: "(j, Some q) \<in> set rows" "below rows y m q" using Suc.prems(2) by (rule below_SucE)
  have "p = q" using row_unique [OF assms p(1) q(1)] by simp
  then show ?case using Suc.IH p q by blast
qed

lemma seen_above:
  assumes "distinct (map fst rows)" "at_level rows i k" "\<forall>s \<in> set seen. \<exists>m > k. at_level rows s m"
  shows "i \<notin> set seen"
  using assms at_level_unique by (metis less_irrefl)

section \<open>The guard measures them\<close>

declare descendant_loop.simps(2) [simp del] depth_loop.simps(2) [simp del]

lemma depth_loop_level:
  assumes ids: "distinct (map fst rows)"
  shows "at_level rows i k \<Longrightarrow> (\<forall>s \<in> set seen. \<exists>m > k. at_level rows s m)
    \<Longrightarrow> depth_loop rows seen d (Some i) = d + k"
proof (induction arbitrary: seen d rule: at_level.induct)
  case (root i)
  have "i \<notin> set seen" by (rule seen_above [OF ids at_level.root [OF root.hyps]]) (use root.prems in blast)
  then show ?case using parent_of_row [OF ids root.hyps] by (simp add: depth_loop.simps(2))
next
  case (child i p k)
  have lev: "at_level rows i (Suc k)" using child.hyps at_level.child by blast
  have "i \<notin> set seen" by (rule seen_above [OF ids lev]) (use child.prems in blast)
  moreover have "\<forall>s \<in> set (i # seen). \<exists>m > k. at_level rows s m"
    using child.prems lev by (auto dest: Suc_lessD)
  ultimately show ?case
    using child.IH [of "i # seen" "d + 1"] parent_of_row [OF ids child.hyps(1)] by (subst depth_loop.simps) simp
qed

lemma depth_of_level: "distinct (map fst rows) \<Longrightarrow> at_level rows i k \<Longrightarrow> depth_of rows i = k"
  using depth_loop_level [of rows i k "[]" 0] by (simp add: depth_of_def)

lemma descendant_loop_below:
  assumes ids: "distinct (map fst rows)"
  shows "at_level rows x k \<Longrightarrow> below rows anc m x \<Longrightarrow> (\<forall>s \<in> set seen. \<exists>n > k. at_level rows s n)
    \<Longrightarrow> descendant_loop rows anc seen (Some x)"
proof (induction arbitrary: seen m rule: at_level.induct)
  case (root i)
  have "i \<notin> set seen" by (rule seen_above [OF ids at_level.root [OF root.hyps]]) (use root.prems in blast)
  moreover have "i = anc"
    using root.prems(1) by (cases rule: below.cases) (use row_unique [OF ids root.hyps] in auto)
  ultimately show ?case by (simp add: descendant_loop.simps(2))
next
  case (child i p k)
  have lev: "at_level rows i (Suc k)" using child.hyps at_level.child by blast
  have "i \<notin> set seen" by (rule seen_above [OF ids lev]) (use child.prems in blast)
  moreover have "descendant_loop rows anc (i # seen) (Some p)" if other: "i \<noteq> anc"
  proof -
    obtain m' where "below rows anc m' p"
      using child.prems(1) other row_unique [OF ids child.hyps(1)] by (cases rule: below.cases) auto
    moreover have "\<forall>s \<in> set (i # seen). \<exists>n > k. at_level rows s n"
      using child.prems(2) lev by (auto dest: Suc_lessD)
    ultimately show ?thesis using child.IH by blast
  qed
  ultimately show ?case
    using parent_of_row [OF ids child.hyps(1)] by (subst descendant_loop.simps) simp
qed

lemma not_descendant:
  assumes ids: "distinct (map fst rows)" and p: "at_level rows p k"
    and no: "\<not> is_descendant rows p i" "p \<noteq> i"
  shows "\<not> below rows i m p"
proof
  assume "below rows i m p"
  then obtain m' q where q: "(p, Some q) \<in> set rows" "below rows i m' q"
    using no(2) by (cases rule: below.cases) auto
  obtain k' where "at_level rows q k'"
    using p by (cases rule: at_level.cases) (use row_unique [OF ids q(1)] in auto)
  then have "descendant_loop rows i [] (Some q)"
    using descendant_loop_below [OF ids _ q(2)] by simp
  then show False using no(1) parent_of_row [OF ids q(1)] by (simp add: is_descendant_def)
qed

lemma children_of_iff: "distinct (map fst rows) \<Longrightarrow> distinct (children_of rows i)"
  by (simp add: children_of_def distinct_map_filter)

lemma set_children_of: "set (children_of rows i) = {c. (c, Some i) \<in> set rows}"
  by (force simp: children_of_def)

lemma walk_covers:
  assumes ids: "distinct (map fst rows)"
  shows "at_level rows i a \<Longrightarrow> (\<forall>m j. below rows i m j \<longrightarrow> j \<notin> set seen \<and> m < f)
    \<Longrightarrow> set (snd (walk f (children_of rows) i seen)) = set seen \<union> {j. \<exists>m. below rows i m j}
      \<and> (\<forall>m j. below rows i m j \<longrightarrow> m < fst (walk f (children_of rows) i seen))"
proof (induction f arbitrary: i a seen)
  case 0
  then show ?case using below.here by blast
next
  case (Suc f)
  define step where "step = (\<lambda>(deepest, s) child. let (d, s') = walk f (children_of rows) child s in (max deepest d, s'))"
  have fold: "d0 \<le> fst (foldl step (d0, s0) xs)
      \<and> set (snd (foldl step (d0, s0) xs)) = set s0 \<union> {j. \<exists>x \<in> set xs. \<exists>m. below rows x m j}
      \<and> (\<forall>x \<in> set xs. \<forall>m j. below rows x m j \<longrightarrow> m < fst (foldl step (d0, s0) xs))"
    if "set xs \<subseteq> set (children_of rows i)" "distinct xs" "\<forall>x \<in> set xs. \<forall>m j. below rows x m j \<longrightarrow> j \<notin> set s0"
    for xs d0 s0
    using that
  proof (induction xs arbitrary: d0 s0)
    case Nil
    then show ?case by simp
  next
    case (Cons x xs)
    have x: "(x, Some i) \<in> set rows" using Cons.prems(1) by (simp add: set_children_of)
    then have lev: "at_level rows x (Suc a)" using Suc.prems(1) at_level.child by blast
    have "\<forall>m j. below rows x m j \<longrightarrow> j \<notin> set s0 \<and> m < f"
      using Cons.prems(3) Suc.prems(2) below_down [OF _ x] by force
    from Suc.IH [OF lev this] obtain d s where w: "walk f (children_of rows) x s0 = (d, s)"
        and s: "set s = set s0 \<union> {j. \<exists>m. below rows x m j}" and d: "\<forall>m j. below rows x m j \<longrightarrow> m < d"
      by (cases "walk f (children_of rows) x s0") auto
    have "j \<notin> set s" if y: "y \<in> set xs" "below rows y m j" for y m j
    proof
      assume "j \<in> set s"
      moreover have "j \<notin> set s0" using Cons.prems(3) y by auto
      ultimately obtain m' where m': "below rows x m' j" using s by auto
      have ylev: "at_level rows y (Suc a)"
        using y(1) Cons.prems(1) Suc.prems(1) at_level.child by (auto simp: set_children_of)
      have "Suc a + m' = Suc a + m"
        using at_level_unique [OF ids below_level [OF m' lev] below_level [OF y(2) ylev]] .
      then have "x = y" using below_same_top [OF ids m'] y(2) by simp
      then show False using Cons.prems(2) y(1) by simp
    qed
    then have "max d0 d \<le> fst (foldl step (max d0 d, s) xs)
      \<and> set (snd (foldl step (max d0 d, s) xs)) = set s \<union> {j. \<exists>x \<in> set xs. \<exists>m. below rows x m j}
      \<and> (\<forall>x \<in> set xs. \<forall>m j. below rows x m j \<longrightarrow> m < fst (foldl step (max d0 d, s) xs))"
      using Cons.IH [of s "max d0 d"] Cons.prems(1,2) by auto
    moreover have "foldl step (d0, s0) (x # xs) = foldl step (max d0 d, s) xs"
      by (simp add: step_def w)
    ultimately show ?case using s d by (auto intro: less_le_trans)
  qed
  have fresh: "i \<notin> set seen" using Suc.prems(2) below.here by blast
  have pre: "\<forall>x \<in> set (children_of rows i). \<forall>m j. below rows x m j \<longrightarrow> j \<notin> set (i # seen)"
  proof (intro ballI allI impI)
    fix x m j assume x: "x \<in> set (children_of rows i)" and b: "below rows x m j"
    then have b': "below rows i (Suc m) j" using below_down by (simp add: set_children_of)
    have "j \<noteq> i"
      using at_level_unique [OF ids below_level [OF b' Suc.prems(1)], of a] Suc.prems(1) by auto
    then show "j \<notin> set (i # seen)" using Suc.prems(2) b' by auto
  qed
  obtain d s where folded: "foldl step (0, i # seen) (children_of rows i) = (d, s)" by force
  have res: "walk (Suc f) (children_of rows) i seen = (1 + d, s)"
    using fresh folded by (simp add: step_def)
  have all: "set s = set (i # seen) \<union> {j. \<exists>x \<in> set (children_of rows i). \<exists>m. below rows x m j}"
      "\<forall>x \<in> set (children_of rows i). \<forall>m j. below rows x m j \<longrightarrow> m < d"
    using fold [OF subset_refl children_of_iff [OF ids] pre, of 0] folded by auto
  have split: "below rows i m j \<longleftrightarrow> (m = 0 \<and> j = i) \<or> (\<exists>n. m = Suc n \<and> (\<exists>x \<in> set (children_of rows i). below rows x n j))" for m j
    using below_first below_down below.here by (auto simp: set_children_of)
  show ?case unfolding res using all split by auto
qed

lemma subtree_depth_bound:
  assumes ok: "tree_ok rows" and i: "i \<in> fst ` set rows" and b: "below rows i m j"
  shows "Suc m \<le> subtree_depth rows (Some i)"
proof -
  have ids: "distinct (map fst rows)" using ok by (simp add: tree_ok_def)
  obtain a where a: "at_level rows i a" using ok i by (auto simp: tree_ok_def)
  have "m' < length rows + ORG_MAX_DEPTH" if "below rows i m' j'" for m' j'
  proof -
    have lev: "at_level rows j' (a + m')" using below_level [OF that a] .
    then have "j' \<in> fst ` set rows" by (rule at_level_in)
    then obtain k where "k \<le> ORG_MAX_DEPTH" "at_level rows j' k" using ok by (auto simp: tree_ok_def)
    then have "a + m' \<le> ORG_MAX_DEPTH" using at_level_unique [OF ids lev] by simp
    moreover have "0 < length rows" using i by (cases rows) auto
    ultimately show ?thesis by linarith
  qed
  then have "\<forall>m j. below rows i m j \<longrightarrow> j \<notin> set [] \<and> m < length rows + ORG_MAX_DEPTH" by simp
  from walk_covers [OF ids a this]
  have "m < fst (walk (length rows + ORG_MAX_DEPTH) (children_of rows) i [])" using b by blast
  then show ?thesis by (simp add: subtree_depth_def Suc_le_eq)
qed


section \<open>Writes keep the tree\<close>

definition set_parent :: "string \<Rightarrow> string option \<Rightarrow> tree_row list \<Rightarrow> tree_row list" where
  "set_parent i q rows = map (\<lambda>r. if fst r = i then (i, q) else r) rows"

lemma set_parent_ids [simp]: "map fst (set_parent i q rows) = map fst rows"
  by (simp add: set_parent_def)

lemma set_parent_same: "distinct (map fst rows) \<Longrightarrow> (i, q) \<in> set rows \<Longrightarrow> set_parent i q rows = rows"
  unfolding set_parent_def by (rule map_idI) (auto dest: row_unique)

lemma set_parent_row: "i \<in> fst ` set rows \<Longrightarrow> (i, q) \<in> set (set_parent i q rows)"
  by (force simp: set_parent_def)

lemma set_parent_other: "(j, p) \<in> set rows \<Longrightarrow> j \<noteq> i \<Longrightarrow> (j, p) \<in> set (set_parent i q rows)"
  by (force simp: set_parent_def)

lemma level_kept: "at_level rows j k \<Longrightarrow> (\<forall>m. \<not> below rows i m j) \<Longrightarrow> at_level (set_parent i q rows) j k"
proof (induction rule: at_level.induct)
  case (root j)
  then show ?case using below.here set_parent_other at_level.root by metis
next
  case (child j p k)
  have "\<forall>m. \<not> below rows i m p" using child.prems below.under [OF child.hyps(1)] by blast
  moreover have "j \<noteq> i" using child.prems below.here by blast
  ultimately show ?case using child set_parent_other at_level.child by metis
qed

lemma level_moved:
  assumes ids: "distinct (map fst rows)" and i: "at_level rows i a"
  shows "below rows i m j \<Longrightarrow> at_level (set_parent i q rows) i l \<Longrightarrow> at_level (set_parent i q rows) j (l + m)"
proof (induction rule: below.induct)
  case here
  then show ?case by simp
next
  case (under j p m)
  have "below rows i (Suc m) j" using under.hyps below.under by blast
  then have "at_level rows j (a + Suc m)" using below_level i by blast
  then have "j \<noteq> i" using at_level_unique [OF ids i] by force
  then have "(j, Some p) \<in> set (set_parent i q rows)" using set_parent_other under.hyps(1) by blast
  then show ?case using at_level.child under.IH under.prems by force
qed

lemma move_keeps_tree:
  assumes ok: "tree_ok rows" and i: "i \<in> fst ` set rows" and guard: "check_parent rows (Some i) q = None"
  shows "tree_ok (set_parent i q rows)"
proof -
  have ids: "distinct (map fst rows)" using ok by (simp add: tree_ok_def)
  obtain a where a: "at_level rows i a" using ok i by (auto simp: tree_ok_def)
  obtain l where l: "at_level (set_parent i q rows) i (Suc l)" "l + subtree_depth rows (Some i) \<le> ORG_MAX_DEPTH"
  proof (cases q)
    case None
    then show ?thesis using guard set_parent_row [OF i, of q] at_level.root that [of 0]
      by (simp add: check_parent_def split: if_splits)
  next
    case (Some p)
    have g: "p \<noteq> i" "map_of (rev rows) p \<noteq> None" "\<not> is_descendant rows p i"
        "depth_of rows p + subtree_depth rows (Some i) \<le> ORG_MAX_DEPTH"
      using guard Some by (auto simp: check_parent_def split: if_splits)
    then obtain k where k: "at_level rows p k"
      using ok by (auto simp: tree_ok_def map_of_eq_None_iff)
    have "\<forall>m. \<not> below rows i m p" using not_descendant [OF ids k g(3,1)] by blast
    then have "at_level (set_parent i q rows) p k" using level_kept k by blast
    then have "at_level (set_parent i q rows) i (Suc k)"
      using at_level.child set_parent_row [OF i, of q] Some by blast
    then show ?thesis using that g(4) depth_of_level [OF ids k] by simp
  qed
  have "\<exists>k \<le> ORG_MAX_DEPTH. at_level (set_parent i q rows) j k" if j: "j \<in> fst ` set rows" for j
  proof (cases "\<exists>m. below rows i m j")
    case True
    then obtain m where m: "below rows i m j" by blast
    have "Suc l + m \<le> ORG_MAX_DEPTH" using subtree_depth_bound [OF ok i m] l(2) by simp
    then show ?thesis using level_moved [OF ids a m l(1)] by blast
  next
    case False
    then show ?thesis using ok j level_kept [of rows j] by (meson tree_ok_def)
  qed
  moreover have "fst ` set (set_parent i q rows) = fst ` set rows"
    using set_parent_ids [of i q rows] by (metis set_map)
  ultimately show ?thesis using ids by (simp add: tree_ok_def)
qed

lemma append_keeps_tree:
  assumes ok: "tree_ok rows" and i: "i \<notin> fst ` set rows" and guard: "check_parent rows None q = None"
  shows "tree_ok (rows @ [(i, q)])"
proof -
  have ids: "distinct (map fst rows)" using ok by (simp add: tree_ok_def)
  have old: "at_level (rows @ [(i, q)]) j k" if "at_level rows j k" for j k
    by (rule at_level_set [OF that]) auto
  have "\<exists>k \<le> ORG_MAX_DEPTH. at_level (rows @ [(i, q)]) i k"
  proof (cases q)
    case None
    then have "at_level (rows @ [(i, q)]) i 1" by (auto intro: at_level.root)
    then show ?thesis by (auto simp: ORG_MAX_DEPTH_def intro: exI [of _ "Suc 0"])
  next
    case (Some p)
    have g: "map_of (rev rows) p \<noteq> None" "depth_of rows p + 1 \<le> ORG_MAX_DEPTH"
      using guard Some by (auto simp: check_parent_def subtree_depth_def split: if_splits)
    then obtain k where k: "at_level rows p k" using ok by (auto simp: tree_ok_def map_of_eq_None_iff)
    have "at_level (rows @ [(i, q)]) i (Suc k)"
      using at_level.child [OF _ old [OF k]] Some by simp
    then show ?thesis using g(2) depth_of_level [OF ids k] by auto
  qed
  then show ?thesis using ok i old unfolding tree_ok_def by fastforce
qed

lemma remove_leaf_keeps_tree:
  assumes ok: "tree_ok rows" and leaf: "\<forall>r \<in> set rows. snd r \<noteq> Some i"
  shows "tree_ok (filter (\<lambda>r. fst r \<noteq> i) rows)"
proof -
  have "at_level rows j k \<Longrightarrow> j \<noteq> i \<longrightarrow> at_level (filter (\<lambda>r. fst r \<noteq> i) rows) j k" for j k
  proof (induction rule: at_level.induct)
    case (root j)
    then show ?case by (auto intro: at_level.root)
  next
    case (child j p k)
    then have "p \<noteq> i" using leaf by force
    then show ?case using child by (auto intro: at_level.child)
  qed
  then show ?thesis using ok unfolding tree_ok_def by (fastforce simp: distinct_map_filter)
qed


section \<open>Requests in any order\<close>

text \<open>
  The chart's tables and every request that writes them. The id in a path is a decimal number
  as the admin client sends it; members come and go through their own collection.
\<close>

record org_state =
  os_positions :: "org_position list"
  os_members :: "board_member list"
  os_nextId :: nat

datatype org_op =
    OrgCreate time position_dto
  | OrgUpdate nat position_dto
  | OrgRemove nat
  | OrgPublish nat "bool option"
  | OrgReorder "(string \<times> int) list"
  | OrgMembers "board_member list"

definition position_db :: "org_state \<Rightarrow> org_position crud_db" where
  "position_db s = \<lparr>cd_rows = os_positions s, cd_redirects = [], cd_assets = []\<rparr>"

fun org_step :: "sql_compare \<Rightarrow> org_op \<Rightarrow> org_state \<Rightarrow> org_state" where
  "org_step c (OrgCreate now d) s =
     s\<lparr>os_positions := fst (snd (create_position c now (show_nat (os_nextId s)) d (os_positions s))),
       os_nextId := Suc (os_nextId s)\<rparr>"
| "org_step c (OrgUpdate n d) s = s\<lparr>os_positions := fst (snd (update_position c (show_nat n) d (os_positions s)))\<rparr>"
| "org_step c (OrgRemove n) s =
     s\<lparr>os_positions := fst (snd (remove_position c (show_nat n) (os_members s) (os_positions s)))\<rparr>"
| "org_step c (OrgPublish n b) s =
     s\<lparr>os_positions := cd_rows (fst (snd (crud_publish (org_position_options c (\<lambda>_. False)) (sc_id c) (show_nat n) b
         (position_db s))))\<rparr>"
| "org_step c (OrgReorder items) s =
     s\<lparr>os_positions := cd_rows (fst (snd (crud_reorder (org_position_options c (\<lambda>_. False)) (sc_id c) items
         (position_db s))))\<rparr>"
| "org_step c (OrgMembers ms) s = s\<lparr>os_members := ms\<rparr>"

definition tree_rows :: "org_position list \<Rightarrow> tree_row list" where
  "tree_rows ps = map (\<lambda>p. (op_id p, op_parentId p)) ps"

definition ids_numeric :: "sql_compare \<Rightarrow> bool" where
  "ids_numeric c \<longleftrightarrow> (\<forall>m n. sc_id c (show_nat m) (show_nat n) \<longleftrightarrow> m = n)"

definition org_ok :: "org_state \<Rightarrow> bool" where
  "org_ok s \<longleftrightarrow> tree_ok (tree_rows (os_positions s)) \<and> (\<forall>p \<in> set (os_positions s). \<exists>m < os_nextId s. op_id p = show_nat m)"

lemma tree_rows_ids [simp]: "map fst (tree_rows ps) = map op_id ps"
  by (simp add: tree_rows_def)

lemma fst_tree_rows [simp]: "fst ` set (tree_rows ps) = op_id ` set ps"
  by (force simp: tree_rows_def)

lemma set_lock_tree [simp]: "set (lock_tree ps) = set (tree_rows ps)"
  by (simp add: lock_tree_def tree_rows_def)

lemma distinct_lock_tree [simp]: "distinct (map fst (lock_tree ps)) \<longleftrightarrow> distinct (map op_id ps)"
  by (simp add: lock_tree_def comp_def distinct_map)

lemma tree_ok_lock: "tree_ok (lock_tree ps) \<longleftrightarrow> tree_ok (tree_rows ps)"
  using tree_ok_perm [of "lock_tree ps" "tree_rows ps"] tree_ok_perm [of "tree_rows ps" "lock_tree ps"]
  by (auto simp: tree_ok_def [of "lock_tree ps"] tree_ok_def [of "tree_rows ps"])

lemma find_position:
  assumes "ids_numeric c" "\<forall>p \<in> set ps. \<exists>m < k. op_id p = show_nat m"
    and "List.find (\<lambda>p. sc_id c (op_id p) (show_nat n)) ps = Some p"
  shows "p \<in> set ps" "op_id p = show_nat n"
  using assms by (auto simp: find_Some_iff ids_numeric_def dest!: nth_mem)

lemma same_tree: "tree_rows (update_rows P f ps) = tree_rows ps"
  if "\<And>p. P p \<Longrightarrow> op_id (f p) = op_id p \<and> op_parentId (f p) = op_parentId p"
  using that by (auto simp: tree_rows_def update_rows_def)


lemma create_keeps:
  assumes ok: "org_ok s"
  shows "org_ok (org_step c (OrgCreate now d) s)"
proof (cases "check_parent (lock_tree (os_positions s)) None (set_field (od_parentId d) None)")
  case (Some e)
  then show ?thesis using ok by (auto simp: create_position_def assert_parent_def Let_def org_ok_def less_Suc_eq)
next
  case None
  let ?new = "(show_nat (os_nextId s), set_field (od_parentId d) None)"
  have fresh: "show_nat (os_nextId s) \<notin> fst ` set (tree_rows (os_positions s))"
    using ok by (auto simp: org_ok_def)
  have "check_parent (lock_tree (os_positions s)) None (set_field (od_parentId d) None) = None" by (rule None)
  then have "tree_ok (lock_tree (os_positions s) @ [?new])"
    using ok fresh append_keeps_tree [of "lock_tree (os_positions s)"] by (simp add: org_ok_def tree_ok_lock)
  then have "tree_ok (tree_rows (os_positions s) @ [?new])"
    using ok fresh by (intro tree_ok_perm [of "tree_rows (os_positions s) @ [?new]" "lock_tree (os_positions s) @ [?new]"])
      (auto simp: org_ok_def tree_ok_def)
  then show ?thesis
    using ok None
    by (auto simp: create_position_def assert_parent_def Let_def org_ok_def tree_rows_def assign_position_def
        blank_position_def less_Suc_eq)
qed

lemma update_position_saved:
  assumes found: "List.find (\<lambda>p. sc_id c (op_id p) i) ps = Some before"
    and guard: "(case od_parentId d of None \<Rightarrow> False | Some parent \<Rightarrow> parent \<noteq> op_parentId before)
      \<Longrightarrow> check_parent (lock_tree ps) (Some i) (op_parentId (assign_position d before)) = None"
  shows "\<exists>saved. op_id saved = op_id before \<and> op_parentId saved = op_parentId (assign_position d before)
    \<and> fst (snd (update_position c i d ps)) = update_rows (\<lambda>p. op_id p = op_id before) (\<lambda>_. saved) ps"
proof -
  define moving where "moving = (case od_parentId d of None \<Rightarrow> False | Some parent \<Rightarrow> parent \<noteq> op_parentId before)"
  let ?current = "assign_position d before"
  let ?saved = "if moving \<and> od_sortOrder d = None then ?current\<lparr>op_sortOrder := next_sort_order c ps (op_parentId ?current)\<rparr>
    else ?current"
  have "(if moving then assert_parent (lock_tree ps) (Some i) (op_parentId ?current) else Inr ()) = Inr ()"
    using guard by (simp add: moving_def assert_parent_def)
  then have "fst (snd (update_position c i d ps)) = update_rows (\<lambda>p. op_id p = op_id before) (\<lambda>_. ?saved) ps"
    unfolding update_position_def found option.case Let_def moving_def [symmetric] by (simp only: sum.case fst_conv snd_conv)
  moreover have "op_id ?saved = op_id before" "op_parentId ?saved = op_parentId ?current"
    by (simp_all add: assign_position_def)
  ultimately show ?thesis by blast
qed

lemma update_keeps:
  assumes c: "ids_numeric c" and ok: "org_ok s"
  shows "org_ok (org_step c (OrgUpdate n d) s)"
proof (cases "List.find (\<lambda>p. sc_id c (op_id p) (show_nat n)) (os_positions s)")
  case None
  then show ?thesis using ok by (simp add: update_position_def)
next
  case (Some before)
  have before: "before \<in> set (os_positions s)" "op_id before = show_nat n"
    using find_position [OF c _ Some] ok by (auto simp: org_ok_def)
  let ?q = "op_parentId (assign_position d before)"
  let ?moving = "case od_parentId d of None \<Rightarrow> False | Some parent \<Rightarrow> parent \<noteq> op_parentId before"
  show ?thesis
  proof (cases "?moving \<and> check_parent (lock_tree (os_positions s)) (Some (show_nat n)) ?q \<noteq> None")
    case True
    then show ?thesis using ok Some by (auto simp: update_position_def assert_parent_def Let_def)
  next
    case False
    have ids: "distinct (map op_id (os_positions s))" using ok by (simp add: org_ok_def tree_ok_def)
    have row: "(show_nat n, op_parentId before) \<in> set (tree_rows (os_positions s))"
      using before by (force simp: tree_rows_def)
    obtain saved where saved: "op_id saved = op_id before" "op_parentId saved = ?q"
      "os_positions (org_step c (OrgUpdate n d) s)
        = update_rows (\<lambda>p. op_id p = op_id before) (\<lambda>_. saved) (os_positions s)"
      using update_position_saved [OF Some, of d] False by auto
    have rows: "tree_rows (os_positions (org_step c (OrgUpdate n d) s)) = set_parent (show_nat n) ?q (tree_rows (os_positions s))"
      using saved before by (simp add: tree_rows_def update_rows_def set_parent_def)
    have "tree_ok (set_parent (show_nat n) ?q (tree_rows (os_positions s)))"
    proof (cases ?moving)
      case True
      then have "tree_ok (set_parent (show_nat n) ?q (lock_tree (os_positions s)))"
        using False ok row by (intro move_keeps_tree) (use before in \<open>auto simp: org_ok_def tree_ok_lock intro: rev_image_eqI\<close>)
      then show ?thesis
        by (rule tree_ok_perm [rotated 2]) (simp_all add: ids, simp add: set_parent_def)
    next
      case False
      then have "?q = op_parentId before" by (auto simp: assign_position_def set_field_def split: option.splits)
      then show ?thesis using set_parent_same [of "tree_rows (os_positions s)"] row ids ok by (simp add: org_ok_def)
    qed
    then show ?thesis
      using rows ok saved before by (auto simp: org_ok_def update_rows_def)
  qed
qed

lemma remove_keeps:
  assumes c: "ids_numeric c" and ok: "org_ok s"
  shows "org_ok (org_step c (OrgRemove n) s)"
proof (cases "List.find (\<lambda>p. sc_id c (op_id p) (show_nat n)) (os_positions s)")
  case None
  then show ?thesis using ok by (simp add: remove_position_def)
next
  case (Some p)
  have p: "p \<in> set (os_positions s)" "op_id p = show_nat n"
    using find_position [OF c _ Some] ok by (auto simp: org_ok_def)
  show ?thesis
  proof (cases "position_usages c (show_nat n) (os_positions s) (os_members s) = []")
    case False
    then show ?thesis using ok Some by (simp add: remove_position_def Let_def)
  next
    case True
    have eq: "sc_id c (show_nat n) (show_nat n)" using c by (simp add: ids_numeric_def)
    have leaf: "\<forall>r \<in> set (tree_rows (os_positions s)). snd r \<noteq> Some (show_nat n)"
      using True eq by (auto simp: position_usages_def tree_rows_def filter_empty_conv eq_opt_def)
    have "tree_rows (delete_rows (\<lambda>q. op_id q = op_id p) (os_positions s))
        = filter (\<lambda>r. fst r \<noteq> show_nat n) (tree_rows (os_positions s))"
      using p by (simp add: tree_rows_def delete_rows_def filter_map comp_def)
    then have "tree_ok (tree_rows (delete_rows (\<lambda>q. op_id q = op_id p) (os_positions s)))"
      using remove_leaf_keeps_tree [OF _ leaf] ok by (simp add: org_ok_def)
    then show ?thesis
      using ok Some True by (auto simp: remove_position_def Let_def org_ok_def delete_rows_def)
  qed
qed

lemma publish_keeps:
  assumes ok: "org_ok s"
  shows "org_ok (org_step c (OrgPublish n b) s)"
proof (cases "List.find (\<lambda>p. sc_id c (op_id p) (show_nat n)) (os_positions s)")
  case None
  then show ?thesis
    using ok by (simp add: crud_publish_def find_or_not_found_def org_position_options_def position_db_def fail_def)
next
  case (Some p)
  then have p: "p \<in> set (os_positions s)" by (auto dest: find_SomeD)
  have ids: "distinct (map op_id (os_positions s))" using ok by (simp add: org_ok_def tree_ok_def)
  define b' where "b' = (case b of None \<Rightarrow> True | Some b \<Rightarrow> b)"
  have b': "os_positions (org_step c (OrgPublish n b) s)
      = update_rows (\<lambda>q. op_id q = op_id p) (\<lambda>_. p\<lparr>op_isPublished := b'\<rparr>) (os_positions s)"
    using Some p by (cases b') (auto simp: crud_publish_def find_or_not_found_def org_position_options_def position_db_def
        Let_def run_rules_def run_on_publish_def save_row_def b'_def [symmetric])
  moreover have "q = p" if "q \<in> set (os_positions s)" "op_id q = op_id p" for q
    using distinct_key_eq [OF ids that(1) p that(2)] .
  ultimately have "map op_id (os_positions (org_step c (OrgPublish n b) s)) = map op_id (os_positions s)"
      "tree_rows (os_positions (org_step c (OrgPublish n b) s)) = tree_rows (os_positions s)"
    by (auto simp: update_rows_def tree_rows_def)
  then show ?thesis using ok p b' by (auto simp: org_ok_def update_rows_def)
qed

lemma reorder_rows:
  "tree_rows (fold (\<lambda>(i, n). update_rows (\<lambda>r. e (op_id r) i) (\<lambda>r. r\<lparr>op_sortOrder := n\<rparr>)) items ps) = tree_rows ps"
proof (induction items arbitrary: ps)
  case Nil
  then show ?case by simp
next
  case (Cons x items)
  then show ?case by (cases x) (simp add: same_tree)
qed

lemma reorder_keeps:
  assumes ok: "org_ok s"
  shows "org_ok (org_step c (OrgReorder items) s)"
proof -
  let ?ps = "os_positions (org_step c (OrgReorder items) s)"
  have rows: "tree_rows ?ps = tree_rows (os_positions s)"
    using reorder_rows by (simp add: crud_reorder_def Let_def org_position_options_def position_db_def)
  then have "op_id ` set ?ps = op_id ` set (os_positions s)" by (metis fst_tree_rows)
  moreover have "os_nextId (org_step c (OrgReorder items) s) = os_nextId s" by simp
  ultimately show ?thesis using ok rows unfolding org_ok_def by (metis (no_types, lifting) image_iff)
qed

interpretation org: kept_invariant "org_step c" "\<lambda>s. ids_numeric c \<and> org_ok s" for c
proof unfold_locales
  fix s op
  assume "ids_numeric c \<and> org_ok s"
  then have c: "ids_numeric c" and s: "org_ok s" by simp_all
  have "org_ok (org_step c op s)"
  proof (cases op)
    case (OrgMembers ms)
    then show ?thesis using s by (simp add: org_ok_def)
  qed (simp_all only: create_keeps [OF s] update_keeps [OF c s] remove_keeps [OF c s] publish_keeps [OF s] reorder_keeps [OF s])
  then show "ids_numeric c \<and> org_ok (org_step c op s)" using c by simp
qed


section \<open>What the chart shows\<close>

fun node_ids :: "org_node \<Rightarrow> string list" where
  "node_ids (OrgNode i na ne t hs cs) = i # concat (map node_ids cs)"

definition chart_ids :: "org_node list \<Rightarrow> string list" where
  "chart_ids ns = concat (map node_ids ns)"

lemma build_level_ids:
  assumes "\<And>q. parent = Some q \<Longrightarrow> q \<in> op_id ` set ps"
  shows "set (chart_ids (build_level l ps ms parent))
    = {i. \<exists>m < l. \<exists>j. (j, parent) \<in> set (tree_rows ps) \<and> below (tree_rows ps) j m i}"
  using assms
proof (induction l arbitrary: parent)
  case 0
  then show ?case by (simp add: chart_ids_def)
next
  case (Suc l)
  have kids: "set (listed_children ps parent) = {p \<in> set ps. op_parentId p = parent}"
    using Suc.prems by (auto simp: listed_children_def split: option.splits)
  have rows: "(j, q) \<in> set (tree_rows ps) \<longleftrightarrow> (\<exists>p \<in> set ps. op_id p = j \<and> op_parentId p = q)" for j q
    by (auto simp: tree_rows_def)
  have sub: "set (chart_ids (build_level l ps ms (Some (op_id p))))
      = {i. \<exists>m < l. \<exists>j. (j, Some (op_id p)) \<in> set (tree_rows ps) \<and> below (tree_rows ps) j m i}"
    if "p \<in> set ps" for p
    using that by (intro Suc.IH) auto
  have split: "(\<exists>m < Suc l. below (tree_rows ps) j m i)
      \<longleftrightarrow> i = j \<or> (\<exists>m < l. \<exists>k. (k, Some j) \<in> set (tree_rows ps) \<and> below (tree_rows ps) k m i)" for j i
    using below_first [of "tree_rows ps" j] below_down [of "tree_rows ps" _ _ i j] below.here
    by (metis Suc_less_eq less_Suc_eq_0_disj)
  have "set (chart_ids (build_level (Suc l) ps ms parent))
      = (\<Union>p \<in> set (listed_children ps parent). insert (op_id p) (set (chart_ids (build_level l ps ms (Some (op_id p))))))"
    by (simp add: chart_ids_def)
  also have "\<dots> = {i. \<exists>p \<in> set ps. op_parentId p = parent \<and> (\<exists>m < Suc l. below (tree_rows ps) (op_id p) m i)}"
    unfolding kids using sub split by auto
  also have "\<dots> = {i. \<exists>m < Suc l. \<exists>j. (j, parent) \<in> set (tree_rows ps) \<and> below (tree_rows ps) j m i}"
    unfolding rows by blast
  finally show ?case .
qed

lemma level_below_root: "at_level rows i k \<longleftrightarrow> (\<exists>m j. k = Suc m \<and> (j, None) \<in> set rows \<and> below rows j m i)"
proof
  show "at_level rows i k \<Longrightarrow> \<exists>m j. k = Suc m \<and> (j, None) \<in> set rows \<and> below rows j m i"
  proof (induction rule: at_level.induct)
    case (root i)
    then show ?case using below.here by blast
  next
    case (child i p k)
    then show ?case using below.under by blast
  qed
next
  assume "\<exists>m j. k = Suc m \<and> (j, None) \<in> set rows \<and> below rows j m i"
  then obtain m j where "k = Suc m" "(j, None) \<in> set rows" "below rows j m i" by blast
  then show "at_level rows i k" using below_level [of rows j m i "Suc 0"] at_level.root by fastforce
qed

text \<open>A position counts as shown when it and every position above it are published.\<close>

inductive shown :: "org_position list \<Rightarrow> string \<Rightarrow> bool" for ps where
  top: "p \<in> set ps \<Longrightarrow> op_isPublished p \<Longrightarrow> op_parentId p = None \<Longrightarrow> shown ps (op_id p)"
| under: "p \<in> set ps \<Longrightarrow> op_isPublished p \<Longrightarrow> op_parentId p = Some q \<Longrightarrow> shown ps q \<Longrightarrow> shown ps (op_id p)"

lemma shown_level: "shown ps i \<longleftrightarrow> (\<exists>k. at_level (tree_rows (filter op_isPublished ps)) i k)"
proof
  show "shown ps i \<Longrightarrow> \<exists>k. at_level (tree_rows (filter op_isPublished ps)) i k"
  proof (induction rule: shown.induct)
    case (top p)
    then have "(op_id p, None) \<in> set (tree_rows (filter op_isPublished ps))" by (force simp: tree_rows_def)
    then show ?case using at_level.root by blast
  next
    case (under p q)
    then have "(op_id p, Some q) \<in> set (tree_rows (filter op_isPublished ps))" by (force simp: tree_rows_def)
    then show ?case using under.IH at_level.child by blast
  qed
next
  have "at_level (tree_rows (filter op_isPublished ps)) i k \<Longrightarrow> shown ps i" for k
  proof (induction rule: at_level.induct)
    case (root i)
    then show ?case using shown.top by (force simp: tree_rows_def)
  next
    case (child i p k)
    then obtain x where "x \<in> set ps" "op_isPublished x" "op_id x = i" "op_parentId x = Some p"
      by (auto simp: tree_rows_def)
    then show ?case using shown.under child.IH by blast
  qed
  then show "\<exists>k. at_level (tree_rows (filter op_isPublished ps)) i k \<Longrightarrow> shown ps i" by blast
qed

lemma level_sorted: "at_level (tree_rows (sort_key f ps)) i k \<longleftrightarrow> at_level (tree_rows ps) i k"
  using at_level_set [of "tree_rows (sort_key f ps)" i k "tree_rows ps"]
    at_level_set [of "tree_rows ps" i k "tree_rows (sort_key f ps)"]
  by (auto simp: tree_rows_def)

lemma org_chart_ids:
  assumes "tree_ok (tree_rows ps)"
  shows "set (chart_ids (org_chart ps ms)) = {i. shown ps i}"
proof -
  let ?pub = "filter op_isPublished ps"
  let ?qs = "sort_key op_sortOrder (sort_key (\<lambda>p. read_nat (op_id p)) ?pub)"
  have "i \<in> set (chart_ids (build_org_forest ?qs ms')) \<longleftrightarrow> (\<exists>k \<le> ORG_MAX_DEPTH. at_level (tree_rows ?qs) i k)" for i ms'
  proof -
    define rows where "rows = tree_rows ?qs"
    have "i \<in> set (chart_ids (build_org_forest ?qs ms'))
        \<longleftrightarrow> (\<exists>m < ORG_MAX_DEPTH. \<exists>j. (j, None) \<in> set rows \<and> below rows j m i)"
      unfolding build_org_forest_def rows_def by (subst build_level_ids) auto
    also have "\<dots> \<longleftrightarrow> (\<exists>k \<le> ORG_MAX_DEPTH. at_level rows i k)"
      unfolding level_below_root by (metis Suc_le_eq)
    finally show ?thesis by (simp add: rows_def)
  qed
  moreover have "k \<le> ORG_MAX_DEPTH" if "at_level (tree_rows ?pub) i k" for i k
  proof -
    have all: "at_level (tree_rows ps) i k" by (rule at_level_set [OF that]) (auto simp: tree_rows_def)
    then obtain k' where "k' \<le> ORG_MAX_DEPTH" "at_level (tree_rows ps) i k'"
      using assms at_level_in [OF all] by (auto simp: tree_ok_def)
    then show ?thesis using at_level_unique [OF _ all] assms by (auto simp: tree_ok_def)
  qed
  ultimately show ?thesis
    unfolding org_chart_def set_eq_iff mem_Collect_eq shown_level level_sorted by meson
qed


section \<open>The chart over any history\<close>


definition plain_position :: position_dto where
  "plain_position = \<lparr>od_nameAr = Some ''a'', od_nameEn = None, od_parentId = None, od_tone = None,
     od_showHolders = None, od_isPublished = None, od_sortOrder = None\<rparr>"

definition under_position :: "string \<Rightarrow> position_dto" where
  "under_position q = plain_position\<lparr>od_parentId := Some (Some q)\<rparr>"

definition no_chart :: org_state where
  "no_chart = \<lparr>os_positions = [], os_members = [], os_nextId = 1\<rparr>"

definition exact_ids :: sql_compare where
  "exact_ids = \<lparr>sc_id = (=), sc_text = (=), sc_int = (\<lambda>_ _. False), sc_time = (\<lambda>_ _. False)\<rparr>"

lemma exact_ids_numeric: "ids_numeric exact_ids"
  by (simp add: ids_numeric_def exact_ids_def)

definition sample_moves :: "org_op list" where
  "sample_moves = [OrgCreate 0 plain_position, OrgCreate 0 (under_position ''1''),
     OrgUpdate 1 (under_position ''2''), OrgCreate 0 (under_position ''2'')]"




definition numeric_ids :: sql_compare where
  "numeric_ids = exact_ids\<lparr>sc_id := (\<lambda>x y. list_all is_digit x \<and> list_all is_digit y \<and> read_nat x = read_nat y)\<rparr>"

definition chart_of_two :: "org_position list" where
  "chart_of_two = os_positions (fold (org_step numeric_ids) [OrgCreate 0 plain_position, OrgCreate 0 (under_position ''1'')] no_chart)"

text \<open>
  The guard compares ids as text, while the row is found by the
  database. A \<open>PATCH admin/org-positions/01\<close> that makes position 1 its own parent passes the
  guard, and the position and everything below it vanish from the public chart.
\<close>

theorem padded_id_escapes_guard:
  "chart_ids (org_chart chart_of_two []) = [''1'', ''2'']
    \<and> failed_with (fst (update_position numeric_ids ''1'' (under_position ''1'') chart_of_two)) 400 VALIDATION_FAILED
    \<and> ok (fst (update_position numeric_ids ''01'' (under_position ''1'') chart_of_two))
    \<and> chart_ids (org_chart (fst (snd (update_position numeric_ids ''01'' (under_position ''1'') chart_of_two))) []) = []"
  by code_simp

end
