(* ===== verification/FileNames.thy ===== *)
theory FileNames
  imports TextRules
begin

text \<open>
  File names on their way in and out: \<open>common/http/filenames.ts\<close>. A JavaScript string is the
  list of its UTF-16 units. The platform's UTF-8 decoder and \<open>encodeURIComponent\<close> are modelled as
  their standards define them, on scalar values; a lone surrogate makes the latter throw.
\<close>

section \<open>UTF-8 and UTF-16\<close>

definition scalar :: "nat \<Rightarrow> bool" where
  "scalar n \<longleftrightarrow> n < 0xD800 \<or> (0xE000 \<le> n \<and> n \<le> 0x10FFFF)"

definition to_units :: "nat \<Rightarrow> codes" where
  "to_units n = (if n < 0x10000 then [n] else [0xD800 + (n - 0x10000) div 0x400, 0xDC00 + (n - 0x10000) mod 0x400])"

definition utf16 :: "nat list \<Rightarrow> codes" where
  "utf16 ps = concat (map to_units ps)"

fun points_of :: "codes \<Rightarrow> nat list option" where
  "points_of [] = Some []"
| "points_of (u # us) =
     (if u < 0xD800 \<or> 0xDFFF < u then map_option (Cons u) (points_of us)
      else case us of
             v # vs \<Rightarrow>
               if u \<le> 0xDBFF \<and> 0xDC00 \<le> v \<and> v \<le> 0xDFFF
               then map_option (Cons (0x10000 + (u - 0xD800) * 0x400 + (v - 0xDC00))) (points_of vs)
               else None
           | [] \<Rightarrow> None)"

definition utf8_point :: "nat \<Rightarrow> nat list" where
  "utf8_point n =
     (if n < 0x80 then [n]
      else if n < 0x800 then [0xC0 + n div 0x40, 0x80 + n mod 0x40]
      else if n < 0x10000 then [0xE0 + n div 0x1000, 0x80 + n div 0x40 mod 0x40, 0x80 + n mod 0x40]
      else [0xF0 + n div 0x40000, 0x80 + n div 0x1000 mod 0x40, 0x80 + n div 0x40 mod 0x40, 0x80 + n mod 0x40])"

definition utf8 :: "nat list \<Rightarrow> nat list" where
  "utf8 ps = concat (map utf8_point ps)"

definition continuation :: "nat \<Rightarrow> bool" where
  "continuation b \<longleftrightarrow> 0x80 \<le> b \<and> b \<le> 0xBF"

text \<open>The next character of a byte sequence; overlong forms, surrogates and large values are refused.\<close>

fun read_utf8 :: "nat list \<Rightarrow> (nat \<times> nat list) option" where
  "read_utf8 [] = None"
| "read_utf8 (a # r) =
     (if a < 0x80 then Some (a, r)
      else if a < 0xC2 then None
      else if a < 0xE0 then
        (case r of
           b # r' \<Rightarrow> if continuation b then Some ((a - 0xC0) * 0x40 + (b - 0x80), r') else None
         | _ \<Rightarrow> None)
      else if a < 0xF0 then
        (case r of
           b # c # r' \<Rightarrow>
             (let n = (a - 0xE0) * 0x1000 + (b - 0x80) * 0x40 + (c - 0x80)
              in if continuation b \<and> continuation c \<and> 0x800 \<le> n \<and> scalar n then Some (n, r') else None)
         | _ \<Rightarrow> None)
      else if a < 0xF5 then
        (case r of
           b # c # d # r' \<Rightarrow>
             (let n = (a - 0xF0) * 0x40000 + (b - 0x80) * 0x1000 + (c - 0x80) * 0x40 + (d - 0x80)
              in if continuation b \<and> continuation c \<and> continuation d \<and> 0x10000 \<le> n \<and> scalar n
                 then Some (n, r') else None)
         | _ \<Rightarrow> None)
      else None)"

lemma read_utf8_shorter: "read_utf8 bs = Some (n, r) \<Longrightarrow> length r < length bs"
  by (cases bs) (auto simp: Let_def split: if_splits list.splits)

function read_all_utf8 :: "nat list \<Rightarrow> nat list option" where
  "read_all_utf8 bs =
     (if bs = [] then Some []
      else case read_utf8 bs of None \<Rightarrow> None | Some (n, r) \<Rightarrow> map_option (Cons n) (read_all_utf8 r))"
  by pat_completeness auto
termination
  by (relation "measure length") (auto dest: read_utf8_shorter)

declare read_all_utf8.simps [simp del]

section \<open>The two helpers\<close>

definition codes_of :: "string \<Rightarrow> codes" where
  "codes_of s = map of_char s"

text \<open>
  \<open>decodeUploadName\<close>. Decoding with replacement characters is kept only when it needed none, so
  a malformed sequence and a decoded U+FFFD both leave the name as it came.
\<close>

definition decode_upload_name :: "codes option \<Rightarrow> codes" where
  "decode_upload_name name =
     (let raw = (case name of None \<Rightarrow> [] | Some s \<Rightarrow> s);
          decoded = (if (\<exists>c \<in> set raw. 0x80 \<le> c \<and> c \<le> 0xFF) \<and> (\<forall>c \<in> set raw. c \<le> 0xFF)
                     then (case read_all_utf8 raw of
                             Some ps \<Rightarrow> if 0xFFFD \<in> set (utf16 ps) then raw else utf16 ps
                           | None \<Rightarrow> raw)
                     else raw);
          kept = take 255 (trim_codes (filter (\<lambda>c. \<not> (c \<le> 0x1F \<or> c = 0x7F)) decoded))
      in if kept = [] then codes_of ''file'' else kept)"

definition uri_unreserved :: "nat \<Rightarrow> bool" where
  "uri_unreserved c \<longleftrightarrow> (48 \<le> c \<and> c \<le> 57) \<or> (65 \<le> c \<and> c \<le> 90) \<or> (97 \<le> c \<and> c \<le> 122)
     \<or> c \<in> set (codes_of ''-_.!~*'') \<union> {39, 40, 41}"

definition hex_digit :: "nat \<Rightarrow> nat" where
  "hex_digit n = (if n < 10 then 48 + n else 55 + n)"

definition percent :: "nat \<Rightarrow> codes" where
  "percent b = [37, hex_digit (b div 16), hex_digit (b mod 16)]"

definition encode_uri_component :: "codes \<Rightarrow> codes option" where
  "encode_uri_component s =
     map_option (\<lambda>ps. concat (map (\<lambda>p. if uri_unreserved p then [p] else concat (map percent (utf8_point p))) ps))
       (points_of s)"

text \<open>The second replacement: quote, parentheses and asterisk, which RFC 5987 does not allow.\<close>

definition escape_attr :: "codes \<Rightarrow> codes" where
  "escape_attr s = concat (map (\<lambda>c. if c \<in> {39, 40, 41, 42} then percent c else [c]) s)"

datatype disposition = Inline | Attachment

definition disposition_name :: "disposition \<Rightarrow> codes" where
  "disposition_name t = codes_of (case t of Inline \<Rightarrow> ''inline'' | Attachment \<Rightarrow> ''attachment'')"

definition clean_name :: "codes \<Rightarrow> codes" where
  "clean_name filename =
     (let s = trim_codes (filter (\<lambda>c. c \<notin> {13, 10, 34, 92}) filename) in if s = [] then codes_of ''file'' else s)"

definition ascii_name :: "codes \<Rightarrow> codes" where
  "ascii_name s = map (\<lambda>c. if 0x20 \<le> c \<and> c \<le> 0x7E then c else 95) s"

definition content_disposition :: "disposition \<Rightarrow> codes \<Rightarrow> codes option" where
  "content_disposition t filename =
     (let clean = clean_name filename
      in map_option (\<lambda>e. disposition_name t @ codes_of ''; filename=\"'' @ ascii_name clean
            @ codes_of ''\"; filename*=UTF-8'' @ [39, 39] @ escape_attr e)
          (encode_uri_component clean))"

section \<open>The encodings read back\<close>

lemma utf16_simps [simp]: "utf16 [] = []" "utf16 (p # ps) = to_units p @ utf16 ps" "utf16 (ps @ qs) = utf16 ps @ utf16 qs"
  by (simp_all add: utf16_def)

lemma utf8_simps [simp]: "utf8 [] = []" "utf8 (p # ps) = utf8_point p @ utf8 ps"
  by (simp_all add: utf8_def)

lemma points_of_units: "scalar p \<Longrightarrow> points_of (to_units p @ us) = map_option (Cons p) (points_of us)"
proof (cases "p < 0x10000")
  case False
  assume "scalar p"
  define a b where "a = (p - 0x10000) div 0x400" and "b = (p - 0x10000) mod 0x400"
  have "p - 0x10000 < 0x400 * 0x400" using False \<open>scalar p\<close> by (auto simp: scalar_def)
  then have "a < 0x400" "b < 0x400" unfolding a_def b_def by (simp_all add: less_mult_imp_div_less)
  moreover have "0x10000 + a * 0x400 + b = p" using False by (simp add: a_def b_def)
  ultimately show ?thesis using False by (simp add: to_units_def a_def [symmetric] b_def [symmetric])
qed (auto simp: to_units_def scalar_def)

lemma points_of_utf16 [simp]: "\<forall>p \<in> set ps. scalar p \<Longrightarrow> points_of (utf16 ps) = Some ps"
  by (induction ps) (simp_all add: points_of_units)

lemma mod_64 [simp]: "(m :: nat) mod 0x40 \<le> 63"
  using mod_less_divisor [of 64 m] by linarith

lemma base_64:
  fixes a b c x y z n :: nat
  assumes "a * 0x40 + x = b" "b * 0x40 + y = c" "c * 0x40 + z = n"
  shows "a * 0x40000 + x * 0x1000 + y * 0x40 + z = n" "b * 0x1000 + y * 0x40 + z = n"
  using assms by linarith+

lemma scalar_bytes:
  assumes "scalar n"
  shows "read_utf8 (utf8_point n @ r) = Some (n, r)"
proof -
  consider "n < 0x80" | "0x80 \<le> n" "n < 0x800" | "0x800 \<le> n" "n < 0x10000" | "0x10000 \<le> n" "n \<le> 0x10FFFF"
    using assms by (fastforce simp: scalar_def)
  then show ?thesis
  proof cases
    case 2
    have "2 \<le> n div 0x40" "n div 0x40 < 0x20" using 2 by (simp_all add: less_eq_div_iff_mult_less_eq less_mult_imp_div_less)
    then show ?thesis using 2 by (simp add: utf8_point_def continuation_def)
  next
    case 3
    have "n div 0x1000 < 0x10" "n div 0x40 < 0x400" using 3 by (simp_all add: less_mult_imp_div_less)
    moreover have "n div 0x1000 = n div 0x40 div 0x40" by (simp add: div_mult2_eq [symmetric])
    then have "n div 0x1000 * 0x1000 + n div 0x40 mod 0x40 * 0x40 + n mod 0x40 = n"
      using base_64(2) [OF div_mult_mod_eq div_mult_mod_eq div_mult_mod_eq] by metis
    ultimately show ?thesis using 3 assms by (simp add: utf8_point_def continuation_def Let_def)
  next
    case 4
    have "n div 0x40000 < 5" using 4 by (simp add: less_mult_imp_div_less)
    moreover have "n div 0x1000 = n div 0x40 div 0x40" "n div 0x40000 = n div 0x40 div 0x40 div 0x40"
      by (simp_all add: div_mult2_eq [symmetric])
    then have "n div 0x40000 * 0x40000 + n div 0x1000 mod 0x40 * 0x1000 + n div 0x40 mod 0x40 * 0x40 + n mod 0x40 = n"
      using base_64(1) [OF div_mult_mod_eq div_mult_mod_eq div_mult_mod_eq] by metis
    ultimately show ?thesis using 4 assms by (simp add: utf8_point_def continuation_def Let_def)
  qed (simp add: utf8_point_def)
qed

lemma utf8_point_not_Nil [simp]: "utf8_point n \<noteq> []"
  by (simp add: utf8_point_def)

lemma read_all_utf8_bytes [simp]: "\<forall>p \<in> set ps. scalar p \<Longrightarrow> read_all_utf8 (utf8 ps) = Some ps"
  by (induction ps) (simp_all add: read_all_utf8.simps [of "_ @ _"] read_all_utf8.simps [of "[]"] scalar_bytes)

lemma utf8_point_bytes: "scalar n \<Longrightarrow> b \<in> set (utf8_point n) \<Longrightarrow> b \<le> 0xFF"
proof -
  assume "scalar n" "b \<in> set (utf8_point n)"
  moreover have "n \<le> 0x10FFFF \<Longrightarrow> n div 0x40000 < 5" by (simp add: less_mult_imp_div_less)
  moreover have "n < 0x10000 \<Longrightarrow> n div 0x1000 < 0x10" by (simp add: less_mult_imp_div_less)
  moreover have "n < 0x800 \<Longrightarrow> n div 0x40 < 0x20" by (simp add: less_mult_imp_div_less)
  moreover have "128 + m mod 0x40 \<le> 0xFF" for m :: nat using mod_64 [of m] by linarith
  ultimately show ?thesis
    unfolding scalar_def utf8_point_def by (auto split: if_splits)
qed

section \<open>What a browser reads in the header\<close>

definition hex_value :: "nat \<Rightarrow> nat" where
  "hex_value d = (if d < 58 then d - 48 else d - 55)"

fun percent_decode :: "codes \<Rightarrow> nat list" where
  "percent_decode [] = []"
| "percent_decode (c # r) =
     (if c = 37 then (case r of a # b # r' \<Rightarrow> (hex_value a * 16 + hex_value b) # percent_decode r' | _ \<Rightarrow> [])
      else c # percent_decode r)"

definition coded_point :: "nat \<Rightarrow> codes" where
  "coded_point p =
     (if uri_unreserved p \<and> p \<notin> {39, 40, 41, 42} then [p] else concat (map percent (utf8_point p)))"

lemma hex_value_digit [simp]: "n < 16 \<Longrightarrow> hex_value (hex_digit n) = n"
  by (simp add: hex_value_def hex_digit_def)

lemma hex_digit_range: "n < 16 \<Longrightarrow> 48 \<le> hex_digit n \<and> hex_digit n \<le> 70"
  by (simp add: hex_digit_def)

lemma percent_decode_bytes:
  "\<forall>b \<in> set bs. b \<le> 0xFF \<Longrightarrow> percent_decode (concat (map percent bs) @ r) = bs @ percent_decode r"
  by (induction bs) (simp_all add: percent_def less_mult_imp_div_less)

lemma escape_attr_append: "escape_attr (xs @ ys) = escape_attr xs @ escape_attr ys"
  by (simp add: escape_attr_def)

lemma escape_attr_percent: "b \<le> 0xFF \<Longrightarrow> escape_attr (percent b) = percent b"
  using hex_digit_range [of "b div 16"] hex_digit_range [of "b mod 16"]
  by (auto simp: escape_attr_def percent_def less_mult_imp_div_less)

lemma escape_attr_percents:
  "\<forall>b \<in> set bs. b \<le> 0xFF \<Longrightarrow> escape_attr (concat (map percent bs)) = concat (map percent bs)"
  by (induction bs) (simp_all add: escape_attr_append escape_attr_percent, simp add: escape_attr_def)

lemma escape_encoded:
  assumes "\<forall>p \<in> set ps. scalar p"
  shows "escape_attr (concat (map (\<lambda>p. if uri_unreserved p then [p] else concat (map percent (utf8_point p))) ps))
    = concat (map coded_point ps)"
  using assms
proof (induction ps)
  case Nil
  then show ?case by (simp add: escape_attr_def)
next
  case (Cons p ps)
  have "escape_attr (if uri_unreserved p then [p] else concat (map percent (utf8_point p))) = coded_point p"
  proof (cases "uri_unreserved p")
    case True
    then have "p < 0x80" by (auto simp: uri_unreserved_def codes_of_def)
    then show ?thesis using True by (simp add: escape_attr_def coded_point_def utf8_point_def)
  next
    case False
    then show ?thesis using Cons.prems utf8_point_bytes [of p] by (simp add: coded_point_def escape_attr_percents)
  qed
  then show ?case using Cons by (simp add: escape_attr_append)
qed

lemma percent_decode_coded:
  assumes "\<forall>p \<in> set ps. scalar p"
  shows "percent_decode (concat (map coded_point ps)) = utf8 ps"
  using assms
proof (induction ps)
  case (Cons p ps)
  have "percent_decode (coded_point p @ r) = utf8_point p @ percent_decode r" for r
  proof (cases "uri_unreserved p \<and> p \<notin> {39, 40, 41, 42}")
    case True
    then have "p < 0x80" "p \<noteq> 37" by (auto simp: uri_unreserved_def codes_of_def)
    then show ?thesis using True by (simp add: coded_point_def utf8_point_def)
  next
    case False
    have "coded_point p = concat (map percent (utf8_point p))" unfolding coded_point_def using False by (rule if_not_P)
    then show ?thesis using Cons.prems utf8_point_bytes [of p] by (simp add: percent_decode_bytes)
  qed
  then show ?case using Cons by simp
qed simp

lemma coded_point_chars:
  assumes "scalar p" "c \<in> set (coded_point p)"
  shows "c = 37 \<or> (uri_unreserved c \<and> c \<notin> {39, 40, 41, 42})"
proof (cases "uri_unreserved p \<and> p \<notin> {39, 40, 41, 42}")
  case True
  then have "coded_point p = [p]" by (simp add: coded_point_def)
  then show ?thesis using assms True by simp
next
  case False
  have hex: "uri_unreserved (hex_digit n) \<and> hex_digit n \<notin> {39, 40, 41, 42}" if "n < 16" for n
    using that by (auto simp: hex_digit_def uri_unreserved_def)
  have "coded_point p = concat (map percent (utf8_point p))" unfolding coded_point_def using False by (rule if_not_P)
  then obtain b where b: "b \<in> set (utf8_point p)" "c \<in> set (percent b)" using assms by auto
  then have "b \<le> 0xFF" using utf8_point_bytes assms by blast
  then have "b div 16 < 16" "b mod 16 < 16" by (simp_all add: less_mult_imp_div_less)
  then show ?thesis using b hex by (auto simp: percent_def)
qed

lemma filter_utf16:
  assumes "\<forall>c. 0xD800 \<le> c \<longrightarrow> keep c"
  shows "filter keep (utf16 ps) = utf16 (filter keep ps)"
proof (induction ps)
  case (Cons p ps)
  have "filter keep (to_units p) = (if keep p then to_units p else [])"
    using assms by (auto simp: to_units_def)
  then show ?case using Cons by simp
qed simp

lemma space_code_units: "scalar p \<Longrightarrow> dropWhile space_code (to_units p @ us) = (if space_code p then dropWhile space_code us else to_units p @ us)"
  by (auto simp: to_units_def space_code_def scalar_def)

lemma space_code_units_rev:
  "scalar p \<Longrightarrow> dropWhile space_code (rev (to_units p) @ us) = (if space_code p then dropWhile space_code us else rev (to_units p) @ us)"
  by (auto simp: to_units_def space_code_def scalar_def)

lemma dropWhile_utf16: "\<forall>p \<in> set ps. scalar p \<Longrightarrow> dropWhile space_code (utf16 ps) = utf16 (dropWhile space_code ps)"
  by (induction ps) (simp_all add: space_code_units)

lemma dropWhile_rev_utf16: "\<forall>p \<in> set ps. scalar p \<Longrightarrow> rev (dropWhile space_code (rev (utf16 ps))) = utf16 (rev (dropWhile space_code (rev ps)))"
  by (induction ps rule: rev_induct) (simp_all add: space_code_units_rev)

lemma trim_utf16:
  assumes "\<forall>p \<in> set ps. scalar p"
  shows "trim_codes (utf16 ps) = utf16 (trim_codes ps)"
proof -
  have "\<forall>p \<in> set (dropWhile space_code ps). scalar p" using assms by (auto dest!: set_dropWhileD)
  then show ?thesis using assms by (simp add: trim_codes_def dropWhile_utf16 dropWhile_rev_utf16)
qed

lemma trim_codes_subset: "set (trim_codes s) \<subseteq> set s"
  by (auto simp: trim_codes_def dest!: set_dropWhileD)

lemma utf16_Nil_iff [simp]: "utf16 ps = [] \<longleftrightarrow> ps = []"
  by (cases ps) (simp_all add: to_units_def)

lemma utf16_ascii: "\<forall>p \<in> set ps. p < 0x10000 \<Longrightarrow> utf16 ps = ps"
  by (induction ps) (simp_all add: to_units_def)

text \<open>The cleaned name of a well-formed one, as scalar values.\<close>

definition clean_points :: "nat list \<Rightarrow> nat list" where
  "clean_points ps = (let s = trim_codes (filter (\<lambda>c. c \<notin> {13, 10, 34, 92}) ps) in if s = [] then codes_of ''file'' else s)"

lemma clean_name_utf16:
  assumes "\<forall>p \<in> set ps. scalar p"
  shows "clean_name (utf16 ps) = utf16 (clean_points ps)"
proof -
  have "utf16 (codes_of ''file'') = codes_of ''file''" by (simp add: codes_of_def to_units_def)
  then show ?thesis
    using filter_utf16 [of "\<lambda>c. c \<notin> {13, 10, 34, 92}" ps] assms
    by (simp add: clean_name_def clean_points_def trim_utf16 Let_def)
qed

lemma clean_points_scalar: "\<forall>p \<in> set ps. scalar p \<Longrightarrow> \<forall>p \<in> set (clean_points ps). scalar p"
  using trim_codes_subset [of "filter (\<lambda>c. c \<notin> {13, 10, 34, 92}) ps"]
  by (auto simp: clean_points_def Let_def codes_of_def scalar_def)

lemma clean_name_plain: "c \<in> set (clean_name s) \<Longrightarrow> c \<notin> {13, 10, 34, 92}"
  using trim_codes_subset [of "filter (\<lambda>c. c \<notin> {13, 10, 34, 92}) s"]
  by (auto simp: clean_name_def Let_def codes_of_def split: if_splits)

lemma header_of_name:
  assumes "\<forall>p \<in> set ps. scalar p"
  shows "content_disposition t (utf16 ps) = Some (disposition_name t @ codes_of ''; filename=\"'' @ ascii_name (clean_name (utf16 ps))
    @ codes_of ''\"; filename*=UTF-8'' @ [39, 39] @ concat (map coded_point (clean_points ps)))"
  using clean_points_scalar [OF assms] assms
  by (simp add: content_disposition_def Let_def clean_name_utf16 encode_uri_component_def escape_encoded)

text \<open>
  Whatever a stored file name holds, the \<open>Content-Disposition\<close> value
  built for it consists of printable ASCII characters, so setting the header does not fail and
  no line break reaches it; the plain file name is closed by the quote the code writes and by no
  character of its own; and the extended one decodes to the name without line breaks, quotes and
  backslashes.
\<close>

theorem attachment_header_safe:
  assumes "\<forall>p \<in> set ps. scalar p"
  shows "\<exists>h shown enc. content_disposition t (utf16 ps) = Some h
    \<and> h = disposition_name t @ codes_of ''; filename=\"'' @ shown @ codes_of ''\"; filename*=UTF-8'' @ [39, 39] @ enc
    \<and> (\<forall>c \<in> set h. 0x20 \<le> c \<and> c \<le> 0x7E) \<and> 34 \<notin> set shown \<and> 92 \<notin> set shown
    \<and> (\<forall>c \<in> set enc. c = 37 \<or> (uri_unreserved c \<and> c \<notin> {39, 40, 41, 42}))
    \<and> read_all_utf8 (percent_decode enc) = Some (clean_points ps)"
proof -
  note sc = clean_points_scalar [OF assms]
  have enc: "c = 37 \<or> (uri_unreserved c \<and> c \<notin> {39, 40, 41, 42})" if "c \<in> set (concat (map coded_point (clean_points ps)))" for c
    using that sc coded_point_chars by auto
  then have enc_ascii: "0x20 \<le> c \<and> c \<le> 0x7E" if "c \<in> set (concat (map coded_point (clean_points ps)))" for c
    using that by (fastforce simp: uri_unreserved_def codes_of_def)
  have shown: "34 \<notin> set (ascii_name (clean_name (utf16 ps)))" "92 \<notin> set (ascii_name (clean_name (utf16 ps)))"
    "\<forall>c \<in> set (ascii_name (clean_name (utf16 ps))). 0x20 \<le> c \<and> c \<le> 0x7E"
    using clean_name_plain [of _ "utf16 ps"] by (auto simp: ascii_name_def)
  have fixed: "\<forall>c \<in> set (disposition_name t @ codes_of ''; filename=\"'' @ codes_of ''\"; filename*=UTF-8'' @ [39, 39]). 0x20 \<le> c \<and> c \<le> 0x7E"
    by (cases t) (simp_all add: disposition_name_def codes_of_def)
  define coded where "coded = concat (map coded_point (clean_points ps))"
  define plain where "plain = ascii_name (clean_name (utf16 ps))"
  let ?h = "disposition_name t @ codes_of ''; filename=\"'' @ plain @ codes_of ''\"; filename*=UTF-8'' @ [39, 39] @ coded"
  have "content_disposition t (utf16 ps) = Some ?h"
    unfolding plain_def coded_def by (rule header_of_name [OF assms])
  moreover have "\<forall>c \<in> set ?h. 0x20 \<le> c \<and> c \<le> 0x7E"
    using fixed shown(3) enc_ascii unfolding plain_def coded_def by auto
  moreover have "read_all_utf8 (percent_decode coded) = Some (clean_points ps)"
    using sc by (simp add: coded_def percent_decode_coded)
  ultimately show ?thesis
    using shown(1,2) enc unfolding plain_def [symmetric] coded_def [symmetric]
    by (intro exI [of _ ?h] exI [of _ plain] exI [of _ coded]) simp
qed

text \<open>A name of three characters, one of them Arabic and one outside the basic plane.\<close>

definition arabic_name :: "nat list" where
  "arabic_name = [0x634, 0x1F4C4, 34, 97]"

theorem attachment_header_safe_witness:
  "\<exists>h enc. content_disposition Attachment (utf16 arabic_name) = Some h \<and> 10 \<notin> set h
    \<and> read_all_utf8 (percent_decode enc) = Some [0x634, 0x1F4C4, 97]"
proof -
  have sc: "\<forall>p \<in> set arabic_name. scalar p" by (simp add: arabic_name_def scalar_def)
  have clean: "clean_points arabic_name = [0x634, 0x1F4C4, 97]"
    by (simp add: clean_points_def trim_codes_def space_code_def arabic_name_def Let_def)
  obtain h enc where h: "content_disposition Attachment (utf16 arabic_name) = Some h" "\<forall>c \<in> set h. 0x20 \<le> c \<and> c \<le> 0x7E"
      "read_all_utf8 (percent_decode enc) = Some (clean_points arabic_name)"
    using attachment_header_safe [OF sc, of Attachment] by blast
  then have "10 \<notin> set h" by auto
  then show ?thesis using h(1,3) unfolding clean by blast
qed

text \<open>The extended name of a header, as a browser takes it: what follows the last quote sign.\<close>

definition extended_name :: "codes \<Rightarrow> nat list option" where
  "extended_name h = read_all_utf8 (percent_decode (rev (takeWhile (\<lambda>c. c \<noteq> 39) (rev h))))"

lemma utf8_ascii: "\<forall>b \<in> set (utf8 ps). b < 0x80 \<Longrightarrow> utf8 ps = ps \<and> (\<forall>p \<in> set ps. p < 0x80)"
proof (induction ps)
  case (Cons p ps)
  then have "\<forall>b \<in> set (utf8_point p). b < 0x80" by simp
  then have "hd (utf8_point p) < 0x80" by simp
  moreover have "0x80 \<le> p \<Longrightarrow> 0x80 \<le> hd (utf8_point p)" by (simp add: utf8_point_def)
  ultimately have "p < 0x80" by linarith
  then have "utf8_point p = [p]" by (simp add: utf8_point_def)
  then show ?case using Cons \<open>p < 0x80\<close> by simp
qed simp

lemma utf16_member: "\<forall>p \<in> set ps. scalar p \<Longrightarrow> c \<in> set (utf16 ps) \<Longrightarrow> c \<in> set ps \<or> (0xD800 \<le> c \<and> c \<le> 0xDFFF)"
proof (induction ps)
  case (Cons p ps)
  have "p - 0x10000 < 0x400 * 0x400" using Cons.prems(1) by (auto simp: scalar_def)
  then have "(p - 0x10000) div 0x400 < 0x400" by (rule less_mult_imp_div_less)
  moreover have "(p - 0x10000) mod 0x400 < 0x400" by simp
  ultimately have "c = p \<or> (0xD800 \<le> c \<and> c \<le> 0xDFFF)" if "c \<in> set (to_units p)"
    using that by (cases "p < 0x10000") (simp_all only: to_units_def, auto)
  then show ?case using Cons by auto
qed simp

lemma decoded_name:
  assumes "\<forall>p \<in> set ps. scalar p \<and> p \<noteq> 0xFFFD"
  shows "decode_upload_name (Some (utf8 ps)) =
    (let kept = take 255 (trim_codes (filter (\<lambda>c. \<not> (c \<le> 0x1F \<or> c = 0x7F)) (utf16 ps)))
     in if kept = [] then codes_of ''file'' else kept)"
proof -
  have bytes: "\<forall>c \<in> set (utf8 ps). c \<le> 0xFF"
    using assms utf8_point_bytes by (induction ps) auto
  have units: "0xFFFD \<notin> set (utf16 ps)" using utf16_member [of ps "0xFFFD"] assms by auto
  have "utf8 ps = utf16 ps" if "\<not> (\<exists>c \<in> set (utf8 ps). 0x80 \<le> c \<and> c \<le> 0xFF)"
    using that utf8_ascii [of ps] bytes utf16_ascii [of ps] by force
  then show ?thesis using bytes units assms by (simp add: decode_upload_name_def Let_def)
qed

text \<open>
  C37: a document keeps its name. A name a browser sends in UTF-8, which
  the multipart parser hands over byte by byte, is stored as typed, and the download header
  built from the stored name gives exactly that name back, in any script. The name is taken
  without control characters, quotes, backslashes and outer spaces, within 255 UTF-16 units.
\<close>

theorem document_name_survives:
  assumes "\<forall>p \<in> set ps. scalar p \<and> 0x1F < p \<and> p \<notin> {34, 92, 0x7F, 0xFFFD}"
    and "ps \<noteq> []" "trim_codes ps = ps" "length (utf16 ps) \<le> 255"
  shows "decode_upload_name (Some (utf8 ps)) = utf16 ps
    \<and> (\<exists>h. content_disposition t (decode_upload_name (Some (utf8 ps))) = Some h \<and> extended_name h = Some ps)"
proof -
  have sc: "\<forall>p \<in> set ps. scalar p" using assms(1) by blast
  have "filter (\<lambda>c. \<not> (c \<le> 0x1F \<or> c = 0x7F)) (utf16 ps) = utf16 ps"
    using utf16_member [OF sc] assms(1) by (fastforce intro: filter_True)
  moreover have "trim_codes (utf16 ps) = utf16 ps" using trim_utf16 [OF sc] assms(3) by simp
  ultimately have stored: "decode_upload_name (Some (utf8 ps)) = utf16 ps"
    using assms decoded_name [of ps] by (simp add: Let_def)
  have "filter (\<lambda>c. c \<notin> {13, 10, 34, 92}) ps = ps" using assms(1) by (fastforce intro: filter_True)
  then have clean: "clean_points ps = ps" using assms(2,3) by (simp add: clean_points_def)
  let ?coded = "concat (map coded_point ps)"
  have "\<forall>c \<in> set (rev ?coded). c \<noteq> 39"
    using sc coded_point_chars [of _ 39] by fastforce
  then have "takeWhile (\<lambda>c. c \<noteq> 39) (rev ?coded @ 39 # r) = rev ?coded" for r
    by (subst takeWhile_append2) auto
  then have "extended_name (pre @ [39, 39] @ ?coded) = Some ps" for pre
    using sc by (simp add: extended_name_def percent_decode_coded)
  from this [of "disposition_name t @ codes_of ''; filename=\"'' @ ascii_name (clean_name (utf16 ps))
      @ codes_of ''\"; filename*=UTF-8''"]
  show ?thesis
    unfolding stored header_of_name [OF sc] clean by simp
qed

text \<open>The name \<open>shahada.pdf\<close> begins with, in Arabic, and a page sign outside the basic plane.\<close>

definition scanned_name :: "nat list" where
  "scanned_name = [0x634, 0x647, 0x20, 0x1F4C4]"

theorem document_name_survives_witness:
  "decode_upload_name (Some [0xD8, 0xB4, 0xD9, 0x87, 0x20, 0xF0, 0x9F, 0x93, 0x84]) = [0x634, 0x647, 0x20, 0xD83D, 0xDCC4]
    \<and> (\<exists>h. content_disposition Attachment [0x634, 0x647, 0x20, 0xD83D, 0xDCC4] = Some h \<and> extended_name h = Some scanned_name)"
proof -
  have pre: "\<forall>p \<in> set scanned_name. scalar p \<and> 0x1F < p \<and> p \<notin> {34, 92, 0x7F, 0xFFFD}" "scanned_name \<noteq> []"
      "trim_codes scanned_name = scanned_name" "length (utf16 scanned_name) \<le> 255"
    by (simp_all add: scanned_name_def scalar_def trim_codes_def space_code_def to_units_def)
  have bytes: "utf8 scanned_name = [0xD8, 0xB4, 0xD9, 0x87, 0x20, 0xF0, 0x9F, 0x93, 0x84]"
    and units: "utf16 scanned_name = [0x634, 0x647, 0x20, 0xD83D, 0xDCC4]"
    by (simp_all add: scanned_name_def utf8_point_def to_units_def)
  note survives = document_name_survives [OF pre, of Attachment, unfolded bytes units]
  from survives have stored: "decode_upload_name (Some [0xD8, 0xB4, 0xD9, 0x87, 0x20, 0xF0, 0x9F, 0x93, 0x84])
      = [0x634, 0x647, 0x20, 0xD83D, 0xDCC4]" by (rule conjunct1)
  show ?thesis
    using survives unfolding stored .
qed

end
