(* ===== verification/MediaFiles.thy ===== *)
theory MediaFiles
  imports ContentData FileNames
begin

text \<open>
  The media library: \<open>media/media.service.ts\<close>, \<open>media/image-pipeline.ts\<close>,
  \<open>media/media.controller.ts\<close> and the store behind \<open>storage/storage-driver.interface.ts\<close>. A file
  body is a byte string. The file-type sniffer, SHA-256 and sharp are parameters; which \<open>put\<close>
  and which \<open>remove\<close> the store fails on is an argument. An upload is two steps, the checks and
  image work before the first write and the writes, since other requests run in between.
\<close>

section \<open>Parameters and state\<close>

datatype image_format = Png | Webp nat | Avif nat | Jpeg nat

record image_variant =
  iv_label :: variant_label
  iv_width :: nat
  iv_buffer :: string

record media_env =
  mx_fileType :: "string \<Rightarrow> (string \<times> string) option"
  mx_sha256 :: "string \<Rightarrow> string"
  mx_encode :: "image_format \<Rightarrow> string \<Rightarrow> string + (string \<times> nat \<times> nat)"
  mx_measure :: "string \<Rightarrow> string + (nat \<times> nat)"
  mx_resize :: "nat \<Rightarrow> string \<Rightarrow> string + (string \<times> nat)"

type_synonym files = "string \<Rightarrow> string option"

record media_lib =
  lb_assets :: "media_asset list"
  lb_variants :: "media_variant list"
  lb_files :: files

section \<open>Images\<close>

definition VARIANT_SPECS :: "(variant_label \<times> nat) list" where
  "VARIANT_SPECS = [(VariantThumb, 400), (VariantCard, 800), (VariantFull, 1600)]"

definition original_format :: "string \<Rightarrow> image_format" where
  "original_format mime =
     (if mime = ''image/png'' then Png
      else if mime = ''image/webp'' then Webp 90
      else if mime = ''image/avif'' then Avif 70
      else Jpeg 90)"

definition normalize_original :: "media_env \<Rightarrow> string \<Rightarrow> string \<Rightarrow> string + (string \<times> nat \<times> nat)" where
  "normalize_original env original mime = mx_encode env (original_format mime) original"

fun webp_variants :: "media_env \<Rightarrow> string \<Rightarrow> (variant_label \<times> nat) list \<Rightarrow> string + image_variant list" where
  "webp_variants env original [] = Inr []"
| "webp_variants env original ((l, w) # specs) =
     (case mx_resize env w original of
        Inl e \<Rightarrow> Inl e
      | Inr (body, width) \<Rightarrow>
          (case webp_variants env original specs of
             Inl e \<Rightarrow> Inl e
           | Inr vs \<Rightarrow> Inr (\<lparr>iv_label = l, iv_width = width, iv_buffer = body\<rparr> # vs)))"

definition generate_webp_variants :: "media_env \<Rightarrow> string \<Rightarrow> string + (nat \<times> nat \<times> image_variant list)" where
  "generate_webp_variants env original =
     (case mx_measure env original of
        Inl e \<Rightarrow> Inl e
      | Inr (w, h) \<Rightarrow>
          (case webp_variants env original VARIANT_SPECS of Inl e \<Rightarrow> Inl e | Inr vs \<Rightarrow> Inr (w, h, vs)))"

section \<open>Storage\<close>

definition driver_put :: "(string \<Rightarrow> bool) \<Rightarrow> string \<Rightarrow> string \<Rightarrow> files \<Rightarrow> files res" where
  "driver_put fails key body fs =
     (if fails key then Inl (OtherExn ''storage write failed'') else Inr (fs(key \<mapsto> body)))"

definition driver_remove :: "(string \<Rightarrow> bool) \<Rightarrow> string \<Rightarrow> files \<Rightarrow> files" where
  "driver_remove stuck key fs = (if stuck key then fs else fs(key := None))"

text \<open>The writes of an upload in order: the first error, the keys written so far, the store.\<close>

fun put_all :: "(string \<Rightarrow> bool) \<Rightarrow> (string \<times> string) list \<Rightarrow> files \<Rightarrow> exn option \<times> string list \<times> files" where
  "put_all fails [] fs = (None, [], fs)"
| "put_all fails ((key, body) # rest) fs =
     (case driver_put fails key body fs of
        Inl e \<Rightarrow> (Some e, [], fs)
      | Inr fs' \<Rightarrow> (let (e, written, fs'') = put_all fails rest fs' in (e, key # written, fs'')))"

section \<open>Upload\<close>

definition MAX_IMAGE_BYTES :: nat where "MAX_IMAGE_BYTES = 5 * 1024 * 1024"
definition MAX_PDF_BYTES :: nat where "MAX_PDF_BYTES = 10 * 1024 * 1024"
definition MAX_DIMENSION_PX :: nat where "MAX_DIMENSION_PX = 65535"

definition ALLOWED_IMAGE_MIME :: "string list" where
  "ALLOWED_IMAGE_MIME = [''image/jpeg'', ''image/png'', ''image/webp'', ''image/avif'']"

definition ALLOWED_PDF_MIME :: string where "ALLOWED_PDF_MIME = ''application/pdf''"

definition classify :: "string option \<Rightarrow> media_kind option" where
  "classify mime =
     (case mime of
        None \<Rightarrow> None
      | Some m \<Rightarrow> if m = [] then None
                  else if m \<in> set ALLOWED_IMAGE_MIME then Some MediaImage
                  else if m = ALLOWED_PDF_MIME then Some MediaPdf else None)"

record upload_request =
  ur_buffer :: string
  ur_originalName :: string
  ur_uploadedBy :: "string option"
  ur_altAr :: "string option"

text \<open>What the checks leave behind: everything the writes need.\<close>

record prepared =
  pp_request :: upload_request
  pp_kind :: media_kind
  pp_mime :: string
  pp_ext :: string
  pp_checksum :: string
  pp_body :: string
  pp_widthPx :: "nat option"
  pp_heightPx :: "nat option"
  pp_variants :: "image_variant list"

definition image_failure :: "string \<Rightarrow> 'a res" where
  "image_failure message =
     (if message = ''Input image exceeds pixel limit''
      then fail 422 VALIDATION_FAILED ''Image is too large to process (over the 50-megapixel limit) - please downscale it and try again.''
      else fail 422 VALIDATION_FAILED ''The image could not be decoded - it may be corrupt or truncated'')"

definition nonzero :: "nat \<Rightarrow> nat option" where
  "nonzero n = (if n = 0 then None else Some n)"

definition prepare_image ::
  "media_env \<Rightarrow> string \<Rightarrow> string \<Rightarrow> (string \<times> nat option \<times> nat option \<times> image_variant list) res" where
  "prepare_image env buffer mime =
     (case normalize_original env buffer mime of
        Inl e \<Rightarrow> image_failure e
      | Inr (body, w, h) \<Rightarrow>
          if MAX_DIMENSION_PX < w \<or> MAX_DIMENSION_PX < h
          then fail 422 VALIDATION_FAILED ''Image dimensions exceed the 65535px limit per side''
          else (case generate_webp_variants env body of
                  Inl e \<Rightarrow> image_failure e
                | Inr (_, _, vs) \<Rightarrow> Inr (body, nonzero w, nonzero h, vs)))"

text \<open>\<open>upload\<close> up to its first write: the stored asset of the same bytes, or what to store.\<close>

definition upload_checks :: "media_env \<Rightarrow> upload_request \<Rightarrow> media_lib \<Rightarrow> (media_asset + prepared) res" where
  "upload_checks env rq st =
     (let buffer = ur_buffer rq; detected = mx_fileType env buffer
      in case (classify (map_option fst detected), detected) of
           (Some kind, Some (mime, ext)) \<Rightarrow>
             (let max_bytes = (if kind = MediaImage then MAX_IMAGE_BYTES else MAX_PDF_BYTES);
                  checksum = mx_sha256 env buffer
              in if max_bytes < length buffer
                 then fail 400 VALIDATION_FAILED
                        (''File exceeds the '' @ show_nat (max_bytes div (1024 * 1024)) @ '' MB limit for ''
                         @ (if kind = MediaImage then ''images'' else ''PDFs''))
                 else (case List.find (\<lambda>a. ma_checksumSha256 a = checksum) (lb_assets st) of
                         Some a \<Rightarrow> Inr (Inl a)
                       | None \<Rightarrow>
                           (let ready = (\<lambda>(body, w, h, vs).
                                  \<lparr>pp_request = rq, pp_kind = kind, pp_mime = mime, pp_ext = ext, pp_checksum = checksum,
                                   pp_body = body, pp_widthPx = w, pp_heightPx = h, pp_variants = vs\<rparr>)
                            in if kind = MediaImage
                               then (case prepare_image env buffer mime of
                                       Inl e \<Rightarrow> Inl e | Inr r \<Rightarrow> Inr (Inr (ready r)))
                               else Inr (Inr (ready (buffer, None, None, []))))))
         | _ \<Rightarrow> fail 400 VALIDATION_FAILED ''Unsupported file type'')"

text \<open>What the writes draw: the random public id, the ids the database gives, the date.\<close>

record upload_draw =
  ud_publicId :: string
  ud_assetId :: string
  ud_variantId :: "variant_label \<Rightarrow> string"
  ud_year :: nat
  ud_month :: nat
  ud_now :: time

definition asset_dir :: "upload_draw \<Rightarrow> string" where
  "asset_dir d = ''assets/'' @ show_nat (ud_year d) @ ''/''
     @ (if ud_month d < 10 then ''0'' else []) @ show_nat (ud_month d)"

definition original_key :: "upload_draw \<Rightarrow> prepared \<Rightarrow> string" where
  "original_key d p = asset_dir d @ ''/'' @ ud_publicId d @ ''.'' @ pp_ext p"

definition variant_key :: "upload_draw \<Rightarrow> variant_label \<Rightarrow> string" where
  "variant_key d l = asset_dir d @ ''/'' @ ud_publicId d @ ''-'' @ variant_label_name l @ ''.webp''"

definition new_asset :: "upload_draw \<Rightarrow> prepared \<Rightarrow> media_asset" where
  "new_asset d p =
     \<lparr>ma_id = ud_assetId d, ma_publicId = ud_publicId d, ma_kind = pp_kind p, ma_mimeType = pp_mime p,
      ma_sizeBytes = length (pp_body p), ma_originalName = ur_originalName (pp_request p), ma_storageKey = original_key d p,
      ma_checksumSha256 = pp_checksum p, ma_widthPx = pp_widthPx p, ma_heightPx = pp_heightPx p,
      ma_altAr = ur_altAr (pp_request p), ma_altEn = None, ma_uploadedBy = ur_uploadedBy (pp_request p),
      ma_createdAt = ud_now d, ma_updatedAt = ud_now d\<rparr>"

definition new_variant :: "upload_draw \<Rightarrow> image_variant \<Rightarrow> media_variant" where
  "new_variant d v =
     \<lparr>mv_id = ud_variantId d (iv_label v), mv_assetId = ud_assetId d, mv_label = iv_label v,
      mv_storageKey = variant_key d (iv_label v), mv_widthPx = iv_width v, mv_sizeBytes = length (iv_buffer v)\<rparr>"

definition duplicate_asset :: "media_asset \<Rightarrow> media_asset list \<Rightarrow> bool" where
  "duplicate_asset a rows \<longleftrightarrow>
     (\<exists>r \<in> set rows. ma_publicId r = ma_publicId a \<or> ma_checksumSha256 r = ma_checksumSha256 a)"

definition upload_store ::
  "(string \<Rightarrow> bool) \<Rightarrow> (string \<Rightarrow> bool) \<Rightarrow> upload_draw \<Rightarrow> prepared \<Rightarrow> media_lib \<Rightarrow> (media_asset \<times> bool) res \<times> media_lib" where
  "upload_store fails stuck d p st =
     (let writes = (original_key d p, pp_body p) # map (\<lambda>v. (variant_key d (iv_label v), iv_buffer v)) (pp_variants p);
          (failed, written, fs) = put_all fails writes (lb_files st);
          asset = new_asset d p;
          err = (case failed of
                   Some e \<Rightarrow> Some e
                 | None \<Rightarrow> if duplicate_asset asset (lb_assets st)
                           then Some (QueryFailed (Some ''ER_DUP_ENTRY'') (Some 1062)) else None)
      in case err of
           None \<Rightarrow>
             (Inr (asset, False),
              st\<lparr>lb_assets := lb_assets st @ [asset], lb_variants := lb_variants st @ map (new_variant d) (pp_variants p),
                 lb_files := fs\<rparr>)
         | Some e \<Rightarrow>
             (let st' = st\<lparr>lb_files := fold (driver_remove stuck) written fs\<rparr>
              in (case e of
                    QueryFailed code _ \<Rightarrow>
                      if code = Some ''ER_DUP_ENTRY''
                      then (case List.find (\<lambda>a. ma_checksumSha256 a = pp_checksum p) (lb_assets st) of
                              Some winner \<Rightarrow> Inr (winner, True)
                            | None \<Rightarrow> Inl e)
                      else Inl e
                  | _ \<Rightarrow> Inl e, st')))"

definition upload ::
  "media_env \<Rightarrow> (string \<Rightarrow> bool) \<Rightarrow> (string \<Rightarrow> bool) \<Rightarrow> (media_lib \<Rightarrow> media_lib) \<Rightarrow> upload_draw \<Rightarrow> upload_request \<Rightarrow> media_lib
     \<Rightarrow> (media_asset \<times> bool) res \<times> media_lib" where
  "upload env fails stuck meanwhile d rq st =
     (case upload_checks env rq st of
        Inl e \<Rightarrow> (Inl e, meanwhile st)
      | Inr (Inl a) \<Rightarrow> (Inr (a, True), meanwhile st)
      | Inr (Inr p) \<Rightarrow> upload_store fails stuck d p (meanwhile st))"

section \<open>Who shows an asset\<close>

record owner_tables =
  ow_pages :: "page list"
  ow_sections :: "page_section list"
  ow_members :: "board_member list"
  ow_posts :: "post list"
  ow_partners :: "partner list"
  ow_categories :: "doc_category list"
  ow_documents :: "safeer_document list"
  ow_licences :: "licence list"

definition query_is_publicly_readable :: "string \<Rightarrow> owner_tables \<Rightarrow> bool" where
  "query_is_publicly_readable asset_id ow \<longleftrightarrow>
     (\<exists>s \<in> set (ow_sections ow). \<exists>p \<in> set (ow_pages ow). pa_id p = ps_pageId s
        \<and> ps_imageAssetId s = Some asset_id \<and> ps_isPublished s \<and> pa_isPublished p)
     \<or> (\<exists>m \<in> set (ow_members ow). bm_photoAssetId m = Some asset_id \<and> bm_isPublished m)
     \<or> (\<exists>p \<in> set (ow_posts ow). po_coverAssetId p = Some asset_id \<and> po_isPublished p)
     \<or> (\<exists>p \<in> set (ow_partners ow). pt_logoAssetId p = Some asset_id \<and> pt_isPublished p)
     \<or> (\<exists>d \<in> set (ow_documents ow). \<exists>c \<in> set (ow_categories ow). dc_id c = dd_categoryId d
        \<and> dd_assetId d = Some asset_id \<and> dd_isPublished d \<and> dc_isPublished c)
     \<or> (\<exists>l \<in> set (ow_licences ow). li_assetId l = Some asset_id \<and> li_isPublished l)"

text \<open>The path parameter \<open>postId\<close> is compared by the database.\<close>

definition is_used_by_post :: "(string \<Rightarrow> string \<Rightarrow> bool) \<Rightarrow> string \<Rightarrow> string \<Rightarrow> owner_tables \<Rightarrow> bool" where
  "is_used_by_post id_eq asset_id post_id ow \<longleftrightarrow>
     (\<exists>p \<in> set (ow_posts ow). id_eq (po_id p) post_id \<and> po_coverAssetId p = Some asset_id)"

record asset_usage =
  au_entity :: string
  au_id :: string
  au_label :: string

definition usages_in :: "string \<Rightarrow> ('e \<Rightarrow> string) \<Rightarrow> ('e \<Rightarrow> string) \<Rightarrow> ('e \<Rightarrow> string option) \<Rightarrow> string \<Rightarrow> 'e list \<Rightarrow> asset_usage list" where
  "usages_in entity row_id label asset_of asset_id rows =
     map (\<lambda>e. \<lparr>au_entity = entity, au_id = row_id e, au_label = label e\<rparr>) (filter (\<lambda>e. asset_of e = Some asset_id) rows)"

definition find_usages :: "string \<Rightarrow> owner_tables \<Rightarrow> asset_usage list" where
  "find_usages asset_id ow =
     usages_in ''page_sections'' ps_id ps_sectionKey ps_imageAssetId asset_id (ow_sections ow)
     @ usages_in ''board_members'' bm_id bm_nameAr bm_photoAssetId asset_id (ow_members ow)
     @ usages_in ''posts'' po_id po_titleAr po_coverAssetId asset_id (ow_posts ow)
     @ usages_in ''partners'' pt_id pt_nameAr pt_logoAssetId asset_id (ow_partners ow)
     @ usages_in ''documents'' dd_id dd_titleAr dd_assetId asset_id (ow_documents ow)
     @ usages_in ''licences'' li_id li_titleAr li_assetId asset_id (ow_licences ow)"

section \<open>The other operations\<close>

definition find_by_public_id :: "(string \<Rightarrow> string \<Rightarrow> bool) \<Rightarrow> string \<Rightarrow> media_lib \<Rightarrow> media_asset option" where
  "find_by_public_id text_eq public_id st = List.find (\<lambda>a. text_eq (ma_publicId a) public_id) (lb_assets st)"

definition media_find_by_id :: "(string \<Rightarrow> string \<Rightarrow> bool) \<Rightarrow> string \<Rightarrow> media_lib \<Rightarrow> media_asset res" where
  "media_find_by_id id_eq i st =
     (case List.find (\<lambda>a. id_eq (ma_id a) i) (lb_assets st) of
        None \<Rightarrow> fail 404 NOT_FOUND ''File not found''
      | Some a \<Rightarrow> Inr a)"

definition find_variant :: "(string \<Rightarrow> string \<Rightarrow> bool) \<Rightarrow> string \<Rightarrow> string \<Rightarrow> media_lib \<Rightarrow> media_variant option" where
  "find_variant text_eq asset_id label st =
     List.find (\<lambda>v. mv_assetId v = asset_id \<and> text_eq (variant_label_name (mv_label v)) label) (lb_variants st)"

definition set_alt_text ::
  "(string \<Rightarrow> string \<Rightarrow> bool) \<Rightarrow> string \<Rightarrow> string \<Rightarrow> string option \<Rightarrow> media_lib \<Rightarrow> media_asset res \<times> media_lib" where
  "set_alt_text id_eq i alt_ar alt_en st =
     (case media_find_by_id id_eq i st of
        Inl e \<Rightarrow> (Inl e, st)
      | Inr a \<Rightarrow>
          (let a' = a\<lparr>ma_altAr := Some alt_ar, ma_altEn := alt_en\<rparr>
           in (Inr a', st\<lparr>lb_assets := update_rows (\<lambda>r. ma_id r = ma_id a) (\<lambda>_. a') (lb_assets st)\<rparr>)))"

definition asset_usage_json :: "asset_usage \<Rightarrow> json" where
  "asset_usage_json u = JObj [(''entity'', JStr (au_entity u)), (''id'', JStr (au_id u)), (''label'', JStr (au_label u))]"

definition media_remove ::
  "(string \<Rightarrow> string \<Rightarrow> bool) \<Rightarrow> (string \<Rightarrow> bool) \<Rightarrow> owner_tables \<Rightarrow> string \<Rightarrow> media_lib \<Rightarrow> media_asset res \<times> media_lib" where
  "media_remove id_eq stuck ow i st =
     (case media_find_by_id id_eq i st of
        Inl e \<Rightarrow> (Inl e, st)
      | Inr a \<Rightarrow>
          (let usages = find_usages (ma_id a) ow
           in if usages \<noteq> []
              then (fail_with 409 ASSET_IN_USE ''File is in use'' [(''usages'', JArr (map asset_usage_json usages))], st)
              else
                (let variants = filter (\<lambda>v. mv_assetId v = ma_id a) (lb_variants st)
                 in (Inr a,
                     st\<lparr>lb_assets := delete_rows (\<lambda>r. ma_id r = ma_id a) (lb_assets st),
                        lb_variants := delete_rows (\<lambda>v. mv_assetId v = ma_id a) (lb_variants st),
                        lb_files := fold (driver_remove stuck) (ma_storageKey a # map mv_storageKey variants) (lb_files st)\<rparr>))))"

definition increment_download_count :: "(string \<Rightarrow> string \<Rightarrow> bool) \<Rightarrow> media_lib \<Rightarrow> string \<Rightarrow> owner_tables \<Rightarrow> owner_tables" where
  "increment_download_count text_eq st public_id ow =
     (case find_by_public_id text_eq public_id st of
        None \<Rightarrow> ow
      | Some a \<Rightarrow> ow\<lparr>ow_documents := update_rows (\<lambda>d. dd_assetId d = Some (ma_id a))
                                    (\<lambda>d. d\<lparr>dd_downloadCount := dd_downloadCount d + 1\<rparr>) (ow_documents ow)\<rparr>)"

section \<open>The admin routes\<close>

record media_audit =
  mau_action :: audit_action
  mau_entityId :: string
  mau_entityLabel :: string
  mau_before :: "(string \<times> json) list option"
  mau_after :: "(string \<times> json) list option"

definition ASSET_PUBLIC_MEMO_TAGS :: "string list" where
  "ASSET_PUBLIC_MEMO_TAGS =
     [''home'', ''pages'', ''board_members'', ''news'', ''partners'', ''documents'', ''doc_categories'', ''licences'']"

text \<open>A stored text is the UTF-8 bytes of its characters; a lone surrogate becomes U+FFFD.\<close>

fun scalars_of :: "codes \<Rightarrow> nat list" where
  "scalars_of [] = []"
| "scalars_of (u # us) =
     (if u < 0xD800 \<or> 0xDFFF < u then u # scalars_of us
      else case us of
             v # vs \<Rightarrow> if u \<le> 0xDBFF \<and> 0xDC00 \<le> v \<and> v \<le> 0xDFFF
                        then (0x10000 + (u - 0xD800) * 0x400 + (v - 0xDC00)) # scalars_of vs
                        else 0xFFFD # scalars_of us
           | [] \<Rightarrow> [0xFFFD])"

definition stored_text :: "codes \<Rightarrow> string" where
  "stored_text s = map char_of (utf8 (scalars_of s))"

definition newest_first :: "media_asset list \<Rightarrow> media_asset list" where
  "newest_first rows = sort_key (\<lambda>a. - ma_createdAt a) rows"

definition media_list :: "query \<Rightarrow> media_lib \<Rightarrow> media_asset list \<times> nat \<times> int \<times> int" where
  "media_list q st =
     (let pl = read_page_limit 20 100 q; total = length (lb_assets st)
      in if pl_beyondMaxOffset pl then ([], total, pl_page pl, pl_limit pl)
         else (take (nat (pl_limit pl)) (drop (nat (pl_offset pl)) (newest_first (lb_assets st))), total, pl_page pl, pl_limit pl))"

text \<open>\<open>MediaController.upload\<close>: the file part's bytes and file name, the answer's status last.\<close>

definition media_upload_route ::
  "media_env \<Rightarrow> (string \<Rightarrow> bool) \<Rightarrow> (string \<Rightarrow> bool) \<Rightarrow> (media_lib \<Rightarrow> media_lib) \<Rightarrow> upload_draw \<Rightarrow> string \<Rightarrow> (string \<times> codes) option \<Rightarrow> media_lib
     \<Rightarrow> media_asset res \<times> media_lib \<times> media_audit option \<times> nat" where
  "media_upload_route env fails stuck meanwhile d user_id file st =
     (case file of
        None \<Rightarrow> (fail 400 VALIDATION_FAILED ''A file is required - send it as the multipart field \"file\"'', st, None, 201)
      | Some (buffer, name) \<Rightarrow>
          if buffer = []
          then (fail 400 VALIDATION_FAILED ''A file is required - send it as the multipart field \"file\"'', st, None, 201)
          else
            (case upload env fails stuck meanwhile d
                    \<lparr>ur_buffer = buffer, ur_originalName = stored_text (decode_upload_name (Some name)),
                     ur_uploadedBy = Some user_id, ur_altAr = None\<rparr> st of
               (Inl e, st') \<Rightarrow> (Inl e, st', None, 201)
             | (Inr (a, True), st') \<Rightarrow> (Inr a, st', None, 200)
             | (Inr (a, False), st') \<Rightarrow>
                 (Inr a, st',
                  Some \<lparr>mau_action = AUpload, mau_entityId = ma_id a, mau_entityLabel = ma_originalName a, mau_before = None,
                        mau_after = Some [(''kind'', JStr (media_kind_name (ma_kind a))), (''sizeBytes'', JNum (int (ma_sizeBytes a)))]\<rparr>,
                  201)))"

definition option_json :: "string option \<Rightarrow> json" where
  "option_json x = (case x of None \<Rightarrow> JNull | Some s \<Rightarrow> JStr s)"

definition set_alt_text_route ::
  "(string \<Rightarrow> string \<Rightarrow> bool) \<Rightarrow> string \<Rightarrow> string \<Rightarrow> string option \<Rightarrow> media_lib
     \<Rightarrow> media_asset res \<times> media_lib \<times> media_audit option \<times> string list" where
  "set_alt_text_route id_eq i alt_ar alt_en st =
     (case set_alt_text id_eq i alt_ar alt_en st of
        (Inl e, st') \<Rightarrow> (Inl e, st', None, [])
      | (Inr a, st') \<Rightarrow>
          (Inr a, st',
           Some \<lparr>mau_action = AUpdate, mau_entityId = i, mau_entityLabel = ma_originalName a, mau_before = None,
                 mau_after = Some [(''altAr'', option_json (ma_altAr a)), (''altEn'', option_json (ma_altEn a))]\<rparr>,
           ASSET_PUBLIC_MEMO_TAGS))"

definition media_remove_route ::
  "(string \<Rightarrow> string \<Rightarrow> bool) \<Rightarrow> (string \<Rightarrow> bool) \<Rightarrow> owner_tables \<Rightarrow> string \<Rightarrow> media_lib
     \<Rightarrow> unit res \<times> media_lib \<times> media_audit option" where
  "media_remove_route id_eq stuck ow i st =
     (case media_remove id_eq stuck ow i st of
        (Inl e, st') \<Rightarrow> (Inl e, st', None)
      | (Inr a, st') \<Rightarrow>
          (Inr (), st',
           Some \<lparr>mau_action = ADelete, mau_entityId = i, mau_entityLabel = ma_originalName a,
                 mau_before = Some [(''kind'', JStr (media_kind_name (ma_kind a))), (''originalName'', JStr (ma_originalName a))],
                 mau_after = None\<rparr>))"

section \<open>What the library keeps\<close>

definition lib_keys :: "media_lib \<Rightarrow> string list" where
  "lib_keys st = map ma_storageKey (lb_assets st) @ map mv_storageKey (lb_variants st)"

text \<open>A body is an image's re-encoding of the uploaded bytes, or a document's bytes themselves.\<close>

definition body_of :: "media_env \<Rightarrow> media_kind \<Rightarrow> string \<Rightarrow> nat option \<Rightarrow> nat option \<Rightarrow> string \<Rightarrow> bool" where
  "body_of env kind checksum w h body \<longleftrightarrow>
     (\<exists>raw. checksum = mx_sha256 env raw
        \<and> (if kind = MediaImage
           then length raw \<le> MAX_IMAGE_BYTES
             \<and> (\<exists>fmt x y. mx_encode env fmt raw = Inr (body, x, y) \<and> w = nonzero x \<and> h = nonzero y
                  \<and> x \<le> MAX_DIMENSION_PX \<and> y \<le> MAX_DIMENSION_PX)
           else body = raw \<and> length raw \<le> MAX_PDF_BYTES))"

definition asset_stored :: "media_env \<Rightarrow> files \<Rightarrow> media_asset \<Rightarrow> bool" where
  "asset_stored env fs a \<longleftrightarrow>
     (\<exists>body. fs (ma_storageKey a) = Some body \<and> ma_sizeBytes a = length body
        \<and> body_of env (ma_kind a) (ma_checksumSha256 a) (ma_widthPx a) (ma_heightPx a) body)"

definition prepared_ok :: "media_env \<Rightarrow> prepared \<Rightarrow> bool" where
  "prepared_ok env p \<longleftrightarrow>
     body_of env (pp_kind p) (pp_checksum p) (pp_widthPx p) (pp_heightPx p) (pp_body p)
     \<and> distinct (map iv_label (pp_variants p))"

definition media_ok :: "media_env \<Rightarrow> (string \<Rightarrow> bool) \<Rightarrow> media_lib \<Rightarrow> bool" where
  "media_ok env stuck st \<longleftrightarrow>
     distinct (map ma_id (lb_assets st)) \<and> distinct (map ma_checksumSha256 (lb_assets st))
     \<and> distinct (lib_keys st)
     \<and> (\<forall>a \<in> set (lb_assets st). asset_stored env (lb_files st) a)
     \<and> (\<forall>v \<in> set (lb_variants st). lb_files st (mv_storageKey v) \<noteq> None \<and> mv_assetId v \<in> ma_id ` set (lb_assets st))
     \<and> (\<forall>k. lb_files st k \<noteq> None \<longrightarrow> k \<in> set (lib_keys st) \<or> stuck k)"

lemma webp_variants_labels:
  "webp_variants env body specs = Inr vs \<Longrightarrow> map iv_label vs = map fst specs"
  by (induction env body specs arbitrary: vs rule: webp_variants.induct) (auto split: sum.splits)

lemma prepare_image_ok:
  assumes "prepare_image env raw mime = Inr (body, w, h, vs)"
  shows "\<exists>fmt x y. mx_encode env fmt raw = Inr (body, x, y) \<and> w = nonzero x \<and> h = nonzero y
    \<and> x \<le> MAX_DIMENSION_PX \<and> y \<le> MAX_DIMENSION_PX" "distinct (map iv_label vs)"
proof -
  have labels: "distinct (map iv_label us)" if "webp_variants env b VARIANT_SPECS = Inr us" for us b
    using webp_variants_labels [OF that] by (simp add: VARIANT_SPECS_def)
  show "\<exists>fmt x y. mx_encode env fmt raw = Inr (body, x, y) \<and> w = nonzero x \<and> h = nonzero y
      \<and> x \<le> MAX_DIMENSION_PX \<and> y \<le> MAX_DIMENSION_PX" "distinct (map iv_label vs)"
    using assms labels
    by (auto simp: prepare_image_def image_failure_def normalize_original_def generate_webp_variants_def not_less
        split: sum.splits if_splits prod.splits)
qed

lemma body_of_image:
  assumes "mx_encode env fmt raw = Inr (body, x, y)" "x \<le> MAX_DIMENSION_PX" "y \<le> MAX_DIMENSION_PX" "length raw \<le> MAX_IMAGE_BYTES"
  shows "body_of env MediaImage (mx_sha256 env raw) (nonzero x) (nonzero y) body"
  using assms by (auto simp: body_of_def)

lemma body_of_pdf: "length raw \<le> MAX_PDF_BYTES \<Longrightarrow> body_of env MediaPdf (mx_sha256 env raw) w h raw"
  by (auto simp: body_of_def)

lemma upload_checks_ok:
  assumes "upload_checks env rq st = Inr (Inr p)"
  shows "prepared_ok env p"
proof -
  obtain kind mime ext where kind: "classify (map_option fst (mx_fileType env (ur_buffer rq))) = Some kind"
      "mx_fileType env (ur_buffer rq) = Some (mime, ext)"
    using assms by (auto simp: upload_checks_def Let_def split: option.splits prod.splits)
  show ?thesis
  proof (cases kind)
    case MediaImage
    then obtain body w h vs where img: "prepare_image env (ur_buffer rq) mime = Inr (body, w, h, vs)"
      using assms kind by (auto simp: upload_checks_def Let_def split: option.splits sum.splits if_splits prod.splits)
    then show ?thesis
      using assms kind MediaImage prepare_image_ok [OF img]
      by (auto simp: upload_checks_def Let_def prepared_ok_def not_less split: option.splits if_splits intro: body_of_image)
  next
    case MediaPdf
    then show ?thesis
      using assms kind
      by (auto simp: upload_checks_def Let_def prepared_ok_def not_less split: option.splits if_splits intro: body_of_pdf)
  qed
qed

lemma put_all_frame:
  "put_all fails writes fs = (e, written, fs') \<Longrightarrow>
    set written \<subseteq> fst ` set writes \<and> (\<forall>k. k \<notin> set written \<longrightarrow> fs' k = fs k)"
proof (induction writes arbitrary: fs e written fs')
  case (Cons w writes)
  obtain key body where w: "w = (key, body)" by (cases w)
  show ?case
  proof (cases "fails key")
    case True
    then show ?thesis using Cons.prems w by (auto simp: driver_put_def)
  next
    case False
    obtain e' ks fs'' where rest: "put_all fails writes (fs(key \<mapsto> body)) = (e', ks, fs'')"
      by (cases "put_all fails writes (fs(key \<mapsto> body))") auto
    then show ?thesis using Cons.prems Cons.IH [OF rest] False w by (auto simp: driver_put_def)
  qed
qed simp

lemma put_all_done:
  "put_all fails writes fs = (None, written, fs') \<Longrightarrow> distinct (map fst writes) \<Longrightarrow>
    (\<forall>(k, b) \<in> set writes. fs' k = Some b) \<and> (\<forall>k. k \<notin> fst ` set writes \<longrightarrow> fs' k = fs k)"
proof (induction writes arbitrary: fs written fs')
  case (Cons w writes)
  obtain key body where w: "w = (key, body)" by (cases w)
  have ok: "\<not> fails key" using Cons.prems(1) w by (auto simp: driver_put_def)
  obtain e' ks fs'' where rest: "put_all fails writes (fs(key \<mapsto> body)) = (e', ks, fs'')"
    by (cases "put_all fails writes (fs(key \<mapsto> body))") auto
  then have "e' = None" "fs'' = fs'" using Cons.prems(1) w ok by (auto simp: driver_put_def)
  then have "(\<forall>(k, b) \<in> set writes. fs' k = Some b) \<and> (\<forall>k. k \<notin> fst ` set writes \<longrightarrow> fs' k = (fs(key \<mapsto> body)) k)"
    using Cons.IH [of "fs(key \<mapsto> body)" ks fs'] rest Cons.prems(2) by (simp del: fun_upd_apply)
  moreover have "key \<notin> fst ` set writes" using Cons.prems(2) w by simp
  ultimately show ?case using w by auto
qed simp

lemma fold_driver_remove: "fold (driver_remove stuck) ks fs k = (if k \<in> set ks \<and> \<not> stuck k then None else fs k)"
  by (induction ks arbitrary: fs) (auto simp: driver_remove_def)

lemma variant_label_name_inj [simp]: "variant_label_name l = variant_label_name l' \<longleftrightarrow> l = l'"
  by (cases l; cases l') simp_all

lemma upload_keys_apart [simp]:
  "variant_key d l = variant_key d l' \<longleftrightarrow> l = l'" "original_key d p \<noteq> variant_key d l" "variant_key d l \<noteq> original_key d p"
  by (simp_all add: variant_key_def original_key_def)

definition upload_writes :: "upload_draw \<Rightarrow> prepared \<Rightarrow> (string \<times> string) list" where
  "upload_writes d p =
     (original_key d p, pp_body p) # map (\<lambda>v. (variant_key d (iv_label v), iv_buffer v)) (pp_variants p)"

lemma upload_writes_distinct: "prepared_ok env p \<Longrightarrow> distinct (map fst (upload_writes d p))"
  by (auto simp: upload_writes_def prepared_ok_def distinct_map inj_on_def)

text \<open>A fresh draw: the database has not given the id, nothing is stored under the new keys.\<close>

definition fresh_draw :: "upload_draw \<Rightarrow> prepared \<Rightarrow> media_lib \<Rightarrow> bool" where
  "fresh_draw d p st \<longleftrightarrow> ud_assetId d \<notin> ma_id ` set (lb_assets st)
     \<and> (\<forall>k \<in> fst ` set (upload_writes d p). lb_files st k = None)"

lemma upload_store_cases:
  assumes "fresh_draw d p st" "put_all fails (upload_writes d p) (lb_files st) = (e, written, fs)"
  obtains (stored) "e = None" "\<not> duplicate_asset (new_asset d p) (lb_assets st)"
      "snd (upload_store fails stuck d p st) = st\<lparr>lb_assets := lb_assets st @ [new_asset d p],
         lb_variants := lb_variants st @ map (new_variant d) (pp_variants p), lb_files := fs\<rparr>"
    | (undone) "snd (upload_store fails stuck d p st) = st\<lparr>lb_files := fold (driver_remove stuck) written fs\<rparr>"
proof (cases "e = None \<and> \<not> duplicate_asset (new_asset d p) (lb_assets st)")
  case True
  then show ?thesis using assms(2) stored by (simp add: upload_store_def upload_writes_def Let_def)
next
  case False
  then show ?thesis
    using assms(2) undone by (cases e) (simp_all add: upload_store_def upload_writes_def Let_def)
qed

lemma asset_stored_cong:
  "fs' (ma_storageKey a) = fs (ma_storageKey a) \<Longrightarrow> asset_stored env fs' a = asset_stored env fs a"
  by (simp add: asset_stored_def)

lemma media_okD:
  assumes "media_ok env stuck st"
  shows "k \<in> set (lib_keys st) \<Longrightarrow> lb_files st k \<noteq> None"
    and "lb_files st k \<noteq> None \<Longrightarrow> k \<in> set (lib_keys st) \<or> stuck k"
  using assms by (auto simp: media_ok_def lib_keys_def asset_stored_def)

lemma media_ok_undone:
  assumes ok: "media_ok env stuck st" and fresh: "fresh_draw d p st"
    and put: "put_all fails (upload_writes d p) (lb_files st) = (e, written, fs)"
  shows "media_ok env stuck (st\<lparr>lb_files := fold (driver_remove stuck) written fs\<rparr>)"
proof -
  let ?fs = "fold (driver_remove stuck) written fs"
  note frame = put_all_frame [OF put]
  have new: "k \<in> set written \<Longrightarrow> lb_files st k = None" for k
    using frame fresh by (auto simp: fresh_draw_def)
  have same: "?fs k = lb_files st k" if "lb_files st k \<noteq> None" for k
  proof -
    have "k \<notin> set written" using that new [of k] by auto
    then show ?thesis using frame by (simp add: fold_driver_remove)
  qed
  have left: "stuck k \<or> lb_files st k \<noteq> None" if "?fs k \<noteq> None" for k
    using that frame by (auto simp: fold_driver_remove split: if_splits)
  have "asset_stored env ?fs a" if "a \<in> set (lb_assets st)" for a
  proof -
    have "asset_stored env (lb_files st) a" using that ok by (simp add: media_ok_def)
    moreover from this have "lb_files st (ma_storageKey a) \<noteq> None" by (auto simp: asset_stored_def)
    ultimately show ?thesis using same asset_stored_cong by metis
  qed
  moreover have "?fs (mv_storageKey v) \<noteq> None" if "v \<in> set (lb_variants st)" for v
    using that ok same by (simp add: media_ok_def)
  moreover have "k \<in> set (lib_keys st) \<or> stuck k" if "?fs k \<noteq> None" for k
    using left [OF that] media_okD(2) [OF ok] by blast
  ultimately show ?thesis using ok by (simp add: media_ok_def lib_keys_def)
qed

lemma media_ok_stored:
  assumes ok: "media_ok env stuck st" and fresh: "fresh_draw d p st" and p: "prepared_ok env p"
    and put: "put_all fails (upload_writes d p) (lb_files st) = (None, written, fs)"
    and unique: "\<not> duplicate_asset (new_asset d p) (lb_assets st)"
  shows "media_ok env stuck (st\<lparr>lb_assets := lb_assets st @ [new_asset d p],
    lb_variants := lb_variants st @ map (new_variant d) (pp_variants p), lb_files := fs\<rparr>)"
    (is "media_ok env stuck ?st")
proof -
  let ?new = "map fst (upload_writes d p)"
  have stores: "(k, b) \<in> set (upload_writes d p) \<Longrightarrow> fs k = Some b"
    "k \<notin> set ?new \<Longrightarrow> fs k = lb_files st k" for k b
    using put_all_done [OF put upload_writes_distinct [OF p]] by auto
  have apart: "k \<in> set (lib_keys st) \<Longrightarrow> k \<notin> set ?new" for k
    using media_okD(1) [OF ok, of k] fresh by (fastforce simp: fresh_draw_def)
  have keys: "lib_keys ?st = map ma_storageKey (lb_assets st) @ hd ?new # map mv_storageKey (lb_variants st) @ tl ?new"
    by (simp add: lib_keys_def upload_writes_def new_asset_def new_variant_def comp_def)
  have new: "hd ?new \<notin> set (tl ?new)" "distinct (tl ?new)" "set ?new = insert (hd ?new) (set (tl ?new))"
    using upload_writes_distinct [OF p, of d] by (simp_all add: upload_writes_def)
  have "distinct (lib_keys ?st)"
    unfolding keys using ok new apart by (auto simp: media_ok_def lib_keys_def)
  moreover have "asset_stored env fs a" if "a \<in> set (lb_assets st)" for a
  proof -
    have "ma_storageKey a \<in> set (lib_keys st)" using that by (simp add: lib_keys_def)
    then have "fs (ma_storageKey a) = lb_files st (ma_storageKey a)" using apart stores(2) by blast
    then show ?thesis using ok that asset_stored_cong unfolding media_ok_def by metis
  qed
  moreover have "asset_stored env fs (new_asset d p)"
    using stores(1) [of "original_key d p" "pp_body p"] p
    by (simp add: asset_stored_def new_asset_def upload_writes_def prepared_ok_def)
  moreover have "fs (mv_storageKey v) \<noteq> None" if "v \<in> set (lb_variants st)" for v
  proof -
    have "mv_storageKey v \<in> set (lib_keys st)" using that by (simp add: lib_keys_def)
    then show ?thesis using apart stores(2) media_okD(1) [OF ok] by metis
  qed
  moreover have "fs (mv_storageKey (new_variant d v)) \<noteq> None" if "v \<in> set (pp_variants p)" for v
    using stores(1) [of "variant_key d (iv_label v)" "iv_buffer v"] that by (auto simp: new_variant_def upload_writes_def)
  moreover have "k \<in> set (lib_keys ?st) \<or> stuck k" if "fs k \<noteq> None" for k
  proof (cases "k \<in> set ?new")
    case True
    then show ?thesis unfolding keys new(3) by auto
  next
    case False
    then have "k \<in> set (lib_keys st) \<or> stuck k" using that stores(2) media_okD(2) [OF ok] by metis
    then show ?thesis unfolding keys by (auto simp: lib_keys_def)
  qed
  ultimately show ?thesis
    using ok fresh unique unfolding media_ok_def fresh_draw_def duplicate_asset_def
    by (auto simp: new_variant_def new_asset_def)
qed

lemma media_ok_upload:
  assumes "media_ok env stuck st" "fresh_draw d p st" "prepared_ok env p"
  shows "media_ok env stuck (snd (upload_store fails stuck d p st))"
proof -
  obtain e written fs where put: "put_all fails (upload_writes d p) (lb_files st) = (e, written, fs)"
    by (cases "put_all fails (upload_writes d p) (lb_files st)") auto
  from assms(2) put show ?thesis
  proof (rule upload_store_cases [of d p st fails e written fs stuck])
    assume "e = None" "\<not> duplicate_asset (new_asset d p) (lb_assets st)"
      "snd (upload_store fails stuck d p st) = st\<lparr>lb_assets := lb_assets st @ [new_asset d p],
         lb_variants := lb_variants st @ map (new_variant d) (pp_variants p), lb_files := fs\<rparr>"
    then show ?thesis using media_ok_stored [OF assms, of fails written fs] put by simp
  next
    assume "snd (upload_store fails stuck d p st) = st\<lparr>lb_files := fold (driver_remove stuck) written fs\<rparr>"
    then show ?thesis using media_ok_undone [OF assms(1,2) put] by simp
  qed
qed

lemma media_ok_assets_cong:
  assumes ok: "media_ok env stuck st"
    and maps: "map ma_id rows = map ma_id (lb_assets st)" "map ma_checksumSha256 rows = map ma_checksumSha256 (lb_assets st)"
      "map ma_storageKey rows = map ma_storageKey (lb_assets st)"
    and stored: "\<forall>a \<in> set rows. asset_stored env (lb_files st) a"
  shows "media_ok env stuck (st\<lparr>lb_assets := rows\<rparr>)"
proof -
  have "ma_id ` set rows = ma_id ` set (lb_assets st)" using arg_cong [OF maps(1), of set] by simp
  moreover have "lib_keys (st\<lparr>lb_assets := rows\<rparr>) = lib_keys st" using maps by (simp add: lib_keys_def)
  ultimately show ?thesis using ok maps stored unfolding media_ok_def by simp
qed

lemma media_ok_set_alt:
  assumes "media_ok env stuck st"
  shows "media_ok env stuck (snd (set_alt_text id_eq i alt_ar alt_en st))"
proof (cases "media_find_by_id id_eq i st")
  case (Inr a)
  let ?f = "\<lambda>r. if ma_id r = ma_id a then a\<lparr>ma_altAr := Some alt_ar, ma_altEn := alt_en\<rparr> else r"
  have a: "a \<in> set (lb_assets st)" using Inr by (auto simp: media_find_by_id_def split: option.splits dest: find_SomeD)
  have same: "ma_id r = ma_id a \<Longrightarrow> r \<in> set (lb_assets st) \<Longrightarrow> r = a" for r
    using distinct_key_eq [of ma_id "lb_assets st" r a] a assms by (simp add: media_ok_def)
  have keep: "map g (map ?f (lb_assets st)) = map g (lb_assets st)"
    if "g (a\<lparr>ma_altAr := Some alt_ar, ma_altEn := alt_en\<rparr>) = g a" for g :: "media_asset \<Rightarrow> string"
    using that same by (auto simp: comp_def)
  define rows where "rows = map ?f (lb_assets st)"
  have "snd (set_alt_text id_eq i alt_ar alt_en st) = st\<lparr>lb_assets := rows\<rparr>"
    using Inr by (simp add: set_alt_text_def update_rows_def Let_def rows_def)
  moreover have "\<forall>r \<in> set rows. asset_stored env (lb_files st) r"
    using same assms a by (auto simp: media_ok_def asset_stored_def rows_def)
  moreover have "map ma_id rows = map ma_id (lb_assets st)" "map ma_checksumSha256 rows = map ma_checksumSha256 (lb_assets st)"
      "map ma_storageKey rows = map ma_storageKey (lb_assets st)"
    unfolding rows_def by (rule keep, simp)+
  ultimately show ?thesis
    using media_ok_assets_cong [OF assms] by simp
qed (use assms in \<open>simp add: set_alt_text_def\<close>)

lemma find_by_id_ok: "media_find_by_id id_eq i st = Inr a \<Longrightarrow> a \<in> set (lb_assets st) \<and> id_eq (ma_id a) i"
  by (auto simp: media_find_by_id_def split: option.splits dest: find_SomeD)

lemma media_remove_cases:
  obtains (kept) "snd (media_remove id_eq stuck ow i st) = st"
  | (gone) a where "media_find_by_id id_eq i st = Inr a" "find_usages (ma_id a) ow = []"
      "media_remove id_eq stuck ow i st = (Inr a,
         st\<lparr>lb_assets := delete_rows (\<lambda>r. ma_id r = ma_id a) (lb_assets st),
            lb_variants := delete_rows (\<lambda>v. mv_assetId v = ma_id a) (lb_variants st),
            lb_files := fold (driver_remove stuck)
              (ma_storageKey a # map mv_storageKey (filter (\<lambda>v. mv_assetId v = ma_id a) (lb_variants st))) (lb_files st)\<rparr>)"
proof (cases "media_find_by_id id_eq i st")
  case (Inl e)
  then show ?thesis using kept by (simp add: media_remove_def)
next
  case (Inr a)
  then show ?thesis
    using kept gone by (cases "find_usages (ma_id a) ow = []") (simp_all add: media_remove_def Let_def)
qed

lemma media_ok_remove:
  assumes ok: "media_ok env stuck st"
  shows "media_ok env stuck (snd (media_remove id_eq stuck ow i st))"
proof (rule media_remove_cases [of id_eq stuck ow i st])
  assume "snd (media_remove id_eq stuck ow i st) = st"
  then show ?thesis using ok by simp
next
  fix a
  assume found: "media_find_by_id id_eq i st = Inr a"
  let ?P = "\<lambda>r. ma_id r = ma_id a" and ?Q = "\<lambda>v. mv_assetId v = ma_id a"
  define gone where "gone = ma_storageKey a # map mv_storageKey (filter ?Q (lb_variants st))"
  define st' where "st' = st\<lparr>lb_assets := delete_rows ?P (lb_assets st), lb_variants := delete_rows ?Q (lb_variants st),
    lb_files := fold (driver_remove stuck) gone (lb_files st)\<rparr>"
  have a: "a \<in> set (lb_assets st)" using find_by_id_ok [OF found] by simp
  have keys: "distinct (lib_keys st)" using ok by (simp add: media_ok_def)
  have one: "r = a" if "r \<in> set (lb_assets st)" "ma_id r = ma_id a" for r
    using distinct_key_eq [of ma_id "lb_assets st" r a] that a ok by (simp add: media_ok_def)
  have split: "set (lib_keys st) = set gone \<union> set (lib_keys st')"
    using one a by (auto simp: lib_keys_def st'_def gone_def table_simps)
  have apart: "set gone \<inter> set (lib_keys st') = {}"
  proof -
    have inj: "inj_on ma_storageKey (set (lb_assets st))" "inj_on mv_storageKey (set (lb_variants st))"
      using keys by (simp_all add: lib_keys_def distinct_map)
    have sep: "ma_storageKey r \<noteq> mv_storageKey v" if "r \<in> set (lb_assets st)" "v \<in> set (lb_variants st)" for r v
      using keys that by (auto simp: lib_keys_def)
    have "ma_storageKey a \<noteq> ma_storageKey r" if "r \<in> set (lb_assets st)" "\<not> ?P r" for r
      using inj_onD [OF inj(1)] that a by metis
    moreover have "mv_storageKey u \<noteq> mv_storageKey v"
      if "u \<in> set (lb_variants st)" "v \<in> set (lb_variants st)" "?Q u" "\<not> ?Q v" for u v
      using inj_onD [OF inj(2)] that by metis
    ultimately show ?thesis
      using sep a by (fastforce simp: lib_keys_def st'_def gone_def table_simps)
  qed
  have files: "lb_files st' k = (if k \<in> set gone \<and> \<not> stuck k then None else lb_files st k)" for k
    by (simp add: st'_def fold_driver_remove)
  have still: "lb_files st' k = lb_files st k" if "k \<in> set (lib_keys st')" for k
    using that apart files by auto
  have "distinct (lib_keys st')"
    using keys by (auto simp: lib_keys_def st'_def table_simps intro: distinct_map_delete_rows)
  moreover have "asset_stored env (lb_files st') r" if "r \<in> set (lb_assets st')" for r
  proof -
    have "ma_storageKey r \<in> set (lib_keys st')" using that by (simp add: lib_keys_def)
    then have "lb_files st' (ma_storageKey r) = lb_files st (ma_storageKey r)" by (rule still)
    moreover have "asset_stored env (lb_files st) r" using that ok by (simp add: media_ok_def st'_def table_simps)
    ultimately show ?thesis using asset_stored_cong by blast
  qed
  moreover have "lb_files st' (mv_storageKey v) \<noteq> None \<and> mv_assetId v \<in> ma_id ` set (lb_assets st')"
    if "v \<in> set (lb_variants st')" for v
  proof -
    have "mv_storageKey v \<in> set (lib_keys st')" using that by (simp add: lib_keys_def)
    then have "lb_files st' (mv_storageKey v) = lb_files st (mv_storageKey v)" by (rule still)
    moreover have v: "v \<in> set (lb_variants st)" "mv_assetId v \<noteq> ma_id a" using that by (simp_all add: st'_def table_simps)
    then obtain r where "r \<in> set (lb_assets st)" "ma_id r = mv_assetId v" using ok by (auto simp: media_ok_def)
    then have "mv_assetId v \<in> ma_id ` set (lb_assets st')" using v(2) by (force simp: st'_def table_simps)
    ultimately show ?thesis using v ok by (simp add: media_ok_def)
  qed
  moreover have "k \<in> set (lib_keys st') \<or> stuck k" if "lb_files st' k \<noteq> None" for k
    using that media_okD(2) [OF ok, of k] files [of k] split by (auto split: if_splits)
  moreover have "distinct (map ma_id (lb_assets st'))" "distinct (map ma_checksumSha256 (lb_assets st'))"
    using ok by (auto simp: media_ok_def st'_def intro: distinct_map_delete_rows)
  ultimately have "media_ok env stuck st'" unfolding media_ok_def by blast
  moreover assume "media_remove id_eq stuck ow i st = (Inr a,
    st\<lparr>lb_assets := delete_rows ?P (lb_assets st), lb_variants := delete_rows ?Q (lb_variants st),
       lb_files := fold (driver_remove stuck) (ma_storageKey a # map mv_storageKey (filter ?Q (lb_variants st))) (lb_files st)\<rparr>)"
  ultimately show ?thesis by (simp add: st'_def gone_def)
qed

section \<open>The library under interleaved requests\<close>

record media_world =
  mw_lib :: media_lib
  mw_flights :: "prepared list"

inductive media_step :: "media_env \<Rightarrow> (string \<Rightarrow> bool) \<Rightarrow> media_world \<Rightarrow> media_world \<Rightarrow> bool" for env stuck where
  began: "upload_checks env rq (mw_lib w) = Inr (Inr p) \<Longrightarrow>
    media_step env stuck w (w\<lparr>mw_flights := mw_flights w @ [p]\<rparr>)"
| stored: "p \<in> set (mw_flights w) \<Longrightarrow> fresh_draw d p (mw_lib w) \<Longrightarrow>
    media_step env stuck w (w\<lparr>mw_lib := snd (upload_store fails stuck d p (mw_lib w)), mw_flights := remove1 p (mw_flights w)\<rparr>)"
| dropped: "media_step env stuck w (w\<lparr>mw_flights := remove1 p (mw_flights w)\<rparr>)"
| described: "media_step env stuck w (w\<lparr>mw_lib := snd (set_alt_text id_eq i alt_ar alt_en (mw_lib w))\<rparr>)"
| removed: "media_step env stuck w (w\<lparr>mw_lib := snd (media_remove id_eq stuck ow i (mw_lib w))\<rparr>)"

definition empty_library :: media_world where
  "empty_library = \<lparr>mw_lib = \<lparr>lb_assets = [], lb_variants = [], lb_files = (\<lambda>_. None)\<rparr>, mw_flights = []\<rparr>"

definition reachable_library :: "media_env \<Rightarrow> (string \<Rightarrow> bool) \<Rightarrow> media_world \<Rightarrow> bool" where
  "reachable_library env stuck w \<longleftrightarrow> (media_step env stuck)\<^sup>*\<^sup>* empty_library w"

lemma media_step_ok:
  assumes "media_step env stuck w w'" "media_ok env stuck (mw_lib w)" "\<forall>p \<in> set (mw_flights w). prepared_ok env p"
  shows "media_ok env stuck (mw_lib w') \<and> (\<forall>p \<in> set (mw_flights w'). prepared_ok env p)"
  using assms
proof (cases rule: media_step.cases)
  case (began rq p)
  then show ?thesis using assms upload_checks_ok by auto
next
  case (stored p d fails)
  then show ?thesis using assms media_ok_upload [of env stuck "mw_lib w" d p fails] set_remove1_subset [of p "mw_flights w"] by auto
next
  case (dropped p)
  then show ?thesis using assms set_remove1_subset [of p "mw_flights w"] by auto
qed (use media_ok_set_alt media_ok_remove in auto)

lemma reachable_library_ok:
  assumes "reachable_library env stuck w"
  shows "media_ok env stuck (mw_lib w)"
proof -
  have "media_ok env stuck (mw_lib w) \<and> (\<forall>p \<in> set (mw_flights w). prepared_ok env p)"
    using assms unfolding reachable_library_def
  proof (induction rule: rtranclp_induct)
    case base
    then show ?case by (simp add: empty_library_def media_ok_def lib_keys_def)
  next
    case (step w w')
    then show ?case using media_step_ok by blast
  qed
  then show ?thesis ..
qed


text \<open>A toy sharp: an image is the byte I and its payload, re-encoding strips all but the first.\<close>

definition toy_media :: media_env where
  "toy_media = \<lparr>mx_fileType = (\<lambda>b. if take 1 b = ''I'' then Some (''image/png'', ''png'') else None), mx_sha256 = (\<lambda>b. ''#'' @ b),
     mx_encode = (\<lambda>_ b. Inr (take 2 b, 10, 20)), mx_measure = (\<lambda>_. Inr (10, 20)), mx_resize = (\<lambda>_ b. Inr (''w'', 10))\<rparr>"

definition holiday_photo :: upload_request where
  "holiday_photo = \<lparr>ur_buffer = ''IxGPS'', ur_originalName = ''p.png'', ur_uploadedBy = None, ur_altAr = None\<rparr>"

definition toy_draw :: upload_draw where
  "toy_draw = \<lparr>ud_publicId = ''u'', ud_assetId = ''1'', ud_variantId = variant_label_name, ud_year = 2026, ud_month = 9, ud_now = 0\<rparr>"

definition photo_ready :: prepared where
  "photo_ready = \<lparr>pp_request = holiday_photo, pp_kind = MediaImage, pp_mime = ''image/png'', pp_ext = ''png'',
     pp_checksum = ''#IxGPS'', pp_body = ''Ix'', pp_widthPx = Some 10, pp_heightPx = Some 20,
     pp_variants = map (\<lambda>l. \<lparr>iv_label = l, iv_width = 10, iv_buffer = ''w''\<rparr>) [VariantThumb, VariantCard, VariantFull]\<rparr>"


end
