(* ===== verification/Licences.thy ===== *)
theory Licences
  imports Redirects
begin

text \<open>
  Licences and the one settings row: \<open>licences/admin-licences.controller.ts\<close> and
  \<open>site-settings/site-settings.controller.ts\<close>. Every licence write runs in a transaction that
  first locks the settings row, so the handlers are atomic here. Saving the settings is not: the
  row is read, changed in memory and saved, and a licence write may come between; \<open>save\<close> then
  writes every column that differs from the row as it is, so the two halves are two definitions.
\<close>

section \<open>State and requests\<close>

record licence_db =
  ld_licences :: "licence list"
  ld_settings :: site_settings
  ld_assets :: "asset_row list"

record licence_dto =
  ldt_titleAr :: "string option"
  ldt_titleEn :: "string option option"
  ldt_number :: "string option option"
  ldt_issuerAr :: "string option option"
  ldt_issuerEn :: "string option option"
  ldt_issuedOn :: "string option option"
  ldt_expiresOn :: "string option option"
  ldt_assetId :: "string option option"
  ldt_isPrimary :: "bool option"
  ldt_isPublished :: "bool option"
  ldt_sortOrder :: "int option"

definition assign_licence :: "licence_dto \<Rightarrow> licence \<Rightarrow> licence" where
  "assign_licence d l =
     l\<lparr>li_titleAr := given (ldt_titleAr d) (li_titleAr l), li_titleEn := given (ldt_titleEn d) (li_titleEn l),
       li_number := given (ldt_number d) (li_number l), li_issuerAr := given (ldt_issuerAr d) (li_issuerAr l),
       li_issuerEn := given (ldt_issuerEn d) (li_issuerEn l), li_issuedOn := given (ldt_issuedOn d) (li_issuedOn l),
       li_expiresOn := given (ldt_expiresOn d) (li_expiresOn l), li_assetId := given (ldt_assetId d) (li_assetId l),
       li_isPrimary := given (ldt_isPrimary d) (li_isPrimary l), li_isPublished := given (ldt_isPublished d) (li_isPublished l),
       li_sortOrder := given (ldt_sortOrder d) (li_sortOrder l)\<rparr>"

definition blank_licence :: "string \<Rightarrow> time \<Rightarrow> licence" where
  "blank_licence new_id now =
     \<lparr>li_id = new_id, li_titleAr = [], li_titleEn = None, li_number = None, li_issuerAr = None, li_issuerEn = None,
      li_issuedOn = None, li_expiresOn = None, li_assetId = None, li_isPrimary = False, li_isPublished = False,
      li_sortOrder = 0, li_createdAt = now, li_updatedAt = now\<rparr>"

section \<open>The checks\<close>

definition truthy :: "string option \<Rightarrow> bool" where
  "truthy s \<longleftrightarrow> s \<noteq> None \<and> s \<noteq> Some []"

definition validate_asset :: "(string \<Rightarrow> string \<Rightarrow> bool) \<Rightarrow> string option option \<Rightarrow> asset_row list \<Rightarrow> unit res" where
  "validate_asset id_eq asset_id assets =
     (case asset_id of
        Some (Some a) \<Rightarrow>
          if a \<noteq> [] \<and> \<not> (\<exists>r \<in> set assets. id_eq (as_id r) a)
          then fail_with 400 VALIDATION_FAILED ''The licence document does not exist'' [(''field'', JStr ''assetId'')]
          else Inr ()
      | _ \<Rightarrow> Inr ())"

text \<open>JavaScript compares two strings by their units.\<close>

fun string_less :: "string \<Rightarrow> string \<Rightarrow> bool" where
  "string_less _ [] = False"
| "string_less [] (_ # _) = True"
| "string_less (a # s) (b # t) =
     ((of_char a :: nat) < of_char b \<or> (a = b \<and> string_less s t))"

definition assert_dates :: "licence \<Rightarrow> unit res" where
  "assert_dates l =
     (if truthy (li_issuedOn l) \<and> truthy (li_expiresOn l) \<and> string_less (the (li_expiresOn l)) (the (li_issuedOn l))
      then fail_with 400 VALIDATION_FAILED ''expiresOn must not be before issuedOn'' [(''field'', JStr ''expiresOn'')]
      else Inr ())"

definition licence_asset_ids :: "licence_dto \<Rightarrow> string list" where
  "licence_asset_ids d = (case ldt_assetId d of Some (Some a) \<Rightarrow> [a] | _ \<Rightarrow> [])"

definition find_locked :: "(string \<Rightarrow> string \<Rightarrow> bool) \<Rightarrow> string \<Rightarrow> licence list \<Rightarrow> licence res" where
  "find_locked id_eq i rows =
     (case List.find (\<lambda>l. id_eq (li_id l) i) rows of None \<Rightarrow> fail 404 NOT_FOUND ''Not found'' | Some l \<Rightarrow> Inr l)"

section \<open>The two statements of every write\<close>

definition clear_primary :: "licence list \<Rightarrow> licence list" where
  "clear_primary rows = update_rows li_isPrimary (\<lambda>l. l\<lparr>li_isPrimary := False\<rparr>) rows"

definition or_null :: "string option \<Rightarrow> string option" where
  "or_null s = (if truthy s then s else None)"

definition primary_published :: "licence list \<Rightarrow> licence option" where
  "primary_published rows = List.find (\<lambda>l. li_isPrimary l \<and> li_isPublished l) rows"

definition licence_line :: "licence list \<Rightarrow> string option \<times> string option \<times> string option" where
  "licence_line rows =
     (case primary_published rows of
        None \<Rightarrow> (None, None, None)
      | Some p \<Rightarrow> (or_null (li_number p), or_null (li_issuerAr p), or_null (li_issuerEn p)))"

definition sync_site_settings :: "licence_db \<Rightarrow> licence_db" where
  "sync_site_settings db =
     (let (n, ar, en) = licence_line (ld_licences db)
      in db\<lparr>ld_settings := (ld_settings db)\<lparr>si_licenceNo := n, si_licenceIssuerAr := ar, si_licenceIssuerEn := en\<rparr>\<rparr>)"

definition put_licence :: "licence \<Rightarrow> licence list \<Rightarrow> licence list" where
  "put_licence l rows = update_rows (\<lambda>r. li_id r = li_id l) (\<lambda>_. l) rows"

section \<open>The handlers\<close>

type_synonym licence_result = "licence res \<times> licence_db \<times> licence audit_context option \<times> string list"

definition licence_purge :: "string list" where
  "licence_purge = [''licences'', ''site_settings'', ''home'']"

definition licence_audit :: "audit_action \<Rightarrow> string \<Rightarrow> licence \<Rightarrow> licence option \<Rightarrow> licence option \<Rightarrow> licence audit_context" where
  "licence_audit act i l before after =
     \<lparr>ac_action = act, ac_entityType = ''licences'', ac_entityId = Some i, ac_entityLabel = li_titleAr l,
      ac_before = before, ac_after = after\<rparr>"

definition create_licence :: "sql_compare \<Rightarrow> string \<Rightarrow> time \<Rightarrow> licence_dto \<Rightarrow> licence_db \<Rightarrow> licence_result" where
  "create_licence c new_id now d db =
     (case validate_asset (sc_id c) (ldt_assetId d) (ld_assets db) of
        Inl e \<Rightarrow> (Inl e, db, None, [])
      | Inr _ \<Rightarrow>
          (case assert_alt_text_ready (sc_id c) (ld_assets db) (licence_asset_ids d) of
             Inl e \<Rightarrow> (Inl e, db, None, [])
           | Inr _ \<Rightarrow>
               (let draft = assign_licence d (blank_licence new_id now)
                in case assert_dates draft of
                     Inl e \<Rightarrow> (Inl e, db, None, [])
                   | Inr _ \<Rightarrow>
                       (let rows = (if li_isPrimary draft then clear_primary (ld_licences db) else ld_licences db)
                        in (Inr draft, sync_site_settings (db\<lparr>ld_licences := rows @ [draft]\<rparr>),
                            Some (licence_audit ACreate new_id draft None (Some draft)), licence_purge)))))"

definition update_licence :: "sql_compare \<Rightarrow> string \<Rightarrow> licence_dto \<Rightarrow> licence_db \<Rightarrow> licence_result" where
  "update_licence c i d db =
     (case validate_asset (sc_id c) (ldt_assetId d) (ld_assets db) of
        Inl e \<Rightarrow> (Inl e, db, None, [])
      | Inr _ \<Rightarrow>
          (case assert_alt_text_ready (sc_id c) (ld_assets db) (licence_asset_ids d) of
             Inl e \<Rightarrow> (Inl e, db, None, [])
           | Inr _ \<Rightarrow>
               (case find_locked (sc_id c) i (ld_licences db) of
                  Inl e \<Rightarrow> (Inl e, db, None, [])
                | Inr before \<Rightarrow>
                    (let current = assign_licence d before
                     in case assert_dates current of
                          Inl e \<Rightarrow> (Inl e, db, None, [])
                        | Inr _ \<Rightarrow>
                            (let rows = (if li_isPrimary current \<and> \<not> li_isPrimary before
                                         then clear_primary (ld_licences db) else ld_licences db)
                             in (Inr current, sync_site_settings (db\<lparr>ld_licences := put_licence current rows\<rparr>),
                                 Some (licence_audit (if li_isPublished before = li_isPublished current then AUpdate
                                                      else if li_isPublished current then APublish else AUnpublish)
                                         i current (Some before) (Some current)),
                                 licence_purge))))))"

definition publish_licence :: "sql_compare \<Rightarrow> string \<Rightarrow> bool option \<Rightarrow> licence_db \<Rightarrow> licence_result" where
  "publish_licence c i is_published db =
     (let b = (case is_published of None \<Rightarrow> True | Some b \<Rightarrow> b)
      in case find_locked (sc_id c) i (ld_licences db) of
           Inl e \<Rightarrow> (Inl e, db, None, [])
         | Inr l \<Rightarrow>
             (let current = l\<lparr>li_isPublished := b\<rparr>
              in (Inr current, sync_site_settings (db\<lparr>ld_licences := put_licence current (ld_licences db)\<rparr>),
                  Some (licence_audit (if b then APublish else AUnpublish) i current None None), licence_purge)))"

definition make_primary :: "sql_compare \<Rightarrow> string \<Rightarrow> licence_db \<Rightarrow> licence_result" where
  "make_primary c i db =
     (case find_locked (sc_id c) i (ld_licences db) of
        Inl e \<Rightarrow> (Inl e, db, None, [])
      | Inr l \<Rightarrow>
          (let current = l\<lparr>li_isPrimary := True\<rparr>
           in (Inr current,
               sync_site_settings (db\<lparr>ld_licences := put_licence current (clear_primary (ld_licences db))\<rparr>),
               Some (licence_audit AUpdate i current None (Some current)), licence_purge)))"

definition remove_licence :: "sql_compare \<Rightarrow> string \<Rightarrow> licence_db \<Rightarrow> licence_result" where
  "remove_licence c i db =
     (case find_locked (sc_id c) i (ld_licences db) of
        Inl e \<Rightarrow> (Inl e, db, None, [])
      | Inr l \<Rightarrow>
          (Inr l, sync_site_settings (db\<lparr>ld_licences := delete_rows (\<lambda>r. li_id r = li_id l) (ld_licences db)\<rparr>),
           Some (licence_audit ADelete i l (Some l) None), licence_purge))"

text \<open>The kernel's reorder route, which the controller keeps.\<close>

definition reorder_licences :: "sql_compare \<Rightarrow> (string \<times> int) list \<Rightarrow> licence_db \<Rightarrow> nat res \<times> licence_db \<times> licence audit_context option \<times> string list" where
  "reorder_licences c items db =
     (case crud_reorder (licence_options c (\<lambda>_. False)) (sc_id c) items
             \<lparr>cd_rows = ld_licences db, cd_redirects = [], cd_assets = ld_assets db\<rparr> of
        (r, db', audit, tags) \<Rightarrow> (r, db\<lparr>ld_licences := cd_rows db'\<rparr>, audit, tags))"

section \<open>The settings row\<close>

text \<open>The body of \<open>PUT admin/settings\<close>: no licence column is among its fields.\<close>

record site_dto =
  sd_orgNameAr :: "string option"
  sd_orgNameEn :: "string option option"
  sd_taglineAr :: "string option option"
  sd_taglineEn :: "string option option"
  sd_footerBlurbAr :: "string option option"
  sd_footerBlurbEn :: "string option option"
  sd_rightsLineAr :: "string option option"
  sd_rightsLineEn :: "string option option"
  sd_phone :: "string option option"
  sd_email :: "string option option"
  sd_addressAr :: "string option option"
  sd_addressEn :: "string option option"
  sd_facebookUrl :: "string option option"
  sd_instagramUrl :: "string option option"
  sd_xUrl :: "string option option"
  sd_youtubeUrl :: "string option option"
  sd_linkedinUrl :: "string option option"
  sd_whatsappUrl :: "string option option"
  sd_tiktokUrl :: "string option option"
  sd_mapEmbedUrl :: "string option option"
  sd_mapLat :: "string option option"
  sd_mapLng :: "string option option"
  sd_enEnabled :: "bool option"
  sd_seoTitleAr :: "string option option"
  sd_seoTitleEn :: "string option option"
  sd_seoDescriptionAr :: "string option option"
  sd_seoDescriptionEn :: "string option option"

definition assign_site :: "site_dto \<Rightarrow> site_settings \<Rightarrow> site_settings" where
  "assign_site d s =
     s\<lparr>si_orgNameAr := given (sd_orgNameAr d) (si_orgNameAr s), si_orgNameEn := given (sd_orgNameEn d) (si_orgNameEn s),
       si_taglineAr := given (sd_taglineAr d) (si_taglineAr s), si_taglineEn := given (sd_taglineEn d) (si_taglineEn s),
       si_footerBlurbAr := given (sd_footerBlurbAr d) (si_footerBlurbAr s), si_footerBlurbEn := given (sd_footerBlurbEn d) (si_footerBlurbEn s),
       si_rightsLineAr := given (sd_rightsLineAr d) (si_rightsLineAr s), si_rightsLineEn := given (sd_rightsLineEn d) (si_rightsLineEn s),
       si_phone := given (sd_phone d) (si_phone s), si_email := given (sd_email d) (si_email s),
       si_addressAr := given (sd_addressAr d) (si_addressAr s), si_addressEn := given (sd_addressEn d) (si_addressEn s),
       si_facebookUrl := given (sd_facebookUrl d) (si_facebookUrl s), si_instagramUrl := given (sd_instagramUrl d) (si_instagramUrl s),
       si_xUrl := given (sd_xUrl d) (si_xUrl s), si_youtubeUrl := given (sd_youtubeUrl d) (si_youtubeUrl s),
       si_linkedinUrl := given (sd_linkedinUrl d) (si_linkedinUrl s), si_whatsappUrl := given (sd_whatsappUrl d) (si_whatsappUrl s),
       si_tiktokUrl := given (sd_tiktokUrl d) (si_tiktokUrl s), si_mapEmbedUrl := given (sd_mapEmbedUrl d) (si_mapEmbedUrl s),
       si_mapLat := given (sd_mapLat d) (si_mapLat s), si_mapLng := given (sd_mapLng d) (si_mapLng s),
       si_enEnabled := given (sd_enEnabled d) (si_enEnabled s), si_seoTitleAr := given (sd_seoTitleAr d) (si_seoTitleAr s),
       si_seoTitleEn := given (sd_seoTitleEn d) (si_seoTitleEn s), si_seoDescriptionAr := given (sd_seoDescriptionAr d) (si_seoDescriptionAr s),
       si_seoDescriptionEn := given (sd_seoDescriptionEn d) (si_seoDescriptionEn s)\<rparr>"

text \<open>\<open>findSingleton\<close> of the one row, the change in memory, and \<open>save\<close>, which writes the columns that
  differ from the row it finds: afterwards the row is the entity in memory.\<close>

definition settings_edit :: "string \<Rightarrow> site_dto \<Rightarrow> site_settings \<Rightarrow> site_settings" where
  "settings_edit user_id d row = (assign_site d row)\<lparr>si_updatedBy := Some user_id\<rparr>"

definition settings_save :: "site_settings \<Rightarrow> licence_db \<Rightarrow> licence_db" where
  "settings_save entity db = db\<lparr>ld_settings := entity\<rparr>"

definition update_site_settings ::
  "string \<Rightarrow> site_dto \<Rightarrow> licence_db \<Rightarrow> site_settings res \<times> licence_db \<times> site_settings audit_context option \<times> string list" where
  "update_site_settings user_id d db =
     (let before = ld_settings db; saved = settings_edit user_id d before
      in (Inr saved, settings_save saved db,
          Some \<lparr>ac_action = AUpdate, ac_entityType = ''site_settings'', ac_entityId = Some (si_id saved),
                ac_entityLabel = ''site settings'', ac_before = Some before, ac_after = Some saved\<rparr>,
          [''site_settings'', ''home'']))"

section \<open>One primary, and the settings follow it\<close>

datatype licence_op =
    LicenceCreate string time licence_dto
  | LicenceUpdate string licence_dto
  | LicencePublish string "bool option"
  | LicencePrimary string
  | LicenceRemove string
  | LicenceReorder "(string \<times> int) list"
  | SettingsPut string site_dto

fun licence_step :: "sql_compare \<Rightarrow> licence_op \<Rightarrow> licence_db \<Rightarrow> licence_db" where
  "licence_step c (LicenceCreate new_id now d) db = fst (snd (create_licence c new_id now d db))"
| "licence_step c (LicenceUpdate i d) db = fst (snd (update_licence c i d db))"
| "licence_step c (LicencePublish i b) db = fst (snd (publish_licence c i b db))"
| "licence_step c (LicencePrimary i) db = fst (snd (make_primary c i db))"
| "licence_step c (LicenceRemove i) db = fst (snd (remove_licence c i db))"
| "licence_step c (LicenceReorder items) db = fst (snd (reorder_licences c items db))"
| "licence_step c (SettingsPut user d) db = fst (snd (update_site_settings user d db))"

definition settings_line :: "site_settings \<Rightarrow> string option \<times> string option \<times> string option" where
  "settings_line s = (si_licenceNo s, si_licenceIssuerAr s, si_licenceIssuerEn s)"

definition one_primary :: "licence list \<Rightarrow> bool" where
  "one_primary rows \<longleftrightarrow> (\<forall>a \<in> set rows. \<forall>b \<in> set rows. li_isPrimary a \<and> li_isPrimary b \<longrightarrow> li_id a = li_id b)"

definition licences_ok :: "licence_db \<Rightarrow> bool" where
  "licences_ok db \<longleftrightarrow> one_primary (ld_licences db) \<and> settings_line (ld_settings db) = licence_line (ld_licences db)"

lemma synced [simp]:
  "ld_licences (sync_site_settings db) = ld_licences db"
  "settings_line (ld_settings (sync_site_settings db)) = licence_line (ld_licences db)"
  by (auto simp: sync_site_settings_def settings_line_def split: prod.splits)

lemma licences_ok_sync: "one_primary (ld_licences db) \<Longrightarrow> licences_ok (sync_site_settings db)"
  by (simp add: licences_ok_def)

lemma one_primary_cleared: "l \<in> set (clear_primary rows) \<Longrightarrow> \<not> li_isPrimary l"
  by (auto simp: clear_primary_def table_simps)

lemma one_primaryD:
  "one_primary rows \<Longrightarrow> a \<in> set rows \<Longrightarrow> b \<in> set rows \<Longrightarrow> li_isPrimary a \<Longrightarrow> li_isPrimary b \<Longrightarrow> li_id a = li_id b"
  unfolding one_primary_def by blast

lemma one_primary_put:
  assumes "one_primary rows" "li_isPrimary l \<Longrightarrow> (\<forall>r \<in> set rows. li_isPrimary r \<longrightarrow> li_id r = li_id l)"
  shows "one_primary (put_licence l rows)"
proof -
  have mem: "x = l \<or> x \<in> set rows" if "x \<in> set (put_licence l rows)" for x
    using that by (auto simp: put_licence_def table_simps)
  show ?thesis
    unfolding one_primary_def using mem assms one_primaryD by metis
qed

lemma one_primary_append:
  assumes "one_primary rows" "li_isPrimary l \<Longrightarrow> (\<forall>r \<in> set rows. \<not> li_isPrimary r)"
  shows "one_primary (rows @ [l])"
proof -
  have mem: "x = l \<or> x \<in> set rows" if "x \<in> set (rows @ [l])" for x
    using that by auto
  show ?thesis
    unfolding one_primary_def using mem assms one_primaryD by metis
qed

lemma one_primary_clear: "one_primary (clear_primary rows)"
  using one_primary_cleared by (force simp: one_primary_def)

lemma one_primary_delete: "one_primary rows \<Longrightarrow> one_primary (delete_rows P rows)"
  unfolding one_primary_def by (simp only: table_simps) blast

lemma find_locked_ok: "find_locked id_eq i rows = Inr l \<Longrightarrow> l \<in> set rows"
  by (auto simp: find_locked_def split: option.splits dest: find_SomeD)

lemma assign_licence_id [simp]: "li_id (assign_licence d l) = li_id l"
  by (simp add: assign_licence_def)

lemma create_licence_ok:
  assumes "licences_ok db"
  shows "licences_ok (fst (snd (create_licence c new_id now d db)))"
proof -
  let ?l = "assign_licence d (blank_licence new_id now)"
  let ?rows = "if li_isPrimary ?l then clear_primary (ld_licences db) else ld_licences db"
  have "one_primary (?rows @ [?l])"
    using assms one_primary_cleared by (intro one_primary_append) (auto simp: licences_ok_def one_primary_clear)
  then show ?thesis
    using assms licences_ok_sync [of "db\<lparr>ld_licences := ?rows @ [?l]\<rparr>"]
    by (auto simp: create_licence_def Let_def split: sum.splits)
qed

lemma put_current_ok:
  assumes "licences_ok db" "l \<in> set (ld_licences db)" "li_id cur = li_id l"
  shows "one_primary (put_licence cur (if li_isPrimary cur \<and> \<not> li_isPrimary l then clear_primary (ld_licences db) else ld_licences db))"
proof (rule one_primary_put)
  show "one_primary (if li_isPrimary cur \<and> \<not> li_isPrimary l then clear_primary (ld_licences db) else ld_licences db)"
    using assms(1) by (simp add: one_primary_clear licences_ok_def)
  assume "li_isPrimary cur"
  then show "\<forall>r \<in> set (if li_isPrimary cur \<and> \<not> li_isPrimary l then clear_primary (ld_licences db) else ld_licences db).
      li_isPrimary r \<longrightarrow> li_id r = li_id cur"
    using assms one_primary_cleared one_primaryD by (metis licences_ok_def)
qed

lemma update_licence_ok:
  assumes "licences_ok db"
  shows "licences_ok (fst (snd (update_licence c i d db)))"
proof (cases "find_locked (sc_id c) i (ld_licences db)")
  case (Inr l)
  let ?cur = "assign_licence d l"
  let ?rows = "if li_isPrimary ?cur \<and> \<not> li_isPrimary l then clear_primary (ld_licences db) else ld_licences db"
  have "one_primary (put_licence ?cur ?rows)" by (rule put_current_ok) (simp_all add: assms find_locked_ok [OF Inr])
  then show ?thesis
    using assms Inr licences_ok_sync [of "db\<lparr>ld_licences := put_licence ?cur ?rows\<rparr>"]
    by (auto simp: update_licence_def Let_def split: sum.splits)
qed (use assms in \<open>auto simp: update_licence_def split: sum.splits\<close>)

lemma publish_licence_ok:
  assumes "licences_ok db"
  shows "licences_ok (fst (snd (publish_licence c i b db)))"
proof (cases "find_locked (sc_id c) i (ld_licences db)")
  case (Inr l)
  have "one_primary (put_licence (l\<lparr>li_isPublished := x\<rparr>) (ld_licences db))" for x
    using put_current_ok [OF assms find_locked_ok [OF Inr], of "l\<lparr>li_isPublished := x\<rparr>"] by simp
  then show ?thesis using Inr by (simp add: publish_licence_def Let_def licences_ok_sync)
qed (use assms in \<open>simp add: publish_licence_def Let_def\<close>)

lemma make_primary_ok:
  assumes "licences_ok db"
  shows "licences_ok (fst (snd (make_primary c i db)))"
proof (cases "find_locked (sc_id c) i (ld_licences db)")
  case (Inr l)
  have "one_primary (put_licence (l\<lparr>li_isPrimary := True\<rparr>) (clear_primary (ld_licences db)))"
    using one_primary_cleared by (intro one_primary_put one_primary_clear) blast
  then show ?thesis using Inr by (simp add: make_primary_def Let_def licences_ok_sync)
qed (use assms in \<open>simp add: make_primary_def\<close>)

lemma remove_licence_ok:
  assumes "licences_ok db"
  shows "licences_ok (fst (snd (remove_licence c i db)))"
  using assms by (auto simp: remove_licence_def licences_ok_sync one_primary_delete licences_ok_def [of db] split: sum.splits)

text \<open>A reorder moves nothing but the sort order.\<close>

lemma reordered_rows:
  "ld_licences (fst (snd (reorder_licences c items db)))
    = fold (\<lambda>(i, n). update_rows (\<lambda>r. sc_id c (li_id r) i) (\<lambda>l. l\<lparr>li_sortOrder := n\<rparr>)) items (ld_licences db)"
  by (simp add: reorder_licences_def crud_reorder_def licence_options_def Let_def)

lemma licence_line_reorder:
  "licence_line (update_rows P (\<lambda>l. l\<lparr>li_sortOrder := n\<rparr>) rows) = licence_line rows"
proof -
  have "primary_published (update_rows P (\<lambda>l. l\<lparr>li_sortOrder := n\<rparr>) rows)
      = map_option (\<lambda>l. if P l then l\<lparr>li_sortOrder := n\<rparr> else l) (primary_published rows)"
    by (simp add: primary_published_def find_update_rows)
  then show ?thesis by (auto simp: licence_line_def split: option.splits)
qed

lemma one_primary_reorder: "one_primary rows \<Longrightarrow> one_primary (update_rows P (\<lambda>l. l\<lparr>li_sortOrder := n\<rparr>) rows)"
proof -
  have "\<exists>y \<in> set rows. li_isPrimary y = li_isPrimary x \<and> li_id y = li_id x"
    if "x \<in> set (update_rows P (\<lambda>l. l\<lparr>li_sortOrder := n\<rparr>) rows)" for x
    using that by (auto simp: table_simps)
  then show "one_primary rows \<Longrightarrow> ?thesis" unfolding one_primary_def by metis
qed

lemma reorder_licences_ok:
  assumes "licences_ok db"
  shows "licences_ok (fst (snd (reorder_licences c items db)))"
proof -
  let ?f = "fold (\<lambda>(i, n). update_rows (\<lambda>r. sc_id c (li_id r) i) (\<lambda>l. l\<lparr>li_sortOrder := n\<rparr>)) items"
  have "licence_line (?f rows) = licence_line rows \<and> (one_primary rows \<longrightarrow> one_primary (?f rows))" for rows
    by (induction items arbitrary: rows) (auto simp: licence_line_reorder one_primary_reorder)
  moreover have "ld_settings (fst (snd (reorder_licences c items db))) = ld_settings db"
    by (simp add: reorder_licences_def crud_reorder_def Let_def)
  ultimately show ?thesis using assms by (simp add: licences_ok_def reordered_rows)
qed

lemma settings_line_edit [simp]: "settings_line (settings_edit user d row) = settings_line row"
  by (simp add: settings_line_def settings_edit_def assign_site_def)

lemma licence_step_ok: "licences_ok db \<Longrightarrow> licences_ok (licence_step c op db)"
proof (cases op)
  case (SettingsPut user d)
  then show "licences_ok db \<Longrightarrow> ?thesis"
    by (simp add: update_site_settings_def settings_save_def licences_ok_def Let_def)
qed (auto intro: create_licence_ok update_licence_ok publish_licence_ok make_primary_ok remove_licence_ok reorder_licences_ok)

interpretation licence_runs: kept_invariant "licence_step c" licences_ok
  by unfold_locales (rule licence_step_ok)


text \<open>Licence 1 primary and published, then licence 2 takes over.\<close>

definition numbered :: "string \<Rightarrow> licence_dto" where
  "numbered n = \<lparr>ldt_titleAr = Some ''t'', ldt_titleEn = None, ldt_number = Some (Some n), ldt_issuerAr = None, ldt_issuerEn = None,
     ldt_issuedOn = None, ldt_expiresOn = None, ldt_assetId = None, ldt_isPrimary = Some True, ldt_isPublished = Some True,
     ldt_sortOrder = None\<rparr>"

definition blank_site :: site_settings where
  "blank_site = \<lparr>si_id = ''1'', si_orgNameAr = ''o'', si_orgNameEn = None, si_taglineAr = None, si_taglineEn = None,
     si_footerBlurbAr = None, si_footerBlurbEn = None, si_rightsLineAr = None, si_rightsLineEn = None, si_phone = None,
     si_email = None, si_addressAr = None, si_addressEn = None, si_facebookUrl = None, si_instagramUrl = None,
     si_xUrl = None, si_youtubeUrl = None, si_linkedinUrl = None, si_whatsappUrl = None, si_tiktokUrl = None,
     si_mapEmbedUrl = None, si_mapLat = None, si_mapLng = None, si_enEnabled = True, si_seoTitleAr = None, si_seoTitleEn = None,
     si_seoDescriptionAr = None, si_seoDescriptionEn = None, si_licenceNo = None, si_licenceIssuerAr = None,
     si_licenceIssuerEn = None, si_encryptionKeyCheck = None, si_updatedBy = None, si_updatedAt = 0\<rparr>"

definition no_licences :: licence_db where
  "no_licences = \<lparr>ld_licences = [], ld_settings = blank_site, ld_assets = []\<rparr>"

definition two_licences :: licence_db where
  "two_licences = fold (licence_step exact_compare) [LicenceCreate ''1'' 0 (numbered ''A1''), LicenceCreate ''2'' 0 (numbered ''B2'')] no_licences"

lemma two_licences_rows:
  "ld_licences two_licences = [(assign_licence (numbered ''A1'') (blank_licence ''1'' 0))\<lparr>li_isPrimary := False\<rparr>,
     assign_licence (numbered ''B2'') (blank_licence ''2'' 0)]"
  by (simp add: two_licences_def no_licences_def create_licence_def validate_asset_def assert_alt_text_ready_def
      licence_asset_ids_def numbered_def assign_licence_def given_def blank_licence_def assert_dates_def truthy_def
      clear_primary_def Let_def)


text \<open>
  A settings form that was read before a licence change and is saved after it puts the old
  licence line back, although it names no licence column.
\<close>

lemma stale_settings_save_reverts_licence:
  "let form = settings_edit ''7'' d (ld_settings no_licences);
       db = settings_save form two_licences
   in \<not> licences_ok db \<and> settings_line (ld_settings db) = (None, None, None)"
proof -
  have form: "settings_line (settings_edit ''7'' d (ld_settings no_licences)) = (None, None, None)"
    by (simp add: no_licences_def blank_site_def settings_line_def settings_edit_def assign_site_def)
  have "licence_line (ld_licences two_licences) = (Some ''B2'', None, None)"
    unfolding two_licences_rows
    by (simp add: licence_line_def primary_published_def numbered_def assign_licence_def given_def blank_licence_def or_null_def truthy_def)
  then show ?thesis using form by (simp add: settings_save_def licences_ok_def Let_def)
qed

end
