(* ===== verification/MediaGate.thy ===== *)
theory MediaGate
  imports MediaFiles Licences SignedLinks
begin

text \<open>
  Who may fetch a file: \<open>files/files.controller.ts\<close> with the memoised publication check of
  \<open>media/media.service.ts\<close>, against every admin handler that writes a table an asset can be
  shown from. As with the response cache, a check that misses the memo is several steps (it
  snapshots the tag versions, asks the database, stores the answer), and a write commits before
  its purges run.
\<close>

section \<open>The check and the gate\<close>

definition is_publicly_readable ::
  "string list \<Rightarrow> bool \<Rightarrow> owner_tables \<Rightarrow> string \<Rightarrow> 'v cache_state \<Rightarrow> bool \<times> 'v cache_state" where
  "is_publicly_readable victims fits ow asset_id c =
     (case get_memo (memo_key asset_id) c of
        Some b \<Rightarrow> (b, c)
      | None \<Rightarrow>
          (let version = version_of ASSET_PUBLIC_MEMO_TAGS c;
               b = query_is_publicly_readable asset_id ow
           in (b, snd (set_memo victims fits (memo_key asset_id) b ASSET_PUBLIC_MEMO_TAGS (Some version) c))))"

datatype gate = AllowPublic | AllowPrivate | Deny

record file_env =
  fe_auth :: auth_env
  fe_number :: "string \<Rightarrow> nat option"
  fe_compare :: sql_compare

record file_request =
  fr_signedIn :: bool
  fr_query :: query
  fr_now :: nat

definition all_digits :: "string \<Rightarrow> bool" where
  "all_digits s \<longleftrightarrow> s \<noteq> [] \<and> (\<forall>c \<in> set s. is_digit c)"

text \<open>The preview branch: a valid token for a post that shows the asset.\<close>

definition preview_unlocks :: "file_env \<Rightarrow> file_request \<Rightarrow> owner_tables \<Rightarrow> string \<Rightarrow> bool" where
  "preview_unlocks env rq ow asset_id \<longleftrightarrow>
     (case (read_string (fr_query rq) ''preview'', read_string (fr_query rq) ''post'') of
        (Some token, Some post_id) \<Rightarrow>
          token \<noteq> [] \<and> post_id \<noteq> [] \<and> all_digits post_id
          \<and> verify_preview_token (fe_auth env) (fe_number env) (fr_now rq) ''posts'' post_id token
          \<and> is_used_by_post (sc_id (fe_compare env)) asset_id post_id ow
      | _ \<Rightarrow> False)"

definition gate_publication ::
  "file_env \<Rightarrow> string list \<Rightarrow> bool \<Rightarrow> file_request \<Rightarrow> owner_tables \<Rightarrow> string \<Rightarrow> 'v cache_state \<Rightarrow> gate \<times> 'v cache_state" where
  "gate_publication env victims fits rq ow asset_id c =
     (let (shown, c') = is_publicly_readable victims fits ow asset_id c
      in (if shown then AllowPublic
          else if fr_signedIn rq then AllowPrivate
          else if preview_unlocks env rq ow asset_id then AllowPrivate
          else Deny, c'))"

section \<open>The two routes\<close>

definition ORIGINAL_CACHE_CONTROL :: string where "ORIGINAL_CACHE_CONTROL = ''public, max-age=300, stale-while-revalidate=60''"
definition VARIANT_CACHE_CONTROL :: string where "VARIANT_CACHE_CONTROL = ''public, max-age=31536000, immutable''"
definition PRIVATE_NO_STORE :: string where "PRIVATE_NO_STORE = ''private, no-store''"

record file_response =
  fp_contentType :: string
  fp_cacheControl :: string
  fp_nosniff :: bool
  fp_disposition :: "codes option"
  fp_body :: string

text \<open>A stored name, back as a JavaScript string.\<close>

definition read_text :: "string \<Rightarrow> codes" where
  "read_text s = (case read_all_utf8 (map of_char s) of Some ps \<Rightarrow> utf16 ps | None \<Rightarrow> [0xFFFD])"

definition not_found :: "'a res" where
  "not_found = Inl (HttpExn 404 [''Not Found''] ''Not Found'')"

definition send_file :: "files \<Rightarrow> string \<Rightarrow> string \<Rightarrow> string option \<Rightarrow> bool \<Rightarrow> string \<Rightarrow> file_response res" where
  "send_file fs key mime attachment is_private cache_control =
     (let header = (case attachment of None \<Rightarrow> Inr None
                    | Some name \<Rightarrow> (case content_disposition Attachment (read_text name) of
                                      None \<Rightarrow> Inl (OtherExn ''URI malformed'') | Some h \<Rightarrow> Inr (Some h)))
      in case header of
           Inl e \<Rightarrow> Inl e
         | Inr h \<Rightarrow>
             (case fs key of
                None \<Rightarrow> not_found
              | Some body \<Rightarrow>
                  Inr \<lparr>fp_contentType = mime, fp_cacheControl = (if is_private then PRIVATE_NO_STORE else cache_control),
                       fp_nosniff = True, fp_disposition = h, fp_body = body\<rparr>))"

definition stream_original ::
  "file_env \<Rightarrow> string list \<Rightarrow> bool \<Rightarrow> file_request \<Rightarrow> media_lib \<Rightarrow> string \<Rightarrow> owner_tables \<Rightarrow> 'v cache_state
     \<Rightarrow> file_response res \<times> owner_tables \<times> 'v cache_state" where
  "stream_original env victims fits rq lib public_id ow c =
     (case find_by_public_id (sc_text (fe_compare env)) public_id lib of
        None \<Rightarrow> (not_found, ow, c)
      | Some a \<Rightarrow>
          (let (g, c') = gate_publication env victims fits rq ow (ma_id a) c
           in if g = Deny then (not_found, ow, c')
              else (send_file (lb_files lib) (ma_storageKey a) (ma_mimeType a)
                      (if ma_kind a = MediaPdf then Some (ma_originalName a) else None) (g = AllowPrivate) ORIGINAL_CACHE_CONTROL,
                    (if ma_kind a = MediaPdf then increment_download_count (sc_text (fe_compare env)) lib public_id ow else ow),
                    c')))"

definition stream_variant ::
  "file_env \<Rightarrow> string list \<Rightarrow> bool \<Rightarrow> file_request \<Rightarrow> media_lib \<Rightarrow> string \<Rightarrow> string \<Rightarrow> owner_tables \<Rightarrow> 'v cache_state
     \<Rightarrow> file_response res \<times> 'v cache_state" where
  "stream_variant env victims fits rq lib public_id variant ow c =
     (case find_by_public_id (sc_text (fe_compare env)) public_id lib of
        None \<Rightarrow> (not_found, c)
      | Some a \<Rightarrow>
          (let (g, c') = gate_publication env victims fits rq ow (ma_id a) c
           in if g = Deny then (not_found, c')
              else (case find_variant (sc_text (fe_compare env)) (ma_id a) variant lib of
                      None \<Rightarrow> (not_found, c')
                    | Some v \<Rightarrow> (send_file (lb_files lib) (mv_storageKey v) ''image/webp'' None (g = AllowPrivate) VARIANT_CACHE_CONTROL, c'))))"

section \<open>The writes that can change the answer\<close>

datatype 'e crud_request =
    CreateRow "string list" 'e
  | ReorderRows "(string \<times> int) list"
  | UpdateRow string "string list" string "'e \<Rightarrow> 'e"
  | PublishRow string "bool option"
  | RemoveRow string

fun crud_handle :: "'e crud_options \<Rightarrow> sql_compare \<Rightarrow> 'e crud_request \<Rightarrow> 'e crud_db \<Rightarrow> 'e crud_db \<times> string list" where
  "crud_handle opts c (CreateRow ids e) db = (case crud_create opts (sc_id c) (sc_text c) ids e db of (_, db', _, ts) \<Rightarrow> (db', ts))"
| "crud_handle opts c (ReorderRows items) db = (case crud_reorder opts (sc_id c) items db of (_, db', _, ts) \<Rightarrow> (db', ts))"
| "crud_handle opts c (UpdateRow rid ids i f) db =
     (case crud_update opts (sc_id c) (sc_text c) rid ids i f db of (_, db', _, ts) \<Rightarrow> (db', ts))"
| "crud_handle opts c (PublishRow i b) db = (case crud_publish opts (sc_id c) i b db of (_, db', _, ts) \<Rightarrow> (db', ts))"
| "crud_handle opts c (RemoveRow i) db = (case crud_remove opts (sc_id c) i db of (_, db', _, ts) \<Rightarrow> (db', ts))"

text \<open>A handler that changes rows purges the collection's tags; one that fails changes nothing.\<close>

lemma crud_handle_purges:
  assumes "crud_handle opts c rq db = (db', ts)"
  shows "cd_rows db' = cd_rows db \<or> set (purge_list opts) \<subseteq> set ts"
proof (cases rq)
  case (CreateRow ids e)
  then show ?thesis using assms by (auto simp: crud_create_def Let_def split: sum.splits option.splits prod.splits)
next
  case (ReorderRows items)
  then show ?thesis using assms by (auto simp: crud_reorder_def Let_def)
next
  case (UpdateRow rid ids i f)
  then show ?thesis using assms by (auto simp: crud_update_def Let_def split: sum.splits prod.splits)
next
  case (PublishRow i b)
  then show ?thesis using assms by (auto simp: crud_publish_def Let_def split: sum.splits)
next
  case (RemoveRow i)
  then show ?thesis using assms by (auto simp: crud_remove_def Let_def split: sum.splits if_splits)
qed

fun licence_handle :: "sql_compare \<Rightarrow> licence_op \<Rightarrow> licence_db \<Rightarrow> licence_db \<times> string list" where
  "licence_handle c (LicenceCreate i now d) db = (case create_licence c i now d db of (_, db', _, ts) \<Rightarrow> (db', ts))"
| "licence_handle c (LicenceUpdate i d) db = (case update_licence c i d db of (_, db', _, ts) \<Rightarrow> (db', ts))"
| "licence_handle c (LicencePublish i b) db = (case publish_licence c i b db of (_, db', _, ts) \<Rightarrow> (db', ts))"
| "licence_handle c (LicencePrimary i) db = (case make_primary c i db of (_, db', _, ts) \<Rightarrow> (db', ts))"
| "licence_handle c (LicenceRemove i) db = (case remove_licence c i db of (_, db', _, ts) \<Rightarrow> (db', ts))"
| "licence_handle c (LicenceReorder items) db = (case reorder_licences c items db of (_, db', _, ts) \<Rightarrow> (db', ts))"
| "licence_handle c (SettingsPut user d) db = (case update_site_settings user d db of (_, db', _, ts) \<Rightarrow> (db', ts))"

lemma licence_handle_purges:
  assumes "licence_handle c op db = (db', ts)"
  shows "ld_licences db' = ld_licences db \<or> ''licences'' \<in> set ts"
proof (cases op)
  case (LicenceCreate i now d)
  then show ?thesis using assms by (auto simp: create_licence_def licence_purge_def Let_def split: sum.splits)
next
  case (LicenceUpdate i d)
  then show ?thesis using assms by (auto simp: update_licence_def licence_purge_def Let_def split: sum.splits)
next
  case (LicencePublish i b)
  then show ?thesis using assms by (auto simp: publish_licence_def licence_purge_def Let_def split: sum.splits)
next
  case (LicencePrimary i)
  then show ?thesis using assms by (auto simp: make_primary_def licence_purge_def Let_def split: sum.splits)
next
  case (LicenceRemove i)
  then show ?thesis using assms by (auto simp: remove_licence_def licence_purge_def Let_def split: sum.splits)
next
  case (LicenceReorder items)
  then show ?thesis
    using assms by (auto simp: reorder_licences_def crud_reorder_def purge_list_def licence_options_def Let_def split: prod.splits)
next
  case (SettingsPut user d)
  then show ?thesis using assms by (auto simp: update_site_settings_def settings_save_def Let_def)
qed

datatype post_request =
    NewsCreate text_env string nat string string post_dto
  | NewsUpdate string string string post_dto
  | NewsKernel string "post crud_request"
  | NewsDeleteLegacy

text \<open>News keeps the kernel's publish and remove routes and overrides create and update.\<close>

fun post_handle :: "sql_compare \<Rightarrow> post_request \<Rightarrow> post crud_db \<Rightarrow> post crud_db \<times> string list" where
  "post_handle c (NewsCreate tx today now new_id user d) db =
     (case create_post c tx today now new_id user d db of (_, db', _, ts) \<Rightarrow> (db', ts))"
| "post_handle c (NewsUpdate today rid i d) db = (case update_post c today rid i d db of (_, db', _, ts) \<Rightarrow> (db', ts))"
| "post_handle c (NewsKernel today rq) db = crud_handle (post_options c (\<lambda>_. False) today) c rq db"
| "post_handle c NewsDeleteLegacy db = (case delete_legacy c db of (_, db', _, ts) \<Rightarrow> (db', ts))"

lemma post_handle_purges:
  assumes "post_handle c rq db = (db', ts)"
  shows "cd_rows db' = cd_rows db \<or> {''news'', ''home''} \<subseteq> set ts"
proof -
  have news: "{''news'', ''home''} \<subseteq> set (purge_list (post_options c r today))" for r today
    by (simp add: purge_list_def post_options_def)
  show ?thesis
  proof (cases rq)
    case (NewsCreate tx today now new_id user d)
    let ?opts = "post_options c (\<lambda>_. False) today"
    consider "cd_rows db' = cd_rows db"
      | ids e where "crud_handle ?opts c (CreateRow ids e) db = (db', ts)"
      using assms NewsCreate by (auto simp: create_post_def Let_def split: option.splits prod.splits)
    then show ?thesis
    proof cases
      case 2
      then show ?thesis using crud_handle_purges [OF 2] news by blast
    qed simp
  next
    case (NewsUpdate today rid i d)
    let ?opts = "post_options c (\<lambda>_. False) today"
    consider "cd_rows db' = cd_rows db"
      | r au ids f where "crud_update ?opts (sc_id c) (sc_text c) rid ids i f db = (r, db', au, ts)"
      using assms NewsUpdate by (auto simp: update_post_def Let_def split: option.splits prod.splits if_splits)
    then show ?thesis
    proof cases
      case 2
      then have "crud_handle ?opts c (UpdateRow rid ids i f) db = (db', ts)" by simp
      then show ?thesis using crud_handle_purges news by blast
    qed simp
  next
    case (NewsKernel today r)
    then show ?thesis using crud_handle_purges assms news by fastforce
  next
    case NewsDeleteLegacy
    then show ?thesis using assms news by (auto simp: delete_legacy_def Let_def split: if_splits)
  qed
qed

text \<open>
  One committed write: the tables after it and the tags its handler is about to purge. Deleting
  a page deletes its sections (\<open>ON DELETE CASCADE\<close>).
\<close>

definition sections_left :: "page list \<Rightarrow> page list \<Rightarrow> page_section list \<Rightarrow> page_section list" where
  "sections_left before after ss =
     filter (\<lambda>s. ps_pageId s \<in> pa_id ` set after \<or> ps_pageId s \<notin> pa_id ` set before) ss"

inductive owner_write :: "sql_compare \<Rightarrow> owner_tables \<Rightarrow> owner_tables \<Rightarrow> string list \<Rightarrow> bool" for c where
  pages: "crud_handle (page_options c refd enrich) c rq (db\<lparr>cd_rows := ow_pages ow\<rparr>) = (db', ts) \<Longrightarrow>
    owner_write c ow (ow\<lparr>ow_pages := cd_rows db', ow_sections := sections_left (ow_pages ow) (cd_rows db') (ow_sections ow)\<rparr>) ts"
| sections: "crud_handle (page_section_options c refd) c rq (db\<lparr>cd_rows := ow_sections ow\<rparr>) = (db', ts) \<Longrightarrow>
    owner_write c ow (ow\<lparr>ow_sections := cd_rows db'\<rparr>) ts"
| members: "crud_handle (board_member_options c refd) c rq (db\<lparr>cd_rows := ow_members ow\<rparr>) = (db', ts) \<Longrightarrow>
    owner_write c ow (ow\<lparr>ow_members := cd_rows db'\<rparr>) ts"
| posts: "post_handle c prq (db\<lparr>cd_rows := ow_posts ow\<rparr>) = (db', ts) \<Longrightarrow>
    owner_write c ow (ow\<lparr>ow_posts := cd_rows db'\<rparr>) ts"
| partners: "crud_handle (partner_options c refd) c rq (db\<lparr>cd_rows := ow_partners ow\<rparr>) = (db', ts) \<Longrightarrow>
    owner_write c ow (ow\<lparr>ow_partners := cd_rows db'\<rparr>) ts"
| categories: "crud_handle (doc_category_options c refd) c rq (db\<lparr>cd_rows := ow_categories ow\<rparr>) = (db', ts) \<Longrightarrow>
    owner_write c ow (ow\<lparr>ow_categories := cd_rows db'\<rparr>) ts"
| documents: "crud_handle (safeer_document_options c refd) c rq (db\<lparr>cd_rows := ow_documents ow\<rparr>) = (db', ts) \<Longrightarrow>
    owner_write c ow (ow\<lparr>ow_documents := cd_rows db'\<rparr>) ts"
| licences: "licence_handle c lop (ldb\<lparr>ld_licences := ow_licences ow\<rparr>) = (ldb', ts) \<Longrightarrow>
    owner_write c ow (ow\<lparr>ow_licences := ld_licences ldb'\<rparr>) ts"

lemma sections_left_same: "sections_left ps ps ss = ss"
  by (simp add: sections_left_def)

lemma crud_changes_purged:
  assumes "crud_handle opts c rq (db\<lparr>cd_rows := rows\<rparr>) = (db', ts)" "t \<in> set (purge_list opts)"
  shows "cd_rows db' = rows \<or> t \<in> set ts"
  using crud_handle_purges [OF assms(1)] assms(2) by auto

text \<open>
  The contract the memo rests on: a write that changes what is public purges one of the memo's
  tags. Each case is a collection's own options.
\<close>

lemma owner_write_purges:
  assumes "owner_write c ow ow' ts" "query_is_publicly_readable a ow' \<noteq> query_is_publicly_readable a ow"
  shows "set ASSET_PUBLIC_MEMO_TAGS \<inter> set ts \<noteq> {}"
proof -
  have tagI: "?thesis" if "t \<in> set ts" "t \<in> {''home'', ''pages'', ''board_members'', ''news'', ''partners'', ''documents'', ''doc_categories'', ''licences''}" for t
    using that by (auto simp: ASSET_PUBLIC_MEMO_TAGS_def)
  from assms(1) show ?thesis
  proof cases
    case (pages refd enrich rq db db')
    then show ?thesis
      using crud_changes_purged [OF pages(2), of "''home''"] tagI [of "''home''"] assms(2)
      by (auto simp: purge_list_def page_options_def sections_left_same)
  next
    case (sections refd rq db db')
    then show ?thesis
      using crud_changes_purged [OF sections(2), of "''home''"] tagI [of "''home''"] assms(2)
      by (auto simp: purge_list_def page_section_options_def)
  next
    case (members refd rq db db')
    then show ?thesis
      using crud_changes_purged [OF members(2), of "''home''"] tagI [of "''home''"] assms(2)
      by (auto simp: purge_list_def board_member_options_def)
  next
    case (posts prq db db')
    then show ?thesis
      using post_handle_purges [OF posts(2)] tagI [of "''news''"] assms(2) by auto
  next
    case (partners refd rq db db')
    then show ?thesis
      using crud_changes_purged [OF partners(2), of "''home''"] tagI [of "''home''"] assms(2)
      by (auto simp: purge_list_def partner_options_def)
  next
    case (categories refd rq db db')
    then show ?thesis
      using crud_changes_purged [OF categories(2), of "''home''"] tagI [of "''home''"] assms(2)
      by (auto simp: purge_list_def doc_category_options_def)
  next
    case (documents refd rq db db')
    then show ?thesis
      using crud_changes_purged [OF documents(2), of "''home''"] tagI [of "''home''"] assms(2)
      by (auto simp: purge_list_def safeer_document_options_def)
  next
    case (licences lop ldb ldb')
    then show ?thesis
      using licence_handle_purges [OF licences(2)] tagI [of "''licences''"] assms(2) by auto
  qed
qed

section \<open>Memos against the database\<close>

datatype check = Asked string string | Answered string string bool

record 'v gate_world =
  gw_owners :: owner_tables
  gw_cache :: "'v cache_state"
  gw_pending :: "string set"
  gw_checks :: "check list"

definition other_cache_op :: "'v cache_op \<Rightarrow> bool" where
  "other_cache_op op \<longleftrightarrow> (case op of SetMemo _ _ _ _ _ _ \<Rightarrow> False | PurgeTag _ \<Rightarrow> False | _ \<Rightarrow> True)"

inductive gate_step :: "sql_compare \<Rightarrow> 'v gate_world \<Rightarrow> 'v gate_world \<Rightarrow> bool" for c where
  wrote: "owner_write c (gw_owners w) ow ts \<Longrightarrow>
    gate_step c w (w\<lparr>gw_owners := ow, gw_pending := gw_pending w \<union> set ts\<rparr>)"
| counted: "gate_step c w (w\<lparr>gw_owners := increment_download_count text_eq lib pid (gw_owners w)\<rparr>)"
| purged: "gate_step c w (w\<lparr>gw_cache := cache_step (PurgeTag t) (gw_cache w), gw_pending := gw_pending w - {t}\<rparr>)"
| asked: "get_memo (memo_key a) (gw_cache w) = None \<Longrightarrow>
    gate_step c w (w\<lparr>gw_checks := Asked a (version_of ASSET_PUBLIC_MEMO_TAGS (gw_cache w)) # gw_checks w\<rparr>)"
| answered: "gw_checks w = fs @ Asked a ver # gs \<Longrightarrow>
    gate_step c w (w\<lparr>gw_checks := fs @ Answered a ver (query_is_publicly_readable a (gw_owners w)) # gs\<rparr>)"
| remembered: "gw_checks w = fs @ Answered a ver b # gs \<Longrightarrow>
    gate_step c w (w\<lparr>gw_cache := cache_step (SetMemo vs fits a b ASSET_PUBLIC_MEMO_TAGS (Some ver)) (gw_cache w),
                     gw_checks := fs @ gs\<rparr>)"
| forgot: "gw_checks w = fs @ f # gs \<Longrightarrow> gate_step c w (w\<lparr>gw_checks := fs @ gs\<rparr>)"
| served: "other_cache_op op \<Longrightarrow> gate_step c w (w\<lparr>gw_cache := cache_step op (gw_cache w)\<rparr>)"

definition initial_gate :: "owner_tables \<Rightarrow> 'v gate_world" where
  "initial_gate ow = \<lparr>gw_owners = ow, gw_cache = empty_cache, gw_pending = {}, gw_checks = []\<rparr>"

definition reachable_gate :: "sql_compare \<Rightarrow> owner_tables \<Rightarrow> 'v gate_world \<Rightarrow> bool" where
  "reachable_gate c ow w \<longleftrightarrow> (gate_step c)\<^sup>*\<^sup>* (initial_gate ow) w"

text \<open>
  The invariant, as for cached pages: an answer is the database's, or one of the memo tags is
  still to be purged, or was purged after the answer's snapshot.
\<close>

definition answer_ok :: "'v gate_world \<Rightarrow> string \<Rightarrow> bool \<Rightarrow> bool" where
  "answer_ok w a b \<longleftrightarrow> b = query_is_publicly_readable a (gw_owners w) \<or> set ASSET_PUBLIC_MEMO_TAGS \<inter> gw_pending w \<noteq> {}"

fun check_ok :: "'v gate_world \<Rightarrow> check \<Rightarrow> bool" where
  "check_ok w (Asked a ver) = since ver ASSET_PUBLIC_MEMO_TAGS (gw_cache w) False"
| "check_ok w (Answered a ver b) =
     (since ver ASSET_PUBLIC_MEMO_TAGS (gw_cache w) False
      \<and> (answer_ok w a b \<or> since ver ASSET_PUBLIC_MEMO_TAGS (gw_cache w) True))"

definition memo_ok :: "'v gate_world \<Rightarrow> string \<times> bool cache_entry \<Rightarrow> bool" where
  "memo_ok w ke \<longleftrightarrow> (\<exists>a. fst ke = memo_key a \<and> ce_tags (snd ke) = ASSET_PUBLIC_MEMO_TAGS \<and> answer_ok w a (ce_value (snd ke)))"

definition gate_ok :: "'v gate_world \<Rightarrow> bool" where
  "gate_ok w \<longleftrightarrow> cache_wf (gw_cache w) \<and> (\<forall>ke \<in> set (cs_memo (gw_cache w)). memo_ok w ke)
     \<and> (\<forall>f \<in> set (gw_checks w). check_ok w f)"

lemma other_memos:
  assumes "\<And>vs f k b ts ver. op \<noteq> SetMemo vs f k b ts ver"
  shows "set (cs_memo (cache_step op c)) \<subseteq> set (cs_memo c)"
proof (cases op)
  case (PurgeTag t)
  then show ?thesis using fold_purge_one_sub [of "purge_keys t c" "bump t c"] by (simp add: snd_purge_tag Let_def)
next
  case (SetMemo vs f k b ts ver)
  then show ?thesis using assms by blast
qed (auto simp: cache_get_def cache_set_def clear_def expire_memo_def expire_entry_def store_drop_def split: option.splits prod.splits)

lemma check_ok_mono:
  assumes "check_ok w f" "\<And>a b. answer_ok w a b \<Longrightarrow> answer_ok w' a b"
    and "gw_cache w' = gw_cache w \<or> (\<exists>op. gw_cache w' = cache_step op (gw_cache w))"
  shows "check_ok w' f"
proof -
  have s: "since ver ts (gw_cache w) p \<Longrightarrow> since ver ts (gw_cache w') p" for ver ts p
    using assms(3) since_step by metis
  show ?thesis
    using assms(1,2) s by (cases f) (auto simp del: cache_step.simps)
qed

lemma gate_okI:
  assumes ok: "gate_ok w" and mono: "\<And>a b. answer_ok w a b \<Longrightarrow> answer_ok w' a b"
    and cache: "gw_cache w' = gw_cache w \<or>
      (\<exists>op. gw_cache w' = cache_step op (gw_cache w) \<and> (\<forall>vs f k b ts ver. op \<noteq> SetMemo vs f k b ts ver))"
    and checks: "\<And>f. f \<in> set (gw_checks w') \<Longrightarrow> f \<in> set (gw_checks w) \<or> check_ok w' f"
  shows "gate_ok w'"
proof -
  have "cache_wf (gw_cache w')" using ok cache cache_wf_step unfolding gate_ok_def by metis
  moreover have "set (cs_memo (gw_cache w')) \<subseteq> set (cs_memo (gw_cache w))"
    using cache other_memos by (metis order_refl)
  then have "memo_ok w' ke" if "ke \<in> set (cs_memo (gw_cache w'))" for ke
    using that ok mono unfolding gate_ok_def memo_ok_def by blast
  moreover have "gw_cache w' = gw_cache w \<or> (\<exists>op. gw_cache w' = cache_step op (gw_cache w))"
    using cache by blast
  then have "check_ok w' f" if "f \<in> set (gw_checks w')" for f
    using that ok checks check_ok_mono [OF _ mono] unfolding gate_ok_def by blast
  ultimately show ?thesis unfolding gate_ok_def by blast
qed

lemma gate_ok_purged:
  assumes "gate_ok w"
  shows "gate_ok (w\<lparr>gw_cache := cache_step (PurgeTag t) (gw_cache w), gw_pending := gw_pending w - {t}\<rparr>)"
proof -
  let ?c = "cache_step (PurgeTag t) (gw_cache w)"
  let ?w = "w\<lparr>gw_cache := ?c, gw_pending := gw_pending w - {t}\<rparr>"
  let ?T = "set ASSET_PUBLIC_MEMO_TAGS"
  have wf: "cache_wf (gw_cache w)" using assms by (simp add: gate_ok_def)
  have keep: "answer_ok ?w a b" if "answer_ok w a b" "t \<notin> ?T" for a b
    using that by (auto simp: answer_ok_def)
  have "memo_ok ?w ke" if ke: "ke \<in> set (cs_memo ?c)" for ke
  proof -
    have "ke \<in> set (cs_memo (gw_cache w))" using ke other_memos [of "PurgeTag t" "gw_cache w"] by auto
    then have ok: "memo_ok w ke" using assms by (simp add: gate_ok_def)
    have "(fst ke, ce_tags (snd ke)) \<in> cache_contents ?c"
      using ke by (force simp: cache_contents_def store_contents_def)
    then have "t \<notin> set (ce_tags (snd ke))" using purge_tag_result(3) [OF wf, of t] by auto
    then show ?thesis using ok keep unfolding memo_ok_def by metis
  qed
  moreover have "check_ok ?w f" if ok: "check_ok w f" for f
  proof (cases f)
    case (Asked a ver)
    then show ?thesis using ok since_step by (simp del: cache_step.simps)
  next
    case (Answered a ver b)
    then have s: "since ver ASSET_PUBLIC_MEMO_TAGS (gw_cache w) False"
      and d: "answer_ok w a b \<or> since ver ASSET_PUBLIC_MEMO_TAGS (gw_cache w) True" using ok by simp_all
    have "since ver ASSET_PUBLIC_MEMO_TAGS ?c False" using s by (rule since_step)
    moreover have "t \<in> ?T \<Longrightarrow> since ver ASSET_PUBLIC_MEMO_TAGS ?c True" using s by (rule since_purge)
    moreover have "since ver ASSET_PUBLIC_MEMO_TAGS (gw_cache w) True \<Longrightarrow> since ver ASSET_PUBLIC_MEMO_TAGS ?c True"
      by (rule since_step)
    ultimately show ?thesis using Answered keep d by (auto simp del: cache_step.simps)
  qed
  ultimately show ?thesis using assms cache_wf_step [OF wf]
    by (simp add: gate_ok_def del: cache_step.simps)
qed

lemma gate_ok_remembered:
  assumes "gate_ok w" "gw_checks w = fs @ Answered a ver b # gs"
  shows "gate_ok (w\<lparr>gw_cache := cache_step (SetMemo vs fits a b ASSET_PUBLIC_MEMO_TAGS (Some ver)) (gw_cache w), gw_checks := fs @ gs\<rparr>)"
proof -
  let ?op = "SetMemo vs fits a b ASSET_PUBLIC_MEMO_TAGS (Some ver)"
  let ?c = "cache_step ?op (gw_cache w)"
  let ?w = "w\<lparr>gw_cache := ?c, gw_checks := fs @ gs\<rparr>"
  have same: "answer_ok ?w = answer_ok w" by (intro ext) (simp add: answer_ok_def)
  have ck: "check_ok w (Answered a ver b)" using assms by (simp add: gate_ok_def)
  have "memo_ok ?w ke" if ke: "ke \<in> set (cs_memo ?c)" for ke
  proof (cases "ke \<in> set (cs_memo (gw_cache w))")
    case True
    then show ?thesis using assms(1) by (simp add: gate_ok_def memo_ok_def same del: cache_step.simps)
  next
    case False
    have current: "ver = version_of ASSET_PUBLIC_MEMO_TAGS (gw_cache w)"
      using ke False by (auto simp: set_memo_def split: if_splits)
    then have ok: "answer_ok w a b" using ck since_True_refused by fastforce
    obtain st idx where put: "store_put vs fits (memo_key a) b ASSET_PUBLIC_MEMO_TAGS
        (cs_memo (gw_cache w), cs_index (gw_cache w)) = (st, idx)" by fastforce
    then have "cs_memo ?c = st" using current by (simp add: set_memo_def)
    then have "ke = (memo_key a, \<lparr>ce_value = b, ce_tags = ASSET_PUBLIC_MEMO_TAGS\<rparr>)"
      using ke False store_put_set [OF put] by blast
    then show ?thesis using ok
      by (auto simp: memo_ok_def same simp del: cache_step.simps intro!: exI [of _ a])
  qed
  moreover have "check_ok ?w f" if "check_ok w f" for f
    using that by (rule check_ok_mono) (auto simp: same simp del: cache_step.simps)
  ultimately show ?thesis using assms cache_wf_step [of "gw_cache w" ?op]
    by (simp add: gate_ok_def del: cache_step.simps)
qed

lemma counted_same_query:
  "query_is_publicly_readable a (increment_download_count text_eq lib pid ow) = query_is_publicly_readable a ow"
proof -
  have "(\<exists>d \<in> set (update_rows P (\<lambda>d. d\<lparr>dd_downloadCount := dd_downloadCount d + 1\<rparr>) ds). Q d) \<longleftrightarrow> (\<exists>d \<in> set ds. Q d)"
    if "\<And>d. Q (d\<lparr>dd_downloadCount := dd_downloadCount d + 1\<rparr>) = Q d" for P Q and ds :: "safeer_document list"
    using that by (auto simp: table_simps)
  then show ?thesis
    by (simp add: increment_download_count_def query_is_publicly_readable_def split: option.splits)
qed

lemma gate_ok_step: "gate_step c w w' \<Longrightarrow> gate_ok w \<Longrightarrow> gate_ok w'"
proof (induction rule: gate_step.induct)
  case (wrote w ow ts)
  have "answer_ok w a b \<Longrightarrow> answer_ok (w\<lparr>gw_owners := ow, gw_pending := gw_pending w \<union> set ts\<rparr>) a b" for a b
    using owner_write_purges [OF wrote(1), of a] by (auto simp: answer_ok_def)
  then show ?case by (intro gate_okI [OF wrote(2)]) auto
next
  case (counted w text_eq lib pid)
  then show ?case by (intro gate_okI [OF counted]) (auto simp: answer_ok_def counted_same_query)
next
  case (purged w t)
  then show ?case by (rule gate_ok_purged)
next
  case (asked a w)
  then show ?case by (intro gate_okI [OF asked(2)]) (auto simp: answer_ok_def since_now)
next
  case (answered w fs a ver gs)
  then have "since ver ASSET_PUBLIC_MEMO_TAGS (gw_cache w) False" by (simp add: gate_ok_def)
  then show ?case using answered(1) by (intro gate_okI [OF answered(2)]) (auto simp: answer_ok_def)
next
  case (remembered w fs a ver b gs vs fits)
  then show ?case by (intro gate_ok_remembered)
next
  case (forgot w fs f gs)
  then show ?case by (intro gate_okI [OF forgot(2)]) (auto simp: answer_ok_def)
next
  case (served op w)
  then have "\<forall>vs f k b ts ver. op \<noteq> SetMemo vs f k b ts ver" by (auto simp: other_cache_op_def)
  then show ?case
    by (intro gate_okI [OF served(2)]) (auto simp: answer_ok_def simp del: cache_step.simps)
qed

lemma reachable_gate_ok:
  assumes "reachable_gate c ow w"
  shows "gate_ok w"
  using assms unfolding reachable_gate_def
proof (induction rule: rtranclp_induct)
  case base
  show ?case by (simp add: gate_ok_def initial_gate_def cache_wf_empty) (simp add: empty_cache_def)
next
  case (step w w')
  then show ?case using gate_ok_step by blast
qed

lemma memo_agrees:
  assumes "gate_ok w" "set ASSET_PUBLIC_MEMO_TAGS \<inter> gw_pending w = {}"
  shows "fst (is_publicly_readable vs fits (gw_owners w) a (gw_cache w)) = query_is_publicly_readable a (gw_owners w)"
proof (cases "map_of (cs_memo (gw_cache w)) (memo_key a)")
  case None
  then show ?thesis by (simp add: is_publicly_readable_def get_memo_def Let_def)
next
  case (Some e)
  then have "(memo_key a, e) \<in> set (cs_memo (gw_cache w))" by (rule map_of_SomeD)
  then have "memo_ok w (memo_key a, e)" using assms(1) by (simp add: gate_ok_def)
  then have "ce_value e = query_is_publicly_readable a (gw_owners w)"
    using assms(2) by (auto simp: memo_ok_def answer_ok_def memo_key_def)
  then show ?thesis using Some by (simp add: is_publicly_readable_def get_memo_def)
qed

lemma gate_decides:
  assumes "gate_ok w" "set ASSET_PUBLIC_MEMO_TAGS \<inter> gw_pending w = {}" "\<not> fr_signedIn rq"
  shows "fst (gate_publication env vs fits rq (gw_owners w) a (gw_cache w)) =
    (if query_is_publicly_readable a (gw_owners w) then AllowPublic
     else if preview_unlocks env rq (gw_owners w) a then AllowPrivate else Deny)"
proof -
  obtain shown c' where eq: "is_publicly_readable vs fits (gw_owners w) a (gw_cache w) = (shown, c')"
    by (cases "is_publicly_readable vs fits (gw_owners w) a (gw_cache w)") auto
  then show ?thesis
    using memo_agrees [OF assms(1,2), of vs fits a] assms(3) by (simp add: gate_publication_def)
qed

lemma send_file_control:
  "send_file fs key mime att private ctl = Inr r \<Longrightarrow>
    fp_cacheControl r = (if private then PRIVATE_NO_STORE else ctl) \<and> fs key = Some (fp_body r)"
  by (auto simp: send_file_def not_found_def Let_def split: sum.splits option.splits)

text \<open>What a visitor without a session may fetch, and how it may be cached.\<close>

definition shown_to_stranger :: "file_env \<Rightarrow> file_request \<Rightarrow> owner_tables \<Rightarrow> media_asset \<Rightarrow> file_response \<Rightarrow> bool" where
  "shown_to_stranger env rq ow a r \<longleftrightarrow>
     (if query_is_publicly_readable (ma_id a) ow then fp_cacheControl r \<noteq> PRIVATE_NO_STORE
      else preview_unlocks env rq ow (ma_id a) \<and> fp_cacheControl r = PRIVATE_NO_STORE)"


text \<open>The purges of a write, one after another.\<close>

definition run_purges :: "string list \<Rightarrow> 'v gate_world \<Rightarrow> 'v gate_world" where
  "run_purges ts w =
     fold (\<lambda>t w. w\<lparr>gw_cache := cache_step (PurgeTag t) (gw_cache w), gw_pending := gw_pending w - {t}\<rparr>) ts w"

lemma run_purges_steps: "(gate_step c)\<^sup>*\<^sup>* w (run_purges ts w)"
proof (induction ts arbitrary: w)
  case (Cons t ts)
  show ?case
    using converse_rtranclp_into_rtranclp [of "gate_step c", OF gate_step.purged Cons.IH]
    by (simp add: run_purges_def del: cache_step.simps)
qed (simp add: run_purges_def)

lemma run_purges_done: "gw_pending (run_purges ts w) = gw_pending w - set ts" "gw_owners (run_purges ts w) = gw_owners w"
  by (induction ts arbitrary: w) (auto simp: run_purges_def simp del: cache_step.simps)

text \<open>A post with the asset as its cover, published, then unpublished and the purges run.\<close>

definition covered_post :: post where
  "covered_post = (blank_post ''5'' 0)\<lparr>po_slug := ''s'', po_coverAssetId := Some ''1'', po_isPublished := True\<rparr>"

definition covered_tables :: owner_tables where
  "covered_tables = \<lparr>ow_pages = [], ow_sections = [], ow_members = [], ow_posts = [covered_post], ow_partners = [],
     ow_categories = [], ow_documents = [], ow_licences = []\<rparr>"

definition stranger :: file_request where
  "stranger = \<lparr>fr_signedIn = False, fr_query = [], fr_now = 0\<rparr>"

definition plain_files :: file_env where
  "plain_files = \<lparr>fe_auth = open_env, fe_number = digits_number, fe_compare = exact_compare\<rparr>"

definition cover_library :: media_lib where
  "cover_library = \<lparr>lb_assets = [new_asset toy_draw photo_ready], lb_variants = [],
     lb_files = (\<lambda>k. if k = original_key toy_draw photo_ready then Some ''Ix'' else None)\<rparr>"

definition unpublished_tables :: owner_tables where
  "unpublished_tables = covered_tables\<lparr>ow_posts := [covered_post\<lparr>po_isPublished := False\<rparr>]\<rparr>"


end
