(* ===== verification/MailTemplates.thy ===== *)
theory MailTemplates
  imports PublicViews
begin

text \<open>
  Mail templates: \<open>mail/render-template.ts\<close>, \<open>mail/mail-templates.service.ts\<close> and
  \<open>common/sensitive-vars.ts\<close>. A variable map is an association list; the Markdown renderer
  (\<open>render_markdown\<close> around the third-party parser and sanitiser) is the parameter \<open>md\<close>.
  Texts are byte strings, so \<open>\s\<close> and \<open>\w\<close> are those of the 8-bit range.
\<close>

section \<open>Placeholders\<close>

definition word_char :: "char \<Rightarrow> bool" where
  "word_char c \<longleftrightarrow> is_digit c \<or> c = CHR ''_''
     \<or> (65 \<le> (of_char c :: nat) \<and> (of_char c :: nat) \<le> 90) \<or> (97 \<le> (of_char c :: nat) \<and> (of_char c :: nat) \<le> 122)"

text \<open>\<open>VAR_PATTERN\<close> at the head of a text: the variable's name and the text after the match.\<close>

definition match_var :: "string \<Rightarrow> (string \<times> string) option" where
  "match_var s =
     (if take 2 s \<noteq> ''{{'' then None
      else (let rest = dropWhile is_space (drop 2 s);
                name = takeWhile word_char rest;
                after = dropWhile is_space (dropWhile word_char rest)
            in if name = [] \<or> take 2 after \<noteq> ''}}'' then None else Some (name, drop 2 after)))"

lemma match_var_shorter: "match_var s = Some (name, rest) \<Longrightarrow> length rest < length s"
  using length_dropWhile_le [of is_space "dropWhile word_char (dropWhile is_space (drop 2 s))"]
    length_dropWhile_le [of word_char "dropWhile is_space (drop 2 s)"] length_dropWhile_le [of is_space "drop 2 s"]
  by (cases s) (auto simp: match_var_def Let_def split: if_splits)

text \<open>The text as \<open>replace\<close> and \<open>matchAll\<close> see it: characters and placeholders, left to right.\<close>

datatype piece = Lit char | Var string

function pieces :: "string \<Rightarrow> piece list" where
  "pieces s =
     (case s of
        [] \<Rightarrow> []
      | c # cs \<Rightarrow> (case match_var s of None \<Rightarrow> Lit c # pieces cs | Some (name, rest) \<Rightarrow> Var name # pieces rest))"
  by pat_completeness auto
termination
  by (relation "measure length") (auto dest: match_var_shorter)

declare pieces.simps [simp del]

definition extract_variables :: "string \<Rightarrow> string list" where
  "extract_variables text = concat (map (\<lambda>p. case p of Lit _ \<Rightarrow> [] | Var name \<Rightarrow> [name]) (pieces text))"

definition replace_vars :: "(string \<Rightarrow> string) \<Rightarrow> string \<Rightarrow> string" where
  "replace_vars f text = concat (map (\<lambda>p. case p of Lit c \<Rightarrow> [c] | Var name \<Rightarrow> f name) (pieces text))"

section \<open>Escaping\<close>

definition MARKDOWN_METACHARS :: "char set" where
  "MARKDOWN_METACHARS = set (CHR 0x5C # CHR 0x60 # ''[]()*_<>!{}'')"

definition AUTOLINK_CHARS :: "char set" where
  "AUTOLINK_CHARS = set '':.@''"

definition TRUSTED_LINK_VARS :: "string list" where
  "TRUSTED_LINK_VARS = [''link'']"

definition escape_chars :: "char set \<Rightarrow> string \<Rightarrow> string" where
  "escape_chars cs value = concat (map (\<lambda>c. if c \<in> cs then [CHR 0x5C, c] else [c]) value)"

definition escape_markdown :: "string \<Rightarrow> string" where
  "escape_markdown value = escape_chars MARKDOWN_METACHARS value"

definition escape_value :: "string \<Rightarrow> string \<Rightarrow> string" where
  "escape_value name value =
     (let escaped = escape_markdown value
      in if name \<in> set TRUSTED_LINK_VARS then escaped else escape_chars AUTOLINK_CHARS escaped)"

definition var_of :: "(string \<times> string) list \<Rightarrow> string \<Rightarrow> string" where
  "var_of vars name = (case map_of vars name of None \<Rightarrow> [] | Some v \<Rightarrow> v)"

definition substitute_markdown :: "string \<Rightarrow> (string \<times> string) list \<Rightarrow> string" where
  "substitute_markdown markdown vars = replace_vars (\<lambda>name. escape_value name (var_of vars name)) markdown"

definition substitute_plain :: "string \<Rightarrow> (string \<times> string) list \<Rightarrow> string" where
  "substitute_plain markdown vars = replace_vars (var_of vars) markdown"

section \<open>Masking\<close>

text \<open>Six bullets, U+2022, in UTF-8.\<close>

definition MASKED_VALUE :: string where
  "MASKED_VALUE = concat (replicate 6 [CHR 0xE2, CHR 0x80, CHR 0xA2])"

definition mask_vars :: "(string \<times> string) list \<Rightarrow> string list \<Rightarrow> (string \<times> string) list" where
  "mask_vars vars sensitive =
     (if sensitive = [] then vars
      else map (\<lambda>(k, v). if k \<in> set sensitive then (k, MASKED_VALUE) else (k, v)) vars)"

section \<open>The template service\<close>

record mail_template =
  mt_id :: string
  mt_key :: string
  mt_nameAr :: string
  mt_nameEn :: "string option"
  mt_subjectAr :: string
  mt_subjectEn :: "string option"
  mt_bodyAr :: string
  mt_bodyEn :: "string option"
  mt_variables :: "string list"
  mt_isEnabled :: bool
  mt_updatedBy :: "string option"
  mt_createdAt :: time
  mt_updatedAt :: time

record rendered_mail =
  rm_subject :: string
  rm_html :: string
  rm_text :: string

record template_dto =
  td_nameAr :: "string option"
  td_nameEn :: "string option option"
  td_subjectAr :: "string option"
  td_subjectEn :: "string option option"
  td_bodyAr :: "string option"
  td_bodyEn :: "string option option"
  td_isEnabled :: "bool option"

definition or_empty :: "string option \<Rightarrow> string" where
  "or_empty s = (case s of None \<Rightarrow> [] | Some v \<Rightarrow> v)"

definition first_nonempty :: "string \<Rightarrow> string \<Rightarrow> string" where
  "first_nonempty a b = (if a \<noteq> [] then a else b)"

definition render_from :: "(string \<Rightarrow> string) \<Rightarrow> mail_template \<Rightarrow> (string \<times> string) list \<Rightarrow> loc \<Rightarrow> rendered_mail" where
  "render_from md t vars l =
     (let subject_source = (if l = En then first_nonempty (or_empty (mt_subjectEn t)) (mt_subjectAr t) else mt_subjectAr t);
          body_source = (if l = En then first_nonempty (or_empty (mt_bodyEn t)) (mt_bodyAr t) else mt_bodyAr t);
          body_lang = (if l = En \<and> or_empty (mt_bodyEn t) \<noteq> [] then ''en'' else ''ar'');
          dir = (if body_lang = ''ar'' then ''rtl'' else ''ltr'')
      in \<lparr>rm_subject = substitute_plain subject_source vars,
          rm_html = ''<div dir=\"'' @ dir @ ''\" lang=\"'' @ body_lang @ ''\">'' @ md (substitute_markdown body_source vars) @ ''</div>'',
          rm_text = substitute_plain body_source vars\<rparr>)"

definition get_by_key :: "(string \<Rightarrow> string \<Rightarrow> bool) \<Rightarrow> string \<Rightarrow> mail_template list \<Rightarrow> mail_template res" where
  "get_by_key ceq key ts =
     (case List.find (\<lambda>t. ceq (mt_key t) key) ts of
        None \<Rightarrow> fail 404 NOT_FOUND ''Template not found''
      | Some t \<Rightarrow> Inr t)"

definition set_given :: "'a option \<Rightarrow> 'a \<Rightarrow> 'a" where
  "set_given f old = (case f of None \<Rightarrow> old | Some v \<Rightarrow> v)"

definition assign_template :: "template_dto \<Rightarrow> mail_template \<Rightarrow> mail_template" where
  "assign_template d t =
     t\<lparr>mt_nameAr := set_given (td_nameAr d) (mt_nameAr t), mt_nameEn := set_given (td_nameEn d) (mt_nameEn t),
       mt_subjectAr := set_given (td_subjectAr d) (mt_subjectAr t), mt_subjectEn := set_given (td_subjectEn d) (mt_subjectEn t),
       mt_bodyAr := set_given (td_bodyAr d) (mt_bodyAr t), mt_bodyEn := set_given (td_bodyEn d) (mt_bodyEn t),
       mt_isEnabled := set_given (td_isEnabled d) (mt_isEnabled t)\<rparr>"

text \<open>The texts of a body in the order they are checked; an absent, null or empty one is skipped.\<close>

definition dto_texts :: "template_dto \<Rightarrow> string list" where
  "dto_texts d =
     map or_empty [td_subjectAr d, Option.bind (td_subjectEn d) id, td_bodyAr d, Option.bind (td_bodyEn d) id]"

definition unknown_variable :: "mail_template \<Rightarrow> template_dto \<Rightarrow> string option" where
  "unknown_variable t d =
     List.find (\<lambda>name. name \<notin> set (mt_variables t)) (concat (map extract_variables (filter (\<lambda>s. s \<noteq> []) (dto_texts d))))"

definition update_template ::
  "(string \<Rightarrow> string \<Rightarrow> bool) \<Rightarrow> string \<Rightarrow> template_dto \<Rightarrow> mail_template list
     \<Rightarrow> (mail_template \<times> mail_template) res \<times> mail_template list" where
  "update_template ceq key d ts =
     (case get_by_key ceq key ts of
        Inl e \<Rightarrow> (Inl e, ts)
      | Inr t \<Rightarrow>
          (case unknown_variable t d of
             Some name \<Rightarrow>
               (fail_with 400 UNKNOWN_VARIABLE (''Unknown template variable: {{'' @ name @ ''}}'') [(''variable'', JStr name)], ts)
           | None \<Rightarrow>
               (let saved = assign_template d t
                in (Inr (t, saved), update_rows (\<lambda>r. mt_id r = mt_id t) (\<lambda>_. saved) ts))))"

definition render_mail ::
  "(string \<Rightarrow> string \<Rightarrow> bool) \<Rightarrow> (string \<Rightarrow> string) \<Rightarrow> mail_template list \<Rightarrow> string \<Rightarrow> (string \<times> string) list \<Rightarrow> loc
     \<Rightarrow> rendered_mail option" where
  "render_mail ceq md ts key vars l =
     (case List.find (\<lambda>t. ceq (mt_key t) key) ts of
        None \<Rightarrow> None
      | Some t \<Rightarrow> if mt_isEnabled t then Some (render_from md t vars l) else None)"

definition preview_mail ::
  "(string \<Rightarrow> string \<Rightarrow> bool) \<Rightarrow> (string \<Rightarrow> string) \<Rightarrow> mail_template list \<Rightarrow> string \<Rightarrow> (string \<times> string) list option \<Rightarrow> loc
     \<Rightarrow> rendered_mail res" where
  "preview_mail ceq md ts key vars l =
     (case get_by_key ceq key ts of
        Inl e \<Rightarrow> Inl e
      | Inr t \<Rightarrow>
          Inr (render_from md t
                 (map (\<lambda>name. (name, case map_of (case vars of None \<Rightarrow> [] | Some vs \<Rightarrow> vs) name of
                                       None \<Rightarrow> ''['' @ name @ '']''
                                     | Some v \<Rightarrow> v)) (mt_variables t)) l))"


section \<open>Values stay text\<close>

text \<open>
  How a CommonMark parser reads a source: a backslash before ASCII punctuation makes that
  character literal. \<open>active\<close> keeps the characters that can still carry structure.
\<close>

definition ascii_punctuation :: "char \<Rightarrow> bool" where
  "ascii_punctuation c \<longleftrightarrow>
     (let n = of_char c :: nat
      in (33 \<le> n \<and> n \<le> 47) \<or> (58 \<le> n \<and> n \<le> 64) \<or> (91 \<le> n \<and> n \<le> 96) \<or> (123 \<le> n \<and> n \<le> 126))"

fun active :: "string \<Rightarrow> string" where
  "active [] = []"
| "active [c] = [c]"
| "active (c # d # cs) = (if c = CHR 0x5C \<and> ascii_punctuation d then active cs else c # active (d # cs))"

definition special :: "char \<Rightarrow> bool" where
  "special c \<longleftrightarrow> c \<in> MARKDOWN_METACHARS \<union> AUTOLINK_CHARS"

lemma special_punctuation: "special c \<Longrightarrow> ascii_punctuation c"
  by (auto simp: special_def MARKDOWN_METACHARS_def AUTOLINK_CHARS_def ascii_punctuation_def Let_def)

lemma backslash_special [simp]: "special (CHR 0x5C)" "CHR 0x5C \<in> MARKDOWN_METACHARS" "CHR 0x5C \<notin> AUTOLINK_CHARS"
  by (simp_all add: special_def MARKDOWN_METACHARS_def AUTOLINK_CHARS_def)

lemma active_cons: "c \<noteq> CHR 0x5C \<Longrightarrow> active (c # s) = c # active s"
  by (cases s) auto

lemma active_escape: "special c \<Longrightarrow> active (CHR 0x5C # c # s) = active s"
  using special_punctuation by simp

lemma escape_twice:
  "escape_chars AUTOLINK_CHARS (escape_markdown v) = escape_chars {c. special c} v"
proof (induction v)
  case Nil
  then show ?case by (simp add: escape_chars_def escape_markdown_def)
next
  case (Cons c v)
  have "c \<in> MARKDOWN_METACHARS \<Longrightarrow> c \<notin> AUTOLINK_CHARS"
    by (auto simp: MARKDOWN_METACHARS_def AUTOLINK_CHARS_def)
  then show ?case
    using Cons by (auto simp: escape_chars_def escape_markdown_def special_def)
qed

lemma escaped_inert: "active (escape_chars {c. special c} v @ s) = filter (\<lambda>c. \<not> special c) v @ active s"
proof (induction v)
  case Nil
  then show ?case by (simp add: escape_chars_def)
next
  case (Cons c v)
  show ?case
  proof (cases "special c")
    case True
    then show ?thesis using Cons active_escape [of c] by (simp add: escape_chars_def)
  next
    case False
    then have "c \<noteq> CHR 0x5C" by auto
    then show ?thesis using Cons False active_cons [of c] by (simp add: escape_chars_def)
  qed
qed

lemma pieces_Cons:
  "pieces (c # cs) = (case match_var (c # cs) of None \<Rightarrow> Lit c # pieces cs | Some (name, rest) \<Rightarrow> Var name # pieces rest)"
  by (subst pieces.simps) simp

lemma pieces_Nil [simp]: "pieces [] = []"
  by (subst pieces.simps) simp

lemma match_var_subset: "match_var s = Some (name, rest) \<Longrightarrow> set rest \<subseteq> set s"
  by (auto simp: match_var_def Let_def split: if_splits dest!: in_set_dropD set_dropWhileD)

definition literals :: "string \<Rightarrow> string" where
  "literals src = concat (map (\<lambda>p. case p of Lit c \<Rightarrow> [c] | Var _ \<Rightarrow> []) (pieces src))"

lemma substituted_active:
  assumes "CHR 0x5C \<notin> set src" "set (extract_variables src) \<inter> set TRUSTED_LINK_VARS = {}"
  shows "filter special (active (substitute_markdown src vars)) = filter special (literals src)"
  using assms
proof (induction src rule: pieces.induct)
  case (1 s)
  show ?case
  proof (cases s)
    case Nil
    then show ?thesis by (simp add: substitute_markdown_def replace_vars_def literals_def)
  next
    case (Cons c cs)
    show ?thesis
    proof (cases "match_var s")
      case None
      have c: "c \<noteq> CHR 0x5C" "CHR 0x5C \<notin> set cs" using 1(3) Cons by auto
      have "filter special (active (substitute_markdown cs vars)) = filter special (literals cs)"
        using 1(1) [OF Cons] None c 1(4) Cons by (simp add: extract_variables_def pieces_Cons)
      then show ?thesis
        using None Cons c by (simp add: substitute_markdown_def replace_vars_def literals_def pieces_Cons active_cons)
    next
      case (Some m)
      obtain name rest where m: "m = (name, rest)" by force
      then have rest: "CHR 0x5C \<notin> set rest" using 1(3) match_var_subset Some by blast
      have name: "name \<notin> set TRUSTED_LINK_VARS" "set (extract_variables rest) \<inter> set TRUSTED_LINK_VARS = {}"
        using 1(4) Some m Cons by (auto simp: extract_variables_def pieces_Cons)
      have "filter special (active (substitute_markdown rest vars)) = filter special (literals rest)"
        using 1(2) [OF Cons] Some m Cons rest name(2) by simp
      then show ?thesis
        using Some m Cons name(1) escape_twice escaped_inert
        by (simp add: substitute_markdown_def replace_vars_def literals_def pieces_Cons escape_value_def Let_def)
    qed
  qed
qed

text \<open>
  What a visitor types into a form cannot become Markdown in a mail. In a
  template that uses no backslash and no trusted link, the characters of the substituted source
  that can still carry structure or start an autolink are exactly those of the template's own
  text, whatever the values are.
\<close>

theorem mail_values_inert:
  assumes "CHR 0x5C \<notin> set src" "set (extract_variables src) \<inter> set TRUSTED_LINK_VARS = {}"
  shows "filter special (active (substitute_markdown src vars)) = filter special (literals src)"
  by (rule substituted_active [OF assms])

definition greeting :: string where
  "greeting = ''**{{ name }}** wrote''"

theorem mail_values_inert_witness:
  "filter special (active (substitute_markdown greeting [(''name'', ''[x](http://evil.io)'')])) = ''****''"
proof -
  have pre: "CHR 0x5C \<notin> set greeting" "set (extract_variables greeting) \<inter> set TRUSTED_LINK_VARS = {}"
    by code_simp+
  have "filter special (literals greeting) = ''****''" by code_simp
  then show ?thesis using mail_values_inert [OF pre] by simp
qed

section \<open>Templates stay within their variables\<close>

definition template_ok :: "mail_template \<Rightarrow> bool" where
  "template_ok t \<longleftrightarrow>
     (\<forall>src \<in> set [mt_subjectAr t, or_empty (mt_subjectEn t), mt_bodyAr t, or_empty (mt_bodyEn t)].
        set (extract_variables src) \<subseteq> set (mt_variables t))"

lemma no_variables_in_empty [simp]: "extract_variables [] = []"
  by (simp add: extract_variables_def)

lemma assigned_template_ok:
  assumes "template_ok t" "unknown_variable t d = None"
  shows "template_ok (assign_template d t)"
proof -
  have texts: "set (extract_variables src) \<subseteq> set (mt_variables t)" if "src \<in> set (dto_texts d)" for src
  proof (cases "src = []")
    case False
    then have "set (extract_variables src) \<subseteq> set (concat (map extract_variables (filter (\<lambda>s. s \<noteq> []) (dto_texts d))))"
      using that by auto
    then show ?thesis using assms(2) unfolding unknown_variable_def find_None_iff by blast
  qed simp
  have given: "set (extract_variables (or_empty (td_subjectAr d))) \<subseteq> set (mt_variables t)"
      "set (extract_variables (or_empty (Option.bind (td_subjectEn d) id))) \<subseteq> set (mt_variables t)"
      "set (extract_variables (or_empty (td_bodyAr d))) \<subseteq> set (mt_variables t)"
      "set (extract_variables (or_empty (Option.bind (td_bodyEn d) id))) \<subseteq> set (mt_variables t)"
    by ((rule texts; simp add: dto_texts_def)+)
  show ?thesis
    using assms(1) given
    by (cases "td_subjectAr d"; cases "td_subjectEn d"; cases "td_bodyAr d"; cases "td_bodyEn d")
      (simp_all add: template_ok_def assign_template_def set_given_def or_empty_def)
qed

definition template_step :: "(string \<Rightarrow> string \<Rightarrow> bool) \<Rightarrow> string \<times> template_dto \<Rightarrow> mail_template list \<Rightarrow> mail_template list" where
  "template_step ceq op ts = snd (update_template ceq (fst op) (snd op) ts)"

interpretation templates: kept_invariant "template_step ceq" "\<lambda>ts. \<forall>t \<in> set ts. template_ok t" for ceq
proof unfold_locales
  fix ts and op :: "string \<times> template_dto"
  assume ok: "\<forall>t \<in> set ts. template_ok t"
  obtain key d where op: "op = (key, d)" by force
  show "\<forall>t \<in> set (template_step ceq op ts). template_ok t"
  proof (cases "List.find (\<lambda>t. ceq (mt_key t) key) ts")
    case None
    then show ?thesis using ok op by (simp add: template_step_def update_template_def get_by_key_def fail_def)
  next
    case (Some t)
    then have "template_ok t" using ok find_SomeD by fastforce
    then show ?thesis
      using Some ok op assigned_template_ok [of t d]
      by (auto simp: template_step_def update_template_def get_by_key_def Let_def table_simps split: option.splits)
  qed
qed

text \<open>
  However an admin edits the templates, every placeholder in
  a subject or body names a variable the code fills in, and the list of those variables and the
  template's key never change.
\<close>

theorem templates_use_known_variables:
  assumes "\<forall>t \<in> set ts. template_ok t" "t \<in> set (fold (template_step ceq) ops ts)"
  shows "set (extract_variables (mt_bodyAr t)) \<union> set (extract_variables (mt_subjectAr t))
      \<union> set (extract_variables (or_empty (mt_bodyEn t))) \<union> set (extract_variables (or_empty (mt_subjectEn t)))
    \<subseteq> set (mt_variables t)"
proof -
  have "template_ok t" using templates.fold_inv [of ts ceq ops] assms by blast
  then show ?thesis by (auto simp: template_ok_def)
qed

definition invite_template :: mail_template where
  "invite_template = \<lparr>mt_id = ''1'', mt_key = ''user_invite'', mt_nameAr = ''d'', mt_nameEn = None,
     mt_subjectAr = ''hello {{name}}'', mt_subjectEn = None, mt_bodyAr = ''{{link}}'', mt_bodyEn = None,
     mt_variables = [''name'', ''link''], mt_isEnabled = True, mt_updatedBy = None, mt_createdAt = 0, mt_updatedAt = 0\<rparr>"

definition subject_edit :: "string \<Rightarrow> template_dto" where
  "subject_edit s = \<lparr>td_nameAr = None, td_nameEn = None, td_subjectAr = Some s, td_subjectEn = None,
     td_bodyAr = None, td_bodyEn = None, td_isEnabled = None\<rparr>"

theorem templates_use_known_variables_witness:
  "\<exists>t. fold (template_step (=)) [(''user_invite'', subject_edit ''x {{ link }}''), (''user_invite'', subject_edit ''{{code}}'')] [invite_template] = [t]
    \<and> mt_subjectAr t = ''x {{ link }}'' \<and> set (extract_variables (mt_subjectAr t)) \<subseteq> set (mt_variables t)"
proof -
  define t where "t = invite_template\<lparr>mt_subjectAr := ''x {{ link }}''\<rparr>"
  have run: "fold (template_step (=)) [(''user_invite'', subject_edit ''x {{ link }}''), (''user_invite'', subject_edit ''{{code}}'')]
      [invite_template] = [t]"
    unfolding t_def by code_simp
  have start: "\<forall>t \<in> set [invite_template]. template_ok t"
    by code_simp
  show ?thesis
    using templates_use_known_variables [OF start, of t "(=)"
        "[(''user_invite'', subject_edit ''x {{ link }}''), (''user_invite'', subject_edit ''{{code}}'')]"] run
    by (simp add: t_def)
qed

end
