(* ===== verification/MailQueue.thy ===== *)
theory MailQueue
  imports MailTemplates
begin

text \<open>
  The mail queue: \<open>mail/mail.service.ts\<close>, \<open>mail/mail-transport.service.ts\<close>,
  \<open>mail/mail-settings.service.ts\<close>, \<open>mail/mail-crypto.ts\<close> and the log's routes. AES-GCM and the
  SMTP conversation are parameters: a delivery attempt begins in one step and ends in another
  with an outcome the provider decides, so that sends, sweeps, retries by hand and restarts
  interleave as they do in the process. \<open>awaitDelivery\<close> only delays the caller and has no
  counterpart. What the table cannot store (\<open>storable\<close>) makes \<open>save\<close> throw.
\<close>

section \<open>Secrets at rest\<close>

definition IV_LENGTH :: nat where "IV_LENGTH = 12"
definition AUTH_TAG_LENGTH :: nat where "AUTH_TAG_LENGTH = 16"

definition encrypt_secret :: "(string \<Rightarrow> string \<Rightarrow> string \<Rightarrow> string \<times> string) \<Rightarrow> string \<Rightarrow> string \<Rightarrow> string \<Rightarrow> string" where
  "encrypt_secret seal key iv plaintext = (let (ciphertext, tag) = seal key iv plaintext in iv @ tag @ ciphertext)"

definition decrypt_secret :: "(string \<Rightarrow> string \<Rightarrow> string \<Rightarrow> string \<Rightarrow> string option) \<Rightarrow> string \<Rightarrow> string \<Rightarrow> string option" where
  "decrypt_secret unseal key stored =
     (let iv = take IV_LENGTH stored;
          tag = take AUTH_TAG_LENGTH (drop IV_LENGTH stored);
          ciphertext = drop (IV_LENGTH + AUTH_TAG_LENGTH) stored
      in unseal key iv tag ciphertext)"

section \<open>Settings and transport\<close>

datatype mail_driver = Smtp | LogDriver
datatype mail_encryption = NoEncryption | Tls | StartTls

record mail_settings =
  mg_isEnabled :: bool
  mg_driver :: mail_driver
  mg_host :: "string option"
  mg_port :: "nat option"
  mg_encryption :: mail_encryption
  mg_username :: "string option"
  mg_passwordEncrypted :: "string option"
  mg_fromNameAr :: "string option"
  mg_fromNameEn :: "string option"
  mg_fromEmail :: "string option"
  mg_replyTo :: "string option"
  mg_notifyEmail :: "string option"
  mg_lastTestAt :: "time option"
  mg_lastTestOk :: "bool option"
  mg_lastTestError :: "string option"
  mg_updatedBy :: "string option"
  mg_updatedAt :: time

record transport_config =
  tc_host :: string
  tc_port :: nat
  tc_secure :: bool
  tc_requireTLS :: bool
  tc_auth :: "(string \<times> string option) option"

record mail_env =
  me_ceq :: "string \<Rightarrow> string \<Rightarrow> bool"
  me_md :: "string \<Rightarrow> string"
  me_seal :: "string \<Rightarrow> string \<Rightarrow> string \<Rightarrow> string \<times> string"
  me_unseal :: "string \<Rightarrow> string \<Rightarrow> string \<Rightarrow> string \<Rightarrow> string option"
  me_key :: string

text \<open>\<open>build\<close>: a result without a transporter is \<open>Inr None\<close>; a ciphertext that does not open throws.\<close>

definition build_transport :: "mail_env \<Rightarrow> mail_settings \<Rightarrow> transport_config option res" where
  "build_transport env g =
     (if mg_driver g \<noteq> Smtp \<or> or_empty (mg_host g) = [] \<or> mg_port g = None \<or> mg_port g = Some 0 then Inr None
      else
        (let password = (case mg_passwordEncrypted g of
                           None \<Rightarrow> Inr None
                         | Some stored \<Rightarrow>
                             (case decrypt_secret (me_unseal env) (me_key env) stored of
                                None \<Rightarrow> Inl (OtherExn ''Unsupported state or unable to authenticate data'')
                              | Some p \<Rightarrow> Inr (Some p)))
         in case password of
              Inl e \<Rightarrow> Inl e
            | Inr pass \<Rightarrow>
                Inr (Some \<lparr>tc_host = or_empty (mg_host g), tc_port = the (mg_port g), tc_secure = (mg_encryption g = Tls),
                           tc_requireTLS = (mg_encryption g = StartTls),
                           tc_auth = (if or_empty (mg_username g) = [] then None else Some (or_empty (mg_username g), pass))\<rparr>)))"

type_synonym transport_cache = "transport_config option \<times> time option"

definition get_transporter ::
  "mail_env \<Rightarrow> mail_settings option \<Rightarrow> transport_cache \<Rightarrow> (transport_config option \<times> mail_settings) res \<times> transport_cache" where
  "get_transporter env settings cache =
     (case settings of
        None \<Rightarrow> (Inl (OtherExn ''mail_settings singleton row is missing''), cache)
      | Some g \<Rightarrow>
          if fst cache = None \<or> snd cache \<noteq> Some (mg_updatedAt g)
          then (case build_transport env g of
                  Inl e \<Rightarrow> (Inl e, cache)
                | Inr t \<Rightarrow> (Inr (t, g), (t, Some (mg_updatedAt g))))
          else (Inr (fst cache, g), cache))"

definition invalidate :: transport_cache where
  "invalidate = (None, None)"

function collapse_breaks :: "string \<Rightarrow> string" where
  "collapse_breaks [] = []"
| "collapse_breaks (c # cs) =
     (if c \<in> {CHR 0x0D, CHR 0x0A} then CHR '' '' # collapse_breaks (dropWhile (\<lambda>d. d \<in> {CHR 0x0D, CHR 0x0A}) cs)
      else c # collapse_breaks cs)"
  by pat_completeness auto
termination
  by (relation "measure length") (auto simp: length_dropWhile_le le_imp_less_Suc)

definition from_header :: "mail_settings \<Rightarrow> loc \<Rightarrow> string" where
  "from_header g l =
     (let raw = first_nonempty (if l = En then or_empty (mg_fromNameEn g) else [])
                  (first_nonempty (or_empty (mg_fromNameAr g)) (or_empty (mg_fromEmail g)));
          name = map (\<lambda>c. if c = CHR 0x22 then CHR 0x27 else c) (collapse_breaks raw)
      in if or_empty (mg_fromEmail g) \<noteq> [] then CHR 0x22 # name @ CHR 0x22 # '' <'' @ or_empty (mg_fromEmail g) @ ''>''
         else or_empty (mg_fromEmail g))"

record settings_dto =
  gd_isEnabled :: "bool option"
  gd_driver :: "mail_driver option"
  gd_host :: "string option option"
  gd_port :: "nat option option"
  gd_encryption :: "mail_encryption option"
  gd_username :: "string option option"
  gd_password :: "string option"
  gd_fromNameAr :: "string option option"
  gd_fromNameEn :: "string option option"
  gd_fromEmail :: "string option option"
  gd_replyTo :: "string option option"
  gd_notifyEmail :: "string option option"

text \<open>The write of \<open>update\<close>; \<open>iv\<close> is the fresh nonce and \<open>now\<close> the row's new \<open>updated_at\<close>.\<close>

definition assign_settings :: "mail_env \<Rightarrow> string \<Rightarrow> time \<Rightarrow> string \<Rightarrow> settings_dto \<Rightarrow> mail_settings \<Rightarrow> mail_settings" where
  "assign_settings env iv now user_id d g =
     g\<lparr>mg_isEnabled := set_given (gd_isEnabled d) (mg_isEnabled g), mg_driver := set_given (gd_driver d) (mg_driver g),
       mg_host := set_given (gd_host d) (mg_host g), mg_port := set_given (gd_port d) (mg_port g),
       mg_encryption := set_given (gd_encryption d) (mg_encryption g), mg_username := set_given (gd_username d) (mg_username g),
       mg_passwordEncrypted :=
         (if or_empty (gd_password d) \<noteq> [] then Some (encrypt_secret (me_seal env) (me_key env) iv (or_empty (gd_password d)))
          else mg_passwordEncrypted g),
       mg_fromNameAr := set_given (gd_fromNameAr d) (mg_fromNameAr g), mg_fromNameEn := set_given (gd_fromNameEn d) (mg_fromNameEn g),
       mg_fromEmail := set_given (gd_fromEmail d) (mg_fromEmail g), mg_replyTo := set_given (gd_replyTo d) (mg_replyTo g),
       mg_notifyEmail := set_given (gd_notifyEmail d) (mg_notifyEmail g),
       mg_updatedBy := Some user_id, mg_updatedAt := now\<rparr>"

section \<open>The log and the process\<close>

datatype mail_status = Queued | Sent | MailFailed | Skipped

record mail_row =
  ml_id :: string
  ml_templateKey :: string
  ml_locale :: loc
  ml_toEmail :: string
  ml_subject :: string
  ml_status :: mail_status
  ml_attempts :: nat
  ml_error :: "string option"
  ml_payload :: "rendered_mail option"
  ml_entity :: "(string \<times> string) option"
  ml_nextRetryAt :: "time option"
  ml_sentAt :: "time option"
  ml_createdAt :: time

record pending_delivery =
  pn_rendered :: rendered_mail
  pn_nextRetryAt :: "time option"
  pn_terminal :: bool

text \<open>A delivery that has begun: its row, the attempt's number and the message handed to SMTP.\<close>

record outgoing =
  og_id :: string
  og_attempts :: nat
  og_from :: string
  og_to :: string
  og_content :: rendered_mail
  og_bySweep :: bool

record mail_state =
  ms_settings :: "mail_settings option"
  ms_templates :: "mail_template list"
  ms_log :: "mail_row list"
  ms_pending :: "(string \<times> pending_delivery) list"
  ms_transport :: transport_cache
  ms_flying :: "outgoing list"
  ms_sweep :: "string list option"
  ms_nextId :: nat

definition RETRY_DELAYS_MINUTES :: "int list" where "RETRY_DELAYS_MINUTES = [1, 5, 15]"
definition MAX_ATTEMPTS :: nat where "MAX_ATTEMPTS = 1 + length RETRY_DELAYS_MINUTES"
definition MAX_PENDING :: nat where "MAX_PENDING = 500"

definition pending_set :: "string \<Rightarrow> pending_delivery \<Rightarrow> (string \<times> pending_delivery) list \<Rightarrow> (string \<times> pending_delivery) list" where
  "pending_set i p ps = (if i \<in> fst ` set ps then map (\<lambda>(j, q). if j = i then (j, p) else (j, q)) ps else ps @ [(i, p)])"

definition pending_delete :: "string \<Rightarrow> (string \<times> pending_delivery) list \<Rightarrow> (string \<times> pending_delivery) list" where
  "pending_delete i ps = filter (\<lambda>(j, _). j \<noteq> i) ps"

definition evict_if_at_capacity :: "(string \<times> pending_delivery) list \<Rightarrow> (string \<times> pending_delivery) list" where
  "evict_if_at_capacity ps =
     (if length ps < MAX_PENDING then ps
      else case List.find (\<lambda>(_, p). pn_terminal p) ps of None \<Rightarrow> ps | Some (i, _) \<Rightarrow> pending_delete i ps)"

definition update_mail :: "string \<Rightarrow> (mail_row \<Rightarrow> mail_row) \<Rightarrow> mail_row list \<Rightarrow> mail_row list" where
  "update_mail i f rows = update_rows (\<lambda>r. ml_id r = i) f rows"


section \<open>Sending\<close>

definition no_recipient :: string where
  "no_recipient = ''No recipient email address was configured (e.g. mail_settings.notify_email is unset for contact_notify)''"

definition mail_log_row :: "mail_env \<Rightarrow> string \<Rightarrow> time \<Rightarrow> send_mail \<Rightarrow> mail_state \<Rightarrow> mail_row" where
  "mail_log_row env new_id now p st =
     (let mail = render_mail (me_ceq env) (me_md env) (ms_templates st) (sm_key p) (sm_vars p) (sm_locale p);
          sensitive = sm_sensitive p \<noteq> [];
          loggable = (if sensitive
                      then render_mail (me_ceq env) (me_md env) (ms_templates st) (sm_key p)
                             (mask_vars (sm_vars p) (sm_sensitive p)) (sm_locale p)
                      else mail);
          enabled = (case ms_settings st of None \<Rightarrow> False | Some g \<Rightarrow> mg_isEnabled g);
          status = (if sm_to p = [] \<or> \<not> enabled \<or> mail = None then Skipped else Queued)
      in \<lparr>ml_id = new_id, ml_templateKey = sm_key p, ml_locale = sm_locale p, ml_toEmail = sm_to p,
          ml_subject = (case loggable of None \<Rightarrow> sm_key p | Some m \<Rightarrow> rm_subject m),
          ml_status = status, ml_attempts = 0,
          ml_error = (if sm_to p = [] then Some no_recipient else None),
          ml_payload = (if status = Queued \<and> \<not> sensitive then mail else None),
          ml_entity = sm_entity p, ml_nextRetryAt = None, ml_sentAt = None, ml_createdAt = now\<rparr>)"

definition mail_send :: "mail_env \<Rightarrow> (mail_row \<Rightarrow> bool) \<Rightarrow> string \<Rightarrow> time \<Rightarrow> send_mail \<Rightarrow> mail_state \<Rightarrow> mail_state" where
  "mail_send env storable new_id now p st =
     (let row = mail_log_row env new_id now p st
      in if \<not> storable row then st
         else
           (let logged = st\<lparr>ms_log := ms_log st @ [row]\<rparr>
            in case render_mail (me_ceq env) (me_md env) (ms_templates st) (sm_key p) (sm_vars p) (sm_locale p) of
                 Some mail \<Rightarrow>
                   if ml_status row = Queued
                   then logged\<lparr>ms_pending := pending_set new_id \<lparr>pn_rendered = mail, pn_nextRetryAt = None, pn_terminal = False\<rparr>
                                               (evict_if_at_capacity (ms_pending st))\<rparr>
                   else logged
               | None \<Rightarrow> logged))"

section \<open>Delivery\<close>

definition content_gone :: string where
  "content_gone = ''Content no longer available to retry (not stored for sensitive mail); re-trigger the original action''"

definition record_failure :: "time \<Rightarrow> string \<Rightarrow> nat \<Rightarrow> string \<Rightarrow> bool \<Rightarrow> mail_state \<Rightarrow> mail_state" where
  "record_failure now i attempts err force_terminal st =
     (let terminal = force_terminal \<or> MAX_ATTEMPTS \<le> attempts;
          next_at = (if terminal then None else Some (now + minutes (RETRY_DELAYS_MINUTES ! (attempts - 1))))
      in st\<lparr>ms_log := update_mail i
                (\<lambda>r. r\<lparr>ml_status := MailFailed, ml_attempts := attempts, ml_error := Some (take 1000 err),
                       ml_nextRetryAt := next_at, ml_payload := (if terminal then None else ml_payload r)\<rparr>) (ms_log st),
            ms_pending := map (\<lambda>(j, p). if j = i then (j, p\<lparr>pn_nextRetryAt := next_at, pn_terminal := terminal\<rparr>) else (j, p))
                (ms_pending st)\<rparr>)"

text \<open>\<open>attemptDelivery\<close> up to the call of \<open>sendMail\<close>; the message is given when the attempt goes that far.\<close>

definition attempt_begin :: "mail_env \<Rightarrow> time \<Rightarrow> bool \<Rightarrow> string \<Rightarrow> mail_state \<Rightarrow> mail_state \<times> outgoing option" where
  "attempt_begin env now by_sweep i st =
     (case List.find (\<lambda>r. ml_id r = i) (ms_log st) of
        None \<Rightarrow> (st\<lparr>ms_pending := pending_delete i (ms_pending st)\<rparr>, None)
      | Some row \<Rightarrow>
          if ml_status row = Sent then (st\<lparr>ms_pending := pending_delete i (ms_pending st)\<rparr>, None)
          else
            (case (case map_of (ms_pending st) i of Some p \<Rightarrow> Some (pn_rendered p) | None \<Rightarrow> ml_payload row) of
               None \<Rightarrow>
                 (if ml_status row = Queued \<or> (ml_status row = MailFailed \<and> ml_nextRetryAt row \<noteq> None)
                  then st\<lparr>ms_log := update_mail i
                            (\<lambda>r. r\<lparr>ml_status := MailFailed, ml_nextRetryAt := None, ml_error := Some content_gone\<rparr>) (ms_log st)\<rparr>
                  else st, None)
             | Some mail \<Rightarrow>
                 (let seeded = (if map_of (ms_pending st) i = None
                                then st\<lparr>ms_pending := pending_set i
                                          \<lparr>pn_rendered = mail, pn_nextRetryAt = None, pn_terminal = False\<rparr>
                                          (evict_if_at_capacity (ms_pending st))\<rparr>
                                else st);
                      (got, cache) = get_transporter env (ms_settings st) (ms_transport st);
                      ready = seeded\<lparr>ms_transport := cache\<rparr>;
                      attempts = ml_attempts row + 1
                  in case got of
                       Inl e \<Rightarrow> (ready, None)
                     | Inr (None, g) \<Rightarrow> (record_failure now i attempts ''SMTP is not configured'' True ready, None)
                     | Inr (Some t, g) \<Rightarrow>
                         (ready, Some \<lparr>og_id = i, og_attempts = attempts, og_from = from_header g (ml_locale row),
                                       og_to = ml_toEmail row, og_content = mail, og_bySweep = by_sweep\<rparr>))))"

text \<open>What SMTP answered: \<open>None\<close> for an accepted message, the error's text otherwise.\<close>

definition attempt_end :: "time \<Rightarrow> outgoing \<Rightarrow> string option \<Rightarrow> mail_state \<Rightarrow> mail_state" where
  "attempt_end now m refused st =
     (case refused of
        None \<Rightarrow>
          st\<lparr>ms_log := update_mail (og_id m)
                (\<lambda>r. r\<lparr>ml_status := Sent, ml_attempts := og_attempts m, ml_sentAt := Some now, ml_error := None,
                       ml_nextRetryAt := None, ml_payload := None\<rparr>) (ms_log st),
             ms_pending := pending_delete (og_id m) (ms_pending st)\<rparr>
      | Some err \<Rightarrow> record_failure now (og_id m) (og_attempts m) err False st)"

definition sweep_due :: "time \<Rightarrow> mail_row list \<Rightarrow> string list" where
  "sweep_due now rows =
     map ml_id (filter (\<lambda>r. ml_status r = MailFailed \<and> (case ml_nextRetryAt r of None \<Rightarrow> False | Some t \<Rightarrow> t \<le> now)) rows)"

text \<open>The checks of \<open>retryNow\<close>: an error, the row as it is, or the go-ahead for an attempt.\<close>

definition retry_check :: "string \<Rightarrow> mail_state \<Rightarrow> mail_row option res" where
  "retry_check i st =
     (case List.find (\<lambda>r. ml_id r = i) (ms_log st) of
        None \<Rightarrow> fail 404 NOT_FOUND ''Not found''
      | Some row \<Rightarrow>
          if ml_status row = Sent then Inr (Some row)
          else if map_of (ms_pending st) i = None \<and> ml_payload row = None
          then fail 400 VALIDATION_FAILED ''This message can no longer be retried''
          else Inr None)"

section \<open>The log's routes and the settings service\<close>

record public_mail_log =
  pl_id :: string
  pl_templateKey :: string
  pl_locale :: loc
  pl_toEmail :: string
  pl_subject :: string
  pl_status :: mail_status
  pl_attempts :: nat
  pl_error :: "string option"
  pl_hasPayload :: bool
  pl_entity :: "(string \<times> string) option"
  pl_nextRetryAt :: "time option"
  pl_sentAt :: "time option"
  pl_createdAt :: time

definition to_public_mail_log :: "mail_row \<Rightarrow> public_mail_log" where
  "to_public_mail_log r =
     \<lparr>pl_id = ml_id r, pl_templateKey = ml_templateKey r, pl_locale = ml_locale r, pl_toEmail = ml_toEmail r,
      pl_subject = ml_subject r, pl_status = ml_status r, pl_attempts = ml_attempts r, pl_error = ml_error r,
      pl_hasPayload = (ml_payload r \<noteq> None), pl_entity = ml_entity r, pl_nextRetryAt = ml_nextRetryAt r,
      pl_sentAt = ml_sentAt r, pl_createdAt = ml_createdAt r\<rparr>"

fun status_name :: "mail_status \<Rightarrow> string" where
  "status_name Queued = ''queued''"
| "status_name Sent = ''sent''"
| "status_name MailFailed = ''failed''"
| "status_name Skipped = ''skipped''"

definition mail_log_list ::
  "(string \<Rightarrow> string \<Rightarrow> bool) \<Rightarrow> query \<Rightarrow> mail_row list \<Rightarrow> public_mail_log paged_result" where
  "mail_log_list ceq q rows =
     (let pl = read_page_limit 50 200 q;
          wanted = (\<lambda>key v. case read_string q key of None \<Rightarrow> True | Some w \<Rightarrow> w = [] \<or> ceq v w);
          found = sort_key (\<lambda>r. - ml_createdAt r)
                    (filter (\<lambda>r. wanted ''status'' (status_name (ml_status r)) \<and> wanted ''template'' (ml_templateKey r)) rows)
      in \<lparr>pg_data = (if pl_beyondMaxOffset pl then []
                     else map to_public_mail_log (take (nat (pl_limit pl)) (drop (nat (pl_offset pl)) found))),
          pg_total = length found, pg_page = pl_page pl, pg_limit = pl_limit pl\<rparr>)"

text \<open>What the settings routes return: the row without its ciphertext, and whether there is one.\<close>

definition settings_view :: "mail_settings \<Rightarrow> mail_settings \<times> bool" where
  "settings_view g = (g\<lparr>mg_passwordEncrypted := None\<rparr>, mg_passwordEncrypted g \<noteq> None)"

definition update_settings ::
  "mail_env \<Rightarrow> string \<Rightarrow> time \<Rightarrow> string \<Rightarrow> settings_dto \<Rightarrow> mail_state
     \<Rightarrow> ((mail_settings \<times> bool) \<times> mail_settings \<times> bool) res \<times> mail_state" where
  "update_settings env iv now user_id d st =
     (case ms_settings st of
        None \<Rightarrow> (Inl (OtherExn ''mail_settings singleton row is missing''), st)
      | Some g \<Rightarrow>
          (let saved = assign_settings env iv now user_id d g
           in (Inr (settings_view g, saved\<lparr>mg_passwordEncrypted := None\<rparr>,
                    or_empty (gd_password d) \<noteq> [] \<or> mg_passwordEncrypted g \<noteq> None),
               st\<lparr>ms_settings := Some saved, ms_transport := invalidate\<rparr>)))"

text \<open>\<open>POST admin/mail/test\<close>; its bookkeeping \<open>UPDATE\<close> bumps \<open>updated_at\<close> as the column does.\<close>

definition test_settings ::
  "mail_env \<Rightarrow> time \<Rightarrow> (transport_config \<Rightarrow> string option) \<Rightarrow> mail_state \<Rightarrow> (bool \<times> string option) res \<times> mail_state" where
  "test_settings env now smtp st =
     (let (got, cache) = get_transporter env (ms_settings st) (ms_transport st);
          noted = (\<lambda>ok err. st\<lparr>ms_transport := cache,
                     ms_settings := map_option (\<lambda>g. g\<lparr>mg_lastTestAt := Some now, mg_lastTestOk := Some ok,
                       mg_lastTestError := (case err of None \<Rightarrow> None | Some e \<Rightarrow> if e = [] then None else Some (take 500 e)),
                       mg_updatedAt := now\<rparr>) (ms_settings st)\<rparr>);
          unset = ''SMTP is not configured - set driver to \"smtp\" with a host and port first''
      in case got of
           Inl e \<Rightarrow> (Inl e, st\<lparr>ms_transport := cache\<rparr>)
         | Inr (None, g) \<Rightarrow> (Inr (False, Some unset), noted False (Some unset))
         | Inr (Some t, g) \<Rightarrow>
             (case smtp t of
                None \<Rightarrow> (Inr (True, None), noted True None)
              | Some err \<Rightarrow> (Inr (False, Some err), noted False (Some err))))"


section \<open>The process as steps\<close>

text \<open>
  Everything that touches the queue, in any order: \<open>MBegin\<close> and \<open>MEnd\<close> are the two halves of an
  attempt (\<open>send\<close> and \<open>retryNow\<close> begin one directly), a sweep takes the rows due when it starts
  and goes through them one at a time, the nightly clean-up drops old rows and a restart loses
  the process's memory.
\<close>

datatype mail_op =
    MSend time send_mail
  | MBegin time string
  | MEnd time nat "string option"
  | MSweepBegin time
  | MSweepNext time
  | MSettings string time string settings_dto
  | MTemplate string template_dto
  | MTest time "string option"
  | MRetention time
  | MRestart

definition begin_step :: "mail_env \<Rightarrow> time \<Rightarrow> bool \<Rightarrow> string \<Rightarrow> mail_state \<Rightarrow> mail_state" where
  "begin_step env now by_sweep i st =
     (let (st', m) = attempt_begin env now by_sweep i st
      in case m of None \<Rightarrow> st' | Some m' \<Rightarrow> st'\<lparr>ms_flying := ms_flying st' @ [m']\<rparr>)"

fun mail_step :: "mail_env \<Rightarrow> (mail_row \<Rightarrow> bool) \<Rightarrow> mail_op \<Rightarrow> mail_state \<Rightarrow> mail_state" where
  "mail_step env storable (MSend now p) st =
     (mail_send env storable (show_nat (ms_nextId st)) now p st)\<lparr>ms_nextId := Suc (ms_nextId st)\<rparr>"
| "mail_step env storable (MBegin now i) st = begin_step env now False i st"
| "mail_step env storable (MEnd now k refused) st =
     (if k < length (ms_flying st)
      then attempt_end now (ms_flying st ! k) refused (st\<lparr>ms_flying := take k (ms_flying st) @ drop (Suc k) (ms_flying st)\<rparr>)
      else st)"
| "mail_step env storable (MSweepBegin now) st =
     (if ms_sweep st = None then st\<lparr>ms_sweep := Some (sweep_due now (ms_log st))\<rparr> else st)"
| "mail_step env storable (MSweepNext now) st =
     (if list_ex og_bySweep (ms_flying st) then st
      else case ms_sweep st of
             None \<Rightarrow> st
           | Some [] \<Rightarrow> st\<lparr>ms_sweep := None\<rparr>
           | Some (i # is) \<Rightarrow> begin_step env now True i (st\<lparr>ms_sweep := Some is\<rparr>))"
| "mail_step env storable (MSettings iv now user_id d) st = snd (update_settings env iv now user_id d st)"
| "mail_step env storable (MTemplate key d) st =
     st\<lparr>ms_templates := snd (update_template (me_ceq env) key d (ms_templates st))\<rparr>"
| "mail_step env storable (MTest now refused) st = snd (test_settings env now (\<lambda>_. refused) st)"
| "mail_step env storable (MRetention cutoff) st = st\<lparr>ms_log := delete_rows (\<lambda>r. ml_createdAt r < cutoff) (ms_log st)\<rparr>"
| "mail_step env storable MRestart st = st\<lparr>ms_pending := [], ms_transport := invalidate, ms_flying := [], ms_sweep := None\<rparr>"

section \<open>What a row can hold\<close>

definition row_ok :: "mail_row \<Rightarrow> bool" where
  "row_ok r \<longleftrightarrow>
     (ml_payload r \<noteq> None \<longrightarrow> ml_status r = Queued \<or> (ml_status r = MailFailed \<and> ml_nextRetryAt r \<noteq> None))
     \<and> (ml_nextRetryAt r \<noteq> None \<longrightarrow> ml_status r = MailFailed \<and> 1 \<le> ml_attempts r \<and> ml_attempts r < MAX_ATTEMPTS)
     \<and> (ml_sentAt r = None \<longrightarrow> ml_status r \<noteq> Sent)"

definition queue_ok :: "mail_state \<Rightarrow> bool" where
  "queue_ok st \<longleftrightarrow>
     distinct (map ml_id (ms_log st)) \<and> (\<forall>r \<in> set (ms_log st). row_ok r \<and> (\<exists>m < ms_nextId st. ml_id r = show_nat m))
     \<and> (\<forall>m \<in> set (ms_flying st). 1 \<le> og_attempts m)"

named_theorems same_log

lemma update_mail_ids: "(\<And>r. ml_id (f r) = ml_id r) \<Longrightarrow> map ml_id (update_mail i f rows) = map ml_id rows"
  by (simp add: update_mail_def map_update_rows)

lemma queue_ok_update:
  assumes ok: "queue_ok st"
    and f: "\<And>r. ml_id (f r) = ml_id r" "\<And>r. r \<in> set (ms_log st) \<Longrightarrow> ml_id r = i \<Longrightarrow> row_ok r \<Longrightarrow> row_ok (f r)"
    and st': "ms_log st' = update_mail i f (ms_log st)" "ms_flying st' = ms_flying st" "ms_nextId st' = ms_nextId st"
  shows "queue_ok st'"
  using ok update_mail_ids [of f i "ms_log st", OF f(1)] f
  by (auto simp: queue_ok_def st' update_mail_def table_simps)

lemma queue_ok_same:
  "ms_log st' = ms_log st \<Longrightarrow> ms_nextId st' = ms_nextId st \<Longrightarrow> set (ms_flying st') \<subseteq> set (ms_flying st) \<Longrightarrow>
    queue_ok st \<Longrightarrow> queue_ok st'"
  by (auto simp: queue_ok_def)

lemma record_failure_ok:
  assumes "queue_ok st" "1 \<le> n"
  shows "queue_ok (record_failure now i n err force st)"
  by (rule queue_ok_update [OF assms(1), where i = i]) (use assms(2) in \<open>auto simp: record_failure_def Let_def row_ok_def\<close>)

lemma attempt_end_ok:
  assumes "queue_ok st" "1 \<le> og_attempts m"
  shows "queue_ok (attempt_end now m refused st)"
proof (cases refused)
  case None
  show ?thesis
    by (rule queue_ok_update [OF assms(1), where i = "og_id m"]) (auto simp: None attempt_end_def row_ok_def)
next
  case (Some err)
  then show ?thesis using record_failure_ok [OF assms] by (simp add: attempt_end_def)
qed

text \<open>The ways \<open>attempt_begin\<close> ends, by what it finds.\<close>

lemma attempt_begin_cases:
  assumes "attempt_begin env now by_sweep i st = (st', m)"
  obtains (dropped) "m = None" "ms_log st' = ms_log st" "ms_flying st' = ms_flying st" "ms_nextId st' = ms_nextId st"
  | (gone) row where "m = None" "List.find (\<lambda>r. ml_id r = i) (ms_log st) = Some row" "ml_payload row = None"
      "map_of (ms_pending st) i = None"
      "st' = st\<lparr>ms_log := update_mail i
         (\<lambda>r. r\<lparr>ml_status := MailFailed, ml_nextRetryAt := None, ml_error := Some content_gone\<rparr>) (ms_log st)\<rparr>"
  | (unset) row st0 where "m = None" "List.find (\<lambda>r. ml_id r = i) (ms_log st) = Some row"
      "ms_log st0 = ms_log st" "ms_flying st0 = ms_flying st" "ms_nextId st0 = ms_nextId st"
      "st' = record_failure now i (ml_attempts row + 1) ''SMTP is not configured'' True st0"
  | (flies) row x where "m = Some x" "List.find (\<lambda>r. ml_id r = i) (ms_log st) = Some row" "ml_status row \<noteq> Sent"
      "og_id x = i" "og_attempts x = ml_attempts row + 1" "og_bySweep x = by_sweep"
      "ms_log st' = ms_log st" "ms_flying st' = ms_flying st" "ms_nextId st' = ms_nextId st"
proof (cases "List.find (\<lambda>r. ml_id r = i) (ms_log st)")
  case None
  then show thesis using assms by (intro dropped) (auto simp: attempt_begin_def)
next
  case (Some row)
  define content where "content = (case map_of (ms_pending st) i of Some p \<Rightarrow> Some (pn_rendered p) | None \<Rightarrow> ml_payload row)"
  obtain got cache where got: "get_transporter env (ms_settings st) (ms_transport st) = (got, cache)"
    by (cases "get_transporter env (ms_settings st) (ms_transport st)") auto
  show thesis
  proof (cases "ml_status row = Sent")
    case True
    then show thesis using assms Some by (intro dropped) (auto simp: attempt_begin_def)
  next
    case unsent: False
    show thesis
    proof (cases content)
      case None
      then have none: "map_of (ms_pending st) i = None" "ml_payload row = None"
        by (auto simp: content_def split: option.splits)
      show thesis
      proof (cases "ml_status row = Queued \<or> (ml_status row = MailFailed \<and> ml_nextRetryAt row \<noteq> None)")
        case True
        then show thesis using assms Some unsent none by (intro gone) (auto simp: attempt_begin_def)
      next
        case False
        then show thesis using assms Some unsent none by (intro dropped) (auto simp: attempt_begin_def)
      qed
    next
      case C: (Some mail)
      define st0 where "st0 = (if map_of (ms_pending st) i = None
          then st\<lparr>ms_pending := pending_set i \<lparr>pn_rendered = mail, pn_nextRetryAt = None, pn_terminal = False\<rparr>
                 (evict_if_at_capacity (ms_pending st))\<rparr>
          else st)\<lparr>ms_transport := cache\<rparr>"
      have st0: "ms_log st0 = ms_log st" "ms_flying st0 = ms_flying st" "ms_nextId st0 = ms_nextId st"
        by (simp_all add: st0_def)
      have step: "attempt_begin env now by_sweep i st = (case got of Inl e \<Rightarrow> (st0, None)
          | Inr (None, g) \<Rightarrow> (record_failure now i (Suc (ml_attempts row)) ''SMTP is not configured'' True st0, None)
          | Inr (Some t, g) \<Rightarrow> (st0, Some \<lparr>og_id = i, og_attempts = Suc (ml_attempts row), og_from = from_header g (ml_locale row),
                og_to = ml_toEmail row, og_content = mail, og_bySweep = by_sweep\<rparr>))"
        using Some unsent C got unfolding attempt_begin_def st0_def content_def
        by (simp add: Let_def)
      show thesis
      proof (cases got)
        case (Inl e)
        then show thesis using assms step st0 by (intro dropped) auto
      next
        case (Inr tg)
        obtain t g where tg: "tg = (t, g)" by force
        show thesis
        proof (cases t)
          case None
          then show thesis using assms step Inr tg st0 Some by (intro unset [of row st0]) auto
        next
          case (Some t')
          then show thesis using assms step Inr tg st0 \<open>List.find _ _ = Some row\<close> unsent by (intro flies [of _ row]) auto
        qed
      qed
    qed
  qed
qed

lemma begin_step_ok:
  assumes ok: "queue_ok st"
  shows "queue_ok (begin_step env now by_sweep i st)"
proof -
  obtain st' m where r: "attempt_begin env now by_sweep i st = (st', m)" by force
  from r show ?thesis
  proof (cases rule: attempt_begin_cases)
    case dropped
    then show ?thesis using r ok queue_ok_same [of st' st] by (simp add: begin_step_def)
  next
    case (gone row)
    have "queue_ok st'"
    proof (rule queue_ok_update [OF ok, where i = i])
      fix r assume r: "r \<in> set (ms_log st)" "ml_id r = i"
      have "row \<in> set (ms_log st)" "ml_id row = i" using find_SomeD [OF gone(2)] by auto
      moreover have "distinct (map ml_id (ms_log st))" using ok by (simp add: queue_ok_def)
      ultimately have "r = row" using distinct_key_eq [of ml_id "ms_log st" r row] r by simp
      then show "row_ok (r\<lparr>ml_status := MailFailed, ml_nextRetryAt := None, ml_error := Some content_gone\<rparr>)"
        using gone(3) by (simp add: row_ok_def)
    qed (simp_all add: gone)
    then show ?thesis using r gone(1) by (simp add: begin_step_def)
  next
    case (unset row st0)
    have "queue_ok st0" using queue_ok_same [of st0 st] unset ok by simp
    then show ?thesis using r unset record_failure_ok by (simp add: begin_step_def)
  next
    case (flies row x)
    then show ?thesis using r ok by (auto simp: begin_step_def queue_ok_def)
  qed
qed

lemma mail_send_log:
  "ms_log (mail_send env storable i now p st) = ms_log st @ (if storable (mail_log_row env i now p st) then [mail_log_row env i now p st] else [])"
  "ms_flying (mail_send env storable i now p st) = ms_flying st" "ms_nextId (mail_send env storable i now p st) = ms_nextId st"
  by (auto simp: mail_send_def Let_def split: option.split)

lemma fresh_row_ok: "row_ok (mail_log_row env i now p st)" "ml_id (mail_log_row env i now p st) = i"
  by (auto simp: mail_log_row_def Let_def row_ok_def split: option.split)

lemma settings_frame [simp]:
  "ms_log (snd (update_settings env iv now u d st)) = ms_log st" "ms_flying (snd (update_settings env iv now u d st)) = ms_flying st"
  "ms_nextId (snd (update_settings env iv now u d st)) = ms_nextId st"
  "ms_log (snd (test_settings env now smtp st)) = ms_log st" "ms_flying (snd (test_settings env now smtp st)) = ms_flying st"
  "ms_nextId (snd (test_settings env now smtp st)) = ms_nextId st"
  by (auto simp: update_settings_def test_settings_def Let_def split: option.split sum.split prod.split)

interpretation mail: kept_invariant "mail_step env storable" queue_ok for env storable
proof unfold_locales
  fix st op
  assume ok: "queue_ok st"
  show "queue_ok (mail_step env storable op st)"
  proof (cases op)
    case (MSend now p)
    then show ?thesis
      using ok fresh_row_ok by (auto simp: queue_ok_def mail_send_log less_Suc_eq)
  next
    case (MBegin now i)
    then show ?thesis using begin_step_ok ok by simp
  next
    case (MEnd now k refused)
    show ?thesis
    proof (cases "k < length (ms_flying st)")
      case True
      define rest where "rest = st\<lparr>ms_flying := take k (ms_flying st) @ drop (Suc k) (ms_flying st)\<rparr>"
      have "queue_ok rest" using ok by (auto simp: rest_def queue_ok_def dest: in_set_takeD in_set_dropD)
      moreover have "1 \<le> og_attempts (ms_flying st ! k)" using ok True by (simp add: queue_ok_def)
      ultimately show ?thesis using MEnd True attempt_end_ok by (simp add: rest_def)
    qed (use MEnd ok in simp)
  next
    case (MSweepBegin now)
    then show ?thesis using ok queue_ok_same [of _ st] by simp
  next
    case (MSweepNext now)
    have "queue_ok (st\<lparr>ms_sweep := q\<rparr>)" for q using ok queue_ok_same [of "st\<lparr>ms_sweep := q\<rparr>" st] by simp
    then show ?thesis using MSweepNext ok begin_step_ok by (auto split: option.split list.split)
  next
    case (MRetention cutoff)
    then show ?thesis using ok by (auto simp: queue_ok_def table_simps distinct_map_delete_rows)
  qed (use ok queue_ok_same [of _ st] in simp_all)
qed


section \<open>What the log can tell\<close>

text \<open>The state without the contents of messages held in memory.\<close>

definition no_content_mail :: rendered_mail where
  "no_content_mail = \<lparr>rm_subject = [], rm_html = [], rm_text = []\<rparr>"

definition erase_pending :: "(string \<times> pending_delivery) list \<Rightarrow> (string \<times> pending_delivery) list" where
  "erase_pending ps = map (\<lambda>(i, p). (i, p\<lparr>pn_rendered := no_content_mail\<rparr>)) ps"

definition erase_outgoing :: "outgoing \<Rightarrow> outgoing" where
  "erase_outgoing m = m\<lparr>og_content := no_content_mail\<rparr>"

definition erase :: "mail_state \<Rightarrow> mail_state" where
  "erase st = st\<lparr>ms_pending := erase_pending (ms_pending st), ms_flying := map erase_outgoing (ms_flying st)\<rparr>"

lemma erase_pending_simps [simp]:
  "fst ` set (erase_pending ps) = fst ` set ps"
  "erase_pending (erase_pending ps) = erase_pending ps"
  "length (erase_pending ps) = length ps"
  "map_of (erase_pending ps) i = map_option (\<lambda>p. p\<lparr>pn_rendered := no_content_mail\<rparr>) (map_of ps i)"
  "erase_pending [] = []"
  by (induction ps; force simp: erase_pending_def)+

lemma erase_pending_delete [simp]: "erase_pending (pending_delete i ps) = pending_delete i (erase_pending ps)"
  by (induction ps) (auto simp: erase_pending_def pending_delete_def)

lemma erase_pending_set [simp]:
  "erase_pending (pending_set i p ps) = pending_set i (p\<lparr>pn_rendered := no_content_mail\<rparr>) (erase_pending ps)"
proof (cases "i \<in> fst ` set ps")
  case True
  then have "i \<in> fst ` set (erase_pending ps)" by simp
  then show ?thesis using True by (auto simp: pending_set_def erase_pending_def)
next
  case False
  then have "i \<notin> fst ` set (erase_pending ps)" by simp
  then show ?thesis using False by (simp add: pending_set_def) (simp add: erase_pending_def)
qed

lemma find_erased:
  "List.find (\<lambda>(_, p). pn_terminal p) (erase_pending ps)
    = map_option (\<lambda>(i, p). (i, p\<lparr>pn_rendered := no_content_mail\<rparr>)) (List.find (\<lambda>(_, p). pn_terminal p) ps)"
  by (induction ps) (auto simp: erase_pending_def)

lemma erase_evict [simp]: "erase_pending (evict_if_at_capacity ps) = evict_if_at_capacity (erase_pending ps)"
  by (auto simp: evict_if_at_capacity_def find_erased split: option.split)

lemma erase_simps [simp]:
  "ms_settings (erase st) = ms_settings st" "ms_templates (erase st) = ms_templates st" "ms_log (erase st) = ms_log st"
  "ms_transport (erase st) = ms_transport st" "ms_sweep (erase st) = ms_sweep st" "ms_nextId (erase st) = ms_nextId st"
  "ms_pending (erase st) = erase_pending (ms_pending st)" "ms_flying (erase st) = map erase_outgoing (ms_flying st)"
  by (simp_all add: erase_def)

lemma erase_eqI:
  assumes "ms_settings a = ms_settings b" "ms_templates a = ms_templates b" "ms_log a = ms_log b"
    "ms_transport a = ms_transport b" "ms_sweep a = ms_sweep b" "ms_nextId a = ms_nextId b"
    "erase_pending (ms_pending a) = erase_pending (ms_pending b)"
    "map erase_outgoing (ms_flying a) = map erase_outgoing (ms_flying b)"
  shows "erase a = erase b"
  using assms by (simp add: erase_def)

lemma erase_eqD:
  assumes "erase a = erase b"
  shows "ms_settings a = ms_settings b" "ms_templates a = ms_templates b" "ms_log a = ms_log b"
    "ms_transport a = ms_transport b" "ms_sweep a = ms_sweep b" "ms_nextId a = ms_nextId b"
    "erase_pending (ms_pending a) = erase_pending (ms_pending b)"
    "map erase_outgoing (ms_flying a) = map erase_outgoing (ms_flying b)"
  using arg_cong [OF assms, of ms_settings] arg_cong [OF assms, of ms_templates] arg_cong [OF assms, of ms_log]
    arg_cong [OF assms, of ms_transport] arg_cong [OF assms, of ms_sweep] arg_cong [OF assms, of ms_nextId]
    arg_cong [OF assms, of ms_pending] arg_cong [OF assms, of ms_flying] by simp_all

lemma erased_map_of:
  "erase_pending ps = erase_pending qs \<Longrightarrow> map_of ps i = None \<longleftrightarrow> map_of qs i = None"
  by (metis erase_pending_simps(4) map_option_is_None)

lemma erase_record_failure: "erase (record_failure now i n err force st) = record_failure now i n err force (erase st)"
  by (simp add: record_failure_def Let_def erase_def erase_pending_def comp_def case_prod_unfold)

lemma same_record_failure:
  "erase a = erase b \<Longrightarrow> erase (record_failure now i n err force a) = erase (record_failure now i n err force b)"
  by (simp add: erase_record_failure)

lemma same_attempt_end:
  assumes "erase a = erase b" "erase_outgoing m = erase_outgoing m'"
  shows "erase (attempt_end now m refused a) = erase (attempt_end now m' refused b)"
proof -
  note same = erase_eqD [OF assms(1)]
  have "og_id m = og_id m'" "og_attempts m = og_attempts m'"
    using arg_cong [OF assms(2), of og_id] arg_cong [OF assms(2), of og_attempts] by (simp_all add: erase_outgoing_def)
  then show ?thesis
    using same same_record_failure [OF assms(1)]
    by (cases refused) (auto simp: attempt_end_def intro!: erase_eqI)
qed

lemma same_attempt_begin:
  assumes same: "erase a = erase b"
    and ra: "attempt_begin env now by_sweep i a = (a', m)" and rb: "attempt_begin env now by_sweep i b = (b', m')"
  shows "erase a' = erase b' \<and> map_option erase_outgoing m = map_option erase_outgoing m'"
proof (cases "List.find (\<lambda>r. ml_id r = i) (ms_log b)")
  note eq = erase_eqD [OF same]
  case None
  then show ?thesis using ra rb eq by (auto simp: attempt_begin_def intro!: erase_eqI)
next
  note eq = erase_eqD [OF same]
  case (Some row)
  define content where "content s = (case map_of (ms_pending s) i of Some p \<Rightarrow> Some (pn_rendered p) | None \<Rightarrow> ml_payload row)"
    for s :: mail_state
  have has: "content a = None \<longleftrightarrow> content b = None"
    using erased_map_of [OF eq(7), of i] by (auto simp: content_def split: option.split)
  show ?thesis
  proof (cases "ml_status row = Sent")
    case True
    then show ?thesis using ra rb eq Some by (auto simp: attempt_begin_def intro!: erase_eqI)
  next
    case unsent: False
    show ?thesis
    proof (cases "content b")
      case None
      then have "content a = None" using has by simp
      then show ?thesis using ra rb eq Some unsent None
        by (auto simp: attempt_begin_def content_def [symmetric] intro!: erase_eqI split: if_splits)
    next
      case B: (Some mb)
      then obtain ma where A: "content a = Some ma" using has by auto
      obtain got cache where got: "get_transporter env (ms_settings b) (ms_transport b) = (got, cache)"
        by (cases "get_transporter env (ms_settings b) (ms_transport b)") auto
      define seeded where "seeded s mail = (if map_of (ms_pending s) i = None
          then s\<lparr>ms_pending := pending_set i \<lparr>pn_rendered = mail, pn_nextRetryAt = None, pn_terminal = False\<rparr>
                 (evict_if_at_capacity (ms_pending s))\<rparr>
          else s)\<lparr>ms_transport := cache\<rparr>" for s :: mail_state and mail
      have seeds: "erase (seeded a ma) = erase (seeded b mb)"
        using eq erased_map_of [OF eq(7), of i] by (auto simp: seeded_def intro!: erase_eqI)
      have step: "attempt_begin env now by_sweep i s = (case got of Inl e \<Rightarrow> (seeded s mail, None)
          | Inr (None, g) \<Rightarrow> (record_failure now i (Suc (ml_attempts row)) ''SMTP is not configured'' True (seeded s mail), None)
          | Inr (Some t, g) \<Rightarrow> (seeded s mail, Some \<lparr>og_id = i, og_attempts = Suc (ml_attempts row),
                og_from = from_header g (ml_locale row), og_to = ml_toEmail row, og_content = mail, og_bySweep = by_sweep\<rparr>))"
        if "content s = Some mail" "ms_log s = ms_log b" "ms_settings s = ms_settings b" "ms_transport s = ms_transport b"
        for s :: mail_state and mail
        using that Some unsent got unfolding attempt_begin_def seeded_def content_def by (simp add: Let_def)
      from step [OF A eq(3,1,4)] step [OF B refl refl refl] show ?thesis
        using ra rb seeds same_record_failure [OF seeds]
        by (cases got) (auto simp: erase_outgoing_def split: prod.splits option.splits)
    qed
  qed
qed


lemma same_begin_step:
  assumes same: "erase a = erase b"
  shows "erase (begin_step env now by_sweep i a) = erase (begin_step env now by_sweep i b)"
proof -
  obtain a' m where a: "attempt_begin env now by_sweep i a = (a', m)" by (cases "attempt_begin env now by_sweep i a")
  obtain b' m' where b: "attempt_begin env now by_sweep i b = (b', m')" by (cases "attempt_begin env now by_sweep i b")
  have r: "erase a' = erase b'" "map_option erase_outgoing m = map_option erase_outgoing m'"
    using same_attempt_begin [OF same a b] by auto
  show ?thesis
    using r(2) a b erase_eqD [OF r(1)] r(1)
    by (cases m; cases m') (auto simp: begin_step_def intro!: erase_eqI)
qed

text \<open>Two sends that differ only in the values of variables both declare sensitive.\<close>

definition alike_mail :: "send_mail \<Rightarrow> send_mail \<Rightarrow> bool" where
  "alike_mail p p' \<longleftrightarrow> sm_sensitive p \<noteq> [] \<and> p' = p\<lparr>sm_vars := sm_vars p'\<rparr>
     \<and> mask_vars (sm_vars p) (sm_sensitive p) = mask_vars (sm_vars p') (sm_sensitive p)"

fun alike_op :: "mail_op \<Rightarrow> mail_op \<Rightarrow> bool" where
  "alike_op (MSend now p) (MSend now' p') \<longleftrightarrow> now = now' \<and> (p = p' \<or> alike_mail p p')"
| "alike_op op op' \<longleftrightarrow> op = op'"

lemma alike_fields:
  assumes "alike_mail p p'"
  shows "sm_key p' = sm_key p" "sm_to p' = sm_to p" "sm_locale p' = sm_locale p" "sm_entity p' = sm_entity p"
    "sm_sensitive p' = sm_sensitive p" "sm_sensitive p \<noteq> []"
    "mask_vars (sm_vars p') (sm_sensitive p) = mask_vars (sm_vars p) (sm_sensitive p)"
proof -
  have "p' = p\<lparr>sm_vars := sm_vars p'\<rparr>" using assms by (simp add: alike_mail_def)
  then show "sm_key p' = sm_key p" "sm_to p' = sm_to p" "sm_locale p' = sm_locale p" "sm_entity p' = sm_entity p"
    "sm_sensitive p' = sm_sensitive p"
    by (metis send_mail.select_convs(1,2,4,5,6) send_mail.surjective send_mail.update_convs(3))+
  show "sm_sensitive p \<noteq> []" "mask_vars (sm_vars p') (sm_sensitive p) = mask_vars (sm_vars p) (sm_sensitive p)"
    using assms by (simp_all add: alike_mail_def)
qed

lemma render_mail_none: "render_mail ceq md ts key vars l = None \<longleftrightarrow> render_mail ceq md ts key vars' l = None"
  by (simp add: render_mail_def split: option.split)

lemma alike_row:
  assumes "alike_mail p p'" "ms_settings a = ms_settings b" "ms_templates a = ms_templates b"
  shows "mail_log_row env i now p a = mail_log_row env i now p' b"
  using alike_fields [OF assms(1)] assms(2,3)
    render_mail_none [of "me_ceq env" "me_md env" "ms_templates b" "sm_key p" "sm_vars p'" "sm_locale p" "sm_vars p"]
  by (simp add: mail_log_row_def Let_def cong: option.case_cong)

lemma same_mail_send:
  assumes same: "erase a = erase b" and p: "p = p' \<or> alike_mail p p'"
  shows "erase (mail_send env storable i now p a) = erase (mail_send env storable i now p' b)"
proof -
  note eq = erase_eqD [OF same]
  have row: "mail_log_row env i now p a = mail_log_row env i now p' b"
    using p
  proof
    assume "p = p'"
    then show ?thesis by (simp add: mail_log_row_def Let_def eq(1,2))
  qed (rule alike_row [OF _ eq(1,2)])
  have fields: "sm_key p' = sm_key p" "sm_locale p' = sm_locale p"
    using p alike_fields by auto
  let ?r = "\<lambda>v. render_mail (me_ceq env) (me_md env) (ms_templates b) (sm_key p) v (sm_locale p)"
  have none: "?r (sm_vars p) = None \<longleftrightarrow> ?r (sm_vars p') = None" by (rule render_mail_none)
  show ?thesis
  proof (cases "?r (sm_vars p)")
    case None
    then show ?thesis
      unfolding mail_send_def Let_def row eq(2) fields using none same eq by (auto intro!: erase_eqI)
  next
    case (Some m)
    then obtain m' where m': "?r (sm_vars p') = Some m'" using none by auto
    show ?thesis
      unfolding mail_send_def Let_def row eq(2) fields using Some m' same eq by (auto intro!: erase_eqI)
  qed
qed

lemma same_mail_step:
  assumes same: "erase a = erase b" and ops: "alike_op op op'"
  shows "erase (mail_step env storable op a) = erase (mail_step env storable op' b)"
proof -
  note eq = erase_eqD [OF same]
  have flying: "length (ms_flying a) = length (ms_flying b)" using eq(8) by (metis length_map)
  have sweeps: "list_ex og_bySweep (ms_flying a) \<longleftrightarrow> list_ex og_bySweep (ms_flying b)"
  proof -
    have "list_ex og_bySweep ms \<longleftrightarrow> list_ex og_bySweep (map erase_outgoing ms)" for ms
      by (induction ms) (simp_all add: erase_outgoing_def)
    then show ?thesis using eq(8) by metis
  qed
  have queue: "erase (a\<lparr>ms_sweep := q\<rparr>) = erase (b\<lparr>ms_sweep := q\<rparr>)" for q
    using eq by (intro erase_eqI) simp_all
  show ?thesis
  proof (cases op)
    case (MSend now p)
    then obtain p' where p': "op' = MSend now p'" "p = p' \<or> alike_mail p p'" using ops by (cases op') auto
    have "erase (mail_send env storable i now p a) = erase (mail_send env storable i now p' b)" for i
      using same_mail_send [OF same p'(2)] .
    note sent = this
    have next_id: "erase (s\<lparr>ms_nextId := n\<rparr>) = (erase s)\<lparr>ms_nextId := n\<rparr>" for s :: mail_state and n
      by (simp add: erase_def)
    show ?thesis using sent MSend p'(1) eq(6) by (simp only: mail_step.simps next_id)
  next
    case (MBegin now i)
    then show ?thesis using ops same_begin_step [OF same] by (cases op') auto
  next
    case (MEnd now k refused)
    then have op': "op' = op" using ops by (cases op') auto
    show ?thesis
    proof (cases "k < length (ms_flying a)")
      case True
      have drop_k: "erase (s\<lparr>ms_flying := take k (ms_flying s) @ drop (Suc k) (ms_flying s)\<rparr>)
          = (erase s)\<lparr>ms_flying := take k (ms_flying (erase s)) @ drop (Suc k) (ms_flying (erase s))\<rparr>" for s :: mail_state
        by (simp add: erase_def take_map drop_map)
      have "erase_outgoing (ms_flying a ! k) = erase_outgoing (ms_flying b ! k)"
        using True flying eq(8) by (metis nth_map)
      then show ?thesis
        using True flying MEnd op' same same_attempt_end by (simp add: drop_k)
    qed (use flying MEnd op' same in simp)
  next
    case (MSweepBegin now)
    then show ?thesis using ops eq queue same by (cases op') auto
  next
    case (MSweepNext now)
    then have op': "op' = op" using ops by (cases op') auto
    then show ?thesis
      using MSweepNext same queue sweeps eq(5) same_begin_step [OF queue] by (auto split: option.split list.split)
  next
    case (MSettings iv now u d)
    then have "op' = op" using ops by (cases op') auto
    then show ?thesis using MSettings eq same by (auto simp: update_settings_def Let_def intro!: erase_eqI split: option.split)
  next
    case (MTemplate key d)
    then have "op' = op" using ops by (cases op') auto
    then show ?thesis using MTemplate eq by (auto intro!: erase_eqI)
  next
    case (MTest now refused)
    then have "op' = op" using ops by (cases op') auto
    moreover have "erase (snd (test_settings env now smtp a)) = erase (snd (test_settings env now smtp b))" for smtp
      using eq by (auto simp: test_settings_def Let_def intro!: erase_eqI split: option.split sum.split prod.split)
    ultimately show ?thesis using MTest by simp
  next
    case (MRetention cutoff)
    then have "op' = op" using ops by (cases op') auto
    then show ?thesis using MRetention eq by (auto intro!: erase_eqI)
  next
    case MRestart
    then have "op' = op" using ops by (cases op') auto
    then show ?thesis using MRestart eq by (auto intro!: erase_eqI)
  qed
qed


text \<open>
  C25: in every interleaving of sends, attempts, sweeps, retries by
  hand, clean-ups and restarts, a rendered message (and the one-time link in it) rests in the
  log only while its row is queued or waits for an automatic retry: a sent row and a row that
  failed for good hold none. A retry is only ever scheduled for a failed row after the first,
  second or third attempt.
\<close>

theorem mail_content_leaves_database:
  assumes "ms_log st = []" "ms_flying st = []" and "r \<in> set (ms_log (fold (mail_step env storable) ops st))"
  shows "(ml_payload r \<noteq> None \<longrightarrow> ml_status r = Queued \<or> (ml_status r = MailFailed \<and> ml_nextRetryAt r \<noteq> None))
    \<and> (ml_status r = Sent \<longrightarrow> ml_payload r = None \<and> ml_nextRetryAt r = None)
    \<and> (ml_nextRetryAt r \<noteq> None \<longrightarrow> ml_status r = MailFailed \<and> ml_attempts r \<in> {1, 2, 3})"
proof -
  have "queue_ok st" using assms(1,2) by (simp add: queue_ok_def)
  then have "queue_ok (fold (mail_step env storable) ops st)" by (rule mail.fold_inv)
  then have r: "row_ok r" using assms(3) by (simp add: queue_ok_def)
  have "ml_attempts r \<in> {1, 2, 3}" if "ml_nextRetryAt r \<noteq> None"
  proof -
    have "1 \<le> ml_attempts r" "ml_attempts r < 4"
      using that r by (simp_all add: row_ok_def MAX_ATTEMPTS_def RETRY_DELAYS_MINUTES_def)
    then show ?thesis by auto
  qed
  then show ?thesis using r by (auto simp: row_ok_def)
qed


section \<open>Retries\<close>

lemma transporter_stays:
  "get_transporter env s c = (Inr (Some t, g), c') \<Longrightarrow> get_transporter env s c' = (Inr (Some t, g), c')"
  by (auto simp: get_transporter_def split: option.splits if_splits sum.splits)

lemma pending_set_get [simp]: "map_of (pending_set i p ps) i = Some p"
proof (cases "i \<in> fst ` set ps")
  case True
  then have "map_of (map (\<lambda>(j, q). if j = i then (j, p) else (j, q)) ps) i = Some p"
    by (induction ps) auto
  then show ?thesis using True by (simp add: pending_set_def)
next
  case False
  then have "map_of ps i = None" by (simp add: map_of_eq_None_iff)
  then show ?thesis using False by (simp add: pending_set_def map_add_def)
qed

lemma pending_kept:
  "map_of (map (\<lambda>(j, p). if j = i then (j, f p) else (j, p)) ps) i = map_option f (map_of ps i)"
  by (induction ps) auto

lemma find_update_mail:
  assumes "\<And>r. ml_id (f r) = ml_id r" "List.find (\<lambda>r. ml_id r = i) rows = Some row"
  shows "List.find (\<lambda>r. ml_id r = i) (update_mail i f rows) = Some (f row)"
  using assms(2) find_update_rows [of "\<lambda>r. ml_id r = i" "\<lambda>r. ml_id r = i" f rows] assms(1) find_SomeD [OF assms(2)]
  by (simp add: update_mail_def)

text \<open>The row can be delivered: it is there, unsent, its content is at hand and SMTP is set up.\<close>

definition deliverable :: "mail_env \<Rightarrow> string \<Rightarrow> mail_row \<Rightarrow> mail_state \<Rightarrow> bool" where
  "deliverable env i row st \<longleftrightarrow>
     List.find (\<lambda>r. ml_id r = i) (ms_log st) = Some row \<and> ml_status row \<noteq> Sent
     \<and> (map_of (ms_pending st) i \<noteq> None \<or> ml_payload row \<noteq> None) \<and> ms_flying st = []
     \<and> (\<exists>t g c. get_transporter env (ms_settings st) (ms_transport st) = (Inr (Some t, g), c))"

definition refused_row :: "time \<Rightarrow> string \<Rightarrow> mail_row \<Rightarrow> mail_row" where
  "refused_row now err row =
     (let n = ml_attempts row + 1; terminal = MAX_ATTEMPTS \<le> n
      in row\<lparr>ml_status := MailFailed, ml_attempts := n, ml_error := Some (take 1000 err),
             ml_nextRetryAt := (if terminal then None else Some (now + minutes (RETRY_DELAYS_MINUTES ! (n - 1)))),
             ml_payload := (if terminal then None else ml_payload row)\<rparr>)"

definition try_once :: "mail_env \<Rightarrow> (mail_row \<Rightarrow> bool) \<Rightarrow> string \<Rightarrow> string option \<Rightarrow> time \<Rightarrow> mail_state \<Rightarrow> mail_state" where
  "try_once env storable i refused now st =
     mail_step env storable (MEnd now 0 refused) (mail_step env storable (MBegin now i) st)"

lemma deliverable_begins:
  assumes "deliverable env i row st"
  obtains st1 m where "mail_step env storable (MBegin now i) st = st1\<lparr>ms_flying := [m]\<rparr>"
    "og_id m = i" "og_attempts m = ml_attempts row + 1" "og_to m = ml_toEmail row"
    "List.find (\<lambda>r. ml_id r = i) (ms_log st1) = Some row" "map_of (ms_pending st1) i \<noteq> None"
    "ms_settings st1 = ms_settings st" "ms_log st1 = ms_log st"
    "\<exists>t g c. get_transporter env (ms_settings st1) (ms_transport st1) = (Inr (Some t, g), c)"
proof -
  obtain t g c where t: "get_transporter env (ms_settings st) (ms_transport st) = (Inr (Some t, g), c)"
    using assms by (auto simp: deliverable_def)
  have found: "List.find (\<lambda>r. ml_id r = i) (ms_log st) = Some row" "ml_status row \<noteq> Sent" "ms_flying st = []"
    using assms by (auto simp: deliverable_def)
  obtain mail where mail: "(case map_of (ms_pending st) i of Some p \<Rightarrow> Some (pn_rendered p) | None \<Rightarrow> ml_payload row) = Some mail"
    using assms by (cases "map_of (ms_pending st) i") (auto simp: deliverable_def)
  define st1 where "st1 = (if map_of (ms_pending st) i = None
      then st\<lparr>ms_pending := pending_set i \<lparr>pn_rendered = mail, pn_nextRetryAt = None, pn_terminal = False\<rparr>
             (evict_if_at_capacity (ms_pending st))\<rparr>
      else st)\<lparr>ms_transport := c\<rparr>"
  define m where "m = \<lparr>og_id = i, og_attempts = ml_attempts row + 1, og_from = from_header g (ml_locale row),
      og_to = ml_toEmail row, og_content = mail, og_bySweep = False\<rparr>"
  have st1: "ms_settings st1 = ms_settings st" "ms_log st1 = ms_log st" "ms_flying st1 = []" "ms_transport st1 = c"
      "map_of (ms_pending st1) i \<noteq> None"
    using found by (simp_all add: st1_def)
  have "attempt_begin env now False i st = (st1, Some m)"
    using found mail t unfolding attempt_begin_def st1_def m_def by (simp add: Let_def)
  then have "mail_step env storable (MBegin now i) st = st1\<lparr>ms_flying := [m]\<rparr>"
    using st1 by (simp add: begin_step_def)
  moreover have "get_transporter env (ms_settings st1) (ms_transport st1) = (Inr (Some t, g), c)"
    using transporter_stays [OF t] st1 by simp
  ultimately show thesis using that [of m st1] st1 found by (simp add: m_def)
qed

lemma refused_try:
  assumes "deliverable env i row st"
  shows "deliverable env i (refused_row now err row) (try_once env storable i (Some err) now st)"
proof -
  obtain st1 m where b: "mail_step env storable (MBegin now i) st = st1\<lparr>ms_flying := [m]\<rparr>"
    "og_id m = i" "og_attempts m = ml_attempts row + 1"
    "List.find (\<lambda>r. ml_id r = i) (ms_log st1) = Some row" "map_of (ms_pending st1) i \<noteq> None"
    "\<exists>t g c. get_transporter env (ms_settings st1) (ms_transport st1) = (Inr (Some t, g), c)"
    using deliverable_begins [OF assms] by metis
  define st2 where "st2 = record_failure now i (ml_attempts row + 1) err False (st1\<lparr>ms_flying := []\<rparr>)"
  have "try_once env storable i (Some err) now st = st2"
    using b by (simp add: try_once_def attempt_end_def st2_def)
  moreover have "deliverable env i (refused_row now err row) st2"
    using b(4,5,6) find_update_mail [OF _ b(4)]
    by (auto simp: deliverable_def st2_def record_failure_def refused_row_def Let_def pending_kept)
  ultimately show ?thesis by simp
qed

lemma accepted_try:
  assumes "deliverable env i row st"
  shows "\<exists>r. List.find (\<lambda>r. ml_id r = i) (ms_log (try_once env storable i None now st)) = Some r
    \<and> ml_status r = Sent \<and> ml_attempts r = ml_attempts row + 1 \<and> ml_payload r = None \<and> ml_sentAt r = Some now"
proof -
  obtain st1 m where b: "mail_step env storable (MBegin now i) st = st1\<lparr>ms_flying := [m]\<rparr>"
    "og_id m = i" "og_attempts m = ml_attempts row + 1" "List.find (\<lambda>r. ml_id r = i) (ms_log st1) = Some row"
    using deliverable_begins [OF assms] by metis
  show ?thesis
    using b find_update_mail [OF _ b(4)] by (simp add: try_once_def attempt_end_def)
qed

fun refused_rows :: "string \<Rightarrow> time list \<Rightarrow> mail_row \<Rightarrow> mail_row" where
  "refused_rows err [] row = row"
| "refused_rows err (t # ts) row = refused_rows err ts (refused_row t err row)"

lemma refused_tries:
  "deliverable env i row st \<Longrightarrow>
    deliverable env i (refused_rows err ts row) (fold (try_once env storable i (Some err)) ts st)"
  by (induction ts arbitrary: row st) (simp_all add: refused_try)

lemma due_iff:
  assumes "distinct (map ml_id rows)" "List.find (\<lambda>r. ml_id r = i) rows = Some row"
  shows "i \<in> set (sweep_due now rows) \<longleftrightarrow>
    ml_status row = MailFailed \<and> (case ml_nextRetryAt row of None \<Rightarrow> False | Some t \<Rightarrow> t \<le> now)"
proof -
  have row: "row \<in> set rows" "ml_id row = i" using find_SomeD [OF assms(2)] by auto
  then have "r = row" if "r \<in> set rows" "ml_id r = i" for r
    using distinct_key_eq [OF assms(1) that(1) row(1)] that(2) by simp
  then show ?thesis using row by (force simp: sweep_due_def)
qed

lemma queue_ok_try: "queue_ok st \<Longrightarrow> queue_ok (try_once env storable i refused now st)"
  unfolding try_once_def by (intro mail.step_inv)

lemma queue_ok_tries: "queue_ok st \<Longrightarrow> queue_ok (fold (try_once env storable i refused) ts st)"
  by (induction ts arbitrary: st) (simp_all add: queue_ok_try)


text \<open>
  C36: a message SMTP keeps refusing is tried four times and no more. After
  the first, second and third refusal the next try is scheduled 1, 5 and 15 minutes later and
  the sweep picks the row up from that moment on and not before; the fourth refusal is final:
  no sweep ever takes the row again and its content is gone from the log. As soon as one of the
  tries is accepted the row is sent. This holds after any history of the queue.
\<close>

theorem mail_retry_schedule:
  assumes start: "ms_log st0 = []" "ms_flying st0 = []" and st: "st = fold (mail_step env storable) ops st0"
    and row: "deliverable env i row st" "ml_attempts row = 0"
  shows "(\<forall>ts now. ts \<noteq> [] \<and> length ts < 4 \<longrightarrow>
            (i \<in> set (sweep_due now (ms_log (fold (try_once env storable i (Some err)) ts st)))
              \<longleftrightarrow> last ts + minutes ([1, 5, 15] ! (length ts - 1)) \<le> now))
    \<and> (\<forall>ts now. length ts = 4 \<longrightarrow>
            i \<notin> set (sweep_due now (ms_log (fold (try_once env storable i (Some err)) ts st)))
            \<and> (\<forall>r \<in> set (ms_log (fold (try_once env storable i (Some err)) ts st)).
                  ml_id r = i \<longrightarrow> ml_status r = MailFailed \<and> ml_attempts r = 4 \<and> ml_payload r = None))
    \<and> (\<forall>ts now. length ts < 4 \<longrightarrow>
            (\<exists>r. List.find (\<lambda>r. ml_id r = i)
                     (ms_log (try_once env storable i None now (fold (try_once env storable i (Some err)) ts st))) = Some r
                 \<and> ml_status r = Sent \<and> ml_attempts r = length ts + 1 \<and> ml_payload r = None))"
proof -
  have "queue_ok st0" using start by (simp add: queue_ok_def)
  then have ok: "queue_ok st" unfolding st by (rule mail.fold_inv)
  define after where "after ts = fold (try_once env storable i (Some err)) ts st" for ts
  have dl: "deliverable env i (refused_rows err ts row) (after ts)" for ts
    unfolding after_def by (rule refused_tries [OF row(1)])
  then have found: "List.find (\<lambda>r. ml_id r = i) (ms_log (after ts)) = Some (refused_rows err ts row)" for ts
    by (simp add: deliverable_def)
  have ids: "distinct (map ml_id (ms_log (after ts)))" for ts
    using queue_ok_tries [OF ok] by (simp add: after_def queue_ok_def)
  note due = due_iff [OF ids found]
  have attempts: "ml_attempts (refused_rows err ts row) = length ts" for ts
  proof -
    have "ml_attempts (refused_rows err ts x) = ml_attempts x + length ts" for x
      by (induction ts arbitrary: x) (simp_all add: refused_row_def Let_def)
    then show ?thesis using row(2) by simp
  qed
  have last: "refused_rows err (ts @ [t]) x = refused_row t err (refused_rows err ts x)" for ts t x
    by (induction ts arbitrary: x) simp_all
  have some: "i \<in> set (sweep_due now (ms_log (after ts))) \<longleftrightarrow> last ts + minutes ([1, 5, 15] ! (length ts - 1)) \<le> now"
    if nonempty: "ts \<noteq> []" and short: "length ts < 4" for ts now
  proof -
    obtain us t where ts: "ts = us @ [t]" using nonempty by (cases ts rule: rev_cases) auto
    then show ?thesis
      using short attempts [of us]
      by (simp add: due last refused_row_def Let_def MAX_ATTEMPTS_def RETRY_DELAYS_MINUTES_def)
  qed
  have four: "i \<notin> set (sweep_due now (ms_log (after ts)))
      \<and> (\<forall>r \<in> set (ms_log (after ts)). ml_id r = i \<longrightarrow> ml_status r = MailFailed \<and> ml_attempts r = 4 \<and> ml_payload r = None)"
    if len: "length ts = 4" for ts now
  proof -
    obtain us t where ts: "ts = us @ [t]" using len by (cases ts rule: rev_cases) auto
    define x where "x = refused_rows err ts row"
    have x: "ml_status x = MailFailed" "ml_attempts x = 4" "ml_payload x = None" "ml_nextRetryAt x = None"
      using len attempts [of us] unfolding x_def ts last
      by (simp_all add: refused_row_def Let_def MAX_ATTEMPTS_def RETRY_DELAYS_MINUTES_def)
    have mem: "x \<in> set (ms_log (after ts))" "ml_id x = i" using find_SomeD [OF found [of ts]] by (simp_all add: x_def)
    have "r = x" if "r \<in> set (ms_log (after ts))" "ml_id r = i" for r
      using distinct_key_eq [OF ids that(1) mem(1)] that(2) mem(2) by simp
    then show ?thesis using x by (auto simp: due x_def [symmetric])
  qed
  have sent: "\<exists>r. List.find (\<lambda>r. ml_id r = i) (ms_log (try_once env storable i None now (after ts))) = Some r
      \<and> ml_status r = Sent \<and> ml_attempts r = length ts + 1 \<and> ml_payload r = None" for ts now
    using accepted_try [OF dl [of ts], of storable now] attempts [of ts] by auto
  show ?thesis
    using some four sent unfolding after_def by blast
qed

section \<open>Settings\<close>

text \<open>
  A saved SMTP configuration is what the next delivery uses,
  whatever transport was cached: host, port, encryption, user and the very password typed in,
  which is stored only sealed. A save without a password keeps the stored one, byte for byte.
  AES-GCM is taken to open what it sealed under the same key and nonce, with a 12-byte nonce
  and a 16-byte tag.
\<close>

theorem mail_settings_take_effect:
  assumes gcm: "\<forall>k iv m c t. me_seal env k iv m = (c, t) \<longrightarrow> length t = 16 \<and> me_unseal env k iv t c = Some m"
    and iv: "length iv = 12" and row: "ms_settings st = Some g"
    and smtp: "gd_driver d = Some Smtp" "gd_host d = Some (Some h)" "h \<noteq> []" "gd_port d = Some (Some n)" "n \<noteq> 0"
      "gd_username d = Some (Some u)" "u \<noteq> []"
    and st': "st' = snd (update_settings env iv now user_id d st)"
  shows "(\<forall>p. gd_password d = Some p \<and> p \<noteq> [] \<longrightarrow>
            (\<exists>t g'. fst (get_transporter env (ms_settings st') (ms_transport st')) = Inr (Some t, g')
               \<and> tc_host t = h \<and> tc_port t = n \<and> tc_auth t = Some (u, Some p)
               \<and> (tc_secure t \<longleftrightarrow> mg_encryption g' = Tls) \<and> (tc_requireTLS t \<longleftrightarrow> mg_encryption g' = StartTls)))
    \<and> (gd_password d = None \<longrightarrow> (\<exists>g'. ms_settings st' = Some g' \<and> mg_passwordEncrypted g' = mg_passwordEncrypted g))"
proof -
  have after: "ms_settings st' = Some (assign_settings env iv now user_id d g)" "ms_transport st' = (None, None)"
    using row by (simp_all add: st' update_settings_def Let_def invalidate_def)
  have opens: "decrypt_secret (me_unseal env) (me_key env) (encrypt_secret (me_seal env) (me_key env) iv p) = Some p" for p
  proof -
    obtain c t where c: "me_seal env (me_key env) iv p = (c, t)" by force
    then show ?thesis
      using gcm [rule_format, OF c] iv by (simp add: encrypt_secret_def decrypt_secret_def IV_LENGTH_def AUTH_TAG_LENGTH_def)
  qed
  define g' where "g' = assign_settings env iv now user_id d g"
  have g': "mg_driver g' = Smtp" "mg_host g' = Some h" "mg_port g' = Some n" "mg_username g' = Some u"
    using smtp by (simp_all add: g'_def assign_settings_def set_given_def)
  have "\<exists>t. fst (get_transporter env (ms_settings st') (ms_transport st')) = Inr (Some t, g')
      \<and> tc_host t = h \<and> tc_port t = n \<and> tc_auth t = Some (u, Some p)
      \<and> (tc_secure t \<longleftrightarrow> mg_encryption g' = Tls) \<and> (tc_requireTLS t \<longleftrightarrow> mg_encryption g' = StartTls)"
    if p: "gd_password d = Some p" "p \<noteq> []" for p
  proof -
    have "mg_passwordEncrypted g' = Some (encrypt_secret (me_seal env) (me_key env) iv p)"
      using p by (simp add: g'_def assign_settings_def or_empty_def)
    then have "build_transport env g' = Inr (Some \<lparr>tc_host = h, tc_port = n, tc_secure = (mg_encryption g' = Tls),
        tc_requireTLS = (mg_encryption g' = StartTls), tc_auth = Some (u, Some p)\<rparr>)"
      using g' smtp(3,5,7) opens [of p] by (simp add: build_transport_def or_empty_def)
    then show ?thesis using after by (simp add: get_transporter_def g'_def [symmetric])
  qed
  moreover have "gd_password d = None \<Longrightarrow> mg_passwordEncrypted g' = mg_passwordEncrypted g"
    by (simp add: g'_def assign_settings_def or_empty_def)
  ultimately show ?thesis using after(1) unfolding g'_def [symmetric] by blast
qed

section \<open>Witnesses\<close>

definition plain_mail_env :: mail_env where
  "plain_mail_env = \<lparr>me_ceq = (=), me_md = (\<lambda>s. s), me_seal = (\<lambda>k iv m. (m, replicate 16 (CHR ''t''))),
     me_unseal = (\<lambda>k iv t c. Some c), me_key = ''k''\<rparr>"

definition smtp_settings :: mail_settings where
  "smtp_settings = \<lparr>mg_isEnabled = True, mg_driver = Smtp, mg_host = Some ''h'', mg_port = Some 25, mg_encryption = StartTls,
     mg_username = None, mg_passwordEncrypted = None, mg_fromNameAr = Some ''S'', mg_fromNameEn = None,
     mg_fromEmail = Some ''s@x.org'', mg_replyTo = None, mg_notifyEmail = None, mg_lastTestAt = None, mg_lastTestOk = None,
     mg_lastTestError = None, mg_updatedBy = None, mg_updatedAt = 0\<rparr>"

definition fresh_mail :: mail_state where
  "fresh_mail = \<lparr>ms_settings = Some smtp_settings, ms_templates = [invite_template], ms_log = [], ms_pending = [],
     ms_transport = (None, None), ms_flying = [], ms_sweep = None, ms_nextId = 1\<rparr>"

definition invite_mail :: "string \<Rightarrow> string list \<Rightarrow> send_mail" where
  "invite_mail link sensitive = \<lparr>sm_key = ''user_invite'', sm_to = ''a@x.org'', sm_vars = [(''name'', ''A''), (''link'', link)],
     sm_locale = Ar, sm_entity = None, sm_sensitive = sensitive\<rparr>"

definition all_rows :: "mail_row \<Rightarrow> bool" where
  "all_rows r \<longleftrightarrow> True"


theorem mail_content_leaves_database_witness:
  "ml_payload (hd (ms_log (fold (mail_step plain_mail_env all_rows)
     [MSend 0 (invite_mail ''https://a/1'' []), MBegin 0 ''1'', MEnd 5 0 None] fresh_mail))) = None"
proof -
  let ?ops = "[MSend 0 (invite_mail ''https://a/1'' []), MBegin 0 ''1'', MEnd 5 0 None]"
  have run: "map ml_status (ms_log (fold (mail_step plain_mail_env all_rows) ?ops fresh_mail)) = [Sent]"
    by code_simp
  then obtain r where r: "ms_log (fold (mail_step plain_mail_env all_rows) ?ops fresh_mail) = [r]" "ml_status r = Sent"
    by auto
  have "ms_log fresh_mail = []" "ms_flying fresh_mail = []" by (simp_all add: fresh_mail_def)
  from mail_content_leaves_database [OF this, of r plain_mail_env all_rows ?ops] r show ?thesis by simp
qed

definition queued_once :: mail_state where
  "queued_once = fold (mail_step plain_mail_env all_rows) [MSend 0 (invite_mail ''https://a/1'' [])] fresh_mail"

theorem mail_retry_schedule_witness:
  "''1'' \<in> set (sweep_due 460000 (ms_log (fold (try_once plain_mail_env all_rows ''1'' (Some ''550'')) [0, 100000] queued_once)))"
proof -
  have row: "deliverable plain_mail_env ''1'' (hd (ms_log queued_once)) queued_once" "ml_attempts (hd (ms_log queued_once)) = 0"
  proof -
    have "length (ms_log queued_once) = 1" by code_simp
    then obtain r where r: "ms_log queued_once = [r]" by (auto simp: length_Suc_conv)
    have q: "map ml_id (ms_log queued_once) = [''1'']" "map ml_status (ms_log queued_once) = [Queued]"
        "map_of (ms_pending queued_once) ''1'' \<noteq> None" "ms_flying queued_once = []"
        "ms_settings queued_once = Some smtp_settings" "ms_transport queued_once = (None, None)"
      by code_simp+
    have "\<exists>t g c. get_transporter plain_mail_env (Some smtp_settings) (None, None) = (Inr (Some t, g), c)"
      by (simp add: get_transporter_def build_transport_def smtp_settings_def or_empty_def)
    then show "deliverable plain_mail_env ''1'' (hd (ms_log queued_once)) queued_once"
      using q r by (simp add: deliverable_def)
    show "ml_attempts (hd (ms_log queued_once)) = 0" by code_simp
  qed
  have "ms_log fresh_mail = []" "ms_flying fresh_mail = []" by (simp_all add: fresh_mail_def)
  from mail_retry_schedule [OF this queued_once_def row, where err = "''550''", THEN conjunct1, rule_format, of "[0, 100000]" 460000]
  show ?thesis by (simp add: minutes_def)
qed

definition new_credentials :: settings_dto where
  "new_credentials = \<lparr>gd_isEnabled = None, gd_driver = Some Smtp, gd_host = Some (Some ''mx''), gd_port = Some (Some 587),
     gd_encryption = None, gd_username = Some (Some ''u''), gd_password = Some ''pw'', gd_fromNameAr = None,
     gd_fromNameEn = None, gd_fromEmail = None, gd_replyTo = None, gd_notifyEmail = None\<rparr>"

theorem mail_settings_take_effect_witness:
  "\<exists>t g'. fst (get_transporter plain_mail_env
       (ms_settings (snd (update_settings plain_mail_env ''nonce-twelve'' 5 ''1'' new_credentials fresh_mail)))
       (ms_transport (snd (update_settings plain_mail_env ''nonce-twelve'' 5 ''1'' new_credentials fresh_mail)))) = Inr (Some t, g')
     \<and> tc_host t = ''mx'' \<and> tc_auth t = Some (''u'', Some ''pw'')"
proof -
  have gcm: "\<forall>k iv m c t. me_seal plain_mail_env k iv m = (c, t) \<longrightarrow> length t = 16 \<and> me_unseal plain_mail_env k iv t c = Some m"
    by (auto simp: plain_mail_env_def)
  have row: "ms_settings fresh_mail = Some smtp_settings" by (simp add: fresh_mail_def)
  have d: "gd_driver new_credentials = Some Smtp" "gd_host new_credentials = Some (Some ''mx'')" "''mx'' \<noteq> []"
      "gd_port new_credentials = Some (Some 587)" "(587 :: nat) \<noteq> 0" "gd_username new_credentials = Some (Some ''u'')" "''u'' \<noteq> []"
      "gd_password new_credentials = Some ''pw'' \<and> ''pw'' \<noteq> []"
    by (simp_all add: new_credentials_def)
  have nonce: "length ''nonce-twelve'' = 12" by simp
  from mail_settings_take_effect [OF gcm nonce row d(1-7) refl, THEN conjunct1, rule_format, OF d(8)]
  show ?thesis by blast
qed

section \<open>Mail that is lost\<close>

text \<open>
  Two observations on the queue. A row still \<open>queued\<close> when the process stops is never picked up
  again, although its content stays in the log: the sweep only looks at failed rows. And a
  retry by hand may overlap the sweep's attempt at the same row: when the slower one fails, the
  row of a delivered message turns to failed and its next sweep gives it up as undeliverable.
\<close>

lemma queued_mail_lost_at_restart:
  "map (\<lambda>r. (ml_status r, ml_payload r \<noteq> None)) (ms_log (fold (mail_step plain_mail_env all_rows)
     [MSend 0 (invite_mail ''https://a/1'' []), MRestart, MSweepBegin 90000000, MSweepNext 90000000, MSweepNext 90000000,
      MSweepBegin 99000000, MSweepNext 99000000] fresh_mail)) = [(Queued, True)]"
  by code_simp

lemma sent_mail_turns_failed:
  "map (\<lambda>r. (ml_status r, ml_error r = Some content_gone)) (ms_log (fold (mail_step plain_mail_env all_rows)
     [MSend 0 (invite_mail ''https://a/1'' []), MBegin 0 ''1'', MEnd 0 0 (Some ''timeout''),
      MSweepBegin 60000, MSweepNext 60000, MBegin 60001 ''1'', MEnd 60002 0 None, MEnd 60003 0 (Some ''421''),
      MSweepNext 60004, MSweepBegin 999999, MSweepNext 999999] fresh_mail)) = [(MailFailed, True)]"
  by code_simp

end
