(* ===== verification/Inbox.thy ===== *)
theory Inbox
  imports MailQueue MediaFiles SignedLinks
begin

text \<open>
  The inbox: \<open>contact/contact.service.ts\<close>, \<open>contact/admin-newsletter.controller.ts\<close>,
  \<open>messages/messages.service.ts\<close>, \<open>messages/admin-messages.controller.ts\<close> and
  \<open>common/labels.ts\<close>, over the mail queue. The cascades of the foreign keys are part of the
  deletions: replies go with their message, a testimonial keeps its text and loses its source.
\<close>

section \<open>Rows\<close>

datatype contact_subject = CInquiry | CPartnership | CSupport | CFeedback | COther

datatype message_status = Unread | Read | Archived

record contact_message =
  cm_id :: string
  cm_name :: string
  cm_phone :: "string option"
  cm_email :: string
  cm_subject :: contact_subject
  cm_body :: string
  cm_status :: message_status
  cm_locale :: loc
  cm_ipHash :: "string option"
  cm_userAgent :: "string option"
  cm_createdAt :: time

record message_reply =
  mr_id :: string
  mr_messageId :: string
  mr_authorId :: "string option"
  mr_body :: string
  mr_mailLogId :: "string option"
  mr_deliveryStatus :: "mail_status option"
  mr_createdAt :: time

record newsletter_row =
  nl_id :: string
  nl_email :: string
  nl_locale :: loc
  nl_confirmedAt :: "time option"
  nl_ipHash :: "string option"
  nl_unsubscribedAt :: "time option"
  nl_createdAt :: time

record inbox =
  ib_messages :: "contact_message list"
  ib_replies :: "message_reply list"
  ib_newsletter :: "newsletter_row list"
  ib_testimonials :: "testimonial list"
  ib_mail :: mail_state

text \<open>Keys, Argon and mail of the environment; \<open>ix_iso\<close> is \<open>Date.toISOString\<close>.\<close>

record inbox_env =
  ix_auth :: auth_env
  ix_number :: "string \<Rightarrow> nat option"
  ix_mail :: mail_env
  ix_storable :: "mail_row \<Rightarrow> bool"
  ix_frontend :: string
  ix_compare :: sql_compare
  ix_iso :: "time \<Rightarrow> string"

section \<open>Labels\<close>

fun subject_code :: "contact_subject \<Rightarrow> string" where
  "subject_code CInquiry = ''inquiry''"
| "subject_code CPartnership = ''partnership''"
| "subject_code CSupport = ''support''"
| "subject_code CFeedback = ''feedback''"
| "subject_code COther = ''other''"

text \<open>The labels, the Arabic ones as the UTF-8 bytes of their letters.\<close>

fun subject_label :: "contact_subject \<Rightarrow> loc \<Rightarrow> string" where
  "subject_label CInquiry Ar = map char_of (utf8 [0x627, 0x633, 0x62A, 0x641, 0x633, 0x627, 0x631])"
| "subject_label CInquiry En = ''Inquiry''"
| "subject_label CPartnership Ar = map char_of (utf8 [0x634, 0x631, 0x627, 0x643, 0x629])"
| "subject_label CPartnership En = ''Partnership''"
| "subject_label CSupport Ar = map char_of (utf8 [0x62F, 0x639, 0x645, 0x20, 0x648, 0x62A, 0x628, 0x631, 0x639])"
| "subject_label CSupport En = ''Support and donations''"
| "subject_label CFeedback Ar = map char_of (utf8 [0x645, 0x644, 0x627, 0x62D, 0x638, 0x627, 0x62A])"
| "subject_label CFeedback En = ''Feedback''"
| "subject_label COther Ar = map char_of (utf8 [0x623, 0x62E, 0x631, 0x649])"
| "subject_label COther En = ''Other''"

section \<open>The public forms\<close>

record contact_dto =
  cd_name :: string
  cd_email :: string
  cd_phone :: "string option"
  cd_subject :: contact_subject
  cd_body :: string
  cd_website :: "string option"
  cd_formRenderedAt :: time

record newsletter_dto =
  nd_email :: string
  nd_website :: "string option"
  nd_formRenderedAt :: time

definition MIN_FORM_SECONDS :: int where "MIN_FORM_SECONDS = 3"

definition is_honeypot_tripped :: "string option \<Rightarrow> time \<Rightarrow> time \<Rightarrow> bool" where
  "is_honeypot_tripped website form_rendered_at now =
     (if website \<noteq> None \<and> website \<noteq> Some [] then True
      else (let elapsed = now - form_rendered_at in 0 \<le> elapsed \<and> elapsed < MIN_FORM_SECONDS * 1000))"

definition send_in :: "inbox_env \<Rightarrow> time \<Rightarrow> send_mail \<Rightarrow> inbox \<Rightarrow> inbox" where
  "send_in env now p ib = ib\<lparr>ib_mail := mail_step (ix_mail env) (ix_storable env) (MSend now p) (ib_mail ib)\<rparr>"

definition contact_row :: "string \<Rightarrow> time \<Rightarrow> contact_dto \<Rightarrow> string option \<Rightarrow> string option \<Rightarrow> loc \<Rightarrow> contact_message" where
  "contact_row new_id now d ip_hash user_agent l =
     \<lparr>cm_id = new_id, cm_name = cd_name d, cm_phone = cd_phone d, cm_email = cd_email d, cm_subject = cd_subject d,
      cm_body = cd_body d, cm_status = Unread, cm_locale = l, cm_ipHash = ip_hash,
      cm_userAgent = map_option (take 255) user_agent, cm_createdAt = now\<rparr>"

definition contact_ack :: "contact_message \<Rightarrow> send_mail" where
  "contact_ack m =
     \<lparr>sm_key = ''contact_ack'', sm_to = cm_email m, sm_vars = [], sm_locale = cm_locale m,
      sm_entity = Some (''contact_messages'', cm_id m), sm_sensitive = []\<rparr>"

definition contact_notify :: "string \<Rightarrow> mail_settings option \<Rightarrow> contact_message \<Rightarrow> send_mail" where
  "contact_notify frontend settings m =
     \<lparr>sm_key = ''contact_notify'',
      sm_to = (case settings of None \<Rightarrow> [] | Some g \<Rightarrow> (case mg_notifyEmail g of None \<Rightarrow> [] | Some e \<Rightarrow> e)),
      sm_vars = [(''name'', cm_name m), (''email'', cm_email m),
                 (''phone'', (case cm_phone m of None \<Rightarrow> [] | Some p \<Rightarrow> p)),
                 (''subject'', subject_label (cm_subject m) Ar), (''message'', cm_body m),
                 (''link'', frontend_url frontend Ar (''admin/messages/'' @ cm_id m))],
      sm_locale = Ar, sm_entity = Some (''contact_messages'', cm_id m), sm_sensitive = []\<rparr>"

definition submit ::
  "inbox_env \<Rightarrow> time \<Rightarrow> string \<Rightarrow> contact_dto \<Rightarrow> string option \<Rightarrow> string option \<Rightarrow> loc \<Rightarrow> inbox \<Rightarrow> inbox" where
  "submit env now new_id d ip_hash user_agent l ib =
     (if is_honeypot_tripped (cd_website d) (cd_formRenderedAt d) now then ib
      else
        (let saved = contact_row new_id now d ip_hash user_agent l;
             stored = ib\<lparr>ib_messages := ib_messages ib @ [saved]\<rparr>;
             acked = send_in env now (contact_ack saved) stored
         in send_in env now (contact_notify (ix_frontend env) (ms_settings (ib_mail acked)) saved) acked))"

section \<open>The newsletter\<close>

definition normal_email :: "string \<Rightarrow> string" where
  "normal_email e = to_lower (trim e)"

definition uri_component :: "string \<Rightarrow> string" where
  "uri_component s = (case encode_uri_component (map of_char s) of None \<Rightarrow> [] | Some e \<Rightarrow> map char_of e)"

definition newsletter_link :: "inbox_env \<Rightarrow> loc \<Rightarrow> string \<Rightarrow> string \<Rightarrow> string \<Rightarrow> string" where
  "newsletter_link env l page email token =
     frontend_url (ix_frontend env) l
       (''newsletter/'' @ page @ ''?email='' @ uri_component email @ ''&token='' @ uri_component token)"

definition find_subscriber :: "inbox_env \<Rightarrow> string \<Rightarrow> newsletter_row list \<Rightarrow> newsletter_row option" where
  "find_subscriber env email rows = List.find (\<lambda>r. sc_text (ix_compare env) (nl_email r) email) rows"

definition subscribed_row :: "string \<Rightarrow> time \<Rightarrow> string \<Rightarrow> string option \<Rightarrow> loc \<Rightarrow> newsletter_row option \<Rightarrow> newsletter_row" where
  "subscribed_row new_id now email ip_hash l existing =
     (case existing of
        None \<Rightarrow> \<lparr>nl_id = new_id, nl_email = email, nl_locale = l, nl_confirmedAt = None, nl_ipHash = ip_hash,
                 nl_unsubscribedAt = None, nl_createdAt = now\<rparr>
      | Some r \<Rightarrow> r\<lparr>nl_unsubscribedAt := None, nl_confirmedAt := None, nl_locale := l\<rparr>)"

definition save_subscriber :: "newsletter_row \<Rightarrow> newsletter_row list \<Rightarrow> newsletter_row list" where
  "save_subscriber r rows =
     (if nl_id r \<in> nl_id ` set rows then update_rows (\<lambda>x. nl_id x = nl_id r) (\<lambda>_. r) rows else rows @ [r])"

definition subscribe :: "inbox_env \<Rightarrow> nat \<Rightarrow> string \<Rightarrow> newsletter_dto \<Rightarrow> string option \<Rightarrow> loc \<Rightarrow> inbox \<Rightarrow> inbox" where
  "subscribe env now new_id d ip_hash l ib =
     (if is_honeypot_tripped (nd_website d) (nd_formRenderedAt d) (int now) then ib
      else
        (let email = normal_email (nd_email d);
             existing = find_subscriber env email (ib_newsletter ib)
         in if \<exists>r. existing = Some r \<and> nl_confirmedAt r \<noteq> None \<and> nl_unsubscribedAt r = None then ib
            else
              (let row = subscribed_row new_id (int now) email ip_hash l existing;
                   token = issue_newsletter_token (ix_auth env) now Confirm email
               in send_in env (int now)
                    \<lparr>sm_key = ''newsletter_confirm'', sm_to = email,
                     sm_vars = [(''link'', newsletter_link env l ''confirm'' email token)], sm_locale = l,
                     sm_entity = Some (''newsletter_subscribers'', nl_id row), sm_sensitive = []\<rparr>
                    (ib\<lparr>ib_newsletter := save_subscriber row (ib_newsletter ib)\<rparr>))))"

definition confirm_subscription :: "inbox_env \<Rightarrow> nat \<Rightarrow> string \<Rightarrow> string \<Rightarrow> inbox \<Rightarrow> unit res \<times> inbox" where
  "confirm_subscription env now email token ib =
     (let normalized = normal_email email
      in if \<not> verify_newsletter_token (ix_auth env) (ix_number env) now Confirm normalized token
         then (fail 400 VALIDATION_FAILED ''This link is invalid or has expired'', ib)
         else (Inr (), ib\<lparr>ib_newsletter :=
                 update_rows (\<lambda>r. sc_text (ix_compare env) (nl_email r) normalized \<and> nl_confirmedAt r = None \<and> nl_unsubscribedAt r = None)
                   (\<lambda>r. r\<lparr>nl_confirmedAt := Some (int now)\<rparr>) (ib_newsletter ib)\<rparr>))"

definition unsubscribe :: "inbox_env \<Rightarrow> nat \<Rightarrow> string \<Rightarrow> string \<Rightarrow> inbox \<Rightarrow> unit res \<times> inbox" where
  "unsubscribe env now email token ib =
     (let normalized = normal_email email
      in if \<not> verify_newsletter_token (ix_auth env) (ix_number env) now Unsubscribe normalized token
         then (fail 400 VALIDATION_FAILED ''This link is invalid'', ib)
         else (Inr (), ib\<lparr>ib_newsletter :=
                 update_rows (\<lambda>r. sc_text (ix_compare env) (nl_email r) normalized \<and> nl_unsubscribedAt r = None)
                   (\<lambda>r. r\<lparr>nl_unsubscribedAt := Some (int now)\<rparr>) (ib_newsletter ib)\<rparr>))"

definition unsubscribe_link :: "inbox_env \<Rightarrow> string \<Rightarrow> loc \<Rightarrow> string" where
  "unsubscribe_link env email l =
     (let normalized = normal_email email
      in newsletter_link env l ''unsubscribe'' normalized (issue_newsletter_token (ix_auth env) 0 Unsubscribe normalized))"

section \<open>The newsletter's admin routes\<close>

definition newsletter_filter :: "string option \<Rightarrow> newsletter_row list \<Rightarrow> newsletter_row list" where
  "newsletter_filter status rows =
     (let newest = sort_key (\<lambda>r. - nl_createdAt r) rows
      in if status = Some ''subscribed'' then filter (\<lambda>r. nl_unsubscribedAt r = None \<and> nl_confirmedAt r \<noteq> None) newest
         else if status = Some ''pending'' then filter (\<lambda>r. nl_unsubscribedAt r = None \<and> nl_confirmedAt r = None) newest
         else if status = Some ''unsubscribed'' then filter (\<lambda>r. nl_unsubscribedAt r \<noteq> None) newest
         else newest)"

definition newsletter_list :: "query \<Rightarrow> inbox \<Rightarrow> newsletter_row list \<times> nat \<times> int \<times> int" where
  "newsletter_list q ib =
     (let pl = read_page_limit 20 100 q; rows = newsletter_filter (read_string q ''status'') (ib_newsletter ib)
      in if pl_beyondMaxOffset pl then ([], length rows, pl_page pl, pl_limit pl)
         else (take (nat (pl_limit pl)) (drop (nat (pl_offset pl)) rows), length rows, pl_page pl, pl_limit pl))"

definition newsletter_export :: "inbox_env \<Rightarrow> query \<Rightarrow> inbox \<Rightarrow> string" where
  "newsletter_export env q ib =
     to_csv_with_bom (newsletter_filter (read_string q ''status'') (ib_newsletter ib))
       [(''Email'', nl_email), (''Locale'', locale_code \<circ> nl_locale), (''Subscribed at'', ix_iso env \<circ> nl_createdAt),
        (''Confirmed at'', \<lambda>r. case nl_confirmedAt r of None \<Rightarrow> [] | Some t \<Rightarrow> ix_iso env t),
        (''Unsubscribed at'', \<lambda>r. case nl_unsubscribedAt r of None \<Rightarrow> [] | Some t \<Rightarrow> ix_iso env t)]"

definition newsletter_remove :: "inbox_env \<Rightarrow> string \<Rightarrow> inbox \<Rightarrow> newsletter_row res \<times> inbox" where
  "newsletter_remove env i ib =
     (case List.find (\<lambda>r. sc_id (ix_compare env) (nl_id r) i) (ib_newsletter ib) of
        None \<Rightarrow> (fail 404 NOT_FOUND ''Not found'', ib)
      | Some r \<Rightarrow> (Inr r, ib\<lparr>ib_newsletter := delete_rows (\<lambda>x. nl_id x = nl_id r) (ib_newsletter ib)\<rparr>))"

section \<open>Messages\<close>

definition message_status_name :: "message_status \<Rightarrow> string" where
  "message_status_name s = (case s of Unread \<Rightarrow> ''unread'' | Read \<Rightarrow> ''read'' | Archived \<Rightarrow> ''archived'')"

definition EXCERPT_LENGTH :: nat where "EXCERPT_LENGTH = 140"

text \<open>White space runs become one blank; the ellipsis is the UTF-8 of U+2026.\<close>

definition excerpt_of :: "string \<Rightarrow> string" where
  "excerpt_of body =
     (let trimmed = map char_of (squeeze_spaces (map of_char (trim body)))
      in if EXCERPT_LENGTH < length trimmed then take EXCERPT_LENGTH trimmed @ map char_of (utf8 [0x2026]) else trimmed)"

record message_item =
  mi_id :: string
  mi_name :: string
  mi_email :: string
  mi_subject :: contact_subject
  mi_status :: message_status
  mi_excerpt :: string
  mi_createdAt :: time

definition to_message_item :: "contact_message \<Rightarrow> message_item" where
  "to_message_item m =
     \<lparr>mi_id = cm_id m, mi_name = cm_name m, mi_email = cm_email m, mi_subject = cm_subject m, mi_status = cm_status m,
      mi_excerpt = excerpt_of (cm_body m), mi_createdAt = cm_createdAt m\<rparr>"

definition count_unread :: "inbox \<Rightarrow> nat" where
  "count_unread ib = length (filter (\<lambda>m. cm_status m = Unread) (ib_messages ib))"

definition newest_messages :: "contact_message list \<Rightarrow> contact_message list" where
  "newest_messages ms = sort_key (\<lambda>m. - cm_createdAt m) (sort_key (\<lambda>m. - int (read_nat (cm_id m))) ms)"

record message_page =
  mg_data :: "message_item list"
  mg_total :: nat
  mg_page :: int
  mg_limit :: int
  mg_unreadCount :: nat

definition messages_list :: "query \<Rightarrow> inbox \<Rightarrow> message_page" where
  "messages_list q ib =
     (let pl = read_page_limit 20 100 q;
          status = List.find (\<lambda>s. read_string q ''status'' = Some (message_status_name s)) [Unread, Read, Archived];
          rows = (case status of None \<Rightarrow> ib_messages ib | Some s \<Rightarrow> filter (\<lambda>m. cm_status m = s) (ib_messages ib));
          shown = (if pl_beyondMaxOffset pl then []
                   else take (nat (pl_limit pl)) (drop (nat (pl_offset pl)) (newest_messages rows)))
      in \<lparr>mg_data = map to_message_item shown, mg_total = length rows, mg_page = pl_page pl, mg_limit = pl_limit pl,
          mg_unreadCount = count_unread ib\<rparr>)"

definition find_message :: "inbox_env \<Rightarrow> string \<Rightarrow> inbox \<Rightarrow> contact_message res" where
  "find_message env i ib =
     (case List.find (\<lambda>m. sc_id (ix_compare env) (cm_id m) i) (ib_messages ib) of
        None \<Rightarrow> fail 404 NOT_FOUND ''Not found'' | Some m \<Rightarrow> Inr m)"

definition save_message :: "contact_message \<Rightarrow> inbox \<Rightarrow> inbox" where
  "save_message m ib = ib\<lparr>ib_messages := update_rows (\<lambda>x. cm_id x = cm_id m) (\<lambda>_. m) (ib_messages ib)\<rparr>"

record reply_view =
  rv_id :: string
  rv_body :: string
  rv_authorId :: "string option"
  rv_authorName :: "string option"
  rv_createdAt :: time

definition find_with_replies ::
  "inbox_env \<Rightarrow> (string \<Rightarrow> string option) \<Rightarrow> string \<Rightarrow> inbox \<Rightarrow> (contact_message \<times> reply_view list) res \<times> inbox" where
  "find_with_replies env author_name i ib =
     (case find_message env i ib of
        Inl e \<Rightarrow> (Inl e, ib)
      | Inr m \<Rightarrow>
          (let m' = (if cm_status m = Unread then m\<lparr>cm_status := Read\<rparr> else m);
               ib' = (if cm_status m = Unread then save_message m' ib else ib);
               replies = sort_key mr_createdAt (filter (\<lambda>r. sc_id (ix_compare env) (mr_messageId r) i) (ib_replies ib'))
           in (Inr (m', map (\<lambda>r. \<lparr>rv_id = mr_id r, rv_body = mr_body r, rv_authorId = mr_authorId r,
                                 rv_authorName = (case mr_authorId r of None \<Rightarrow> None | Some a \<Rightarrow> author_name a),
                                 rv_createdAt = mr_createdAt r\<rparr>) replies), ib')))"

definition last_mail_of :: "string \<Rightarrow> string \<Rightarrow> string \<Rightarrow> mail_row list \<Rightarrow> mail_row option" where
  "last_mail_of entity_type entity_id key rows =
     List.find (\<lambda>r. ml_entity r = Some (entity_type, entity_id) \<and> ml_templateKey r = key) (rev rows)"

definition reply_mail :: "contact_message \<Rightarrow> string \<Rightarrow> send_mail" where
  "reply_mail m body =
     \<lparr>sm_key = ''message_reply'', sm_to = cm_email m, sm_vars = [(''name'', cm_name m), (''message'', body)],
      sm_locale = cm_locale m, sm_entity = Some (''contact_messages'', cm_id m), sm_sensitive = []\<rparr>"

definition reply ::
  "inbox_env \<Rightarrow> time \<Rightarrow> string \<Rightarrow> string \<Rightarrow> string \<Rightarrow> string \<Rightarrow> inbox \<Rightarrow> (contact_message \<times> message_reply) res \<times> inbox" where
  "reply env now new_id i body author ib =
     (case find_message env i ib of
        Inl e \<Rightarrow> (Inl e, ib)
      | Inr m \<Rightarrow>
          (let sent = send_in env now (reply_mail m body) ib;
               mail = last_mail_of ''contact_messages'' (cm_id m) ''message_reply'' (ms_log (ib_mail sent));
               r = \<lparr>mr_id = new_id, mr_messageId = cm_id m, mr_authorId = Some author, mr_body = body,
                    mr_mailLogId = map_option ml_id mail, mr_deliveryStatus = None, mr_createdAt = now\<rparr>;
               replied = sent\<lparr>ib_replies := ib_replies sent @ [r]\<rparr>;
               m' = (if cm_status m = Unread then m\<lparr>cm_status := Read\<rparr> else m)
           in (Inr (m', r), if cm_status m = Unread then save_message m' replied else replied)))"

definition set_status :: "inbox_env \<Rightarrow> string \<Rightarrow> message_status \<Rightarrow> inbox \<Rightarrow> (message_status \<times> contact_message) res \<times> inbox" where
  "set_status env i s ib =
     (case find_message env i ib of
        Inl e \<Rightarrow> (Inl e, ib)
      | Inr m \<Rightarrow> (Inr (cm_status m, m\<lparr>cm_status := s\<rparr>), save_message (m\<lparr>cm_status := s\<rparr>) ib))"

record convert_dto =
  cv_quoteAr :: string
  cv_quoteEn :: "string option"
  cv_authorName :: "string option"
  cv_authorDesc :: "string option"

definition convert_to_testimonial ::
  "inbox_env \<Rightarrow> time \<Rightarrow> string \<Rightarrow> string \<Rightarrow> convert_dto \<Rightarrow> inbox \<Rightarrow> testimonial res \<times> inbox \<times> string list" where
  "convert_to_testimonial env now new_id i d ib =
     (case find_message env i ib of
        Inl e \<Rightarrow> (Inl e, ib, [])
      | Inr m \<Rightarrow>
          (let t = \<lparr>te_id = new_id, te_quoteAr = cv_quoteAr d, te_quoteEn = cv_quoteEn d,
                    te_authorName = (case cv_authorName d of None \<Rightarrow> cm_name m | Some n \<Rightarrow> n),
                    te_authorDescAr = cv_authorDesc d, te_authorDescEn = None, te_status = StatusPending,
                    te_isFeatured = False, te_source = SourceContactForm, te_sourceMessageId = Some (cm_id m),
                    te_sortOrder = 0, te_createdAt = now, te_updatedAt = now\<rparr>
           in (Inr t, ib\<lparr>ib_testimonials := ib_testimonials ib @ [t]\<rparr>, [''testimonials'', ''home''])))"

text \<open>Deleting message rows, with what the foreign keys do to replies and testimonials.\<close>

definition drop_messages :: "(contact_message \<Rightarrow> bool) \<Rightarrow> inbox \<Rightarrow> inbox" where
  "drop_messages P ib =
     (let gone = cm_id ` {m \<in> set (ib_messages ib). P m}
      in ib\<lparr>ib_messages := delete_rows P (ib_messages ib),
            ib_replies := delete_rows (\<lambda>r. mr_messageId r \<in> gone) (ib_replies ib),
            ib_testimonials := update_rows (\<lambda>t. \<exists>i \<in> gone. te_sourceMessageId t = Some i)
                                 (\<lambda>t. t\<lparr>te_sourceMessageId := None\<rparr>) (ib_testimonials ib)\<rparr>)"

text \<open>A reply's \<open>mail_log_id\<close> goes to null with its mail row (\<open>ON DELETE SET NULL\<close>).\<close>

definition drop_mail :: "(mail_row \<Rightarrow> bool) \<Rightarrow> inbox \<Rightarrow> inbox" where
  "drop_mail P ib =
     (let gone = ml_id ` {r \<in> set (ms_log (ib_mail ib)). P r}
      in ib\<lparr>ib_mail := (ib_mail ib)\<lparr>ms_log := delete_rows P (ms_log (ib_mail ib))\<rparr>,
            ib_replies := update_rows (\<lambda>r. \<exists>i \<in> gone. mr_mailLogId r = Some i) (\<lambda>r. r\<lparr>mr_mailLogId := None\<rparr>) (ib_replies ib)\<rparr>)"

definition message_remove :: "inbox_env \<Rightarrow> string \<Rightarrow> inbox \<Rightarrow> contact_message res \<times> inbox" where
  "message_remove env i ib =
     (case find_message env i ib of
        Inl e \<Rightarrow> (Inl e, ib)
      | Inr m \<Rightarrow>
          (Inr m, drop_messages (\<lambda>x. cm_id x = cm_id m)
             (drop_mail (\<lambda>r. \<exists>j. ml_entity r = Some (''contact_messages'', j) \<and> sc_id (ix_compare env) j i) ib)))"

section \<open>The admin routes of messages\<close>

record message_audit =
  mad_action :: audit_action
  mad_entityType :: string
  mad_entityId :: string
  mad_entityLabel :: string
  mad_before :: "(string \<times> json) list option"
  mad_after :: "(string \<times> json) list option"

definition reply_route ::
  "inbox_env \<Rightarrow> time \<Rightarrow> string \<Rightarrow> string \<Rightarrow> string \<Rightarrow> string \<Rightarrow> inbox
     \<Rightarrow> (contact_message \<times> message_reply) res \<times> inbox \<times> message_audit option" where
  "reply_route env now new_id user_id i body ib =
     (case reply env now new_id i body user_id ib of
        (Inl e, ib') \<Rightarrow> (Inl e, ib', None)
      | (Inr (m, r), ib') \<Rightarrow>
          (Inr (m, r), ib',
           Some \<lparr>mad_action = ACreate, mad_entityType = ''message_replies'', mad_entityId = mr_id r,
                 mad_entityLabel = ''reply to message #'' @ i, mad_before = None,
                 mad_after = Some [(''id'', JStr (mr_id r)), (''messageId'', JStr i), (''authorId'', option_json (mr_authorId r)),
                                   (''mailLogId'', option_json (mr_mailLogId r))]\<rparr>))"

definition set_status_route ::
  "inbox_env \<Rightarrow> string \<Rightarrow> message_status \<Rightarrow> inbox \<Rightarrow> contact_message res \<times> inbox \<times> message_audit option" where
  "set_status_route env i s ib =
     (case set_status env i s ib of
        (Inl e, ib') \<Rightarrow> (Inl e, ib', None)
      | (Inr (before, after), ib') \<Rightarrow>
          (Inr after, ib',
           Some \<lparr>mad_action = AUpdate, mad_entityType = ''contact_messages'', mad_entityId = i,
                 mad_entityLabel = ''contact message #'' @ i,
                 mad_before = Some [(''status'', JStr (message_status_name before))],
                 mad_after = Some [(''status'', JStr (message_status_name (cm_status after)))]\<rparr>))"

definition message_remove_route ::
  "inbox_env \<Rightarrow> string \<Rightarrow> inbox \<Rightarrow> unit res \<times> inbox \<times> message_audit option" where
  "message_remove_route env i ib =
     (case message_remove env i ib of
        (Inl e, ib') \<Rightarrow> (Inl e, ib', None)
      | (Inr m, ib') \<Rightarrow>
          (Inr (), ib',
           Some \<lparr>mad_action = ADelete, mad_entityType = ''contact_messages'', mad_entityId = i,
                 mad_entityLabel = ''contact message #'' @ i,
                 mad_before = Some [(''id'', JStr (cm_id m)), (''status'', JStr (message_status_name (cm_status m))),
                                    (''createdAt'', JNum (cm_createdAt m))], mad_after = None\<rparr>))"

section \<open>The life of a subscription\<close>

datatype newsletter_op =
    NlSubscribe nat string newsletter_dto "string option" loc
  | NlConfirm nat string string
  | NlUnsubscribe nat string string
  | NlRemove string

fun newsletter_step :: "inbox_env \<Rightarrow> newsletter_op \<Rightarrow> inbox \<Rightarrow> inbox" where
  "newsletter_step env (NlSubscribe now new_id d ip_hash l) ib = subscribe env now new_id d ip_hash l ib"
| "newsletter_step env (NlConfirm now email token) ib = snd (confirm_subscription env now email token ib)"
| "newsletter_step env (NlUnsubscribe now email token) ib = snd (unsubscribe env now email token ib)"
| "newsletter_step env (NlRemove i) ib = snd (newsletter_remove env i ib)"

text \<open>What a request does for the address of a row: a form that is taken, a link that is valid.\<close>

fun signs_up :: "inbox_env \<Rightarrow> string \<Rightarrow> newsletter_op \<Rightarrow> bool" where
  "signs_up env e (NlSubscribe now new_id d ip_hash l) =
     (\<not> is_honeypot_tripped (nd_website d) (nd_formRenderedAt d) (int now)
      \<and> sc_text (ix_compare env) e (normal_email (nd_email d)))"
| "signs_up env e _ = False"

fun opts_in :: "inbox_env \<Rightarrow> string \<Rightarrow> newsletter_op \<Rightarrow> bool" where
  "opts_in env e (NlConfirm now email token) =
     (verify_newsletter_token (ix_auth env) (ix_number env) now Confirm (normal_email email) token
      \<and> sc_text (ix_compare env) e (normal_email email))"
| "opts_in env e _ = False"

fun opts_out :: "inbox_env \<Rightarrow> string \<Rightarrow> newsletter_op \<Rightarrow> bool" where
  "opts_out env e (NlUnsubscribe now email token) =
     (verify_newsletter_token (ix_auth env) (ix_number env) now Unsubscribe (normal_email email) token
      \<and> sc_text (ix_compare env) e (normal_email email))"
| "opts_out env e _ = False"

abbreviation active_subscription :: "newsletter_row \<Rightarrow> bool" where
  "active_subscription r \<equiv> nl_confirmedAt r \<noteq> None \<and> nl_unsubscribedAt r = None"

lemma send_in_frame [simp]:
  "ib_newsletter (send_in env now p ib) = ib_newsletter ib" "ib_messages (send_in env now p ib) = ib_messages ib"
  "ib_replies (send_in env now p ib) = ib_replies ib" "ib_testimonials (send_in env now p ib) = ib_testimonials ib"
  by (simp_all add: send_in_def)

lemma set_save_subscriber: "set (save_subscriber r rows) \<subseteq> insert r (set rows)"
  by (auto simp: save_subscriber_def table_simps)

text \<open>A row after a form is an old row, or a pending one of the form's address.\<close>

lemma subscribe_rows:
  assumes "r \<in> set (ib_newsletter (subscribe env now new_id d ip_hash l ib))"
    and same: "\<And>x. sc_text (ix_compare env) x x"
  shows "r \<in> set (ib_newsletter ib) \<or> nl_confirmedAt r = None \<and> signs_up env (nl_email r) (NlSubscribe now new_id d ip_hash l)"
proof -
  define email where "email = normal_email (nd_email d)"
  define old where "old = find_subscriber env email (ib_newsletter ib)"
  have "sc_text (ix_compare env) (nl_email q) email" if "old = Some q" for q
    using find_SomeD that by (force simp: old_def find_subscriber_def)
  then have "nl_confirmedAt (subscribed_row new_id (int now) email ip_hash l old) = None
      \<and> sc_text (ix_compare env) (nl_email (subscribed_row new_id (int now) email ip_hash l old)) email"
    using same by (cases old) (simp_all add: subscribed_row_def)
  then show ?thesis
    using assms(1) set_save_subscriber unfolding subscribe_def email_def old_def
    by (fastforce simp: Let_def split: if_splits)
qed

lemma confirm_rows:
  assumes "r \<in> set (ib_newsletter (snd (confirm_subscription env now email token ib)))"
  shows "r \<in> set (ib_newsletter ib)
    \<or> opts_in env (nl_email r) (NlConfirm now email token) \<and> (\<exists>q \<in> set (ib_newsletter ib). nl_email q = nl_email r)"
  using assms by (auto simp: confirm_subscription_def Let_def table_simps split: if_splits)

lemma unsubscribe_rows:
  assumes "r \<in> set (ib_newsletter (snd (unsubscribe env now email token ib)))"
  shows "(\<exists>q \<in> set (ib_newsletter ib). nl_email q = nl_email r)
    \<and> (active_subscription r \<longrightarrow> r \<in> set (ib_newsletter ib) \<and> \<not> opts_out env (nl_email r) (NlUnsubscribe now email token))"
  using assms by (auto simp: unsubscribe_def Let_def table_simps split: if_splits)

lemma remove_rows:
  "r \<in> set (ib_newsletter (snd (newsletter_remove env i ib))) \<Longrightarrow> r \<in> set (ib_newsletter ib)"
  by (auto simp: newsletter_remove_def table_simps split: option.splits)

text \<open>What a step leaves: each row had its sign-up, and an active one was active or is confirmed now.\<close>

lemma newsletter_step_rows:
  assumes r: "r \<in> set (ib_newsletter (newsletter_step env op ib))" and same: "\<And>x. sc_text (ix_compare env) x x"
  shows "(signs_up env (nl_email r) op \<or> (\<exists>q \<in> set (ib_newsletter ib). nl_email q = nl_email r))
    \<and> (active_subscription r \<longrightarrow> r \<in> set (ib_newsletter ib) \<and> \<not> opts_out env (nl_email r) op
          \<or> opts_in env (nl_email r) op \<and> (\<exists>q \<in> set (ib_newsletter ib). nl_email q = nl_email r))"
proof (cases op)
  case (NlSubscribe now new_id d ip_hash l)
  have "r \<in> set (ib_newsletter ib) \<or> nl_confirmedAt r = None \<and> signs_up env (nl_email r) op"
    using subscribe_rows [OF _ same, of r] r by (simp add: NlSubscribe)
  then show ?thesis by (auto simp: NlSubscribe)
next
  case (NlConfirm now email token)
  have "r \<in> set (ib_newsletter ib) \<or> opts_in env (nl_email r) op \<and> (\<exists>q \<in> set (ib_newsletter ib). nl_email q = nl_email r)"
    using confirm_rows r by (simp add: NlConfirm)
  then show ?thesis by (auto simp: NlConfirm simp del: opts_in.simps)
next
  case (NlUnsubscribe now email token)
  show ?thesis using unsubscribe_rows r by (simp add: NlUnsubscribe)
next
  case (NlRemove i)
  then show ?thesis using remove_rows r by auto
qed

definition opted_in :: "inbox_env \<Rightarrow> string \<Rightarrow> newsletter_op list \<Rightarrow> bool" where
  "opted_in env e ops \<longleftrightarrow>
     (\<exists>before op after. ops = before @ op # after \<and> list_ex (signs_up env e) before \<and> opts_in env e op
        \<and> \<not> list_ex (opts_out env e) after)"

lemma opted_in_snoc:
  "opted_in env e ops \<Longrightarrow> \<not> opts_out env e op \<Longrightarrow> opted_in env e (ops @ [op])"
  "list_ex (signs_up env e) ops \<Longrightarrow> opts_in env e op \<Longrightarrow> opted_in env e (ops @ [op])"
proof -
  assume "opted_in env e ops" "\<not> opts_out env e op"
  then obtain before op' after where "ops = before @ op' # after" "list_ex (signs_up env e) before" "opts_in env e op'"
      "\<not> list_ex (opts_out env e) after"
    by (auto simp: opted_in_def)
  then show "opted_in env e (ops @ [op])"
    using \<open>\<not> opts_out env e op\<close> unfolding opted_in_def
    by (intro exI [of _ before] exI [of _ op'] exI [of _ "after @ [op]"]) simp
next
  assume "list_ex (signs_up env e) ops" "opts_in env e op"
  then show "opted_in env e (ops @ [op])"
    unfolding opted_in_def by (intro exI [of _ ops] exI [of _ op] exI [of _ "[]"]) simp
qed

lemma newsletter_history:
  assumes "ib_newsletter ib = []" and same: "\<And>x. sc_text (ix_compare env) x x"
    and "r \<in> set (ib_newsletter (fold (newsletter_step env) ops ib))"
  shows "list_ex (signs_up env (nl_email r)) ops \<and> (active_subscription r \<longrightarrow> opted_in env (nl_email r) ops)"
  using assms(3)
proof (induction ops arbitrary: r rule: rev_induct)
  case Nil
  then show ?case using assms(1) by simp
next
  case (snoc op ops)
  let ?ib = "fold (newsletter_step env) ops ib"
  have r: "r \<in> set (ib_newsletter (newsletter_step env op ?ib))" using snoc.prems by simp
  have signed: "list_ex (signs_up env (nl_email r)) ops" if "q \<in> set (ib_newsletter ?ib)" "nl_email q = nl_email r" for q
    using snoc.IH [OF that(1)] that(2) by simp
  have "list_ex (signs_up env (nl_email r)) (ops @ [op])"
    using newsletter_step_rows [OF r same] signed by auto
  moreover have "opted_in env (nl_email r) (ops @ [op])" if "active_subscription r"
    using newsletter_step_rows [OF r same] signed snoc.IH [of r] that opted_in_snoc by blast
  ultimately show ?case by blast
qed

text \<open>
  C15: the newsletter is double opt-in. Whatever forms, links and admin removals arrive
  in any order, the addresses the administration lists and exports as subscribed are only those
  that filled in the form and afterwards followed a valid confirm link, and have followed no
  valid unsubscribe link since.
\<close>

theorem newsletter_double_opt_in:
  assumes "ib_newsletter ib = []" and same: "\<And>x. sc_text (ix_compare env) x x"
    and r: "r \<in> set (newsletter_filter (Some ''subscribed'') (ib_newsletter (fold (newsletter_step env) ops ib)))"
  shows "\<exists>before op after. ops = before @ op # after \<and> list_ex (signs_up env (nl_email r)) before
    \<and> opts_in env (nl_email r) op \<and> \<not> list_ex (opts_out env (nl_email r)) after"
proof -
  have "r \<in> set (ib_newsletter (fold (newsletter_step env) ops ib))" "active_subscription r"
    using r by (auto simp: newsletter_filter_def Let_def)
  then show ?thesis
    using newsletter_history [OF assms(1) same] unfolding opted_in_def by blast
qed

section \<open>Deleted messages\<close>

text \<open>The entities the log's rows are about: only a new mail adds one.\<close>

abbreviation log_entities :: "mail_state \<Rightarrow> (string \<times> string) option set" where
  "log_entities st \<equiv> ml_entity ` set (ms_log st)"

lemma update_mail_entities: "(\<And>r. ml_entity (f r) = ml_entity r) \<Longrightarrow> ml_entity ` set (update_mail i f rows) = ml_entity ` set rows"
  by (simp add: map_update_rows update_mail_def flip: set_map)

lemma record_failure_entities [simp]: "log_entities (record_failure now i n err force st) = log_entities st"
  by (simp add: record_failure_def Let_def update_mail_entities)

lemma attempt_end_entities [simp]: "log_entities (attempt_end now m refused st) = log_entities st"
  by (cases refused) (simp_all add: attempt_end_def update_mail_entities)

lemma begin_step_entities [simp]: "log_entities (begin_step env now by_sweep i st) = log_entities st"
proof -
  obtain st' m where a: "attempt_begin env now by_sweep i st = (st', m)" by force
  then have "log_entities st' = log_entities st"
    by (cases rule: attempt_begin_cases) (simp_all add: update_mail_entities)
  then show ?thesis using a by (simp add: begin_step_def split: option.split)
qed

fun mentions :: "(string \<times> string) option \<Rightarrow> mail_op \<Rightarrow> bool" where
  "mentions e (MSend now p) = (sm_entity p = e)"
| "mentions e _ = False"

lemma mail_step_entities:
  assumes "\<not> mentions e op" "e \<notin> log_entities st"
  shows "e \<notin> log_entities (mail_step env storable op st)"
proof (cases op)
  case (MSend now p)
  then show ?thesis using assms by (auto simp: mail_send_log mail_log_row_def Let_def)
next
  case (MSweepNext now)
  then show ?thesis using assms(2) by (auto simp: list_ex_iff split: option.split list.split)
qed (use assms in \<open>auto simp: table_simps\<close>)

lemma mail_run_entities:
  "\<not> list_ex (mentions e) ops \<Longrightarrow> e \<notin> log_entities st \<Longrightarrow> e \<notin> log_entities (fold (mail_step env storable) ops st)"
proof (induction ops arbitrary: st)
  case (Cons op ops)
  then show ?case using mail_step_entities [of e op st env storable] by simp
qed simp

lemma message_removed:
  assumes "message_remove env i ib = (Inr m, ib')"
  shows "find_message env i ib = Inr m" and "m \<in> set (ib_messages ib)" and "sc_id (ix_compare env) (cm_id m) i"
    and "ib' = drop_messages (\<lambda>x. cm_id x = cm_id m)
       (drop_mail (\<lambda>r. \<exists>j. ml_entity r = Some (''contact_messages'', j) \<and> sc_id (ix_compare env) j i) ib)"
proof -
  show f: "find_message env i ib = Inr m"
    using assms by (auto simp: message_remove_def split: sum.splits)
  show "ib' = drop_messages (\<lambda>x. cm_id x = cm_id m)
       (drop_mail (\<lambda>r. \<exists>j. ml_entity r = Some (''contact_messages'', j) \<and> sc_id (ix_compare env) j i) ib)"
    using assms f by (simp add: message_remove_def)
  have "List.find (\<lambda>m. sc_id (ix_compare env) (cm_id m) i) (ib_messages ib) = Some m"
    using f by (simp add: find_message_def split: option.splits)
  from find_SomeD [OF this] show "m \<in> set (ib_messages ib)" "sc_id (ix_compare env) (cm_id m) i" by auto
qed


section \<open>Witnesses\<close>

definition inbox_sample_env :: inbox_env where
  "inbox_sample_env = \<lparr>ix_auth = open_env, ix_number = digits_number, ix_mail = plain_mail_env, ix_storable = all_rows,
     ix_frontend = ''http'', ix_compare = \<lparr>sc_id = (=), sc_text = (=), sc_int = (\<lambda>_ _. False), sc_time = (\<lambda>_ _. False)\<rparr>, ix_iso = (\<lambda>t. [])\<rparr>"

definition empty_inbox :: inbox where
  "empty_inbox = \<lparr>ib_messages = [], ib_replies = [], ib_newsletter = [], ib_testimonials = [], ib_mail = fresh_mail\<rparr>"

definition sample_form :: newsletter_dto where
  "sample_form = \<lparr>nd_email = ''A@x.org '', nd_website = None, nd_formRenderedAt = 0\<rparr>"

definition sample_confirm :: newsletter_op where
  "sample_confirm = NlConfirm 9000 ''a@x.org'' (issue_newsletter_token open_env 5000 Confirm ''a@x.org'')"

lemma sample_subscription:
  "ib_newsletter (fold (newsletter_step inbox_sample_env) [NlSubscribe 5000 ''1'' sample_form None Ar, sample_confirm] empty_inbox)
   = [\<lparr>nl_id = ''1'', nl_email = ''a@x.org'', nl_locale = Ar, nl_confirmedAt = Some 9000, nl_ipHash = None,
       nl_unsubscribedAt = None, nl_createdAt = 5000\<rparr>]"
proof -
  have e: "normal_email ''A@x.org '' = ''a@x.org''" "normal_email ''a@x.org'' = ''a@x.org''" by code_simp+
  have v: "verify_newsletter_token open_env digits_number 9000 Confirm (normal_email ''a@x.org'')
      (issue_newsletter_token open_env 5000 Confirm ''a@x.org'')"
    by (simp add: verify_newsletter_token_def issue_newsletter_token_def Let_def split_issued digits_number_show
        same_signature_iff CONFIRM_TTL_MS_def e)
  have signed: "ib_newsletter (subscribe inbox_sample_env 5000 ''1'' sample_form None Ar empty_inbox)
      = [\<lparr>nl_id = ''1'', nl_email = ''a@x.org'', nl_locale = Ar, nl_confirmedAt = None, nl_ipHash = None,
          nl_unsubscribedAt = None, nl_createdAt = 5000\<rparr>]" (is "_ = [?pending]")
    by (simp add: subscribe_def Let_def inbox_sample_env_def empty_inbox_def sample_form_def e is_honeypot_tripped_def
        MIN_FORM_SECONDS_def find_subscriber_def subscribed_row_def save_subscriber_def)
  have "ib_newsletter (snd (confirm_subscription inbox_sample_env 9000 ''a@x.org'' t ib)) = [?pending\<lparr>nl_confirmedAt := Some 9000\<rparr>]"
    if "ib_newsletter ib = [?pending]" "verify_newsletter_token open_env digits_number 9000 Confirm (normal_email ''a@x.org'') t" for ib t
    using that by (simp add: confirm_subscription_def Let_def inbox_sample_env_def e)
  from this [OF signed v] show ?thesis by (simp add: sample_confirm_def)
qed

theorem newsletter_double_opt_in_witness:
  "\<exists>before op after. [NlSubscribe 5000 ''1'' sample_form None Ar, sample_confirm] = before @ op # after
    \<and> list_ex (signs_up inbox_sample_env ''a@x.org'') before \<and> opts_in inbox_sample_env ''a@x.org'' op
    \<and> \<not> list_ex (opts_out inbox_sample_env ''a@x.org'') after"
proof -
  let ?r = "\<lparr>nl_id = ''1'', nl_email = ''a@x.org'', nl_locale = Ar, nl_confirmedAt = Some 9000, nl_ipHash = None,
       nl_unsubscribedAt = None, nl_createdAt = 5000\<rparr>"
  have "ib_newsletter empty_inbox = []" by (simp add: empty_inbox_def)
  moreover have "sc_text (ix_compare inbox_sample_env) x x" for x by (simp add: inbox_sample_env_def)
  moreover have "?r \<in> set (newsletter_filter (Some ''subscribed'') (ib_newsletter (fold (newsletter_step inbox_sample_env)
      [NlSubscribe 5000 ''1'' sample_form None Ar, sample_confirm] empty_inbox)))"
    unfolding sample_subscription by (simp add: newsletter_filter_def Let_def)
  ultimately show ?thesis
    using newsletter_double_opt_in [of empty_inbox inbox_sample_env ?r] by simp
qed

definition sample_message :: "string \<Rightarrow> contact_message" where
  "sample_message i = \<lparr>cm_id = i, cm_name = ''N'', cm_phone = None, cm_email = ''n@x.org'', cm_subject = COther, cm_body = ''B'',
     cm_status = Unread, cm_locale = Ar, cm_ipHash = None, cm_userAgent = None, cm_createdAt = 7\<rparr>"

definition answered_inbox :: inbox where
  "answered_inbox =
     (let sent = mail_step plain_mail_env all_rows (MSend 7 (contact_ack (sample_message ''1''))) fresh_mail
      in \<lparr>ib_messages = [sample_message ''1'', sample_message ''2''],
          ib_replies = [\<lparr>mr_id = ''1'', mr_messageId = ''1'', mr_authorId = None, mr_body = ''R'', mr_mailLogId = None,
                         mr_deliveryStatus = None, mr_createdAt = 8\<rparr>],
          ib_newsletter = [], ib_testimonials = [], ib_mail = sent\<rparr>)"


end
