(* ===== verification/Retention.thy ===== *)
theory Retention
  imports Guards Inbox
begin

text \<open>
  The nightly clean-up, \<open>maintenance/maintenance.service.ts\<close>, over the tables of the accounts
  (\<open>AuthData\<close>) and of the inbox (\<open>Inbox\<close>). Each step reads the clock itself and swallows its
  own failure; which steps fail and what the clock shows are arguments.
\<close>

section \<open>The job\<close>

definition MAIL_LOG_RETENTION_DAYS :: int where "MAIL_LOG_RETENTION_DAYS = 90"
definition CONTACT_MESSAGE_RETENTION_DAYS :: int where "CONTACT_MESSAGE_RETENTION_DAYS = 730"
definition NEWSLETTER_INACTIVE_RETENTION_DAYS :: int where "NEWSLETTER_INACTIVE_RETENTION_DAYS = 30"

definition days_ago :: "time \<Rightarrow> int \<Rightarrow> time" where
  "days_ago now n = now - n * 24 * 60 * 60 * 1000"

record retention =
  rt_auth :: auth_db
  rt_inbox :: inbox
  rt_running :: bool

datatype nightly_step =
    PurgeExpiredSessions
  | PurgeSpentAuthTokens
  | KeepReplyDeliveryStatus
  | PurgeOldMailLog
  | PurgeOldContactMessages
  | PurgeInactiveNewsletterRows

text \<open>A comparison with a nullable column is not true of \<open>NULL\<close>.\<close>

definition sql_before :: "time option \<Rightarrow> time \<Rightarrow> bool" where
  "sql_before col t = (case col of None \<Rightarrow> False | Some c \<Rightarrow> c < t)"

definition session_dead :: "time \<Rightarrow> session \<Rightarrow> bool" where
  "session_dead now s \<longleftrightarrow> s_expiresAt s < now \<or> s_revokedAt s \<noteq> None"

definition token_spent :: "time \<Rightarrow> auth_token \<Rightarrow> bool" where
  "token_spent now k \<longleftrightarrow> t_usedAt k \<noteq> None \<or> t_expiresAt k < now"

definition newsletter_inactive :: "time \<Rightarrow> newsletter_row \<Rightarrow> bool" where
  "newsletter_inactive cutoff r \<longleftrightarrow>
     sql_before (nl_unsubscribedAt r) cutoff \<or> (nl_confirmedAt r = None \<and> nl_createdAt r < cutoff)"

definition purge_expired_sessions :: "time \<Rightarrow> retention \<Rightarrow> retention" where
  "purge_expired_sessions now st =
     st\<lparr>rt_auth := (rt_auth st)\<lparr>db_sessions := delete_rows (session_dead now) (db_sessions (rt_auth st))\<rparr>\<rparr>"

definition purge_spent_auth_tokens :: "time \<Rightarrow> retention \<Rightarrow> retention" where
  "purge_spent_auth_tokens now st =
     st\<lparr>rt_auth := (rt_auth st)\<lparr>db_tokens := delete_rows (token_spent now) (db_tokens (rt_auth st))\<rparr>\<rparr>"

definition old_mail_of :: "time \<Rightarrow> mail_row list \<Rightarrow> message_reply \<Rightarrow> mail_row option" where
  "old_mail_of cutoff rows r = List.find (\<lambda>m. Some (ml_id m) = mr_mailLogId r \<and> ml_createdAt m < cutoff) rows"

definition keep_reply_delivery_status :: "time \<Rightarrow> retention \<Rightarrow> retention" where
  "keep_reply_delivery_status now st =
     (let ib = rt_inbox st; old = old_mail_of (days_ago now MAIL_LOG_RETENTION_DAYS) (ms_log (ib_mail ib))
      in st\<lparr>rt_inbox := ib\<lparr>ib_replies :=
           map (\<lambda>r. case old r of None \<Rightarrow> r | Some m \<Rightarrow> r\<lparr>mr_deliveryStatus := Some (ml_status m)\<rparr>) (ib_replies ib)\<rparr>\<rparr>)"

definition purge_old_mail_log :: "time \<Rightarrow> retention \<Rightarrow> retention" where
  "purge_old_mail_log now st =
     st\<lparr>rt_inbox := drop_mail (\<lambda>m. ml_createdAt m < days_ago now MAIL_LOG_RETENTION_DAYS) (rt_inbox st)\<rparr>"

definition purge_old_contact_messages :: "time \<Rightarrow> retention \<Rightarrow> retention" where
  "purge_old_contact_messages now st =
     st\<lparr>rt_inbox := drop_messages (\<lambda>m. cm_createdAt m < days_ago now CONTACT_MESSAGE_RETENTION_DAYS) (rt_inbox st)\<rparr>"

definition purge_inactive_newsletter_rows :: "time \<Rightarrow> retention \<Rightarrow> retention" where
  "purge_inactive_newsletter_rows now st =
     st\<lparr>rt_inbox := (rt_inbox st)\<lparr>ib_newsletter :=
       delete_rows (newsletter_inactive (days_ago now NEWSLETTER_INACTIVE_RETENTION_DAYS)) (ib_newsletter (rt_inbox st))\<rparr>\<rparr>"

fun nightly_effect :: "nightly_step \<Rightarrow> time \<Rightarrow> retention \<Rightarrow> retention" where
  "nightly_effect PurgeExpiredSessions = purge_expired_sessions"
| "nightly_effect PurgeSpentAuthTokens = purge_spent_auth_tokens"
| "nightly_effect KeepReplyDeliveryStatus = keep_reply_delivery_status"
| "nightly_effect PurgeOldMailLog = purge_old_mail_log"
| "nightly_effect PurgeOldContactMessages = purge_old_contact_messages"
| "nightly_effect PurgeInactiveNewsletterRows = purge_inactive_newsletter_rows"

text \<open>One guarded step: a failing statement changes nothing and does not stop the others.\<close>

definition nightly_attempt :: "(nightly_step \<Rightarrow> time) \<Rightarrow> (nightly_step \<Rightarrow> bool) \<Rightarrow> nightly_step \<Rightarrow> retention \<Rightarrow> retention" where
  "nightly_attempt clock works s st = (if works s then nightly_effect s (clock s) st else st)"

definition run_nightly_job :: "(nightly_step \<Rightarrow> time) \<Rightarrow> (nightly_step \<Rightarrow> bool) \<Rightarrow> retention \<Rightarrow> retention" where
  "run_nightly_job clock works st =
     (if rt_running st then st
      else (fold (nightly_attempt clock works)
              [PurgeExpiredSessions, PurgeSpentAuthTokens, KeepReplyDeliveryStatus, PurgeOldMailLog,
               PurgeOldContactMessages, PurgeInactiveNewsletterRows] (st\<lparr>rt_running := True\<rparr>))\<lparr>rt_running := False\<rparr>)"

section \<open>Accounts do not notice\<close>

lemma find_delete_rows:
  assumes "\<And>x. Q x \<Longrightarrow> \<not> P x"
  shows "List.find Q (delete_rows P xs) = List.find Q xs"
  using assms by (induction xs) auto

lemmas nightly_defs = nightly_attempt_def purge_expired_sessions_def purge_spent_auth_tokens_def keep_reply_delivery_status_def
  purge_old_mail_log_def purge_old_contact_messages_def purge_inactive_newsletter_rows_def

lemma job_auth:
  "rt_auth (run_nightly_job clock works st) =
    (if rt_running st then rt_auth st
     else (rt_auth st)\<lparr>db_sessions := (if works PurgeExpiredSessions then delete_rows (session_dead (clock PurgeExpiredSessions)) else id)
              (db_sessions (rt_auth st)),
            db_tokens := (if works PurgeSpentAuthTokens then delete_rows (token_spent (clock PurgeSpentAuthTokens)) else id)
              (db_tokens (rt_auth st))\<rparr>)"
  by (simp add: run_nightly_job_def nightly_defs Let_def)

lemma concat_delete_rows:
  "(\<And>x. x \<in> set xs \<Longrightarrow> P x \<Longrightarrow> List.find Q (g x) = None) \<Longrightarrow>
    List.find Q (concat (map g (delete_rows P xs))) = List.find Q (concat (map g xs))"
  by (induction xs) (auto simp: find_append split: option.split)


section \<open>The inbox after a night\<close>

lemma job_inbox:
  assumes "\<not> rt_running st" "\<And>s. works s"
  shows "rt_inbox (run_nightly_job clock works st)
    = rt_inbox (purge_inactive_newsletter_rows (clock PurgeInactiveNewsletterRows)
        (purge_old_contact_messages (clock PurgeOldContactMessages)
          (purge_old_mail_log (clock PurgeOldMailLog)
            (keep_reply_delivery_status (clock KeepReplyDeliveryStatus) st))))"
  using assms by (simp add: run_nightly_job_def nightly_defs Let_def)

lemma old_mail_unique:
  assumes "distinct (map ml_id rows)" "m \<in> set rows" "mr_mailLogId r = Some (ml_id m)"
  shows "old_mail_of cutoff rows r = (if ml_createdAt m < cutoff then Some m else None)"
proof -
  have same: "x = m" if "x \<in> set rows" "ml_id x = ml_id m" for x
    using distinct_key_eq assms(1,2) that by metis
  show ?thesis
  proof (cases "old_mail_of cutoff rows r")
    case None
    then show ?thesis using assms(2,3) by (auto simp: old_mail_of_def find_None_iff)
  next
    case (Some x)
    then have "x \<in> set rows" "ml_id x = ml_id m" "ml_createdAt x < cutoff"
      using find_SomeD assms(3) by (force simp: old_mail_of_def)+
    then show ?thesis using Some same by auto
  qed
qed

text \<open>What the night does to a reply that stays: the outcome of its mail is written down before the mail goes.\<close>

definition settled_reply :: "time \<Rightarrow> mail_row list \<Rightarrow> message_reply \<Rightarrow> message_reply" where
  "settled_reply cutoff rows r =
     (case old_mail_of cutoff rows r of
        None \<Rightarrow> r
      | Some m \<Rightarrow> r\<lparr>mr_mailLogId := None, mr_deliveryStatus := Some (ml_status m)\<rparr>)"

lemma settled_by_steps:
  "(if \<exists>i \<in> ml_id ` {m \<in> set rows. ml_createdAt m < cutoff}. mr_mailLogId r = Some i
    then (case old_mail_of cutoff rows r of None \<Rightarrow> r | Some m \<Rightarrow> r\<lparr>mr_deliveryStatus := Some (ml_status m)\<rparr>)\<lparr>mr_mailLogId := None\<rparr>
    else case old_mail_of cutoff rows r of None \<Rightarrow> r | Some m \<Rightarrow> r\<lparr>mr_deliveryStatus := Some (ml_status m)\<rparr>)
   = settled_reply cutoff rows r"
proof (cases "old_mail_of cutoff rows r")
  case None
  then have "\<not> (\<exists>i \<in> ml_id ` {m \<in> set rows. ml_createdAt m < cutoff}. mr_mailLogId r = Some i)"
    by (auto simp: old_mail_of_def find_None_iff)
  then show ?thesis using None by (simp add: settled_reply_def)
next
  case (Some m)
  then have "m \<in> set rows" "ml_createdAt m < cutoff" "mr_mailLogId r = Some (ml_id m)"
    using find_SomeD by (force simp: old_mail_of_def)+
  then have "\<exists>i \<in> ml_id ` {m \<in> set rows. ml_createdAt m < cutoff}. mr_mailLogId r = Some i" by blast
  then show ?thesis using Some by (simp add: settled_reply_def)
qed

text \<open>
  A night whose steps all work leaves exactly what the retention policy allows:
  contact messages of the last 730 days, mail of the last 90, newsletter rows but those
  unsubscribed, or never confirmed, for 30 days. A reply stays with its message and, when
  the mail that carried it is dropped, keeps how its delivery ended.
\<close>

theorem nightly_job_applies_policy:
  assumes idle: "\<not> rt_running st" and works: "\<And>s. works s" and clock: "\<And>s. clock s = now"
  defines "ib \<equiv> rt_inbox st" and "ib' \<equiv> rt_inbox (run_nightly_job clock works st)"
  shows "ib_messages ib' = filter (\<lambda>m. days_ago now 730 \<le> cm_createdAt m) (ib_messages ib)
    \<and> ms_log (ib_mail ib') = filter (\<lambda>m. days_ago now 90 \<le> ml_createdAt m) (ms_log (ib_mail ib))
    \<and> ib_newsletter ib' = filter (\<lambda>r. (nl_confirmedAt r \<noteq> None \<or> days_ago now 30 \<le> nl_createdAt r)
          \<and> (nl_unsubscribedAt r = None \<or> (\<exists>t. nl_unsubscribedAt r = Some t \<and> days_ago now 30 \<le> t))) (ib_newsletter ib)
    \<and> ib_replies ib' = map (settled_reply (days_ago now 90) (ms_log (ib_mail ib)))
          (filter (\<lambda>r. mr_messageId r \<notin> cm_id ` {m \<in> set (ib_messages ib). cm_createdAt m < days_ago now 730}) (ib_replies ib))
    \<and> map te_quoteAr (ib_testimonials ib') = map te_quoteAr (ib_testimonials ib)"
proof -
  note ib' = ib'_def [unfolded job_inbox [OF idle works] clock, folded ib_def]
  note defs = keep_reply_delivery_status_def purge_old_mail_log_def purge_old_contact_messages_def
    purge_inactive_newsletter_rows_def drop_mail_def drop_messages_def delete_rows_def not_less
    MAIL_LOG_RETENTION_DAYS_def CONTACT_MESSAGE_RETENTION_DAYS_def NEWSLETTER_INACTIVE_RETENTION_DAYS_def
  have c1: "ib_messages ib' = filter (\<lambda>m. days_ago now 730 \<le> cm_createdAt m) (ib_messages ib)"
    and c2: "ms_log (ib_mail ib') = filter (\<lambda>m. days_ago now 90 \<le> ml_createdAt m) (ms_log (ib_mail ib))"
    by (simp_all add: ib' ib_def defs Let_def)
  have "\<not> newsletter_inactive cutoff r \<longleftrightarrow> (nl_confirmedAt r \<noteq> None \<or> cutoff \<le> nl_createdAt r)
      \<and> (nl_unsubscribedAt r = None \<or> (\<exists>t. nl_unsubscribedAt r = Some t \<and> cutoff \<le> t))" for cutoff r
    by (auto simp: newsletter_inactive_def sql_before_def not_less split: option.splits)
  then have c3: "ib_newsletter ib' = filter (\<lambda>r. (nl_confirmedAt r \<noteq> None \<or> days_ago now 30 \<le> nl_createdAt r)
        \<and> (nl_unsubscribedAt r = None \<or> (\<exists>t. nl_unsubscribedAt r = Some t \<and> days_ago now 30 \<le> t))) (ib_newsletter ib)"
    by (simp add: ib' ib_def defs Let_def)
  have keep: "mr_messageId (settled_reply c rows r) = mr_messageId r" for c rows r
    by (simp add: settled_reply_def split: option.split)
  have "ib_replies ib' = filter (\<lambda>r. mr_messageId r \<notin> cm_id ` {m \<in> set (ib_messages ib). cm_createdAt m < days_ago now 730})
      (map (settled_reply (days_ago now 90) (ms_log (ib_mail ib))) (ib_replies ib))"
  proof -
    let ?c = "days_ago now MAIL_LOG_RETENTION_DAYS" and ?rows = "ms_log (ib_mail ib)"
    let ?g = "\<lambda>r. case old_mail_of ?c ?rows r of None \<Rightarrow> r | Some m \<Rightarrow> r\<lparr>mr_deliveryStatus := Some (ml_status m)\<rparr>"
    have "mr_mailLogId (?g r) = mr_mailLogId r" for r by (simp split: option.split)
    then have "update_rows (\<lambda>r. \<exists>i \<in> ml_id ` {m \<in> set ?rows. ml_createdAt m < ?c}. mr_mailLogId r = Some i)
        (\<lambda>r. r\<lparr>mr_mailLogId := None\<rparr>) (map ?g (ib_replies ib)) = map (settled_reply ?c ?rows) (ib_replies ib)"
      unfolding update_rows_def list.map_comp by (intro list.map_cong0) (simp only: comp_def settled_by_steps)
    moreover have "ib_replies ib' = delete_rows (\<lambda>r. mr_messageId r \<in> cm_id ` {m \<in> set (ib_messages ib). cm_createdAt m < days_ago now CONTACT_MESSAGE_RETENTION_DAYS})
        (update_rows (\<lambda>r. \<exists>i \<in> ml_id ` {m \<in> set ?rows. ml_createdAt m < ?c}. mr_mailLogId r = Some i)
          (\<lambda>r. r\<lparr>mr_mailLogId := None\<rparr>) (map ?g (ib_replies ib)))"
      by (simp add: ib' ib_def keep_reply_delivery_status_def purge_old_mail_log_def purge_old_contact_messages_def
          purge_inactive_newsletter_rows_def drop_mail_def drop_messages_def Let_def)
    ultimately show ?thesis
      by (simp add: delete_rows_def MAIL_LOG_RETENTION_DAYS_def CONTACT_MESSAGE_RETENTION_DAYS_def)
  qed
  then have c4: "ib_replies ib' = map (settled_reply (days_ago now 90) (ms_log (ib_mail ib)))
        (filter (\<lambda>r. mr_messageId r \<notin> cm_id ` {m \<in> set (ib_messages ib). cm_createdAt m < days_ago now 730}) (ib_replies ib))"
    by (simp add: filter_map comp_def keep)
  have c5: "map te_quoteAr (ib_testimonials ib') = map te_quoteAr (ib_testimonials ib)"
    by (simp add: ib' ib_def defs Let_def map_update_rows)
  show ?thesis by (intro conjI) (fact c1 c2 c3 c4 c5)+
qed

section \<open>Two nights that lose something\<close>

text \<open>
  \<open>created_at\<close> is not touched when an old row subscribes again: the night may drop the row
  long before its confirm link, which then answers as if it had worked.
\<close>

definition old_subscriber :: newsletter_row where
  "old_subscriber = \<lparr>nl_id = ''1'', nl_email = ''a@x.org'', nl_locale = Ar, nl_confirmedAt = None, nl_ipHash = None,
     nl_unsubscribedAt = None, nl_createdAt = 0\<rparr>"

lemma resubscribed_row_purged_early:
  assumes "ib_newsletter (rt_inbox st) = [r]" "nl_email r = ''a@x.org''" "nl_createdAt r + days 30 \<le> int now"
    and form: "normal_email (nd_email d) = ''a@x.org''" "\<not> is_honeypot_tripped (nd_website d) (nd_formRenderedAt d) (int now)"
    and same: "sc_text (ix_compare env) ''a@x.org'' ''a@x.org''" and unsub: "nl_unsubscribedAt r \<noteq> None"
    and idle: "\<not> rt_running st" and works: "\<And>s. works s" and night: "\<And>s. clock s = int now + hours 1"
  shows "ib_newsletter (rt_inbox (run_nightly_job clock works
      (st\<lparr>rt_inbox := subscribe env now new_id d ip_hash l (rt_inbox st)\<rparr>))) = []"
proof -
  define st' where "st' = st\<lparr>rt_inbox := subscribe env now new_id d ip_hash l (rt_inbox st)\<rparr>"
  have "ib_newsletter (rt_inbox st') = [r\<lparr>nl_unsubscribedAt := None, nl_confirmedAt := None, nl_locale := l\<rparr>]"
    using assms(1,2) form same unsub
    by (auto simp: st'_def subscribe_def Let_def find_subscriber_def subscribed_row_def save_subscriber_def)
  moreover have "\<not> rt_running st'" using idle by (simp add: st'_def)
  ultimately show ?thesis
    unfolding st'_def [symmetric] job_inbox [OF \<open>\<not> rt_running st'\<close> works] night
    using assms(3)
    by (simp add: keep_reply_delivery_status_def purge_old_mail_log_def purge_old_contact_messages_def
          purge_inactive_newsletter_rows_def drop_mail_def drop_messages_def Let_def newsletter_inactive_def sql_before_def
          days_ago_def NEWSLETTER_INACTIVE_RETENTION_DAYS_def days_def hours_def)
qed

text \<open>A night whose copying step fails drops the mail all the same: how the reply's delivery ended is lost.\<close>

lemma failed_copy_loses_outcome:
  assumes "ms_log (ib_mail (rt_inbox st)) = [m]" "ib_replies (rt_inbox st) = [r]" "ib_messages (rt_inbox st) = []"
    and "mr_mailLogId r = Some (ml_id m)" "mr_deliveryStatus r = None"
    and "ml_createdAt m < days_ago now 90" "\<not> rt_running st"
  shows "map mr_deliveryStatus (ib_replies (rt_inbox (run_nightly_job (\<lambda>_. now) (\<lambda>s. s \<noteq> KeepReplyDeliveryStatus) st))) = [None]
    \<and> ms_log (ib_mail (rt_inbox (run_nightly_job (\<lambda>_. now) (\<lambda>s. s \<noteq> KeepReplyDeliveryStatus) st))) = []"
  using assms
  by (simp add: run_nightly_job_def nightly_defs drop_mail_def drop_messages_def Let_def MAIL_LOG_RETENTION_DAYS_def)

section \<open>Witnesses\<close>

definition sample_retention :: retention where
  "sample_retention = \<lparr>rt_auth = \<lparr>db_users = [], db_sessions = [], db_tokens = [], db_audit = []\<rparr>,
     rt_inbox = answered_inbox, rt_running = False\<rparr>"


theorem nightly_job_applies_policy_witness:
  "map cm_id (ib_messages (rt_inbox (run_nightly_job (\<lambda>_. days 731) (\<lambda>_. True) sample_retention))) = []
   \<and> ib_replies (rt_inbox (run_nightly_job (\<lambda>_. days 731) (\<lambda>_. True) sample_retention)) = []"
proof -
  have idle: "\<not> rt_running sample_retention" by (simp add: sample_retention_def)
  have m: "ib_messages (rt_inbox sample_retention) = [sample_message ''1'', sample_message ''2'']"
    by (simp add: sample_retention_def answered_inbox_def Let_def)
  have r: "map mr_messageId (ib_replies (rt_inbox sample_retention)) = [''1'']"
    by (simp add: sample_retention_def answered_inbox_def Let_def)
  then obtain q where q: "ib_replies (rt_inbox sample_retention) = [q]" "mr_messageId q = ''1''"
    by (auto simp: map_eq_Cons_conv)
  have gone: "cm_id ` {m \<in> set (ib_messages (rt_inbox sample_retention)). cm_createdAt m < days_ago (days 731) 730} = {''1'', ''2''}"
  proof -
    have "{x \<in> set [a, b]. P x} = {a, b}" if "P a" "P b" for a b and P :: "contact_message \<Rightarrow> bool" using that by auto
    then show ?thesis by (simp add: m sample_message_def days_ago_def days_def del: set_simps)
  qed
  have kept: "filter (\<lambda>m. days_ago (days 731) 730 \<le> cm_createdAt m) (ib_messages (rt_inbox sample_retention)) = []"
    by (simp add: m sample_message_def days_ago_def days_def)
  from nightly_job_applies_policy [OF idle, where works = "\<lambda>_. True" and clock = "\<lambda>_. days 731" and now = "days 731",
      unfolded gone kept]
  show ?thesis by (simp add: q)
qed

end
