(* ===== verification/PublicRoutes.thy ===== *)
theory PublicRoutes
  imports PublicViews OrgChart SignedLinks TextRules FileNames Redirects "HOL-Library.Char_ord" "HOL-Library.List_Lexorder" "HOL-Library.Option_ord"
begin

text \<open>
  The routes a visitor reads without a session: \<open>news/news.controller.ts\<close>, \<open>home/home.service.ts\<close>,
  \<open>site/site.controller.ts\<close>, \<open>pages/pages.controller.ts\<close>, \<open>documents/documents.controller.ts\<close> and the
  smaller collections, over the tables of \<open>PublicViews\<close>. Rows that tie in an \<open>ORDER BY\<close> keep the
  order of the table. The HTML of Markdown is the parameter \<open>pe_md\<close>.
\<close>

section \<open>Order and grouping\<close>

definition order_desc :: "('a \<Rightarrow> 'b::linorder) \<Rightarrow> 'a list \<Rightarrow> 'a list" where
  "order_desc key rows = rev (sort_key key (rev rows))"

definition id_number :: "string \<Rightarrow> nat" where
  "id_number i = read_nat i"

text \<open>The \<open>Map\<close> the controllers fill to group rows by their parent's id, and its \<open>get(id) ?? []\<close>.\<close>

definition add_to_bucket :: "('a \<Rightarrow> string) \<Rightarrow> 'a \<Rightarrow> (string \<times> 'a list) list \<Rightarrow> (string \<times> 'a list) list" where
  "add_to_bucket key x buckets =
     (if key x \<in> fst ` set buckets
      then map (\<lambda>(k, xs). if k = key x then (k, xs @ [x]) else (k, xs)) buckets
      else buckets @ [(key x, [x])])"

definition buckets_of :: "('a \<Rightarrow> string) \<Rightarrow> 'a list \<Rightarrow> (string \<times> 'a list) list" where
  "buckets_of key xs = fold (add_to_bucket key) xs []"

definition bucket :: "(string \<times> 'a list) list \<Rightarrow> string \<Rightarrow> 'a list" where
  "bucket buckets k = (case map_of buckets k of None \<Rightarrow> [] | Some xs \<Rightarrow> xs)"

section \<open>The environment of a request\<close>

record public_env =
  pe_compare :: sql_compare
  pe_char :: "char \<Rightarrow> char \<Rightarrow> bool"
  pe_md :: "string \<Rightarrow> string"
  pe_auth :: auth_env
  pe_number :: "string \<Rightarrow> nat option"

definition answered :: "'v \<Rightarrow> 'v handled res" where
  "answered v = Inr \<lparr>hd_body = v, hd_skipCacheWrite = False, hd_previewVerified = False\<rparr>"

section \<open>News\<close>

definition NEWS_DEFAULT_LIMIT :: int where "NEWS_DEFAULT_LIMIT = 12"
definition NEWS_MAX_LIMIT :: int where "NEWS_MAX_LIMIT = 48"
definition RELATED_LIMIT :: nat where "RELATED_LIMIT = 3"

record news_page =
  np_data :: "public_post_summary list"
  np_total :: nat
  np_page :: int
  np_limit :: int

definition category_of :: "content \<Rightarrow> post \<Rightarrow> news_category option" where
  "category_of ct p = List.find (\<lambda>k. nc_id k = po_categoryId p) (ct_newsCategories ct)"

definition like_post :: "public_env \<Rightarrow> string \<Rightarrow> post \<Rightarrow> bool" where
  "like_post env q p =
     list_ex (\<lambda>f. case f p of None \<Rightarrow> False | Some v \<Rightarrow> sql_like (pe_char env) (''%'' @ escape_like_value q @ ''%'') v)
       [Some \<circ> po_titleAr, po_titleEn, po_excerptAr, po_excerptEn]"

definition news_list :: "public_env \<Rightarrow> query \<Rightarrow> content \<Rightarrow> news_page handled res" where
  "news_list env query ct =
     (let pl = read_page_limit NEWS_DEFAULT_LIMIT NEWS_MAX_LIMIT query;
          slug = (case read_string query ''category'' of None \<Rightarrow> [] | Some s \<Rightarrow> s);
          q = (case read_string query ''q'' of None \<Rightarrow> [] | Some s \<Rightarrow> s);
          same = sc_text (pe_compare env);
          rows = filter (\<lambda>p. po_isPublished p
                     \<and> (slug = [] \<or> (\<exists>k. category_of ct p = Some k \<and> same (nc_slug k) slug))
                     \<and> (q = [] \<or> like_post env q p)) (ct_posts ct);
          found = order_desc po_publishedOn (order_desc (\<lambda>p. id_number (po_id p)) rows)
      in if slug \<noteq> [] \<and> \<not> list_ex (\<lambda>k. same (nc_slug k) slug) (ct_newsCategories ct)
         then fail 400 VALIDATION_FAILED (''Unknown news category: '' @ slug)
         else
           Inr \<lparr>hd_body = \<lparr>np_data = (if pl_beyondMaxOffset pl then []
                            else map (to_public_post_summary ct) (take (nat (pl_limit pl)) (drop (nat (pl_offset pl)) found))),
                          np_total = length rows, np_page = pl_page pl, np_limit = pl_limit pl\<rparr>,
                hd_skipCacheWrite = (q \<noteq> [] \<or> pl_beyondMaxOffset pl), hd_previewVerified = False\<rparr>)"

definition featured :: "content \<Rightarrow> public_post_summary option" where
  "featured ct =
     (case order_desc po_publishedOn (filter (\<lambda>p. po_isPublished p \<and> po_isFeatured p) (ct_posts ct)) of
        [] \<Rightarrow> None | p # _ \<Rightarrow> Some (to_public_post_summary ct p))"

definition news_categories :: "content \<Rightarrow> public_news_category list" where
  "news_categories ct = map to_public_news_category (sort_key nc_sortOrder (ct_newsCategories ct))"

definition post_preview :: "public_env \<Rightarrow> nat \<Rightarrow> query \<Rightarrow> post \<Rightarrow> bool" where
  "post_preview env now query p =
     (case read_string query ''preview'' of
        None \<Rightarrow> False
      | Some t \<Rightarrow> t \<noteq> [] \<and> verify_preview_token (pe_auth env) (pe_number env) now ''posts'' (po_id p) t)"

definition related_posts :: "post \<Rightarrow> content \<Rightarrow> post list" where
  "related_posts p ct =
     (let same = (if po_categoryId p = [] then []
                  else take (RELATED_LIMIT + 1) (order_desc po_publishedOn
                         (filter (\<lambda>r. po_categoryId r = po_categoryId p \<and> po_isPublished r) (ct_posts ct))))
      in take RELATED_LIMIT (filter (\<lambda>r. po_id r \<noteq> po_id p) same))"

definition uri_text :: "string \<Rightarrow> string" where
  "uri_text s = (case encode_uri_component (map of_char s) of None \<Rightarrow> [] | Some e \<Rightarrow> map char_of e)"

text \<open>The body is rendered before the projection, which therefore counts the words of the HTML.\<close>

definition rendered_post :: "(string \<Rightarrow> string) \<Rightarrow> post \<Rightarrow> post" where
  "rendered_post md p =
     p\<lparr>po_bodyAr := Some (case po_bodyAr p of None \<Rightarrow> [] | Some s \<Rightarrow> if s = [] then [] else md s),
       po_bodyEn := rendered md (po_bodyEn p)\<rparr>"

definition news_by_slug :: "public_env \<Rightarrow> nat \<Rightarrow> string \<Rightarrow> query \<Rightarrow> content \<Rightarrow> public_post_detail handled res" where
  "news_by_slug env now slug query ct =
     (case List.find (\<lambda>p. sc_text (pe_compare env) (po_slug p) slug) (ct_posts ct) of
        None \<Rightarrow> fail 404 NOT_FOUND ''Not found''
      | Some p \<Rightarrow>
          (let preview = (\<not> po_isPublished p \<and> post_preview env now query p)
           in if \<not> po_isPublished p \<and> \<not> preview then fail 404 NOT_FOUND ''Not found''
              else
                (let detail = to_public_post_detail ct (rendered_post (pe_md env) p) (related_posts p ct);
                     token = (case read_string query ''preview'' of None \<Rightarrow> [] | Some t \<Rightarrow> t)
                 in Inr \<lparr>hd_body = (if preview
                            then detail\<lparr>xq_previewFileQuery := Some (''preview='' @ uri_text token @ ''&post='' @ uri_text (po_id p))\<rparr>
                            else detail),
                         hd_skipCacheWrite = False, hd_previewVerified = preview\<rparr>)))"

section \<open>Pages, site and sitemap\<close>

definition page_by_slug :: "public_env \<Rightarrow> string \<Rightarrow> content \<Rightarrow> public_page handled res" where
  "page_by_slug env slug ct =
     (case List.find (\<lambda>p. sc_text (pe_compare env) (pa_slug p) slug \<and> pa_isPublished p) (ct_pages ct) of
        None \<Rightarrow> fail 404 NOT_FOUND ''Not found''
      | Some p \<Rightarrow>
          answered (to_public_page (pe_md env) ct
            (sort_key ps_sortOrder (filter (\<lambda>s. ps_pageId s = pa_id p \<and> ps_isPublished s) (ct_sections ct))) p))"

definition NAV_SLUGS :: "string list" where
  "NAV_SLUGS = [''home'', ''about'', ''board'', ''work'', ''news'', ''testimonials'', ''partners'', ''governance'', ''contact'']"

record public_nav_item =
  nv_slug :: string
  nv_labelAr :: string
  nv_labelEn :: "string option"

record public_site =
  pu_settings :: "public_site_settings option"
  pu_nav :: "public_nav_item list"
  pu_phone :: "string option"
  pu_email :: "string option"
  pu_addressAr :: "string option"
  pu_addressEn :: "string option"

definition site_nav :: "content \<Rightarrow> public_nav_item list" where
  "site_nav ct =
     (let by_slug = (\<lambda>s. List.find (\<lambda>p. pa_slug p = s) (rev (filter pa_isPublished (ct_pages ct))))
      in map (\<lambda>p. \<lparr>nv_slug = pa_slug p, nv_labelAr = pa_titleAr p, nv_labelEn = pa_titleEn p\<rparr>)
           (List.map_filter by_slug NAV_SLUGS))"

definition site_get :: "content \<Rightarrow> public_site" where
  "site_get ct =
     \<lparr>pu_settings = map_option to_public_site_settings (ct_settings ct), pu_nav = site_nav ct,
      pu_phone = Option.bind (ct_settings ct) si_phone, pu_email = Option.bind (ct_settings ct) si_email,
      pu_addressAr = Option.bind (ct_settings ct) si_addressAr, pu_addressEn = Option.bind (ct_settings ct) si_addressEn\<rparr>"

record sitemap_index =
  sm_pages :: "(string \<times> time) list"
  sm_posts :: "(string \<times> time) list"
  sm_categories :: "(string \<times> time) list"

definition sitemap_get :: "content \<Rightarrow> sitemap_index" where
  "sitemap_get ct =
     \<lparr>sm_pages = map (\<lambda>p. (pa_slug p, pa_updatedAt p)) (filter pa_isPublished (ct_pages ct)),
      sm_posts = map (\<lambda>p. (po_slug p, po_updatedAt p)) (filter po_isPublished (ct_posts ct)),
      sm_categories = map (\<lambda>k. (nc_slug k, nc_updatedAt k)) (ct_newsCategories ct)\<rparr>"

section \<open>Collections\<close>

definition board_list :: "content \<Rightarrow> (string \<times> public_board_member list) list" where
  "board_list ct =
     (let members = sort_key bm_sortOrder (filter bm_isPublished (ct_board ct))
      in map (\<lambda>g. (board_group_name g, map (to_public_board_member ct) (filter (\<lambda>m. bm_grp m = g) members))) [GBoard, GExecutive])"

definition PARTNER_CATEGORIES :: "partner_category list" where
  "PARTNER_CATEGORIES = [CatGovernment, CatUniversity, CatAssociation, CatSupporter]"

definition partner_list :: "query \<Rightarrow> content \<Rightarrow> public_partner list handled res" where
  "partner_list query ct =
     (let wanted = read_string query ''category''; all = sort_key pt_sortOrder (filter pt_isPublished (ct_partners ct))
      in case wanted of
           None \<Rightarrow> answered (map (to_public_partner ct) all)
         | Some w \<Rightarrow>
             (case List.find (\<lambda>k. partner_category_name k = w) PARTNER_CATEGORIES of
                None \<Rightarrow> fail 400 VALIDATION_FAILED (''Unknown partner category: '' @ w)
              | Some k \<Rightarrow> answered (map (to_public_partner ct) (filter (\<lambda>p. pt_category p = k) all))))"

definition ordered_categories :: "content \<Rightarrow> doc_category list" where
  "ordered_categories ct = sort_key dc_sortOrder (sort_key (\<lambda>c. id_number (dc_id c)) (filter dc_isPublished (ct_docCategories ct)))"

definition ordered_documents :: "string list \<Rightarrow> content \<Rightarrow> safeer_document list" where
  "ordered_documents ids ct =
     sort_key dd_sortOrder (sort_key (\<lambda>d. id_number (dd_id d))
       (filter (\<lambda>d. dd_categoryId d \<in> set ids \<and> dd_isPublished d) (ct_documents ct)))"

definition document_list :: "content \<Rightarrow> (public_doc_category \<times> public_document list) list" where
  "document_list ct =
     (let categories = ordered_categories ct;
          by_category = buckets_of dd_categoryId (ordered_documents (map dc_id categories) ct)
      in if categories = [] then []
         else map (\<lambda>c. (to_public_doc_category c, map (to_public_document ct) (bucket by_category (dc_id c)))) categories)"

text \<open>\<open>GROUP BY category_id\<close> with its counts, and the page's sections with them.\<close>

definition document_counts :: "string list \<Rightarrow> content \<Rightarrow> (string \<times> nat) list" where
  "document_counts ids ct =
     (let docs = filter (\<lambda>d. dd_isPublished d \<and> dd_categoryId d \<in> set ids) (ct_documents ct)
      in map (\<lambda>i. (i, length (filter (\<lambda>d. dd_categoryId d = i) docs))) (remdups (map dd_categoryId docs)))"

definition document_sections :: "content \<Rightarrow> (public_doc_category \<times> nat) list" where
  "document_sections ct =
     (let categories = filter (\<lambda>c. dc_sectionGroup c = SecGovernance) (ordered_categories ct);
          counts = document_counts (map dc_id categories) ct
      in if categories = [] then []
         else map (\<lambda>c. (to_public_doc_category c, case map_of counts (dc_id c) of None \<Rightarrow> 0 | Some n \<Rightarrow> n)) categories)"

definition document_section :: "public_env \<Rightarrow> string \<Rightarrow> content \<Rightarrow> (public_doc_category \<times> public_document list) handled res" where
  "document_section env slug ct =
     (case List.find (\<lambda>c. sc_text (pe_compare env) (dc_slug c) slug \<and> dc_isPublished c) (ct_docCategories ct) of
        None \<Rightarrow> fail 404 NOT_FOUND ''Not found''
      | Some c \<Rightarrow> answered (to_public_doc_category c, map (to_public_document ct) (ordered_documents [dc_id c] ct)))"

definition licence_list :: "content \<Rightarrow> public_licence list" where
  "licence_list ct =
     map (to_public_licence ct)
       (order_desc (\<lambda>l. of_bool (li_isPrimary l) :: nat)
         (sort_key li_sortOrder (sort_key (\<lambda>l. id_number (li_id l)) (filter li_isPublished (ct_licences ct)))))"

record public_testimonials =
  pq_featured :: "public_testimonial list"
  pq_list :: "public_testimonial list"
  pq_themes :: "public_testimonial_theme list"

definition testimonial_list :: "content \<Rightarrow> public_testimonials" where
  "testimonial_list ct =
     (let published = sort_key te_sortOrder (filter (\<lambda>t. te_status t = StatusPublished) (ct_testimonials ct))
      in \<lparr>pq_featured = map to_public_testimonial (filter te_isFeatured published),
          pq_list = map to_public_testimonial published,
          pq_themes = map to_public_testimonial_theme (sort_key tt_sortOrder (ct_themes ct))\<rparr>)"

definition work_area_list :: "content \<Rightarrow> public_work_area list" where
  "work_area_list ct =
     (let areas = sort_key wa_sortOrder (filter wa_isPublished (ct_workAreas ct));
          items = sort_key wi_sortOrder
                    (filter (\<lambda>i. wi_workAreaId i \<in> set (map wa_id areas) \<and> wi_isPublished i) (ct_workAreaItems ct));
          by_area = buckets_of wi_workAreaId items
      in if areas = [] then [] else map (\<lambda>a. to_public_work_area (bucket by_area (wa_id a)) a) areas)"

definition ABOUT_ITEM_KINDS :: "about_kind list" where
  "ABOUT_ITEM_KINDS = [KindVision, KindMission, KindGoal, KindCarePillar]"

text \<open>\<open>split(',')\<close>: a text with n commas has n + 1 parts.\<close>

fun split_commas :: "string \<Rightarrow> string list" where
  "split_commas [] = [[]]"
| "split_commas (c # cs) =
     (if c = CHR '','' then [] # split_commas cs
      else case split_commas cs of [] \<Rightarrow> [[c]] | w # ws \<Rightarrow> (c # w) # ws)"

text \<open>\<open>[...new Set(xs)]\<close> keeps first occurrences.\<close>

definition first_occurrences :: "'a list \<Rightarrow> 'a list" where
  "first_occurrences xs = rev (remdups (rev xs))"

definition kind_named :: "string \<Rightarrow> about_kind option" where
  "kind_named s = List.find (\<lambda>k. about_kind_name k = s) ABOUT_ITEM_KINDS"

definition parse_kinds :: "string option \<Rightarrow> about_kind list res" where
  "parse_kinds raw =
     (case raw of
        None \<Rightarrow> Inr ABOUT_ITEM_KINDS
      | Some s \<Rightarrow>
          if trim s = [] then Inr ABOUT_ITEM_KINDS
          else
            (let kinds = first_occurrences (map trim (split_commas s));
                 unknown = filter (\<lambda>k. kind_named k = None) kinds
             in if unknown \<noteq> [] then fail 400 VALIDATION_FAILED (''Unknown about-item kind: '' @ join_with '', '' unknown)
                else Inr (List.map_filter kind_named kinds)))"

definition about_list :: "public_env \<Rightarrow> query \<Rightarrow> content \<Rightarrow> (string \<times> public_about_item list) list handled res" where
  "about_list env query ct =
     (case parse_kinds (read_string query ''kind'') of
        Inl e \<Rightarrow> Inl e
      | Inr kinds \<Rightarrow>
          (let rows = sort_key ai_sortOrder (sort_key (\<lambda>i. id_number (ai_id i))
                        (filter (\<lambda>i. ai_kind i \<in> set kinds \<and> ai_isPublished i) (ct_aboutItems ct)))
           in answered (map (\<lambda>k. (about_kind_name k, map (to_public_about_item (pe_md env)) (filter (\<lambda>i. ai_kind i = k) rows))) kinds)))"

section \<open>The home page\<close>

definition NEWS_LATEST :: nat where "NEWS_LATEST = 3"
definition TESTIMONIALS_LATEST :: nat where "TESTIMONIALS_LATEST = 2"

record public_home =
  ph_settings :: "public_site_settings option"
  ph_sections :: "public_page_section list"
  ph_goals :: "public_about_item list"
  ph_carePillars :: "public_about_item list"
  ph_stats :: "public_stat list"
  ph_workAreas :: "public_work_area list"
  ph_news :: "public_post_summary list"
  ph_testimonials :: "public_testimonial list"
  ph_partners :: "public_partner list"

definition home_sections :: "public_env \<Rightarrow> content \<Rightarrow> page_section list" where
  "home_sections env ct =
     sort_key ps_sortOrder
       (filter (\<lambda>s. ps_isPublished s \<and> list_ex (\<lambda>p. pa_id p = ps_pageId s \<and> sc_text (pe_compare env) (pa_slug p) ''home'' \<and> pa_isPublished p)
                      (ct_pages ct)) (ct_sections ct))"

definition about_of_kind :: "about_kind \<Rightarrow> content \<Rightarrow> about_item list" where
  "about_of_kind k ct = sort_key ai_sortOrder (filter (\<lambda>i. ai_kind i = k \<and> ai_isPublished i) (ct_aboutItems ct))"

definition get_home :: "public_env \<Rightarrow> content \<Rightarrow> public_home" where
  "get_home env ct =
     \<lparr>ph_settings = map_option to_public_site_settings (ct_settings ct),
      ph_sections = map (to_public_page_section (pe_md env) ct) (home_sections env ct),
      ph_goals = map (to_public_about_item (pe_md env)) (about_of_kind KindGoal ct),
      ph_carePillars = map (to_public_about_item (pe_md env)) (about_of_kind KindCarePillar ct),
      ph_stats = map to_public_stat (sort_key sx_sortOrder (filter sx_isPublished (ct_stats ct))),
      ph_workAreas = work_area_list ct,
      ph_news = map (to_public_post_summary ct) (take NEWS_LATEST (order_desc po_publishedOn (filter po_isPublished (ct_posts ct)))),
      ph_testimonials = map to_public_testimonial (take TESTIMONIALS_LATEST
        (order_desc (\<lambda>t. of_bool (te_isFeatured t) :: nat) (sort_key te_sortOrder
           (filter (\<lambda>t. te_status t = StatusPublished) (ct_testimonials ct))))),
      ph_partners = map (to_public_partner ct) (sort_key pt_sortOrder (filter pt_isPublished (ct_partners ct)))\<rparr>"

section \<open>All public pages\<close>

datatype public_route =
    HomePage
  | SitePage
  | SitemapPage
  | NewsPage query
  | FeaturedPage
  | CategoriesPage
  | PostPage string query
  | ContentPage string
  | BoardPage
  | ChartPage
  | PartnersPage query
  | DocumentsPage
  | SectionsPage
  | SectionPage string
  | LicencesPage
  | TestimonialsPage
  | WorkAreasPage
  | AboutPage query

datatype public_body =
    HomeBody public_home
  | SiteBody public_site
  | SitemapBody sitemap_index
  | NewsBody news_page
  | FeaturedBody "public_post_summary option"
  | CategoriesBody "public_news_category list"
  | PostBody public_post_detail
  | ContentBody public_page
  | BoardBody "(string \<times> public_board_member list) list"
  | ChartBody "org_node list"
  | PartnersBody "public_partner list"
  | DocumentsBody "(public_doc_category \<times> public_document list) list"
  | SectionsBody "(public_doc_category \<times> nat) list"
  | SectionBody "public_doc_category \<times> public_document list"
  | LicencesBody "public_licence list"
  | TestimonialsBody public_testimonials
  | WorkAreasBody "public_work_area list"
  | AboutBody "(string \<times> public_about_item list) list"

definition as_body :: "('a \<Rightarrow> public_body) \<Rightarrow> 'a handled res \<Rightarrow> public_body handled res" where
  "as_body f r =
     (case r of
        Inl e \<Rightarrow> Inl e
      | Inr h \<Rightarrow> Inr \<lparr>hd_body = f (hd_body h), hd_skipCacheWrite = hd_skipCacheWrite h, hd_previewVerified = hd_previewVerified h\<rparr>)"

fun public_answer :: "public_env \<Rightarrow> nat \<Rightarrow> public_route \<Rightarrow> content \<Rightarrow> public_body handled res" where
  "public_answer env now HomePage ct = answered (HomeBody (get_home env ct))"
| "public_answer env now SitePage ct = answered (SiteBody (site_get ct))"
| "public_answer env now SitemapPage ct = answered (SitemapBody (sitemap_get ct))"
| "public_answer env now (NewsPage q) ct = as_body NewsBody (news_list env q ct)"
| "public_answer env now FeaturedPage ct = answered (FeaturedBody (featured ct))"
| "public_answer env now CategoriesPage ct = answered (CategoriesBody (news_categories ct))"
| "public_answer env now (PostPage slug q) ct = as_body PostBody (news_by_slug env now slug q ct)"
| "public_answer env now (ContentPage slug) ct = as_body ContentBody (page_by_slug env slug ct)"
| "public_answer env now BoardPage ct = answered (BoardBody (board_list ct))"
| "public_answer env now ChartPage ct = answered (ChartBody (org_chart (ct_positions ct) (ct_board ct)))"
| "public_answer env now (PartnersPage q) ct = as_body PartnersBody (partner_list q ct)"
| "public_answer env now DocumentsPage ct = answered (DocumentsBody (document_list ct))"
| "public_answer env now SectionsPage ct = answered (SectionsBody (document_sections ct))"
| "public_answer env now (SectionPage slug) ct = as_body SectionBody (document_section env slug ct)"
| "public_answer env now LicencesPage ct = answered (LicencesBody (licence_list ct))"
| "public_answer env now TestimonialsPage ct = answered (TestimonialsBody (testimonial_list ct))"
| "public_answer env now WorkAreasPage ct = answered (WorkAreasBody (work_area_list ct))"
| "public_answer env now (AboutPage q) ct = as_body AboutBody (about_list env q ct)"

text \<open>The tags each route declares with \<open>@CacheTags\<close>.\<close>

fun page_tags :: "public_route \<Rightarrow> string list" where
  "page_tags HomePage = [''home'']"
| "page_tags SitePage = [''site_settings'', ''pages'']"
| "page_tags SitemapPage = [''pages'', ''news'']"
| "page_tags (NewsPage q) = [''news'']"
| "page_tags FeaturedPage = [''news'']"
| "page_tags CategoriesPage = [''news'']"
| "page_tags (PostPage slug q) = [''news'']"
| "page_tags (ContentPage slug) = [''pages'']"
| "page_tags BoardPage = [''board_members'']"
| "page_tags ChartPage = [''org_chart'']"
| "page_tags (PartnersPage q) = [''partners'']"
| "page_tags DocumentsPage = [''documents'']"
| "page_tags SectionsPage = [''documents'']"
| "page_tags (SectionPage slug) = [''documents'']"
| "page_tags LicencesPage = [''licences'']"
| "page_tags TestimonialsPage = [''testimonials'']"
| "page_tags WorkAreasPage = [''work_areas'']"
| "page_tags (AboutPage q) = [''about_items'']"

section \<open>Grouping is filtering\<close>

lemma bucket_Nil [simp]: "bucket [] k = []"
  by (simp add: bucket_def)

lemma add_to_bucket_keys: "distinct (map fst bs) \<Longrightarrow> distinct (map fst (add_to_bucket key x bs))"
proof -
  have "map fst (map (\<lambda>(k, xs). if k = key x then (k, xs @ [x]) else (k, xs)) bs) = map fst bs"
    by (induction bs) auto
  then show "distinct (map fst bs) \<Longrightarrow> distinct (map fst (add_to_bucket key x bs))"
    by (auto simp: add_to_bucket_def simp del: map_map)
qed

lemma bucket_add: "bucket (add_to_bucket key x bs) k = bucket bs k @ (if key x = k then [x] else [])"
proof (cases "key x \<in> fst ` set bs")
  case True
  have "map_of (map (\<lambda>(k, xs). if k = key x then (k, xs @ [x]) else (k, xs)) bs) k
      = map_option (\<lambda>xs. if k = key x then xs @ [x] else xs) (map_of bs k)"
    by (induction bs) auto
  moreover have "map_of bs (key x) \<noteq> None" using True by (simp add: map_of_eq_None_iff)
  ultimately show ?thesis using True by (auto simp: add_to_bucket_def bucket_def split: option.split)
next
  case False
  then have "map_of bs (key x) = None" by (simp add: map_of_eq_None_iff)
  then show ?thesis using False by (auto simp: add_to_bucket_def bucket_def map_add_def split: option.split)
qed

lemma bucket_buckets_of [simp]: "bucket (buckets_of key xs) k = filter (\<lambda>x. key x = k) xs"
proof -
  have "bucket (fold (add_to_bucket key) xs bs) k = bucket bs k @ filter (\<lambda>x. key x = k) xs" for bs
    by (induction xs arbitrary: bs) (auto simp: bucket_add)
  then show ?thesis by (simp add: buckets_of_def)
qed

lemma filter_order_desc: "filter P (order_desc key xs) = order_desc key (filter P xs)"
  by (simp add: order_desc_def filter_sort flip: rev_filter)

section \<open>Drafts\<close>

text \<open>
  What a route may show: the rows an editor has published, and the posts its query holds a
  valid preview token for.
\<close>

fun previewed :: "public_env \<Rightarrow> nat \<Rightarrow> public_route \<Rightarrow> post \<Rightarrow> bool" where
  "previewed env now (PostPage slug q) p = post_preview env now q p"
| "previewed env now _ p = False"

definition visible_part :: "(post \<Rightarrow> bool) \<Rightarrow> content \<Rightarrow> content" where
  "visible_part preview ct =
     ct\<lparr>ct_posts := filter (\<lambda>p. po_isPublished p \<or> preview p) (ct_posts ct), ct_board := filter bm_isPublished (ct_board ct),
        ct_positions := filter op_isPublished (ct_positions ct), ct_partners := filter pt_isPublished (ct_partners ct),
        ct_pages := filter pa_isPublished (ct_pages ct),
        ct_sections := filter (\<lambda>s. ps_isPublished s \<and> ps_pageId s \<in> pa_id ` set (filter pa_isPublished (ct_pages ct))) (ct_sections ct),
        ct_docCategories := filter dc_isPublished (ct_docCategories ct),
        ct_documents := filter (\<lambda>d. dd_isPublished d \<and> dd_categoryId d \<in> dc_id ` set (filter dc_isPublished (ct_docCategories ct))) (ct_documents ct),
        ct_licences := filter li_isPublished (ct_licences ct), ct_stats := filter sx_isPublished (ct_stats ct),
        ct_testimonials := filter (\<lambda>t. te_status t = StatusPublished) (ct_testimonials ct),
        ct_workAreas := filter wa_isPublished (ct_workAreas ct),
        ct_workAreaItems := filter (\<lambda>i. wi_isPublished i \<and> wi_workAreaId i \<in> wa_id ` set (filter wa_isPublished (ct_workAreas ct))) (ct_workAreaItems ct),
        ct_aboutItems := filter ai_isPublished (ct_aboutItems ct)\<rparr>"

lemma visible_frame [simp]:
  "ct_assets (visible_part v ct) = ct_assets ct" "ct_newsCategories (visible_part v ct) = ct_newsCategories ct"
  "ct_themes (visible_part v ct) = ct_themes ct" "ct_settings (visible_part v ct) = ct_settings ct"
  "ct_posts (visible_part v ct) = filter (\<lambda>p. po_isPublished p \<or> v p) (ct_posts ct)"
  "ct_board (visible_part v ct) = filter bm_isPublished (ct_board ct)"
  "ct_positions (visible_part v ct) = filter op_isPublished (ct_positions ct)"
  "ct_partners (visible_part v ct) = filter pt_isPublished (ct_partners ct)"
  "ct_pages (visible_part v ct) = filter pa_isPublished (ct_pages ct)"
  "ct_docCategories (visible_part v ct) = filter dc_isPublished (ct_docCategories ct)"
  "ct_licences (visible_part v ct) = filter li_isPublished (ct_licences ct)"
  "ct_stats (visible_part v ct) = filter sx_isPublished (ct_stats ct)"
  "ct_testimonials (visible_part v ct) = filter (\<lambda>t. te_status t = StatusPublished) (ct_testimonials ct)"
  "ct_workAreas (visible_part v ct) = filter wa_isPublished (ct_workAreas ct)"
  "ct_aboutItems (visible_part v ct) = filter ai_isPublished (ct_aboutItems ct)"
  by (simp_all add: visible_part_def)

lemma asset_of_visible [simp]: "asset_of (visible_part v ct) = asset_of ct"
  by (rule ext) (simp add: asset_of_def split: option.split)

lemma projections_visible [simp]:
  "to_public_post_summary (visible_part v ct) = to_public_post_summary ct"
  "to_public_board_member (visible_part v ct) = to_public_board_member ct"
  "to_public_partner (visible_part v ct) = to_public_partner ct"
  "to_public_page_section md (visible_part v ct) = to_public_page_section md ct"
  "to_public_document (visible_part v ct) = to_public_document ct"
  "to_public_licence (visible_part v ct) = to_public_licence ct"
  "category_of (visible_part v ct) = category_of ct"
  by (rule ext, simp add: to_public_post_summary_def to_public_board_member_def to_public_partner_def
      to_public_page_section_def to_public_document_def to_public_licence_def category_of_def)+

lemma absorbed:
  "(a \<or> b) \<and> a \<longleftrightarrow> a" "(a \<or> b) \<and> a \<and> c \<longleftrightarrow> a \<and> c" "(a \<or> b) \<and> c \<and> a \<longleftrightarrow> c \<and> a" "a \<and> c \<and> a \<longleftrightarrow> c \<and> a"
  by auto

lemma work_area_list_visible: "work_area_list (visible_part v ct) = work_area_list ct"
proof -
  let ?areas = "sort_key wa_sortOrder (filter wa_isPublished (ct_workAreas ct))"
  have "filter (\<lambda>i. wi_workAreaId i \<in> set (map wa_id ?areas) \<and> wi_isPublished i) (ct_workAreaItems (visible_part v ct))
      = filter (\<lambda>i. wi_workAreaId i \<in> set (map wa_id ?areas) \<and> wi_isPublished i) (ct_workAreaItems ct)"
    by (auto simp: visible_part_def intro!: filter_cong)
  then show ?thesis unfolding work_area_list_def visible_frame filter_filter conj_absorb Let_def by (simp only:)
qed

lemma ordered_documents_visible:
  "set ids \<subseteq> dc_id ` set (filter dc_isPublished (ct_docCategories ct)) \<Longrightarrow>
    ordered_documents ids (visible_part v ct) = ordered_documents ids ct"
  by (auto simp: ordered_documents_def visible_part_def intro!: arg_cong [where f = "sort_key dd_sortOrder"]
      arg_cong [where f = "sort_key (\<lambda>d. id_number (dd_id d))"] filter_cong)

lemma sections_visible:
  "pa_isPublished p \<Longrightarrow> p \<in> set (ct_pages ct) \<Longrightarrow>
    filter (\<lambda>s. ps_pageId s = pa_id p \<and> ps_isPublished s) (ct_sections (visible_part v ct))
      = filter (\<lambda>s. ps_pageId s = pa_id p \<and> ps_isPublished s) (ct_sections ct)"
  by (auto simp: visible_part_def intro!: filter_cong)

lemma home_sections_visible: "home_sections env (visible_part v ct) = home_sections env ct"
proof -
  have ex: "list_ex (\<lambda>p. pa_id p = i \<and> Q p \<and> pa_isPublished p) (filter pa_isPublished (ct_pages ct))
      = list_ex (\<lambda>p. pa_id p = i \<and> Q p \<and> pa_isPublished p) (ct_pages ct)" for i Q
    by (auto simp: list_ex_iff)
  have "list_ex (\<lambda>p. pa_id p = ps_pageId s \<and> Q p \<and> pa_isPublished p) (ct_pages ct) \<Longrightarrow>
      ps_pageId s \<in> pa_id ` {p \<in> set (ct_pages ct). pa_isPublished p}" for s Q
    by (force simp: list_ex_iff image_iff)
  then show ?thesis
    by (auto simp: home_sections_def visible_part_def ex intro!: arg_cong [where f = "sort_key ps_sortOrder"] filter_cong)
qed

lemma get_home_visible: "get_home env (visible_part v ct) = get_home env ct"
  by (simp add: get_home_def home_sections_visible work_area_list_visible about_of_kind_def absorbed)

lemma find_filter: "List.find P (filter Q xs) = List.find (\<lambda>x. P x \<and> Q x) xs"
  by (induction xs) auto

lemma news_list_visible: "news_list env q (visible_part v ct) = news_list env q ct"
  unfolding news_list_def projections_visible visible_frame filter_filter absorbed by (simp only:)

lemma document_list_visible:
  "document_list (visible_part v ct) = document_list ct" "document_sections (visible_part v ct) = document_sections ct"
proof -
  have cats: "ordered_categories (visible_part v ct) = ordered_categories ct"
    by (simp add: ordered_categories_def)
  have "ordered_documents (map dc_id (ordered_categories ct)) (visible_part v ct) = ordered_documents (map dc_id (ordered_categories ct)) ct"
    by (rule ordered_documents_visible) (auto simp: ordered_categories_def)
  then show "document_list (visible_part v ct) = document_list ct"
    by (simp add: document_list_def cats Let_def)
  have "filter (\<lambda>d. dd_isPublished d \<and> dd_categoryId d \<in> set (map dc_id (filter P (ordered_categories ct)))) (ct_documents (visible_part v ct))
      = filter (\<lambda>d. dd_isPublished d \<and> dd_categoryId d \<in> set (map dc_id (filter P (ordered_categories ct)))) (ct_documents ct)" for P
    by (auto simp: visible_part_def ordered_categories_def intro!: filter_cong)
  then show "document_sections (visible_part v ct) = document_sections ct"
    unfolding document_sections_def document_counts_def cats Let_def by (simp only:)
qed

lemma document_section_visible: "document_section env slug (visible_part v ct) = document_section env slug ct"
proof -
  have "List.find (\<lambda>c. sc_text (pe_compare env) (dc_slug c) slug \<and> dc_isPublished c) (filter dc_isPublished (ct_docCategories ct))
      = List.find (\<lambda>c. sc_text (pe_compare env) (dc_slug c) slug \<and> dc_isPublished c) (ct_docCategories ct)"
    by (simp add: find_filter)
  moreover have "ordered_documents [dc_id c] (visible_part v ct) = ordered_documents [dc_id c] ct"
    if "List.find (\<lambda>c. sc_text (pe_compare env) (dc_slug c) slug \<and> dc_isPublished c) (ct_docCategories ct) = Some c" for c
    using find_SomeD [OF that] by (intro ordered_documents_visible) auto
  ultimately show ?thesis
    by (simp add: document_section_def split: option.split)
qed

lemma page_by_slug_visible: "page_by_slug env slug (visible_part v ct) = page_by_slug env slug ct"
proof -
  have "List.find (\<lambda>p. sc_text (pe_compare env) (pa_slug p) slug \<and> pa_isPublished p) (filter pa_isPublished (ct_pages ct))
      = List.find (\<lambda>p. sc_text (pe_compare env) (pa_slug p) slug \<and> pa_isPublished p) (ct_pages ct)"
    by (simp add: find_filter)
  moreover have "filter (\<lambda>s. ps_pageId s = pa_id p \<and> ps_isPublished s) (ct_sections (visible_part v ct))
      = filter (\<lambda>s. ps_pageId s = pa_id p \<and> ps_isPublished s) (ct_sections ct)"
    if "List.find (\<lambda>p. sc_text (pe_compare env) (pa_slug p) slug \<and> pa_isPublished p) (ct_pages ct) = Some p" for p
    using find_SomeD [OF that] by (intro sections_visible) auto
  ultimately show ?thesis
    by (simp add: page_by_slug_def to_public_page_def split: option.split)
qed

text \<open>A slug names one post: the unique key of the table.\<close>

definition slugs_unique :: "sql_compare \<Rightarrow> post list \<Rightarrow> bool" where
  "slugs_unique c ps \<longleftrightarrow> (\<forall>p \<in> set ps. \<forall>q \<in> set ps. \<forall>s. sc_text c (po_slug p) s \<and> sc_text c (po_slug q) s \<longrightarrow> p = q)"

lemma find_unique_filter:
  assumes "\<And>x y. x \<in> set xs \<Longrightarrow> y \<in> set xs \<Longrightarrow> P x \<Longrightarrow> P y \<Longrightarrow> x = y"
  shows "List.find P (filter Q xs) = (case List.find P xs of None \<Rightarrow> None | Some x \<Rightarrow> if Q x then Some x else None)"
  using assms
proof (induction xs)
  case (Cons x xs)
  show ?case
  proof (cases "P x")
    case True
    have "\<not> Q x \<Longrightarrow> List.find P (filter Q xs) = None"
      using Cons.prems [of x] True by (force simp: find_None_iff)
    then show ?thesis using True by simp
  next
    case False
    then show ?thesis using Cons by simp
  qed
qed simp

lemma news_by_slug_visible:
  assumes "slugs_unique (pe_compare env) (ct_posts ct)"
  shows "news_by_slug env now slug q (visible_part (post_preview env now q) ct) = news_by_slug env now slug q ct"
proof -
  have find: "List.find (\<lambda>p. sc_text (pe_compare env) (po_slug p) slug) (filter (\<lambda>p. po_isPublished p \<or> post_preview env now q p) (ct_posts ct))
      = (case List.find (\<lambda>p. sc_text (pe_compare env) (po_slug p) slug) (ct_posts ct) of None \<Rightarrow> None
         | Some p \<Rightarrow> if po_isPublished p \<or> post_preview env now q p then Some p else None)"
    using assms unfolding slugs_unique_def by (intro find_unique_filter) blast
  have "related_posts p (visible_part (post_preview env now q) ct) = related_posts p ct" for p
    unfolding related_posts_def visible_frame filter_filter absorbed by (simp only:)
  then show ?thesis
    unfolding news_by_slug_def visible_frame find to_public_post_detail_def projections_visible
    by (cases "List.find (\<lambda>p. sc_text (pe_compare env) (po_slug p) slug) (ct_posts ct)") (auto simp: Let_def)
qed

text \<open>
  C7: nothing an editor has not published reaches a visitor. Every public page, errors
  and cache directives included, is what it would be if the tables held only published rows
  below published parents, save the one post the query's own preview token unlocks.
\<close>

theorem drafts_stay_invisible:
  assumes "slugs_unique (pe_compare env) (ct_posts ct)"
  shows "public_answer env now r ct = public_answer env now r (visible_part (previewed env now r) ct)"
proof (cases r)
  case (PostPage slug q)
  have "previewed env now (PostPage slug q) = post_preview env now q" by (rule ext) simp
  then show ?thesis using PostPage news_by_slug_visible [OF assms, of now slug q] by simp
next
  case (NewsPage q)
  then show ?thesis by (simp add: news_list_visible)
next
  case (ContentPage slug)
  then show ?thesis by (simp add: page_by_slug_visible)
next
  case (SectionPage slug)
  then show ?thesis by (simp add: document_section_visible)
next
  case (PartnersPage q)
  then show ?thesis by (simp add: partner_list_def Let_def split: option.split)
next
  case (AboutPage q)
  then show ?thesis by (simp add: about_list_def absorbed split: sum.split)
next
  case WorkAreasPage
  then show ?thesis by (simp add: work_area_list_visible)
next
  case HomePage
  then show ?thesis by (simp add: get_home_visible)
qed (simp_all add: document_list_visible site_get_def site_nav_def sitemap_get_def featured_def news_categories_def board_list_def
    org_chart_def licence_list_def testimonial_list_def absorbed conj_assoc split: list.split)

section \<open>Witness\<close>

definition plain_public :: public_env where
  "plain_public = \<lparr>pe_compare = exact_compare, pe_char = (=), pe_md = id, pe_auth = open_env, pe_number = digits_number\<rparr>"

definition draft_content :: content where
  "draft_content = no_content\<lparr>ct_posts :=
     [(blank_post ''5'' 0)\<lparr>po_slug := ''s'', po_isPublished := True\<rparr>, (blank_post ''6'' 0)\<lparr>po_slug := ''draft''\<rparr>]\<rparr>"

theorem drafts_stay_invisible_witness:
  "public_answer plain_public 0 FeaturedPage draft_content
    = public_answer plain_public 0 FeaturedPage (visible_part (previewed plain_public 0 FeaturedPage) draft_content)"
  by (rule drafts_stay_invisible)
     (auto simp: slugs_unique_def plain_public_def exact_compare_def draft_content_def blank_post_def)

end
