(* ===== verification/ContentWrites.thy ===== *)
theory ContentWrites
  imports MediaGate PublicRoutes Inbox
begin

text \<open>
  The admin writes that can change a public page, with the cache tags their handlers purge, and
  the contract between the two: a page none of whose tags is purged reads the same before and
  after. With the cache of \<open>CacheHttp\<close> that makes every cached page current.
\<close>

section \<open>Handlers beside the kernel\<close>

text \<open>\<open>board/admin-board.controller.ts\<close>: the position a member names must exist.\<close>

definition validate_position :: "sql_compare \<Rightarrow> org_position list \<Rightarrow> string option \<Rightarrow> unit res" where
  "validate_position c positions wanted =
     (case wanted of
        None \<Rightarrow> Inr ()
      | Some i \<Rightarrow>
          if i = [] then Inr ()
          else if list_ex (\<lambda>p. sc_id c (op_id p) i) positions then Inr ()
          else fail_with 400 VALIDATION_FAILED ''The org-chart position does not exist'' [(''field'', JStr ''orgPositionId'')])"

definition board_create ::
  "sql_compare \<Rightarrow> org_position list \<Rightarrow> string option \<Rightarrow> string list \<Rightarrow> board_member \<Rightarrow> board_member crud_db
     \<Rightarrow> (board_member, board_member with_warnings) handler_result" where
  "board_create c positions wanted ids e db =
     (case validate_position c positions wanted of
        Inl x \<Rightarrow> (Inl x, db, None, [])
      | Inr _ \<Rightarrow> crud_create (board_member_options c (\<lambda>_. False)) (sc_id c) (sc_text c) ids e db)"

definition board_update ::
  "sql_compare \<Rightarrow> org_position list \<Rightarrow> string option \<Rightarrow> string \<Rightarrow> string list \<Rightarrow> string \<Rightarrow> (board_member \<Rightarrow> board_member)
     \<Rightarrow> board_member crud_db \<Rightarrow> (board_member, board_member with_warnings) handler_result" where
  "board_update c positions wanted rid ids i f db =
     (case validate_position c positions wanted of
        Inl x \<Rightarrow> (Inl x, db, None, [])
      | Inr _ \<Rightarrow> crud_update (board_member_options c (\<lambda>_. False)) (sc_id c) (sc_text c) rid ids i f db)"

text \<open>\<open>testimonials/admin-testimonials.controller.ts\<close>: moderation by status, and featuring.\<close>

definition change_testimonial ::
  "sql_compare \<Rightarrow> string \<Rightarrow> (testimonial \<Rightarrow> testimonial) \<Rightarrow> testimonial list \<Rightarrow> testimonial res \<times> testimonial list \<times> string list" where
  "change_testimonial c i f ts =
     (case List.find (\<lambda>t. sc_id c (te_id t) i) ts of
        None \<Rightarrow> (fail 404 NOT_FOUND ''Not found'', ts, [])
      | Some t \<Rightarrow> (Inr (f t), update_rows (\<lambda>r. te_id r = te_id t) (\<lambda>_. f t) ts,
                  purge_list (testimonial_options c (\<lambda>_. False))))"

definition set_testimonial_status :: "sql_compare \<Rightarrow> string \<Rightarrow> testimonial_status \<Rightarrow> testimonial list \<Rightarrow> testimonial res \<times> testimonial list \<times> string list" where
  "set_testimonial_status c i s = change_testimonial c i (\<lambda>t. t\<lparr>te_status := s\<rparr>)"

definition set_testimonial_feature :: "sql_compare \<Rightarrow> string \<Rightarrow> bool \<Rightarrow> testimonial list \<Rightarrow> testimonial res \<times> testimonial list \<times> string list" where
  "set_testimonial_feature c i b = change_testimonial c i (\<lambda>t. t\<lparr>te_isFeatured := b\<rparr>)"

text \<open>\<open>media/media.controller.ts\<close>: \<open>PATCH :id\<close>.\<close>

definition alt_text_route ::
  "(string \<Rightarrow> string \<Rightarrow> bool) \<Rightarrow> string \<Rightarrow> string \<Rightarrow> string option \<Rightarrow> media_lib \<Rightarrow> media_asset res \<times> media_lib \<times> string list" where
  "alt_text_route id_eq i alt_ar alt_en lib =
     (case set_alt_text id_eq i alt_ar alt_en lib of
        (Inl e, lib') \<Rightarrow> (Inl e, lib', [])
      | (Inr a, lib') \<Rightarrow> (Inr a, lib', ASSET_PUBLIC_MEMO_TAGS))"

text \<open>\<open>org-chart/admin-org-positions.controller.ts\<close>: its five handlers as requests.\<close>

datatype org_request =
    CreatePosition time string position_dto
  | UpdatePosition string position_dto
  | RemovePosition string
  | PublishPosition string "bool option"
  | ReorderPositions "(string \<times> int) list"

fun org_handle :: "sql_compare \<Rightarrow> board_member list \<Rightarrow> org_request \<Rightarrow> org_position crud_db \<Rightarrow> org_position list \<times> string list" where
  "org_handle c ms (CreatePosition now i d) db = (case create_position c now i d (cd_rows db) of (_, ps, _, ts) \<Rightarrow> (ps, ts))"
| "org_handle c ms (UpdatePosition i d) db = (case update_position c i d (cd_rows db) of (_, ps, _, ts) \<Rightarrow> (ps, ts))"
| "org_handle c ms (RemovePosition i) db = (case remove_position c i ms (cd_rows db) of (_, ps, _, ts) \<Rightarrow> (ps, ts))"
| "org_handle c ms (PublishPosition i b) db =
     (case crud_handle (org_position_options c (\<lambda>_. False)) c (PublishRow i b) db of (db', ts) \<Rightarrow> (cd_rows db', ts))"
| "org_handle c ms (ReorderPositions items) db =
     (case crud_handle (org_position_options c (\<lambda>_. False)) c (ReorderRows items) db of (db', ts) \<Rightarrow> (cd_rows db', ts))"

section \<open>Committed writes\<close>

definition items_left :: "work_area list \<Rightarrow> work_area list \<Rightarrow> work_area_item list \<Rightarrow> work_area_item list" where
  "items_left old new is = filter (\<lambda>i. wi_workAreaId i \<in> wa_id ` set new \<or> wi_workAreaId i \<notin> wa_id ` set old) is"

text \<open>
  One write: the tables after it and the tags its handler purges. Pages take their sections with
  them and work areas their items (\<open>ON DELETE CASCADE\<close>); \<open>db\<close> lends the tables of redirects and
  of image texts the kernel also looks at.
\<close>

inductive content_write :: "sql_compare \<Rightarrow> content \<Rightarrow> content \<Rightarrow> string list \<Rightarrow> bool" for c where
  categories: "crud_handle (news_category_options c refd) c rq (db\<lparr>cd_rows := ct_newsCategories ct\<rparr>) = (db', ts) \<Longrightarrow>
    content_write c ct (ct\<lparr>ct_newsCategories := cd_rows db'\<rparr>) ts"
| posts: "post_handle c prq (db\<lparr>cd_rows := ct_posts ct\<rparr>) = (db', ts) \<Longrightarrow>
    content_write c ct (ct\<lparr>ct_posts := cd_rows db'\<rparr>) ts"
| member_created: "board_create c (ct_positions ct) w ids e (db\<lparr>cd_rows := ct_board ct\<rparr>) = (r, db', au, ts) \<Longrightarrow>
    content_write c ct (ct\<lparr>ct_board := cd_rows db'\<rparr>) ts"
| member_updated: "board_update c (ct_positions ct) w rid ids i f (db\<lparr>cd_rows := ct_board ct\<rparr>) = (r, db', au, ts) \<Longrightarrow>
    content_write c ct (ct\<lparr>ct_board := cd_rows db'\<rparr>) ts"
| members: "crud_handle (board_member_options c refd) c rq (db\<lparr>cd_rows := ct_board ct\<rparr>) = (db', ts) \<Longrightarrow>
    content_write c ct (ct\<lparr>ct_board := cd_rows db'\<rparr>) ts"
| positions: "org_handle c (ct_board ct) orq (db\<lparr>cd_rows := ct_positions ct\<rparr>) = (ps, ts) \<Longrightarrow>
    content_write c ct (ct\<lparr>ct_positions := ps\<rparr>) ts"
| partners: "crud_handle (partner_options c refd) c rq (db\<lparr>cd_rows := ct_partners ct\<rparr>) = (db', ts) \<Longrightarrow>
    content_write c ct (ct\<lparr>ct_partners := cd_rows db'\<rparr>) ts"
| pages: "crud_handle (page_options c refd enrich) c rq (db\<lparr>cd_rows := ct_pages ct\<rparr>) = (db', ts) \<Longrightarrow>
    content_write c ct (ct\<lparr>ct_pages := cd_rows db', ct_sections := sections_left (ct_pages ct) (cd_rows db') (ct_sections ct)\<rparr>) ts"
| sections: "crud_handle (page_section_options c refd) c rq (db\<lparr>cd_rows := ct_sections ct\<rparr>) = (db', ts) \<Longrightarrow>
    content_write c ct (ct\<lparr>ct_sections := cd_rows db'\<rparr>) ts"
| doc_categories: "crud_handle (doc_category_options c refd) c rq (db\<lparr>cd_rows := ct_docCategories ct\<rparr>) = (db', ts) \<Longrightarrow>
    content_write c ct (ct\<lparr>ct_docCategories := cd_rows db'\<rparr>) ts"
| documents: "crud_handle (safeer_document_options c refd) c rq (db\<lparr>cd_rows := ct_documents ct\<rparr>) = (db', ts) \<Longrightarrow>
    content_write c ct (ct\<lparr>ct_documents := cd_rows db'\<rparr>) ts"
| licences: "licence_handle c lop ldb = (ldb', ts) \<Longrightarrow> ld_licences ldb = ct_licences ct \<Longrightarrow> ct_settings ct = Some (ld_settings ldb) \<Longrightarrow>
    content_write c ct (ct\<lparr>ct_licences := ld_licences ldb', ct_settings := Some (ld_settings ldb')\<rparr>) ts"
| stats: "crud_handle (stat_options c refd) c rq (db\<lparr>cd_rows := ct_stats ct\<rparr>) = (db', ts) \<Longrightarrow>
    content_write c ct (ct\<lparr>ct_stats := cd_rows db'\<rparr>) ts"
| testimonials: "crud_handle (testimonial_options c refd) c rq (db\<lparr>cd_rows := ct_testimonials ct\<rparr>) = (db', ts) \<Longrightarrow>
    content_write c ct (ct\<lparr>ct_testimonials := cd_rows db'\<rparr>) ts"
| moderated: "change_testimonial c i f (ct_testimonials ct) = (r, rows, ts) \<Longrightarrow>
    content_write c ct (ct\<lparr>ct_testimonials := rows\<rparr>) ts"
| converted: "convert_to_testimonial env now new_id i d ib = (r, ib', ts) \<Longrightarrow> ib_testimonials ib = ct_testimonials ct \<Longrightarrow>
    content_write c ct (ct\<lparr>ct_testimonials := ib_testimonials ib'\<rparr>) ts"
| themes: "crud_handle (testimonial_theme_options c refd) c rq (db\<lparr>cd_rows := ct_themes ct\<rparr>) = (db', ts) \<Longrightarrow>
    content_write c ct (ct\<lparr>ct_themes := cd_rows db'\<rparr>) ts"
| work_areas: "crud_handle (work_area_options c refd) c rq (db\<lparr>cd_rows := ct_workAreas ct\<rparr>) = (db', ts) \<Longrightarrow>
    content_write c ct (ct\<lparr>ct_workAreas := cd_rows db', ct_workAreaItems := items_left (ct_workAreas ct) (cd_rows db') (ct_workAreaItems ct)\<rparr>) ts"
| work_area_items: "crud_handle (work_area_item_options c refd) c rq (db\<lparr>cd_rows := ct_workAreaItems ct\<rparr>) = (db', ts) \<Longrightarrow>
    content_write c ct (ct\<lparr>ct_workAreaItems := cd_rows db'\<rparr>) ts"
| about_items: "crud_handle (about_item_options c refd) c rq (db\<lparr>cd_rows := ct_aboutItems ct\<rparr>) = (db', ts) \<Longrightarrow>
    content_write c ct (ct\<lparr>ct_aboutItems := cd_rows db'\<rparr>) ts"
| alt_texts: "alt_text_route (sc_id c) i ar en lib = (r, lib', ts) \<Longrightarrow> lb_assets lib = ct_assets ct \<Longrightarrow>
    content_write c ct (ct\<lparr>ct_assets := lb_assets lib'\<rparr>) ts"
| downloaded: "ow_documents ow = ct_documents ct \<Longrightarrow>
    content_write c ct (ct\<lparr>ct_documents := ow_documents (increment_download_count text_eq lib pid ow)\<rparr>) []"

section \<open>What a page reads\<close>

fun same_reads :: "public_route \<Rightarrow> content \<Rightarrow> content \<Rightarrow> bool" where
  "same_reads HomePage a b \<longleftrightarrow> ct_settings a = ct_settings b \<and> ct_sections a = ct_sections b \<and> ct_pages a = ct_pages b
     \<and> ct_assets a = ct_assets b \<and> ct_aboutItems a = ct_aboutItems b \<and> ct_stats a = ct_stats b \<and> ct_workAreas a = ct_workAreas b
     \<and> ct_workAreaItems a = ct_workAreaItems b \<and> ct_posts a = ct_posts b \<and> ct_newsCategories a = ct_newsCategories b
     \<and> ct_testimonials a = ct_testimonials b \<and> ct_partners a = ct_partners b"
| "same_reads SitePage a b \<longleftrightarrow> ct_settings a = ct_settings b \<and> ct_pages a = ct_pages b"
| "same_reads SitemapPage a b \<longleftrightarrow> ct_pages a = ct_pages b \<and> ct_posts a = ct_posts b \<and> ct_newsCategories a = ct_newsCategories b"
| "same_reads (NewsPage q) a b \<longleftrightarrow> ct_posts a = ct_posts b \<and> ct_newsCategories a = ct_newsCategories b \<and> ct_assets a = ct_assets b"
| "same_reads FeaturedPage a b \<longleftrightarrow> ct_posts a = ct_posts b \<and> ct_newsCategories a = ct_newsCategories b \<and> ct_assets a = ct_assets b"
| "same_reads CategoriesPage a b \<longleftrightarrow> ct_newsCategories a = ct_newsCategories b"
| "same_reads (PostPage s q) a b \<longleftrightarrow> ct_posts a = ct_posts b \<and> ct_newsCategories a = ct_newsCategories b \<and> ct_assets a = ct_assets b"
| "same_reads (ContentPage s) a b \<longleftrightarrow> ct_pages a = ct_pages b \<and> ct_sections a = ct_sections b \<and> ct_assets a = ct_assets b"
| "same_reads BoardPage a b \<longleftrightarrow> ct_board a = ct_board b \<and> ct_assets a = ct_assets b"
| "same_reads ChartPage a b \<longleftrightarrow> ct_positions a = ct_positions b \<and> ct_board a = ct_board b"
| "same_reads (PartnersPage q) a b \<longleftrightarrow> ct_partners a = ct_partners b \<and> ct_assets a = ct_assets b"
| "same_reads DocumentsPage a b \<longleftrightarrow> ct_docCategories a = ct_docCategories b \<and> ct_documents a = ct_documents b \<and> ct_assets a = ct_assets b"
| "same_reads SectionsPage a b \<longleftrightarrow> ct_docCategories a = ct_docCategories b \<and> ct_documents a = ct_documents b"
| "same_reads (SectionPage s) a b \<longleftrightarrow> ct_docCategories a = ct_docCategories b \<and> ct_documents a = ct_documents b \<and> ct_assets a = ct_assets b"
| "same_reads LicencesPage a b \<longleftrightarrow> ct_licences a = ct_licences b \<and> ct_assets a = ct_assets b"
| "same_reads TestimonialsPage a b \<longleftrightarrow> ct_testimonials a = ct_testimonials b \<and> ct_themes a = ct_themes b"
| "same_reads WorkAreasPage a b \<longleftrightarrow> ct_workAreas a = ct_workAreas b \<and> ct_workAreaItems a = ct_workAreaItems b"
| "same_reads (AboutPage q) a b \<longleftrightarrow> ct_aboutItems a = ct_aboutItems b"

lemma same_assets:
  assumes "ct_assets a = ct_assets b"
  shows "asset_of a = asset_of b" "to_public_board_member a = to_public_board_member b" "to_public_partner a = to_public_partner b"
    "to_public_page_section md a = to_public_page_section md b" "to_public_document a = to_public_document b"
    "to_public_licence a = to_public_licence b"
proof -
  show asset: "asset_of a = asset_of b" using assms by (intro ext) (simp add: asset_of_def split: option.split)
  show "to_public_board_member a = to_public_board_member b" "to_public_partner a = to_public_partner b"
    "to_public_page_section md a = to_public_page_section md b" "to_public_document a = to_public_document b"
    "to_public_licence a = to_public_licence b"
    by (rule ext, simp add: asset to_public_board_member_def to_public_partner_def to_public_page_section_def
        to_public_document_def to_public_licence_def)+
qed

lemma same_summaries:
  assumes "ct_assets a = ct_assets b" "ct_newsCategories a = ct_newsCategories b"
  shows "to_public_post_summary a = to_public_post_summary b" "category_of a = category_of b"
  by (rule ext, simp add: same_assets(1) [OF assms(1)] assms(2) to_public_post_summary_def category_of_def)+

lemma page_reads:
  assumes "same_reads r a b"
  shows "public_answer env now r a = public_answer env now r b"
proof (cases r)
  case HomePage
  then show ?thesis
    using assms same_assets [of a b] same_summaries [of a b]
    by (simp add: get_home_def home_sections_def work_area_list_def about_of_kind_def)
next
  case (NewsPage q)
  then show ?thesis using assms same_summaries [of a b] by (simp add: news_list_def cong: if_cong)
next
  case (PostPage slug q)
  then have same: "ct_posts a = ct_posts b" "to_public_post_summary a = to_public_post_summary b"
    using assms same_summaries [of a b] by simp_all
  have detail: "to_public_post_detail a = to_public_post_detail b"
    by (intro ext) (simp add: to_public_post_detail_def same)
  have related: "related_posts p a = related_posts p b" for p by (simp add: related_posts_def same)
  show ?thesis unfolding PostPage public_answer.simps news_by_slug_def detail related same(1) ..
next
  case (ContentPage slug)
  then show ?thesis using assms same_assets [of a b] by (simp add: page_by_slug_def to_public_page_def split: option.split)
next
  case FeaturedPage
  then show ?thesis using assms same_summaries [of a b] by (simp add: featured_def split: list.split)
next
  case DocumentsPage
  then show ?thesis using assms same_assets [of a b] by (simp add: document_list_def ordered_categories_def ordered_documents_def cong: if_cong)
next
  case SectionsPage
  then show ?thesis using assms by (simp add: document_sections_def ordered_categories_def document_counts_def)
next
  case (SectionPage slug)
  then show ?thesis using assms same_assets [of a b] by (simp add: document_section_def ordered_documents_def split: option.split)
next
  case (PartnersPage q)
  then show ?thesis using assms same_assets [of a b] by (simp add: partner_list_def Let_def split: option.split)
next
  case LicencesPage
  then show ?thesis using assms same_assets [of a b] by (simp add: licence_list_def)
next
  case BoardPage
  then show ?thesis using assms same_assets [of a b] by (simp add: board_list_def)
next
  case (AboutPage q)
  then show ?thesis using assms by (simp add: about_list_def split: sum.split)
qed (use assms in \<open>simp_all add: site_get_def site_nav_def sitemap_get_def news_categories_def testimonial_list_def
    work_area_list_def\<close>)

section \<open>The download counter\<close>

definition counted :: "(safeer_document \<Rightarrow> bool) \<Rightarrow> safeer_document \<Rightarrow> safeer_document" where
  "counted P d = (if P d then d\<lparr>dd_downloadCount := dd_downloadCount d + 1\<rparr> else d)"

lemma counted_fields [simp]:
  "dd_id (counted P d) = dd_id d" "dd_categoryId (counted P d) = dd_categoryId d" "dd_isPublished (counted P d) = dd_isPublished d"
  "dd_sortOrder (counted P d) = dd_sortOrder d" "to_public_document ct (counted P d) = to_public_document ct d"
  by (simp_all add: counted_def to_public_document_def)

lemma count_pages:
  "public_answer env now r (ct\<lparr>ct_documents := map (counted P) (ct_documents ct)\<rparr>) = public_answer env now r ct"
    (is "public_answer env now r ?ct = _")
proof -
  have docs: "ordered_documents is ?ct = map (counted P) (ordered_documents is ct)" for "is"
    by (simp add: ordered_documents_def filter_map comp_def sort_key_map)
  have proj: "to_public_document ?ct = to_public_document ct" by (rule same_assets(5)) simp
  have shown: "map (to_public_document ct) (map (counted P) ds) = map (to_public_document ct) ds" for ds by simp
  have cats: "ordered_categories ?ct = ordered_categories ct" by (simp add: ordered_categories_def)
  show ?thesis
  proof (cases r)
    case DocumentsPage
    then show ?thesis by (simp add: document_list_def Let_def docs proj cats filter_map comp_def)
  next
    case SectionsPage
    have "document_counts is ?ct = document_counts is ct" for "is"
      by (simp add: document_counts_def Let_def filter_map comp_def)
    then show ?thesis using SectionsPage by (simp add: document_sections_def cats)
  next
    case (SectionPage slug)
    then show ?thesis by (simp add: document_section_def docs proj comp_def split: option.split)
  qed (rule page_reads; simp)+
qed

section \<open>What a write purges\<close>

lemma licence_handle_tags:
  assumes "licence_handle c op db = (db', ts)"
  shows "(ld_settings db' = ld_settings db \<and> ld_licences db' = ld_licences db) \<or> {''site_settings'', ''home'', ''licences''} \<subseteq> set ts
    \<or> (ld_licences db' = ld_licences db \<and> {''site_settings'', ''home''} \<subseteq> set ts)"
proof (cases op)
  case (LicenceCreate i now d)
  then show ?thesis using assms by (auto simp: create_licence_def licence_purge_def Let_def split: sum.splits)
next
  case (LicenceUpdate i d)
  then show ?thesis using assms by (auto simp: update_licence_def licence_purge_def Let_def split: sum.splits)
next
  case (LicencePublish i b)
  then show ?thesis using assms by (auto simp: publish_licence_def licence_purge_def Let_def split: sum.splits)
next
  case (LicencePrimary i)
  then show ?thesis using assms by (auto simp: make_primary_def licence_purge_def Let_def split: sum.splits)
next
  case (LicenceRemove i)
  then show ?thesis using assms by (auto simp: remove_licence_def licence_purge_def Let_def split: sum.splits)
next
  case (LicenceReorder items)
  then show ?thesis
    using assms by (auto simp: reorder_licences_def crud_reorder_def purge_list_def licence_options_def Let_def split: prod.splits)
next
  case (SettingsPut user d)
  then show ?thesis using assms by (auto simp: update_site_settings_def settings_save_def Let_def)
qed

lemma org_handle_tags:
  assumes "org_handle c ms rq (db\<lparr>cd_rows := rows\<rparr>) = (ps, ts)"
  shows "ps = rows \<or> ''org_chart'' \<in> set ts"
proof -
  have chart: "''org_chart'' \<in> set (purge_list (org_position_options c (\<lambda>_. False)))"
    by (simp add: purge_list_def org_position_options_def)
  show ?thesis
  proof (cases rq)
  case (CreatePosition now i d)
  then show ?thesis using assms by (auto simp: create_position_def org_purges_def Let_def split: sum.splits)
next
  case (UpdatePosition i d)
  then show ?thesis using assms by (auto simp: update_position_def org_purges_def Let_def split: sum.splits option.splits if_splits)
next
  case (RemovePosition i)
  then show ?thesis using assms by (auto simp: remove_position_def org_purges_def Let_def split: option.splits if_splits)
next
  case (PublishPosition i b)
  then obtain db' where e: "crud_handle (org_position_options c (\<lambda>_. False)) c (PublishRow i b) (db\<lparr>cd_rows := rows\<rparr>) = (db', ts)" "ps = cd_rows db'"
    using assms by (auto split: prod.splits)
  then show ?thesis using crud_changes_purged [OF e(1) chart] by simp
next
  case (ReorderPositions items)
  then obtain db' where e: "crud_handle (org_position_options c (\<lambda>_. False)) c (ReorderRows items) (db\<lparr>cd_rows := rows\<rparr>) = (db', ts)" "ps = cd_rows db'"
    using assms by (auto split: prod.splits)
  then show ?thesis using crud_changes_purged [OF e(1) chart] by simp
qed
qed

lemma board_handler_tags:
  "board_create c ps w ids e (db\<lparr>cd_rows := rows\<rparr>) = (r, db', au, ts) \<Longrightarrow>
    cd_rows db' = rows \<or> {''board_members'', ''home'', ''org_chart''} \<subseteq> set ts"
  "board_update c ps w rid ids i f (db\<lparr>cd_rows := rows\<rparr>) = (r, db', au, ts) \<Longrightarrow>
    cd_rows db' = rows \<or> {''board_members'', ''home'', ''org_chart''} \<subseteq> set ts"
proof -
  have tags: "{''board_members'', ''home'', ''org_chart''} \<subseteq> set (purge_list (board_member_options c (\<lambda>_. False)))"
    by (simp add: purge_list_def board_member_options_def)
  show "board_create c ps w ids e (db\<lparr>cd_rows := rows\<rparr>) = (r, db', au, ts) \<Longrightarrow>
    cd_rows db' = rows \<or> {''board_members'', ''home'', ''org_chart''} \<subseteq> set ts"
    using crud_handle_purges [of "board_member_options c (\<lambda>_. False)" c "CreateRow ids e" "db\<lparr>cd_rows := rows\<rparr>" db' ts] tags
    by (auto simp: board_create_def split: sum.splits)
  show "board_update c ps w rid ids i f (db\<lparr>cd_rows := rows\<rparr>) = (r, db', au, ts) \<Longrightarrow>
    cd_rows db' = rows \<or> {''board_members'', ''home'', ''org_chart''} \<subseteq> set ts"
    using crud_handle_purges [of "board_member_options c (\<lambda>_. False)" c "UpdateRow rid ids i f" "db\<lparr>cd_rows := rows\<rparr>" db' ts] tags
    by (auto simp: board_update_def split: sum.splits)
qed

lemma crud_tags:
  assumes "crud_handle opts c rq (db\<lparr>cd_rows := rows\<rparr>) = (db', ts)" "T \<subseteq> set (purge_list opts)"
  shows "cd_rows db' = rows \<or> T \<subseteq> set ts"
  using crud_handle_purges [OF assms(1)] assms(2) by auto

text \<open>A write that leaves the tables alone, or purges tags that every page reading the change carries.\<close>

lemma contractI:
  assumes "ct' = ct \<or> T \<subseteq> set ts" "set (page_tags r) \<inter> set ts = {}"
    and "set (page_tags r) \<inter> T = {} \<Longrightarrow> same_reads r ct' ct"
  shows "public_answer env now r ct' = public_answer env now r ct"
  using assms page_reads [of r ct' ct] by blast

lemmas collection_options = purge_list_def news_category_options_def partner_options_def page_options_def page_section_options_def
  doc_category_options_def safeer_document_options_def stat_options_def testimonial_options_def testimonial_theme_options_def
  work_area_options_def work_area_item_options_def about_item_options_def board_member_options_def

lemma items_left_same: "items_left as as is = is"
  by (simp add: items_left_def)

lemma write_keeps_page:
  assumes "content_write c ct ct' ts" and apart: "set (page_tags r) \<inter> set ts = {}"
  shows "public_answer env now r ct' = public_answer env now r ct"
  using assms(1)
proof cases
  case (categories refd rq db db')
  have "cd_rows db' = ct_newsCategories ct \<or> {''news'', ''home''} \<subseteq> set ts"
    by (rule crud_tags [OF categories(2)]) (simp add: collection_options)
  then have "ct' = ct \<or> {''news'', ''home''} \<subseteq> set ts" unfolding categories(1) by (elim disjE) (simp_all)
  then show ?thesis by (rule contractI [OF _ apart]) (unfold categories(1), cases r, simp_all)
next
  case (posts prq db db')
  have "cd_rows db' = ct_posts ct \<or> {''news'', ''home''} \<subseteq> set ts"
    using post_handle_purges [OF posts(2)] by simp
  then have "ct' = ct \<or> {''news'', ''home''} \<subseteq> set ts" unfolding posts(1) by (elim disjE) (simp_all)
  then show ?thesis by (rule contractI [OF _ apart]) (unfold posts(1), cases r, simp_all)
next
  case (member_created w ids e db res db' au)
  have "cd_rows db' = ct_board ct \<or> {''board_members'', ''home'', ''org_chart''} \<subseteq> set ts"
    using board_handler_tags(1) [OF member_created(2)] .
  then have "ct' = ct \<or> {''board_members'', ''home'', ''org_chart''} \<subseteq> set ts" unfolding member_created(1) by (elim disjE) (simp_all)
  then show ?thesis by (rule contractI [OF _ apart]) (unfold member_created(1), cases r, simp_all)
next
  case (member_updated w rid ids i f db res db' au)
  have "cd_rows db' = ct_board ct \<or> {''board_members'', ''home'', ''org_chart''} \<subseteq> set ts"
    using board_handler_tags(2) [OF member_updated(2)] .
  then have "ct' = ct \<or> {''board_members'', ''home'', ''org_chart''} \<subseteq> set ts" unfolding member_updated(1) by (elim disjE) (simp_all)
  then show ?thesis by (rule contractI [OF _ apart]) (unfold member_updated(1), cases r, simp_all)
next
  case (members refd rq db db')
  have "cd_rows db' = ct_board ct \<or> {''board_members'', ''home'', ''org_chart''} \<subseteq> set ts"
    by (rule crud_tags [OF members(2)]) (simp add: collection_options)
  then have "ct' = ct \<or> {''board_members'', ''home'', ''org_chart''} \<subseteq> set ts" unfolding members(1) by (elim disjE) (simp_all)
  then show ?thesis by (rule contractI [OF _ apart]) (unfold members(1), cases r, simp_all)
next
  case (positions orq db ps)
  have "ps = ct_positions ct \<or> {''org_chart''} \<subseteq> set ts"
    using org_handle_tags [OF positions(2)] by simp
  then have "ct' = ct \<or> {''org_chart''} \<subseteq> set ts" unfolding positions(1) by (elim disjE) (simp_all)
  then show ?thesis by (rule contractI [OF _ apart]) (unfold positions(1), cases r, simp_all)
next
  case (partners refd rq db db')
  have "cd_rows db' = ct_partners ct \<or> {''partners'', ''home''} \<subseteq> set ts"
    by (rule crud_tags [OF partners(2)]) (simp add: collection_options)
  then have "ct' = ct \<or> {''partners'', ''home''} \<subseteq> set ts" unfolding partners(1) by (elim disjE) (simp_all)
  then show ?thesis by (rule contractI [OF _ apart]) (unfold partners(1), cases r, simp_all)
next
  case (pages refd enrich rq db db')
  have "cd_rows db' = ct_pages ct \<or> {''pages'', ''home''} \<subseteq> set ts"
    by (rule crud_tags [OF pages(2)]) (simp add: collection_options)
  then have "ct' = ct \<or> {''pages'', ''home''} \<subseteq> set ts" unfolding pages(1) by (elim disjE) (simp_all add: sections_left_same)
  then show ?thesis by (rule contractI [OF _ apart]) (unfold pages(1), cases r, simp_all add: sections_left_same)
next
  case (sections refd rq db db')
  have "cd_rows db' = ct_sections ct \<or> {''pages'', ''home''} \<subseteq> set ts"
    by (rule crud_tags [OF sections(2)]) (simp add: collection_options)
  then have "ct' = ct \<or> {''pages'', ''home''} \<subseteq> set ts" unfolding sections(1) by (elim disjE) (simp_all)
  then show ?thesis by (rule contractI [OF _ apart]) (unfold sections(1), cases r, simp_all)
next
  case (doc_categories refd rq db db')
  have "cd_rows db' = ct_docCategories ct \<or> {''documents''} \<subseteq> set ts"
    by (rule crud_tags [OF doc_categories(2)]) (simp add: collection_options)
  then have "ct' = ct \<or> {''documents''} \<subseteq> set ts" unfolding doc_categories(1) by (elim disjE) (simp_all)
  then show ?thesis by (rule contractI [OF _ apart]) (unfold doc_categories(1), cases r, simp_all)
next
  case (documents refd rq db db')
  have "cd_rows db' = ct_documents ct \<or> {''documents''} \<subseteq> set ts"
    by (rule crud_tags [OF documents(2)]) (simp add: collection_options)
  then have "ct' = ct \<or> {''documents''} \<subseteq> set ts" unfolding documents(1) by (elim disjE) (simp_all)
  then show ?thesis by (rule contractI [OF _ apart]) (unfold documents(1), cases r, simp_all)
next
  case (licences lop ldb ldb')
  note tags = licence_handle_tags [OF licences(2)]
  show ?thesis
  proof (cases "ld_licences ldb' = ld_licences ldb")
    case True
    then have tags: "ld_settings ldb' = ld_settings ldb \<or> {''site_settings'', ''home''} \<subseteq> set ts"
      using tags by auto
    have ct': "ct' = ct\<lparr>ct_settings := Some (ld_settings ldb')\<rparr>" using True licences by simp
    have "ct\<lparr>ct_settings := Some (ld_settings ldb)\<rparr> = ct" unfolding licences(4) [symmetric] by simp
    then have "ct' = ct \<or> {''site_settings'', ''home''} \<subseteq> set ts" using tags unfolding ct' by metis
    then show ?thesis by (rule contractI [OF _ apart]) (unfold ct', cases r, simp_all)
  next
    case False
    then have tags: "{''site_settings'', ''home'', ''licences''} \<subseteq> set ts" using tags by auto
    show ?thesis
      unfolding licences(1)
      by (rule contractI [OF disjI2 [OF tags] apart]) (cases r, simp_all)
  qed
next
  case (stats refd rq db db')
  have "cd_rows db' = ct_stats ct \<or> {''home''} \<subseteq> set ts"
    by (rule crud_tags [OF stats(2)]) (simp add: collection_options)
  then have "ct' = ct \<or> {''home''} \<subseteq> set ts" unfolding stats(1) by (elim disjE) (simp_all)
  then show ?thesis by (rule contractI [OF _ apart]) (unfold stats(1), cases r, simp_all)
next
  case (testimonials refd rq db db')
  have "cd_rows db' = ct_testimonials ct \<or> {''testimonials'', ''home''} \<subseteq> set ts"
    by (rule crud_tags [OF testimonials(2)]) (simp add: collection_options)
  then have "ct' = ct \<or> {''testimonials'', ''home''} \<subseteq> set ts" unfolding testimonials(1) by (elim disjE) (simp_all)
  then show ?thesis by (rule contractI [OF _ apart]) (unfold testimonials(1), cases r, simp_all)
next
  case (moderated i f res rows)
  have "rows = ct_testimonials ct \<or> {''testimonials'', ''home''} \<subseteq> set ts"
    using moderated(2) by (auto simp: change_testimonial_def collection_options split: option.splits)
  then have "ct' = ct \<or> {''testimonials'', ''home''} \<subseteq> set ts" unfolding moderated(1) by (elim disjE) (simp_all)
  then show ?thesis by (rule contractI [OF _ apart]) (unfold moderated(1), cases r, simp_all)
next
  case (converted ienv n new_id i d ib res ib')
  have "ib_testimonials ib' = ct_testimonials ct \<or> {''testimonials'', ''home''} \<subseteq> set ts"
    using converted(2,3) by (auto simp: convert_to_testimonial_def Let_def split: sum.splits)
  then have "ct' = ct \<or> {''testimonials'', ''home''} \<subseteq> set ts" unfolding converted(1) by (elim disjE) (simp_all)
  then show ?thesis by (rule contractI [OF _ apart]) (unfold converted(1), cases r, simp_all)
next
  case (themes refd rq db db')
  have "cd_rows db' = ct_themes ct \<or> {''testimonials'', ''home''} \<subseteq> set ts"
    by (rule crud_tags [OF themes(2)]) (simp add: collection_options)
  then have "ct' = ct \<or> {''testimonials'', ''home''} \<subseteq> set ts" unfolding themes(1) by (elim disjE) (simp_all)
  then show ?thesis by (rule contractI [OF _ apart]) (unfold themes(1), cases r, simp_all)
next
  case (work_areas refd rq db db')
  have "cd_rows db' = ct_workAreas ct \<or> {''work_areas'', ''home''} \<subseteq> set ts"
    by (rule crud_tags [OF work_areas(2)]) (simp add: collection_options)
  then have "ct' = ct \<or> {''work_areas'', ''home''} \<subseteq> set ts"
    unfolding work_areas(1) by (elim disjE) (simp_all add: items_left_same)
  then show ?thesis by (rule contractI [OF _ apart]) (unfold work_areas(1), cases r, simp_all)
next
  case (work_area_items refd rq db db')
  have "cd_rows db' = ct_workAreaItems ct \<or> {''work_areas'', ''home''} \<subseteq> set ts"
    by (rule crud_tags [OF work_area_items(2)]) (simp add: collection_options)
  then have "ct' = ct \<or> {''work_areas'', ''home''} \<subseteq> set ts" unfolding work_area_items(1) by (elim disjE) (simp_all)
  then show ?thesis by (rule contractI [OF _ apart]) (unfold work_area_items(1), cases r, simp_all)
next
  case (about_items refd rq db db')
  have "cd_rows db' = ct_aboutItems ct \<or> {''about_items'', ''home''} \<subseteq> set ts"
    by (rule crud_tags [OF about_items(2)]) (simp add: collection_options)
  then have "ct' = ct \<or> {''about_items'', ''home''} \<subseteq> set ts" unfolding about_items(1) by (elim disjE) (simp_all)
  then show ?thesis by (rule contractI [OF _ apart]) (unfold about_items(1), cases r, simp_all)
next
  case (alt_texts i ar en lib res lib')
  have "lb_assets lib' = ct_assets ct \<or> set ASSET_PUBLIC_MEMO_TAGS \<subseteq> set ts"
    using alt_texts(2,3) by (auto simp: alt_text_route_def set_alt_text_def Let_def split: sum.splits)
  then have "ct' = ct \<or> set ASSET_PUBLIC_MEMO_TAGS \<subseteq> set ts" unfolding alt_texts(1) by (elim disjE) (simp_all add: ASSET_PUBLIC_MEMO_TAGS_def)
  then show ?thesis by (rule contractI [OF _ apart]) (unfold alt_texts(1), cases r, simp_all add: ASSET_PUBLIC_MEMO_TAGS_def)
next
  case (downloaded ow text_eq lib pid)
  have "\<exists>P. ow_documents (increment_download_count text_eq lib pid ow) = map (counted P) (ct_documents ct)"
  proof (cases "find_by_public_id text_eq pid lib")
    case None
    then show ?thesis using downloaded(3) by (intro exI [of _ "\<lambda>_. False"]) (simp add: increment_download_count_def counted_def [abs_def])
  next
    case (Some a)
    then show ?thesis
      using downloaded(3) by (intro exI [of _ "\<lambda>d. dd_assetId d = Some (ma_id a)"]) (simp add: increment_download_count_def update_rows_def counted_def)
  qed
  then show ?thesis unfolding downloaded(1) using count_pages by auto
qed

section \<open>The public site\<close>

text \<open>
  The site as visitors meet it: committed admin writes beside the purges, lookups, renderings and
  stores of \<open>CacheHttp\<close>. \<open>page_of\<close> reads a cache key as the route it belongs to; a post's key never
  holds a preview token.
\<close>

inductive public_site_step ::
  "sql_compare \<Rightarrow> public_env \<Rightarrow> (string \<Rightarrow> public_route) \<Rightarrow> (content, public_body handled res) site
     \<Rightarrow> (content, public_body handled res) site \<Rightarrow> bool" for c env page_of where
  wrote: "content_write c (site_db w) d ts \<Longrightarrow>
    public_site_step c env page_of w (w\<lparr>site_db := d, site_pending := site_pending w \<union> set ts\<rparr>)"
| served: "site_step (\<lambda>k. public_answer env 0 (page_of k)) (page_tags \<circ> page_of) w w' \<Longrightarrow> site_db w' = site_db w \<Longrightarrow>
    public_site_step c env page_of w w'"

lemma public_site_refines:
  assumes "(public_site_step c env page_of)\<^sup>*\<^sup>* (initial_site ct) w"
  shows "reachable_site (\<lambda>k. public_answer env 0 (page_of k)) (page_tags \<circ> page_of) ct w"
  using assms
proof (induction rule: rtranclp_induct)
  case base
  then show ?case by (simp add: reachable_site_def)
next
  case (step w w')
  have s: "site_step (\<lambda>k. public_answer env 0 (page_of k)) (page_tags \<circ> page_of) w w'"
    using step.hyps(2)
  proof cases
    case (wrote d ts)
    show ?thesis
      unfolding wrote(1) using write_keeps_page [OF wrote(2)] by (intro site_step.written) auto
  qed simp
  show ?case using step.IH s unfolding reachable_site_def by (rule rtranclp.rtrancl_into_rtrancl)
qed

definition no_preview_keys :: "(string \<Rightarrow> public_route) \<Rightarrow> bool" where
  "no_preview_keys page_of \<longleftrightarrow> (\<forall>k slug q. page_of k = PostPage slug q \<longrightarrow> map_of q ''preview'' = None)"

lemma page_time_independent:
  assumes "no_preview_keys page_of"
  shows "public_answer env now (page_of k) ct = public_answer env 0 (page_of k) ct"
proof (cases "page_of k")
  case (PostPage slug q)
  then have "map_of q ''preview'' = None" using assms by (auto simp: no_preview_keys_def)
  then show ?thesis
    using PostPage by (simp add: news_by_slug_def post_preview_def read_string_def as_string_def split: option.split)
qed simp_all


section \<open>Witnesses\<close>

definition board_answer :: "public_body handled res" where
  "board_answer = public_answer plain_public 0 BoardPage no_content"

definition board_site :: "(content, public_body handled res) site" where
  "board_site = \<lparr>site_db = no_content,
     site_cache = cache_step (Set [] True ''/board:'' board_answer [''board_members'']
       (Some (version_of [''board_members''] (empty_cache :: public_body handled res cache_state)))) (cache_step (Get ''/board:'') empty_cache),
     site_pending = {}, site_flights = []\<rparr>"


end
