(* ===== verification/Logging.thy ===== *)
theory Logging
  imports SafeerPrelude
begin

text \<open>
  \<open>common/logging/redacting-json-logger.ts\<close>. A logged value is a primitive or a reference into a
  heap of objects, which may share parts or contain themselves. Nest builds the log object from
  the call; \<open>JSON.stringify\<close> and \<open>toISOString\<close> are parameters.
\<close>

section \<open>Values\<close>

datatype log_value =
    LUndefined
  | LNull
  | LBool bool
  | LNumber string
  | LText string
  | LRef nat

datatype log_object =
    LArray "log_value list"
  | LRecord "(string \<times> log_value) list"
  | LDate string
  | LError string string

type_synonym log_heap = "nat \<rightharpoonup> log_object"

datatype redacted =
    RPlain log_value
  | RText string
  | RDate string
  | RError string string
  | RArray "redacted list"
  | RRecord "(string \<times> redacted) list"

section \<open>Strings\<close>

definition SENSITIVE_KEYS :: "string list" where
  "SENSITIVE_KEYS =
     [''cookie'', ''set-cookie'', ''authorization'', ''x-csrf-token'', ''password'', ''passwordencrypted'',
      ''passwordhash'', ''token'', ''tokenhash'', ''payload'']"

definition MAX_REDACT_DEPTH :: nat where "MAX_REDACT_DEPTH = 8"

definition ascii_word :: "char \<Rightarrow> bool" where
  "ascii_word c \<longleftrightarrow> is_digit c \<or> lower_char c \<in> set ''abcdefghijklmnopqrstuvwxyz'' \<or> c = CHR ''_''"

definition quote_char :: char where "quote_char = CHR 0x22"

definition skip_quote :: "string \<Rightarrow> string" where
  "skip_quote s = (if take 1 s = [quote_char] then drop 1 s else s)"

definition value_char :: "char \<Rightarrow> bool" where
  "value_char c \<longleftrightarrow> c \<noteq> quote_char \<and> \<not> is_space c \<and> c \<noteq> CHR '','' \<and> c \<noteq> CHR ''}''"

definition skip_prefix :: "string \<Rightarrow> string \<Rightarrow> string option" where
  "skip_prefix name s = (if to_lower (take (length name) s) = name then Some (drop (length name) s) else None)"

text \<open>
  \<open>(?:(?:bearer|basic)\s+)?\<close> before at least one value character; what the engine falls back to when
  nothing follows the scheme is the text without it.
\<close>

definition skip_scheme :: "string \<Rightarrow> string" where
  "skip_scheme s =
     (let after = (\<lambda>name. case skip_prefix name s of
            Some r \<Rightarrow> if takeWhile is_space r \<noteq> [] \<and> takeWhile value_char (dropWhile is_space r) \<noteq> []
                      then Some (dropWhile is_space r) else None
          | None \<Rightarrow> None)
      in case after ''bearer'' of Some r \<Rightarrow> r | None \<Rightarrow> (case after ''basic'' of Some r \<Rightarrow> r | None \<Rightarrow> s))"

text \<open>
  One match of \<open>"?\b(name)"?\s*[:=]\s*"?scheme[^"\s,}]+"?\<close> at the head of the text, given the character
  before it: the name as written and the text after the match. The parts exclude each other's
  characters, so the engine has nothing to backtrack into but the scheme.
\<close>

definition match_header :: "string \<Rightarrow> bool \<Rightarrow> char option \<Rightarrow> string \<Rightarrow> (string \<times> string) option" where
  "match_header name has_scheme prev s =
     (let s1 = skip_quote s;
          boundary = (take 1 s = [quote_char] \<or> (case prev of None \<Rightarrow> True | Some c \<Rightarrow> \<not> ascii_word c))
      in if \<not> boundary then None
         else case skip_prefix name s1 of
           None \<Rightarrow> None
         | Some s2 \<Rightarrow>
             (let s3 = dropWhile is_space (skip_quote s2) in
              if take 1 s3 = '':'' \<or> take 1 s3 = ''=''
              then (let s4 = skip_quote (dropWhile is_space (drop 1 s3));
                        s5 = (if has_scheme then skip_scheme s4 else s4)
                    in if takeWhile value_char s5 = [] then None
                       else Some (take (length name) s1, skip_quote (dropWhile value_char s5)))
              else None))"

lemma skip_quote_length [simp]: "length (skip_quote s) \<le> length s"
  by (simp add: skip_quote_def)

lemma skip_scheme_length: "length (skip_scheme s) \<le> length s"
proof -
  have "length (dropWhile is_space (drop n s)) \<le> length s" for n
    by (rule le_trans [OF length_dropWhile_le]) simp
  then show ?thesis
    by (auto simp: skip_scheme_def skip_prefix_def Let_def split: option.split if_splits)
qed

text \<open>\<open>replace\<close> with the \<open>g\<close> flag.\<close>

function replace_header :: "string \<Rightarrow> bool \<Rightarrow> char option \<Rightarrow> string \<Rightarrow> string" where
  "replace_header name has_scheme prev s =
     (case s of
        [] \<Rightarrow> []
      | c # cs \<Rightarrow>
          (case match_header name has_scheme prev s of
             Some (key, rest) \<Rightarrow>
               if length rest < length s
               then key @ '': [REDACTED]'' @ replace_header name has_scheme (Some (s ! (length s - length rest - 1))) rest
               else []
           | None \<Rightarrow> c # replace_header name has_scheme (Some c) cs))"
  by pat_completeness auto
termination by (relation "measure (\<lambda>(_, _, _, s). length s)") auto

declare replace_header.simps [simp del]

definition STRING_REDACT_PATTERNS :: "(string \<times> bool) list" where
  "STRING_REDACT_PATTERNS = [(''cookie'', False), (''set-cookie'', False), (''authorization'', True), (''x-csrf-token'', False)]"

definition redact_string :: "string \<Rightarrow> string" where
  "redact_string s = fold (\<lambda>(name, has_scheme). replace_header name has_scheme None) STRING_REDACT_PATTERNS s"

section \<open>Objects\<close>

fun map_seen :: "('a \<Rightarrow> nat set \<Rightarrow> 'b \<times> nat set) \<Rightarrow> 'a list \<Rightarrow> nat set \<Rightarrow> 'b list \<times> nat set" where
  "map_seen f [] seen = ([], seen)"
| "map_seen f (x # xs) seen = (let (y, seen1) = f x seen; (ys, seen2) = map_seen f xs seen1 in (y # ys, seen2))"

text \<open>The first argument is what is left of \<open>MAX_REDACT_DEPTH\<close>; \<open>seen\<close> is the \<open>WeakSet\<close>.\<close>

primrec redact :: "nat \<Rightarrow> log_heap \<Rightarrow> log_value \<Rightarrow> nat set \<Rightarrow> redacted \<times> nat set" where
  "redact 0 h v seen =
     (case v of
        LText s \<Rightarrow> (RText (redact_string s), seen)
      | LRef a \<Rightarrow> (RText ''[REDACTED: max depth exceeded]'', seen)
      | _ \<Rightarrow> (RPlain v, seen))"
| "redact (Suc n) h v seen =
     (case v of
        LText s \<Rightarrow> (RText (redact_string s), seen)
      | LRef a \<Rightarrow>
          if a \<in> seen then (RText ''[REDACTED: circular reference]'', seen)
          else
            (case h a of
               Some (LArray vs) \<Rightarrow> (let (rs, seen') = map_seen (redact n h) vs (insert a seen) in (RArray rs, seen'))
             | Some (LRecord fs) \<Rightarrow>
                 (let (rs, seen') = map_seen (\<lambda>(k, w) s. if to_lower k \<in> set SENSITIVE_KEYS then ((k, RText ''[REDACTED]''), s)
                                                      else (let (r, s') = redact n h w s in ((k, r), s'))) fs (insert a seen)
                  in (RRecord rs, seen'))
             | Some (LDate d) \<Rightarrow> (RDate d, insert a seen)
             | Some (LError name msg) \<Rightarrow> (RError name msg, insert a seen)
             | None \<Rightarrow> (RPlain v, seen))
      | _ \<Rightarrow> (RPlain v, seen))"

definition redact_value :: "log_heap \<Rightarrow> log_value \<Rightarrow> redacted" where
  "redact_value h v = fst (redact MAX_REDACT_DEPTH h v {})"

section \<open>Lines\<close>

text \<open>What Nest hands over, and the fields of the printed line.\<close>

record log_entry =
  le_level :: string
  le_timestamp :: int
  le_context :: "string option"
  le_message :: log_value
  le_stack :: "log_value option"

record json_line =
  jl_level :: string
  jl_timestamp :: string
  jl_context :: "string option"
  jl_message :: string
  jl_stack :: "redacted option"

record redacted_entry =
  re_entry :: log_entry
  re_message :: redacted
  re_stack :: "redacted option"

definition get_json_log_object :: "log_heap \<Rightarrow> log_entry \<Rightarrow> redacted_entry" where
  "get_json_log_object h e =
     \<lparr>re_entry = e, re_message = redact_value h (le_message e), re_stack = map_option (redact_value h) (le_stack e)\<rparr>"

definition upper_char :: "char \<Rightarrow> char" where
  "upper_char c = (if 97 \<le> (of_char c :: nat) \<and> (of_char c :: nat) \<le> 122 then char_of ((of_char c :: nat) - 32) else c)"

definition print_as_json :: "(redacted \<Rightarrow> string) \<Rightarrow> (int \<Rightarrow> string) \<Rightarrow> log_heap \<Rightarrow> log_entry \<Rightarrow> json_line" where
  "print_as_json stringify to_iso h e =
     (let o1 = get_json_log_object h e in
      \<lparr>jl_level = map upper_char (le_level (re_entry o1)), jl_timestamp = to_iso (le_timestamp (re_entry o1)),
       jl_context = le_context (re_entry o1),
       jl_message = (case re_message o1 of
                       RText s \<Rightarrow> s
                     | RError name msg \<Rightarrow> redact_string (name @ '': '' @ msg)
                     | r \<Rightarrow> stringify r),
       jl_stack = re_stack o1\<rparr>)"

section \<open>Lemmas\<close>

lemma match_header_shorter:
  assumes "match_header name sc prev s = Some (key, rest)"
  shows "length rest < length s"
proof -
  obtain s2 where s2: "skip_prefix name (skip_quote s) = Some s2" 
    using assms by (auto simp: match_header_def Let_def split: if_splits option.splits)
  define s3 where "s3 = dropWhile is_space (skip_quote s2)"
  define s4 where "s4 = skip_quote (dropWhile is_space (drop 1 s3))"
  define s5 where "s5 = (if sc then skip_scheme s4 else s4)"
  let ?boundary = "take 1 s = [quote_char] \<or> (case prev of None \<Rightarrow> True | Some c \<Rightarrow> \<not> ascii_word c)"
  have "match_header name sc prev s =
     (if \<not> ?boundary then None else if take 1 s3 = '':'' \<or> take 1 s3 = ''=''
      then (if takeWhile value_char s5 = [] then None
            else Some (take (length name) (skip_quote s), skip_quote (dropWhile value_char s5))) else None)"
    unfolding match_header_def Let_def s2 s3_def s4_def s5_def by simp
  then have v: "takeWhile value_char s5 \<noteq> []" and rest: "rest = skip_quote (dropWhile value_char s5)"
    using assms by (simp_all split: if_splits)
  have "length rest < length s5"
    using v unfolding rest by (cases s5) (auto simp: less_Suc_eq_le intro: le_trans [OF skip_quote_length length_dropWhile_le])
  also have "length s5 \<le> length s4" by (simp add: s5_def skip_scheme_length)
  also have "length s4 \<le> length s3"
    unfolding s4_def by (rule le_trans [OF skip_quote_length le_trans [OF length_dropWhile_le]]) simp
  also have "length s3 \<le> length s2"
    unfolding s3_def by (rule le_trans [OF length_dropWhile_le]) simp
  also have "length s2 \<le> length s"
    using s2 skip_quote_length [of s] by (auto simp: skip_prefix_def simp del: skip_quote_length split: if_splits)
  finally show ?thesis .
qed

lemma replace_header_Nil [simp]: "replace_header name sc prev [] = []"
  by (simp add: replace_header.simps)

lemma replace_header_Cons:
  "replace_header name sc prev (c # cs) =
     (case match_header name sc prev (c # cs) of
        Some (key, rest) \<Rightarrow> key @ '': [REDACTED]''
          @ replace_header name sc (Some ((c # cs) ! (length (c # cs) - length rest - 1))) rest
      | None \<Rightarrow> c # replace_header name sc (Some c) cs)"
  using match_header_shorter [of name sc prev "c # cs"]
  by (subst replace_header.simps) (auto split: option.split)

text \<open>Two heaps that differ only in what sensitive keys hold.\<close>

definition same_field :: "string \<times> log_value \<Rightarrow> string \<times> log_value \<Rightarrow> bool" where
  "same_field f g \<longleftrightarrow> fst f = fst g \<and> (to_lower (fst f) \<in> set SENSITIVE_KEYS \<or> snd f = snd g)"

definition same_object :: "log_object option \<Rightarrow> log_object option \<Rightarrow> bool" where
  "same_object a b \<longleftrightarrow> a = b \<or> (\<exists>fs gs. a = Some (LRecord fs) \<and> b = Some (LRecord gs) \<and> list_all2 same_field fs gs)"

lemma same_fields_redacted:
  assumes "\<And>w s. redact n h w s = redact n h' w s" and "list_all2 same_field fs gs"
  shows "map_seen (\<lambda>(k, w) s. if to_lower k \<in> set SENSITIVE_KEYS then ((k, RText r), s)
            else (let (r, s') = redact n h w s in ((k, r), s'))) fs seen
    = map_seen (\<lambda>(k, w) s. if to_lower k \<in> set SENSITIVE_KEYS then ((k, RText r), s)
            else (let (r, s') = redact n h' w s in ((k, r), s'))) gs seen"
  using assms(2)
proof (induction fs gs arbitrary: seen rule: list_all2_induct)
  case (Cons f fs g gs)
  then show ?case
    using assms(1) by (cases f; cases g) (auto simp: same_field_def Let_def split: prod.split)
qed simp

lemma same_redacted:
  assumes "\<And>a. same_object (h a) (h' a)"
  shows "redact n h v seen = redact n h' v seen"
proof (induction n arbitrary: v seen)
  case (Suc n)
  have fun_eq: "redact n h = redact n h'" using Suc by (intro ext) simp
  show ?case
  proof (cases v)
    case (LRef a)
    show ?thesis
      using assms [of a] unfolding same_object_def
    proof (elim disjE exE conjE)
      assume "h a = h' a"
      then show ?thesis by (simp only: redact.simps LRef fun_eq) simp
    next
      fix fs gs assume "h a = Some (LRecord fs)" "h' a = Some (LRecord gs)" "list_all2 same_field fs gs"
      then show ?thesis using same_fields_redacted [of n h h' fs gs] Suc by (simp add: LRef)
    qed
  qed simp_all
qed simp

text \<open>How deep a redacted value nests.\<close>

fun nesting :: "redacted \<Rightarrow> nat" where
  "nesting (RArray rs) = Suc (fold max (map nesting rs) 0)"
| "nesting (RRecord fs) = Suc (fold max (map (\<lambda>(k, r). nesting r) fs) 0)"
| "nesting _ = 0"

lemma fold_max_le: "a \<le> n \<Longrightarrow> (\<forall>x \<in> set xs. x \<le> n) \<Longrightarrow> fold max xs a \<le> (n :: nat)"
  by (induction xs arbitrary: a) auto

lemma map_seen_all:
  assumes "\<And>x s. P (fst (f x s))"
  shows "y \<in> set (fst (map_seen f xs seen)) \<Longrightarrow> P y"
proof (induction xs arbitrary: seen)
  case (Cons x xs)
  have "P (fst (f x seen))" by (rule assms)
  then show ?case using Cons.IH [of "snd (f x seen)"] Cons.prems by (auto simp: Let_def split_beta)
qed simp

lemma nesting_redact: "nesting (fst (redact n h v seen)) \<le> n"
proof (induction n arbitrary: v seen)
  case 0
  show ?case by (cases v) simp_all
next
  case (Suc n)
  have items: "nesting r \<le> n" if "r \<in> set (fst (map_seen (redact n h) vs s))" for r vs s
    by (rule map_seen_all [OF _ that]) (rule Suc)
  have fields: "nesting (snd f) \<le> n"
    if "f \<in> set (fst (map_seen (\<lambda>(k, w) s. if to_lower k \<in> set SENSITIVE_KEYS then ((k, RText r), s)
            else (let (r, s') = redact n h w s in ((k, r), s'))) fs s))" for f r fs s
    by (rule map_seen_all [OF _ that]) (use Suc in \<open>auto simp: Let_def split_beta\<close>)
  show ?case
  proof (cases v)
    case (LRef a)
    then show ?thesis
      using items fields by (auto simp: Let_def split_beta intro!: fold_max_le split: option.split log_object.split)
  qed simp_all
qed


text \<open>A cookie header with two cookies keeps the second one: the value stops at the first blank.\<close>

lemma second_cookie_logged:
  "redact_string ''Cookie: a=1; sf_sid=S3CRET'' = ''Cookie: [REDACTED] sf_sid=S3CRET''"
  by code_simp

text \<open>An object that appears twice, without any cycle, is printed as circular the second time.\<close>

lemma shared_object_called_circular:
  "redact_value [0 \<mapsto> LArray [LRef 1, LRef 1], 1 \<mapsto> LArray []] (LRef 0)
    = RArray [RArray [], RText ''[REDACTED: circular reference]'']"
  by (simp add: redact_value_def MAX_REDACT_DEPTH_def numeral_eq_Suc)

section \<open>Witness\<close>

definition headers_heap :: "string \<Rightarrow> log_heap" where
  "headers_heap cookie = [0 \<mapsto> LRecord [(''headers'', LRef 1)], 1 \<mapsto> LRecord [(''Cookie'', LText cookie), (''host'', LText ''h'')]]"

end
