(* ===== verification/Responses.thy ===== *)
theory Responses
  imports Inbox PublicViews "HOL-Library.AList"
begin

text \<open>
  What wraps every handler: the language of a response (\<open>common/interceptors/locale.interceptor.ts\<close>),
  the problem document of an exception (\<open>common/filters/http-exception.filter.ts\<close>), the audit row of
  a write (\<open>common/interceptors/audit.interceptor.ts\<close>), and the two readers of that log,
  \<open>audit/audit.controller.ts\<close> and \<open>admin-overview/admin-overview.service.ts\<close>.
\<close>

section \<open>Language\<close>

definition before_comma :: "string \<Rightarrow> string" where
  "before_comma s = takeWhile (\<lambda>c. c \<noteq> CHR '','') s"

definition resolve_locale :: "query \<Rightarrow> string option \<Rightarrow> loc" where
  "resolve_locale q accept_language =
     (let lang = map_option to_lower (read_string q ''lang'') in
      if lang = Some ''ar'' then Ar
      else if lang = Some ''en'' then En
      else case accept_language of
             None \<Rightarrow> Ar
           | Some a \<Rightarrow> if to_lower (take 2 (trim (before_comma a))) = ''en'' then En else Ar)"

text \<open>A member name and its suffix; the pair is merged when both names are members.\<close>

definition suffixed :: "string \<Rightarrow> string \<Rightarrow> bool" where
  "suffixed suffix key \<longleftrightarrow> length suffix \<le> length key \<and> drop (length key - length suffix) key = suffix"

definition base_name :: "string \<Rightarrow> string" where
  "base_name key = take (length key - 2) key"

definition merges :: "string list \<Rightarrow> string \<Rightarrow> bool" where
  "merges keys base \<longleftrightarrow> base @ ''Ar'' \<in> set keys \<and> base @ ''En'' \<in> set keys"

definition use_english :: "loc \<Rightarrow> json option \<Rightarrow> bool" where
  "use_english l en \<longleftrightarrow> l = En \<and> (case en of None \<Rightarrow> False | Some JNull \<Rightarrow> False | Some (JStr s) \<Rightarrow> trim s \<noteq> [] | Some _ \<Rightarrow> True)"

text \<open>
  One member: a merged pair is assigned once, from its Arabic name, with its own values; any other
  member keeps its name and is collapsed itself. An assignment to a name already there replaces
  its value. Dates and buffers, which the code leaves alone, are leaves of \<open>json\<close> here.
\<close>

definition assign_member :: "loc \<Rightarrow> (string \<times> json) list \<Rightarrow> string \<times> json \<Rightarrow> (string \<times> json) list \<Rightarrow> (string \<times> json) list" where
  "assign_member l fs m result =
     (let (key, collapsed) = m; keys = map fst fs; base = base_name key in
      if suffixed ''Ar'' key \<and> merges keys base
      then (let en = map_of fs (base @ ''En''); ar = map_of fs key
            in AList.update base (if use_english l en then the en else the ar) result)
      else if suffixed ''En'' key \<and> merges keys base then result
      else AList.update key collapsed result)"

primrec collapse_bilingual :: "loc \<Rightarrow> json \<Rightarrow> json" where
  "collapse_bilingual l JNull = JNull"
| "collapse_bilingual l (JBool b) = JBool b"
| "collapse_bilingual l (JNum n) = JNum n"
| "collapse_bilingual l (JStr s) = JStr s"
| "collapse_bilingual l (JArr xs) = JArr (map (collapse_bilingual l) xs)"
| "collapse_bilingual l (JObj fs) = JObj (fold (assign_member l fs) (map (map_prod id (collapse_bilingual l)) fs) [])"

definition localized :: "string \<Rightarrow> loc \<Rightarrow> json \<Rightarrow> json" where
  "localized path l body = (if is_admin_route path then body else collapse_bilingual l body)"

section \<open>Problems\<close>

definition code_name :: "error_code \<Rightarrow> string" where
  "code_name c =
     (case c of
        VALIDATION_FAILED \<Rightarrow> ''VALIDATION_FAILED'' | UNAUTHENTICATED \<Rightarrow> ''UNAUTHENTICATED'' | FORBIDDEN \<Rightarrow> ''FORBIDDEN''
      | NOT_FOUND \<Rightarrow> ''NOT_FOUND'' | ASSET_IN_USE \<Rightarrow> ''ASSET_IN_USE'' | RESOURCE_IN_USE \<Rightarrow> ''RESOURCE_IN_USE''
      | ALT_TEXT_REQUIRED \<Rightarrow> ''ALT_TEXT_REQUIRED'' | LAST_ADMIN \<Rightarrow> ''LAST_ADMIN'' | SLUG_TAKEN \<Rightarrow> ''SLUG_TAKEN''
      | PUBLISH_BLOCKED \<Rightarrow> ''PUBLISH_BLOCKED'' | RATE_LIMITED \<Rightarrow> ''RATE_LIMITED''
      | UNSUPPORTED_PROVIDER \<Rightarrow> ''UNSUPPORTED_PROVIDER'' | SOURCE_TYPE_MISMATCH \<Rightarrow> ''SOURCE_TYPE_MISMATCH''
      | UNKNOWN_VARIABLE \<Rightarrow> ''UNKNOWN_VARIABLE'' | FEATURE_DISABLED \<Rightarrow> ''FEATURE_DISABLED''
      | NOT_IMPLEMENTED \<Rightarrow> ''NOT_IMPLEMENTED'' | REDIRECT_CHAIN \<Rightarrow> ''REDIRECT_CHAIN'')"

definition CONFLICT :: string where "CONFLICT = ''CONFLICT''"
definition INTERNAL_ERROR :: string where "INTERNAL_ERROR = ''INTERNAL_ERROR''"

record resolved_problem =
  rs_status :: nat
  rs_code :: string
  rs_title :: string
  rs_extra :: "(string \<times> json) list"

definition to_kebab :: "string \<Rightarrow> string" where
  "to_kebab code = map (\<lambda>c. if c = CHR ''_'' then CHR ''-'' else c) (to_lower code)"

definition code_for_status :: "nat \<Rightarrow> string" where
  "code_for_status st =
     (if st = 400 \<or> st = 422 then code_name VALIDATION_FAILED
      else if st = 401 then code_name UNAUTHENTICATED
      else if st = 403 then code_name FORBIDDEN
      else if st = 404 then code_name NOT_FOUND
      else if st = 409 then CONFLICT
      else if st = 429 then code_name RATE_LIMITED
      else if 500 \<le> st then INTERNAL_ERROR else CONFLICT)"

definition extract_title :: "string list \<Rightarrow> string \<Rightarrow> string" where
  "extract_title messages message = (if messages \<noteq> [] then join_with ''; '' messages else message)"

definition resolve_exception :: "exn \<Rightarrow> resolved_problem" where
  "resolve_exception e =
     (case e of
        ProblemExn p \<Rightarrow> \<lparr>rs_status = pr_status p, rs_code = code_name (pr_code p), rs_title = pr_title p, rs_extra = pr_extra p\<rparr>
      | ZodExn issues \<Rightarrow>
          \<lparr>rs_status = 400, rs_code = code_name VALIDATION_FAILED, rs_title = ''Request validation failed'',
           rs_extra = (case issues of None \<Rightarrow> [] | Some i \<Rightarrow> [(''issues'', i)])\<rparr>
      | QueryFailed code errno \<Rightarrow>
          if code = Some ''ER_ROW_IS_REFERENCED_2'' \<or> errno = Some 1451
          then \<lparr>rs_status = 409, rs_code = CONFLICT, rs_title = ''This item is referenced elsewhere and cannot be deleted'', rs_extra = []\<rparr>
          else if code = Some ''ER_DUP_ENTRY'' \<or> errno = Some 1062
          then \<lparr>rs_status = 409, rs_code = CONFLICT, rs_title = ''A record with that value already exists'', rs_extra = []\<rparr>
          else \<lparr>rs_status = 500, rs_code = INTERNAL_ERROR, rs_title = ''Database error'', rs_extra = []\<rparr>
      | HttpExn st messages message \<Rightarrow>
          \<lparr>rs_status = st, rs_code = code_for_status st, rs_title = extract_title messages message, rs_extra = []\<rparr>
      | OtherExn _ \<Rightarrow>
          \<lparr>rs_status = 500, rs_code = INTERNAL_ERROR, rs_title = ''An unexpected error occurred'', rs_extra = []\<rparr>)"

record problem_response =
  px_status :: nat
  px_noStore :: bool
  px_contentType :: string
  px_body :: "(string \<times> json) list"

text \<open>The spread of \<open>extra\<close> comes last: a member of the same name replaces the standard one.\<close>

definition problem_body :: "string \<Rightarrow> resolved_problem \<Rightarrow> (string \<times> json) list" where
  "problem_body request_id r =
     fold (\<lambda>(k, v). AList.update k v) (rs_extra r)
       [(''type'', JStr (''https://safeer-sa.org/errors/'' @ to_kebab (rs_code r))), (''title'', JStr (rs_title r)),
        (''status'', JNum (int (rs_status r))), (''code'', JStr (rs_code r)), (''requestId'', JStr request_id)]"

text \<open>The answer, and the line for the error log.\<close>

definition catch_exception :: "string \<Rightarrow> exn \<Rightarrow> problem_response \<times> string option" where
  "catch_exception request_id e =
     (let r = resolve_exception e in
      (\<lparr>px_status = rs_status r, px_noStore = (400 \<le> rs_status r), px_contentType = ''application/problem+json'',
        px_body = problem_body request_id r\<rparr>,
       if 500 \<le> rs_status r then Some (''['' @ request_id @ ''] '' @ rs_code r @ '': '' @ rs_title r) else None))"

section \<open>The audit log\<close>

record audit_note =
  an_action :: audit_action
  an_entityType :: string
  an_entityId :: "string option"
  an_entityLabel :: "string option"
  an_before :: "json option"
  an_after :: "json option"

definition json_or_null :: "json option \<Rightarrow> json" where
  "json_or_null v = (case v of None \<Rightarrow> JNull | Some j \<Rightarrow> j)"

definition audit_diff :: "audit_note \<Rightarrow> json option" where
  "audit_diff n =
     (if an_before n \<noteq> None \<or> an_after n \<noteq> None
      then Some (JObj [(''before'', json_or_null (an_before n)), (''after'', json_or_null (an_after n))]) else None)"

text \<open>
  The interceptor after a handler: \<open>note\<close> is \<open>req.auditContext\<close>, \<open>stored\<close> whether the insert
  succeeded. Rows carry their auto-increment id.
\<close>

definition audit_intercept ::
  "nat \<Rightarrow> time \<Rightarrow> request \<Rightarrow> string option \<Rightarrow> audit_note option \<Rightarrow> bool \<Rightarrow> 'a res \<Rightarrow> (nat \<times> audit_row) list \<Rightarrow> (nat \<times> audit_row) list" where
  "audit_intercept new_id now rq ip_hash note stored r log =
     (if \<not> is_admin_route (rq_path rq) \<or> rq_method rq = ''HEAD'' \<or> rq_method rq = ''OPTIONS'' then log
      else if \<not> ok r then log
      else case note of
             None \<Rightarrow> log
           | Some n \<Rightarrow>
               if stored
               then log @ [(new_id, \<lparr>a_actorId = map_option fst (rq_user rq), a_action = an_action n, a_entityType = an_entityType n,
                      a_entityId = an_entityId n, a_entityLabel = an_entityLabel n, a_diff = audit_diff n, a_ipHash = ip_hash,
                      a_createdAt = now\<rparr>)]
               else log)"

definition AUDIT_DEFAULT_LIMIT :: int where "AUDIT_DEFAULT_LIMIT = 50"
definition AUDIT_MAX_LIMIT :: int where "AUDIT_MAX_LIMIT = 200"

text \<open>\<open>ORDER BY created_at DESC\<close>; ties keep the order of the table.\<close>

definition audit_matches :: "sql_compare \<Rightarrow> query \<Rightarrow> nat \<times> audit_row \<Rightarrow> bool" where
  "audit_matches c q r =
     (let entity = (case read_string q ''entity'' of None \<Rightarrow> [] | Some s \<Rightarrow> s);
          actor = (case read_string q ''actor'' of None \<Rightarrow> [] | Some s \<Rightarrow> s)
      in (entity = [] \<or> sc_text c (a_entityType (snd r)) entity)
         \<and> (actor = [] \<or> (case a_actorId (snd r) of None \<Rightarrow> False | Some i \<Rightarrow> sc_id c i actor)))"

definition latest_rows :: "(nat \<times> audit_row) list \<Rightarrow> (nat \<times> audit_row) list" where
  "latest_rows log = sort_key (\<lambda>(_, a). - a_createdAt a) log"

definition audit_list :: "sql_compare \<Rightarrow> query \<Rightarrow> (nat \<times> audit_row) list \<Rightarrow> (nat \<times> audit_row) paged_result" where
  "audit_list c q log =
     (let pl = read_page_limit AUDIT_DEFAULT_LIMIT AUDIT_MAX_LIMIT q;
          found = latest_rows (filter (audit_matches c q) log)
      in \<lparr>pg_data = (if pl_beyondMaxOffset pl then [] else take (nat (pl_limit pl)) (drop (nat (pl_offset pl)) found)),
          pg_total = length found, pg_page = pl_page pl, pg_limit = pl_limit pl\<rparr>)"

section \<open>The admin overview\<close>

definition RECENT_AUDIT_LIMIT :: nat where "RECENT_AUDIT_LIMIT = 20"

record recent_audit_entry =
  ra_id :: string
  ra_action :: audit_action
  ra_entityType :: string
  ra_entityId :: "string option"
  ra_entityLabel :: "string option"
  ra_actorId :: "string option"
  ra_actorName :: "string option"
  ra_createdAt :: time

record overview =
  ov_unreadMessages :: "nat option"
  ov_noPublishedPartners :: bool
  ov_legacyPostsCount :: nat
  ov_pagesNeedingReviewCount :: nat
  ov_recentAuditLog :: "recent_audit_entry list"

definition has_area :: "area \<Rightarrow> user_role \<Rightarrow> bool" where
  "has_area a role \<longleftrightarrow> role \<in> set (AREA_ROLES a)"

definition recent_entry :: "user list \<Rightarrow> nat \<times> audit_row \<Rightarrow> recent_audit_entry" where
  "recent_entry users r =
     (case r of (i, a) \<Rightarrow>
        \<lparr>ra_id = show_nat i, ra_action = a_action a, ra_entityType = a_entityType a, ra_entityId = a_entityId a,
         ra_entityLabel = a_entityLabel a, ra_actorId = a_actorId a,
         ra_actorName = Option.bind (a_actorId a) (\<lambda>k. map_option u_name (List.find (\<lambda>u. u_id u = k) users)),
         ra_createdAt = a_createdAt a\<rparr>)"

definition recent_audit_log :: "user list \<Rightarrow> (nat \<times> audit_row) list \<Rightarrow> recent_audit_entry list" where
  "recent_audit_log users log =
     map (recent_entry users) (take RECENT_AUDIT_LIMIT (latest_rows (sort_key (\<lambda>(i, _). - int i) log)))"

definition admin_overview :: "user_role \<Rightarrow> inbox \<Rightarrow> content \<Rightarrow> user list \<Rightarrow> (nat \<times> audit_row) list \<Rightarrow> overview" where
  "admin_overview role ib ct users log =
     \<lparr>ov_unreadMessages = (if has_area InboxArea role then Some (count_unread ib) else None),
      ov_noPublishedPartners = (filter pt_isPublished (ct_partners ct) = []),
      ov_legacyPostsCount = length (filter po_isLegacy (ct_posts ct)),
      ov_pagesNeedingReviewCount = length (filter pa_needsReview (ct_pages ct)),
      ov_recentAuditLog = (if role = Admin then recent_audit_log users log else [])\<rparr>"

section \<open>Lemmas\<close>

text \<open>What one member contributes to the collapsed object.\<close>

definition contribution :: "loc \<Rightarrow> (string \<times> json) list \<Rightarrow> string \<times> json \<Rightarrow> (string \<times> json) option" where
  "contribution l fs m =
     (let (key, collapsed) = m; keys = map fst fs; base = base_name key in
      if suffixed ''Ar'' key \<and> merges keys base
      then Some (base, if use_english l (map_of fs (base @ ''En'')) then the (map_of fs (base @ ''En'')) else the (map_of fs key))
      else if suffixed ''En'' key \<and> merges keys base then None else Some m)"

lemma assign_member_contribution:
  "assign_member l fs m result = (case contribution l fs m of None \<Rightarrow> result | Some (k, v) \<Rightarrow> AList.update k v result)"
  by (cases m) (simp add: assign_member_def contribution_def Let_def)

lemma map_of_assigned:
  assumes "\<And>m v. m \<in> set ms \<Longrightarrow> contribution l fs m = Some (k, v) \<Longrightarrow> v = w"
  shows "map_of (fold (assign_member l fs) ms acc) k
    = (if \<exists>m \<in> set ms. \<exists>v. contribution l fs m = Some (k, v) then Some w else map_of acc k)"
  using assms
proof (induction ms arbitrary: acc)
  case (Cons m ms)
  have "map_of (assign_member l fs m acc) k = (if \<exists>v. contribution l fs m = Some (k, v) then Some w else map_of acc k)"
    using Cons.prems [of m] by (auto simp: assign_member_contribution update_conv split: option.split)
  moreover have "map_of (fold (assign_member l fs) ms (assign_member l fs m acc)) k
      = (if \<exists>m \<in> set ms. \<exists>v. contribution l fs m = Some (k, v) then Some w else map_of (assign_member l fs m acc) k)"
    by (rule Cons.IH) (rule Cons.prems, simp_all)
  ultimately show ?case by simp
qed simp

lemma suffixed_base: "suffixed ''Ar'' key \<longleftrightarrow> key = base_name key @ ''Ar''" "suffixed ''En'' key \<longleftrightarrow> key = base_name key @ ''En''"
proof -
  have "suffixed s key \<longleftrightarrow> key = base_name key @ s" if "length s = 2" for s
  proof
    assume "suffixed s key"
    then show "key = base_name key @ s" using that by (metis append_take_drop_id base_name_def suffixed_def)
  next
    assume k: "key = base_name key @ s"
    then have "length key = length (base_name key) + length s" by (metis length_append)
    then show "suffixed s key" using k by (metis add_diff_cancel_right' append_eq_conv_conj le_add2 suffixed_def)
  qed
  then show "suffixed ''Ar'' key \<longleftrightarrow> key = base_name key @ ''Ar''" "suffixed ''En'' key \<longleftrightarrow> key = base_name key @ ''En''" by simp_all
qed

lemma base_name_append [simp]: "base_name (b @ ''Ar'') = b" "base_name (b @ ''En'') = b"
  by (simp_all add: base_name_def)

definition collapsed_members :: "loc \<Rightarrow> (string \<times> json) list \<Rightarrow> (string \<times> json) list" where
  "collapsed_members l fs = map (map_prod id (collapse_bilingual l)) fs"

lemma collapsed_member:
  assumes "distinct (map fst fs)"
  shows "(key, v) \<in> set (collapsed_members l fs) \<longleftrightarrow> (\<exists>w. map_of fs key = Some w \<and> v = collapse_bilingual l w)"
  using assms by (force simp: collapsed_members_def map_of_eq_Some_iff)

lemma member_known: "key \<in> set (map fst fs) \<longleftrightarrow> (\<exists>w. map_of fs key = Some w)"
  by (metis map_of_eq_None_iff not_None_eq set_map)

lemma pair_merged:
  assumes "distinct (map fst fs)" "merges (map fst fs) k" "k \<notin> set (map fst fs)"
  shows "map_of (fold (assign_member l fs) (collapsed_members l fs) []) k
    = (if use_english l (map_of fs (k @ ''En'')) then map_of fs (k @ ''En'') else map_of fs (k @ ''Ar''))"
proof -
  let ?w = "if use_english l (map_of fs (k @ ''En'')) then the (map_of fs (k @ ''En'')) else the (map_of fs (k @ ''Ar''))"
  have arabic: "suffixed ''Ar'' key \<Longrightarrow> base_name key = k \<Longrightarrow> key = k @ ''Ar''" for key
    using suffixed_base(1) [of key] by simp
  have "v = ?w" if "m \<in> set (collapsed_members l fs)" "contribution l fs m = Some (k, v)" for m v
  proof -
    obtain key u where m: "m = (key, u)" by fastforce
    then have "key \<in> set (map fst fs)" using that(1) by (force simp: collapsed_members_def)
    then have "key \<noteq> k" using assms(3) by blast
    then show ?thesis
      using that(2) arabic [of key] m by (auto simp: contribution_def Let_def split: if_splits)
  qed
  moreover have "\<exists>m \<in> set (collapsed_members l fs). \<exists>v. contribution l fs m = Some (k, v)"
  proof -
    obtain a where "map_of fs (k @ ''Ar'') = Some a" using assms(2) member_known [of _ fs] by (auto simp: merges_def)
    then have "(k @ ''Ar'', collapse_bilingual l a) \<in> set (collapsed_members l fs)" using collapsed_member [OF assms(1)] by blast
    moreover have "suffixed ''Ar'' (k @ ''Ar'')" by (simp add: suffixed_def)
    ultimately show ?thesis using assms(2) by (intro bexI) (simp_all add: contribution_def Let_def)
  qed
  ultimately have "map_of (fold (assign_member l fs) (collapsed_members l fs) []) k = Some ?w" by (subst map_of_assigned) auto
  then show ?thesis using assms(2) member_known [of _ fs] by (auto simp: merges_def)
qed

lemma unpaired_kept:
  assumes "distinct (map fst fs)" "\<not> merges (map fst fs) k"
  shows "map_of (fold (assign_member l fs) (collapsed_members l fs) []) k
    = (if suffixed ''Ar'' k \<and> merges (map fst fs) (base_name k) \<or> suffixed ''En'' k \<and> merges (map fst fs) (base_name k) then None
       else map_option (collapse_bilingual l) (map_of fs k))"
proof -
  note member = collapsed_member [OF assms(1), of _ _ l]
  have c: "contribution l fs (key, v) = Some (k, u) \<longleftrightarrow> key = k \<and> u = v
      \<and> \<not> (suffixed ''Ar'' k \<and> merges (map fst fs) (base_name k)) \<and> \<not> (suffixed ''En'' k \<and> merges (map fst fs) (base_name k))"
    for key v u using assms(2) by (auto simp: contribution_def Let_def)
  show ?thesis
  proof (cases "map_of fs k")
    case None
    then have "\<not> (\<exists>m \<in> set (collapsed_members l fs). \<exists>v. contribution l fs m = Some (k, v))" using c member by fastforce
    then show ?thesis using None by (subst map_of_assigned) auto
  next
    case (Some w)
    have "map_of (fold (assign_member l fs) (collapsed_members l fs) []) k
        = (if \<exists>m \<in> set (collapsed_members l fs). \<exists>v. contribution l fs m = Some (k, v) then Some (collapse_bilingual l w) else map_of [] k)"
      by (rule map_of_assigned) (use c member Some in fastforce)
    moreover have "(k, collapse_bilingual l w) \<in> set (collapsed_members l fs)" using member Some by blast
    ultimately show ?thesis using Some c by auto
  qed
qed


lemma map_of_spread:
  "map_of (fold (\<lambda>(k, v). AList.update k v) xs acc) j = (case map_of (rev xs) j of None \<Rightarrow> map_of acc j | Some v \<Rightarrow> Some v)"
  by (induction xs arbitrary: acc) (auto simp: update_conv map_add_def split: option.split)

definition STANDARD_MEMBERS :: "string list" where
  "STANDARD_MEMBERS = [''type'', ''title'', ''status'', ''code'', ''requestId'']"


text \<open>
  The overview shows a role its own areas. Message counts depend on the inbox only for the
  roles of the inbox area, the recent log is empty for everyone but admins, and for nobody does
  the overview depend on the before/after snapshots or the IP hashes of the log.
\<close>

theorem overview_narrowed_by_role:
  "(role = Editor \<longrightarrow> admin_overview role ib ct users log = admin_overview role ib' ct users log)
    \<and> (role \<noteq> Admin \<longrightarrow> admin_overview role ib ct users log = admin_overview role ib ct users' log')
    \<and> admin_overview role ib ct users (map (\<lambda>(i, a). (i, a\<lparr>a_diff := diff i, a_ipHash := hash i\<rparr>)) log)
        = admin_overview role ib ct users log"
proof -
  let ?hide = "\<lambda>(i, a :: audit_row). (i, a\<lparr>a_diff := diff i, a_ipHash := hash i\<rparr>)"
  have entry: "recent_entry users (?hide r) = recent_entry users r" for r
    by (cases r) (simp add: recent_entry_def)
  have "sort_key (\<lambda>(i, _). - int i) (map ?hide log) = map ?hide (sort_key (\<lambda>(i, _). - int i) log)"
    by (rule sort_key_map) (simp split: prod.split)
  moreover have "latest_rows (map ?hide xs) = map ?hide (latest_rows xs)" for xs
    unfolding latest_rows_def by (rule sort_key_map) (simp split: prod.split)
  ultimately have "recent_audit_log users (map ?hide log) = recent_audit_log users log"
    by (simp add: recent_audit_log_def take_map entry)
  then show ?thesis by (simp add: admin_overview_def has_area_def)
qed

lemma parse_digits: "ds \<noteq> [] \<Longrightarrow> (\<forall>d \<in> set ds. is_digit d) \<Longrightarrow> parse_int ds = Some (int (read_nat ds))"
proof -
  assume ds: "ds \<noteq> []" "\<forall>d \<in> set ds. is_digit d"
  have apart: "is_digit d \<Longrightarrow> \<not> is_space d \<and> d \<noteq> CHR ''-'' \<and> d \<noteq> CHR ''+''" for d
    by (auto simp: is_digit_def is_space_def)
  then have "dropWhile is_space ds = ds" "hd ds \<noteq> CHR ''-''" "hd ds \<noteq> CHR ''+''" "takeWhile is_digit ds = ds"
    using ds by (cases ds; auto)+
  then show ?thesis using ds by (simp add: parse_int_def Let_def takeWhile_eq_all_conv [THEN iffD2])
qed

lemma parse_show_nat [simp]: "parse_int (show_nat n) = Some (int n)"
  by (subst parse_digits) (auto dest: show_nat_digits)

lemma read_page_limit_shown:
  assumes "1 \<le> p" "1 \<le> per" "int per \<le> most" "map_of q ''page'' = Some (QStr (show_nat p))" "map_of q ''limit'' = Some (QStr (show_nat per))"
  shows "read_page_limit least most q = \<lparr>pl_page = int p, pl_limit = int per, pl_offset = min (int ((p - 1) * per)) MAX_OFFSET,
    pl_beyondMaxOffset = (MAX_OFFSET < int ((p - 1) * per))\<rparr>"
  using assms by (simp add: read_page_limit_def read_string_def as_string_def or_default_def Let_def of_nat_diff)

lemma pages_joined: "concat (map (\<lambda>p. take per (drop ((p - 1) * per) xs)) [1..<n + 1]) = take (n * per) xs"
proof (induction n)
  case (Suc n)
  then show ?case by (simp add: take_add [symmetric] add.commute)
qed simp


section \<open>Witnesses\<close>



definition by_equality :: sql_compare where
  "by_equality = \<lparr>sc_id = (=), sc_text = (=), sc_int = (\<lambda>_ _. False), sc_time = (\<lambda>_ _. False)\<rparr>"

definition logged_at :: "time \<Rightarrow> audit_row" where
  "logged_at t =
     \<lparr>a_actorId = Some ''1'', a_action = AUpdate, a_entityType = ''pages'', a_entityId = Some ''3'', a_entityLabel = None,
      a_diff = None, a_ipHash = None, a_createdAt = t\<rparr>"


end
