(* ===== verification/StaffRoutes.thy ===== *)
theory StaffRoutes
  imports Responses PublicRoutes AuthProps
begin

text \<open>
  The routes of \<open>auth/auth.controller.ts\<close> as they are served: guards, handler, session cookie and
  audit row; and \<open>preview/preview.controller.ts\<close>, which hands out the links that open a draft.
  Rate limits of \<open>@Throttle\<close> belong to a library and are left out.
\<close>

section \<open>Calls and answers\<close>

text \<open>A call carries the values the handler draws: ids, tokens, and what other requests wrote during Argon2.\<close>

datatype auth_call =
    LoginCall "auth_db \<Rightarrow> auth_db" string string login_request
  | LogoutCall
  | MeCall
  | ListSessionsCall
  | EndSessionCall string
  | EndOthersCall
  | ChangePasswordCall string string
  | InviteCall string string string string string user_role
  | AcceptCall string string
  | ForgotCall string string string
  | ResetCall string string

datatype auth_body =
    SignedIn public_user string
  | MeBody public_user string
  | SessionsBody "session_summary list"
  | EndedBody nat
  | CreatedBody public_user
  | OkBody

datatype cookie_change = SetCookie string cookie_options | ClearCookie cookie_options

record auth_answer =
  aw_body :: "auth_body res"
  aw_cookie :: "cookie_change option"
  aw_note :: "audit_note option"
  aw_mails :: "send_mail list"

record staff_env =
  sv_auth :: auth_env
  sv_node :: node_env
  sv_id :: "string \<Rightarrow> string \<Rightarrow> bool"
  sv_iso :: "time \<Rightarrow> string"

definition auth_route :: "auth_call \<Rightarrow> route" where
  "auth_route call =
     (case call of
        LoginCall _ _ _ _ \<Rightarrow> \<lparr>rt_public = True, rt_area = None\<rparr>
      | AcceptCall _ _ \<Rightarrow> \<lparr>rt_public = True, rt_area = None\<rparr>
      | ForgotCall _ _ _ \<Rightarrow> \<lparr>rt_public = True, rt_area = None\<rparr>
      | ResetCall _ _ \<Rightarrow> \<lparr>rt_public = True, rt_area = None\<rparr>
      | InviteCall _ _ _ _ _ _ \<Rightarrow> \<lparr>rt_public = False, rt_area = Some UsersArea\<rparr>
      | _ \<Rightarrow> \<lparr>rt_public = False, rt_area = None\<rparr>)"

definition auth_method :: "auth_call \<Rightarrow> string" where
  "auth_method call =
     (case call of
        MeCall \<Rightarrow> ''GET'' | ListSessionsCall \<Rightarrow> ''GET''
      | EndSessionCall _ \<Rightarrow> ''DELETE'' | EndOthersCall \<Rightarrow> ''DELETE''
      | ChangePasswordCall _ _ \<Rightarrow> ''PATCH''
      | _ \<Rightarrow> ''POST'')"

section \<open>Handlers\<close>

definition audit_noted :: "audit_action \<Rightarrow> string \<Rightarrow> string option \<Rightarrow> string \<Rightarrow> json option \<Rightarrow> audit_note option" where
  "audit_noted action entity_type i label after =
     Some \<lparr>an_action = action, an_entityType = entity_type, an_entityId = i, an_entityLabel = Some label,
           an_before = None, an_after = after\<rparr>"

definition answering :: "auth_body \<Rightarrow> audit_note option \<Rightarrow> auth_answer" where
  "answering b n = \<lparr>aw_body = Inr b, aw_cookie = None, aw_note = n, aw_mails = []\<rparr>"

definition refused :: "exn \<Rightarrow> auth_answer" where
  "refused e = \<lparr>aw_body = Inl e, aw_cookie = None, aw_note = None, aw_mails = []\<rparr>"

definition role_text :: "user_role \<Rightarrow> string" where
  "role_text r = (case r of Admin \<Rightarrow> ''admin'' | Editor \<Rightarrow> ''editor'' | Support \<Rightarrow> ''support'')"

definition status_text :: "user_status \<Rightarrow> string" where
  "status_text s = (case s of Active \<Rightarrow> ''active'' | Invited \<Rightarrow> ''invited'' | Disabled \<Rightarrow> ''disabled'')"

text \<open>The created account as the audit row keeps it.\<close>

definition public_user_json :: "(time \<Rightarrow> string) \<Rightarrow> public_user \<Rightarrow> json" where
  "public_user_json iso_time u =
     (let date = (\<lambda>t. case t of None \<Rightarrow> JNull | Some t \<Rightarrow> JStr (iso_time t)) in
      JObj [(''id'', JStr (pu_id u)), (''name'', JStr (pu_name u)), (''email'', JStr (AuthData.pu_email u)), (''role'', JStr (role_text (pu_role u))),
            (''status'', JStr (status_text (pu_status u))), (''isLocked'', JBool (pu_isLocked u)), (''lockedUntil'', date (pu_lockedUntil u)),
            (''failedLogins'', JNum (int (pu_failedLogins u))), (''lastLoginAt'', date (pu_lastLoginAt u)),
            (''createdAt'', date (Some (pu_createdAt u))), (''updatedAt'', date (Some (pu_updatedAt u)))])"

text \<open>
  The handlers after the guards, for a request whose \<open>user\<close>, \<open>sessionId\<close> and \<open>sessionTokenHash\<close> they
  set; without them the code's \<open>!\<close> would fail on \<open>undefined\<close>.
\<close>

definition auth_handle :: "staff_env \<Rightarrow> time \<Rightarrow> request \<Rightarrow> auth_call \<Rightarrow> auth_state \<Rightarrow> auth_answer \<times> auth_state" where
  "auth_handle se now rq call st =
     (let env = sv_auth se; db = as_db st;
          user = (case rq_user rq of None \<Rightarrow> ([], Support) | Some u \<Rightarrow> u);
          session = (case rq_sessionId rq of None \<Rightarrow> [] | Some s \<Rightarrow> s);
          token_hash = (case rq_sessionTokenHash rq of None \<Rightarrow> [] | Some h \<Rightarrow> h)
      in case call of
           LoginCall race sid token lq \<Rightarrow>
             (case login env now race sid token lq st of
                (Inl e, st', _) \<Rightarrow> (refused e, st')
              | (Inr r, st', _) \<Rightarrow>
                  ((answering (SignedIn (lr_user r) (lr_csrfToken r)) None)
                     \<lparr>aw_cookie := Some (SetCookie (lr_token r) (session_cookie_options (sv_node se) (days (ae_absolute_days env))))\<rparr>, st'))
         | LogoutCall \<Rightarrow>
             ((answering OkBody (audit_noted AUpdate ''sessions'' (Some session) ''Sign out'' None))
                \<lparr>aw_cookie := Some (ClearCookie (clear_session_cookie_options (sv_node se)))\<rparr>,
              st\<lparr>as_db := logout now session db\<rparr>)
         | MeCall \<Rightarrow>
             (case find_by_id (sv_id se) (fst user) db of
                Inl e \<Rightarrow> (refused e, st)
              | Inr u \<Rightarrow> (answering (MeBody (to_public_user now u) (compute_csrf_token env (ae_app_key env) token_hash)) None, st))
         | ListSessionsCall \<Rightarrow> (answering (SessionsBody (list_sessions env now (fst user) session db)) None, st)
         | EndSessionCall i \<Rightarrow>
             (case end_session (sv_id se) now (fst user) (snd user) i db of
                (Inl e, db') \<Rightarrow> (refused e, st\<lparr>as_db := db'\<rparr>)
              | (Inr _, db') \<Rightarrow> (answering OkBody (audit_noted AUpdate ''sessions'' (Some i) ''End session'' None), st\<lparr>as_db := db'\<rparr>))
         | EndOthersCall \<Rightarrow>
             (case end_other_sessions now (fst user) session db of
                (n, db') \<Rightarrow> (answering (EndedBody n)
                   (audit_noted AUpdate ''sessions'' None (''Ended '' @ show_nat n @ '' other session(s)'') None), st\<lparr>as_db := db'\<rparr>))
         | ChangePasswordCall current_pw new_pw \<Rightarrow>
             (case change_password env now (fst user) current_pw new_pw session db of
                (Inl e, db') \<Rightarrow> (refused e, st\<lparr>as_db := db'\<rparr>)
              | (Inr _, db') \<Rightarrow> (answering OkBody (audit_noted AUpdate ''users'' (Some (fst user)) ''Password change'' None), st\<lparr>as_db := db'\<rparr>))
         | InviteCall uid tid raw email name role \<Rightarrow>
             (case find_by_id (sv_id se) (fst user) db of
                Inl e \<Rightarrow> (refused e, st)
              | Inr inviter \<Rightarrow>
                  (case invite env now uid tid raw (to_public_user now inviter) email name role db of
                     (Inl e, db', _) \<Rightarrow> (refused e, st\<lparr>as_db := db'\<rparr>)
                   | (Inr u, db', mails) \<Rightarrow>
                       ((answering (CreatedBody u) (audit_noted ACreate ''users'' (Some (pu_id u)) (pu_name u) (Some (public_user_json (sv_iso se) u))))
                          \<lparr>aw_mails := mails\<rparr>, st\<lparr>as_db := db'\<rparr>)))
         | AcceptCall raw pw \<Rightarrow>
             (case accept_invite env now raw pw db of
                (Inl e, db') \<Rightarrow> (refused e, st\<lparr>as_db := db'\<rparr>)
              | (Inr u, db') \<Rightarrow> (answering OkBody (audit_noted AUpdate ''users'' (Some (pu_id u)) (pu_name u) None), st\<lparr>as_db := db'\<rparr>))
         | ForgotCall tid raw email \<Rightarrow>
             (case send_password_reset env now tid raw email db of
                (db', mails) \<Rightarrow> ((answering OkBody None)\<lparr>aw_mails := mails\<rparr>, st\<lparr>as_db := db'\<rparr>))
         | ResetCall raw pw \<Rightarrow>
             (case reset_password env now raw pw db of
                (Inl e, db') \<Rightarrow> (refused e, st\<lparr>as_db := db'\<rparr>)
              | (Inr u, db') \<Rightarrow> (answering OkBody (audit_noted AUpdate ''users'' (Some (pu_id u)) (pu_name u) None), st\<lparr>as_db := db'\<rparr>)))"

section \<open>A served request\<close>

record staff_request =
  sq_now :: time
  sq_cookie :: "string option"
  sq_csrf :: "string option"
  sq_path :: string
  sq_ipHash :: "string option"
  sq_audited :: bool
  sq_call :: auth_call

definition request_of :: "staff_request \<Rightarrow> request" where
  "request_of q =
     \<lparr>rq_method = auth_method (sq_call q), rq_path = sq_path q, rq_cookie = sq_cookie q, rq_csrfHeader = sq_csrf q,
      rq_user = None, rq_sessionId = None, rq_sessionTokenHash = None\<rparr>"

text \<open>The audit rows of the database, numbered from the first.\<close>

definition serve_auth :: "staff_env \<Rightarrow> staff_request \<Rightarrow> auth_state \<Rightarrow> auth_answer \<times> auth_state" where
  "serve_auth se q st =
     (case guard_chain (sv_auth se) (sq_now q) (auth_route (sq_call q)) (request_of q) (as_db st) of
        (Inl e, db) \<Rightarrow> (refused e, st\<lparr>as_db := db\<rparr>)
      | (Inr rq, db) \<Rightarrow>
          (let (a, st') = auth_handle se (sq_now q) rq (sq_call q) (st\<lparr>as_db := db\<rparr>);
               log = audit_intercept (length (db_audit (as_db st'))) (sq_now q) rq (sq_ipHash q) (aw_note a) (sq_audited q) (aw_body a)
                       (List.enumerate 0 (db_audit (as_db st')))
           in (a, st'\<lparr>as_db := (as_db st')\<lparr>db_audit := map snd log\<rparr>\<rparr>)))"

section \<open>Preview links\<close>

definition PREVIEW_COLLECTIONS :: "string list" where
  "PREVIEW_COLLECTIONS = [''posts'']"

definition preview_issue :: "auth_env \<Rightarrow> sql_compare \<Rightarrow> nat \<Rightarrow> query \<Rightarrow> post list \<Rightarrow> (string \<times> nat) res" where
  "preview_issue env c now q posts =
     (let collection = (case read_string q ''collection'' of None \<Rightarrow> [] | Some s \<Rightarrow> s);
          i = (case read_string q ''id'' of None \<Rightarrow> [] | Some s \<Rightarrow> s)
      in if collection = [] \<or> i = [] \<or> collection \<notin> set PREVIEW_COLLECTIONS
         then fail 400 VALIDATION_FAILED (''collection must be one of '' @ join_with '', '' PREVIEW_COLLECTIONS @ '', and id is required'')
         else if \<not> list_ex (\<lambda>p. sc_id c (po_id p) i) posts then fail 404 NOT_FOUND ''Not found''
         else Inr (issue_preview_token env now collection i, PREVIEW_TOKEN_TTL_SECONDS))"

section \<open>A session once ended\<close>

definition no_live :: "string \<Rightarrow> auth_db \<Rightarrow> bool" where
  "no_live h db \<longleftrightarrow> (\<forall>s \<in> set (db_sessions db). s_tokenHash s = h \<longrightarrow> s_revokedAt s \<noteq> None)"

text \<open>Later sign-ins draw other tokens, and what runs beside them brings no session of the old one.\<close>

definition draws_other :: "staff_env \<Rightarrow> string \<Rightarrow> staff_request \<Rightarrow> bool" where
  "draws_other se h q \<longleftrightarrow>
     (case sq_call q of
        LoginCall race sid token lq \<Rightarrow> hash_token (sv_auth se) token \<noteq> h \<and> (\<forall>db. no_live h db \<longrightarrow> no_live h (race db))
      | _ \<Rightarrow> True)"

lemma no_live_sessions: "db_sessions a = db_sessions b \<Longrightarrow> no_live h a \<longleftrightarrow> no_live h b"
  by (simp add: no_live_def)

lemma no_live_update:
  assumes "no_live h db" and "db_sessions db' = update_rows P f (db_sessions db)"
    and "\<And>s. s_tokenHash (f s) = s_tokenHash s \<and> (s_revokedAt s \<noteq> None \<longrightarrow> s_revokedAt (f s) \<noteq> None)"
  shows "no_live h db'"
  using assms by (auto simp: no_live_def update_rows_def)

lemma no_live_revoked:
  "no_live h db \<Longrightarrow> db_sessions db' = update_rows P (\<lambda>s. s\<lparr>s_revokedAt := Some now\<rparr>) (db_sessions db) \<Longrightarrow> no_live h db'"
  by (rule no_live_update) auto

lemma no_live_guards:
  assumes "no_live h db"
  shows "no_live h (snd (guard_chain env now rt rq db))"
proof -
  have "no_live h db'" if "resolve_staff_session env now c rq db = (b, rq', db')" for c b rq' db'
    using that assms no_live_update [OF assms, of db' _ "\<lambda>r. r\<lparr>s_lastSeenAt := now\<rparr>"]
    by (auto simp: resolve_staff_session_def Let_def split: option.splits if_splits)
  then have "no_live h (snd (session_guard env now rt rq db))"
    using assms by (auto simp: session_guard_def Let_def split: prod.split bool.split)
  then show ?thesis by (auto simp: guard_chain_def split: prod.split sum.split)
qed

lemma no_live_consumed:
  assumes "no_live h db" and "consume_token env now raw purpose allowed f also db = (r, db')"
    and "\<And>u db. no_live h db \<Longrightarrow> no_live h (also u db)"
  shows "no_live h db'"
proof -
  have "no_live h (db\<lparr>db_users := us, db_tokens := ts\<rparr>)" for us ts using assms(1) by (simp add: no_live_def)
  then show ?thesis using assms by (auto simp: consume_token_def Let_def split: option.splits if_splits)
qed

lemma no_live_login:
  assumes "no_live h (as_db st)" and "login env now race sid token lq st = (r, st', hs)"
    and "hash_token env token \<noteq> h" and "\<And>db. no_live h db \<Longrightarrow> no_live h (race db)"
  shows "no_live h (as_db st')"
proof -
  have raced: "no_live h (race (as_db st))" using assms(1,4) by blast
  have "no_live h (as_db st2)" if "sign_in env now sid token lq u st1 = (x, st2)" "no_live h (as_db st1)" for u st1 x st2
    using that assms(3) by (auto simp: sign_in_def Let_def no_live_def new_session_def split: if_splits)
  then show ?thesis
    using assms(1,2) raced
    by (auto simp: login_def Let_def no_live_sessions [of "write_audit _ _ _ _ _ _" "race (as_db st)"]
        split: sum.splits option.splits if_splits prod.splits)
qed

lemma no_live_handled:
  assumes "no_live h (as_db st)" and "auth_handle se now rq (sq_call q) st = (a, st')" and "draws_other se h q"
  shows "no_live h (as_db st')"
proof (cases "sq_call q")
  case (LoginCall race sid token lq)
  then show ?thesis
    using assms no_live_login [OF assms(1), of "sv_auth se" now race sid token lq]
    by (auto simp: auth_handle_def Let_def draws_other_def split: prod.splits sum.splits)
next
  case LogoutCall
  then show ?thesis
    using assms no_live_revoked [OF assms(1)] by (auto simp: auth_handle_def Let_def logout_def)
next
  case MeCall
  then show ?thesis using assms by (auto simp: auth_handle_def Let_def split: sum.splits)
next
  case ListSessionsCall
  then show ?thesis using assms by (auto simp: auth_handle_def Let_def)
next
  case (EndSessionCall i)
  have "no_live h db'" if "end_session (sv_id se) now actor role i (as_db st) = (r, db')" for actor role r db'
    using that assms(1) no_live_revoked [OF assms(1)] by (auto simp: end_session_def logout_def split: option.splits if_splits)
  then show ?thesis
    using assms EndSessionCall by (auto simp: auth_handle_def Let_def split: prod.splits sum.splits)
next
  case EndOthersCall
  then show ?thesis
    using assms no_live_revoked [OF assms(1)] by (auto simp: auth_handle_def Let_def end_other_sessions_def split: prod.splits)
next
  case (ChangePasswordCall old new)
  have "no_live h db'" if "change_password (sv_auth se) now i old new s (as_db st) = (r, db')" for i s r db'
    using that assms(1) no_live_revoked [OF assms(1)]
    by (auto simp: change_password_def end_other_sessions_def Let_def split: option.splits if_splits)
  then show ?thesis
    using assms ChangePasswordCall by (auto simp: auth_handle_def Let_def split: prod.splits sum.splits)
next
  case (InviteCall uid tid raw email name role)
  have "db_sessions db' = db_sessions (as_db st)"
    if "invite (sv_auth se) now uid tid raw inviter email name role (as_db st) = (r, db', ms)" for inviter r db' ms
    using that by (auto simp: invite_def create_invited_user_def Let_def split: option.splits prod.splits sum.splits)
  then have "no_live h db'"
    if "invite (sv_auth se) now uid tid raw inviter email name role (as_db st) = (r, db', ms)" for inviter r db' ms
    using that assms(1) by (metis no_live_sessions)
  then show ?thesis
    using assms InviteCall by (auto simp: auth_handle_def Let_def split: prod.splits sum.splits)
next
  case (AcceptCall raw pw)
  have "no_live h db'" if "accept_invite (sv_auth se) now raw pw (as_db st) = (r, db')" for r db'
    using that unfolding accept_invite_def by (rule no_live_consumed [OF assms(1)])
  then show ?thesis
    using assms AcceptCall by (auto simp: auth_handle_def Let_def split: prod.splits sum.splits)
next
  case (ForgotCall tid raw email)
  then show ?thesis
    using assms by (auto simp: auth_handle_def Let_def send_password_reset_def no_live_def split: option.splits if_splits prod.splits)
next
  case (ResetCall raw pw)
  have revoked: "no_live h (revoke_sessions now u db)" if "no_live h db" for u db
    using no_live_revoked [OF that] by (simp add: revoke_sessions_def)
  have "no_live h db'" if "reset_password (sv_auth se) now raw pw (as_db st) = (r, db')" for r db'
    using that unfolding reset_password_def by (rule no_live_consumed [OF assms(1)]) (rule revoked)
  then show ?thesis
    using assms ResetCall by (auto simp: auth_handle_def Let_def split: prod.splits sum.splits)
qed

lemma no_live_served:
  assumes "no_live h (as_db st)" and "draws_other se h q"
  shows "no_live h (as_db (snd (serve_auth se q st)))"
proof -
  obtain x db where g: "guard_chain (sv_auth se) (sq_now q) (auth_route (sq_call q)) (request_of q) (as_db st) = (x, db)"
    by fastforce
  have db: "no_live h db"
    using no_live_guards [OF assms(1), of "sv_auth se" "sq_now q" "auth_route (sq_call q)" "request_of q"] g by simp
  show ?thesis
  proof (cases x)
    case (Inl e)
    then show ?thesis using g db by (simp add: serve_auth_def)
  next
    case (Inr rq)
    obtain a st' where h: "auth_handle se (sq_now q) rq (sq_call q) (st\<lparr>as_db := db\<rparr>) = (a, st')" by fastforce
    have "no_live h (as_db st')" by (rule no_live_handled [OF _ h assms(2)]) (use db in simp)
    then have "no_live h ((as_db st')\<lparr>db_audit := log\<rparr>)" for log by (simp add: no_live_def)
    then show ?thesis using Inr h g by (simp add: serve_auth_def)
  qed
qed

lemma passed_private:
  assumes "guard_chain env now rt rq db = (Inr rq', db')" and "\<not> rt_public rt" and "rq_cookie rq = Some c" and "c \<noteq> []"
  shows "resolve_staff_session env now c rq db = (True, rq', db')"
proof -
  obtain rq1 rq2 where s: "session_guard env now rt rq db = (Inr rq1, db')"
    and r: "roles_guard rt rq1 = Inr rq2" and c: "csrf_guard env rt rq2 = Inr rq'"
    using assms(1) by (auto simp: guard_chain_def split: prod.splits sum.splits)
  have "rq1 = rq'" using roles_guard_Inr [OF r] csrf_guard_Inr [OF c] by simp
  moreover obtain b rq3 db3 where e: "resolve_staff_session env now c rq db = (b, rq3, db3)" by (metis prod_cases3)
  ultimately show ?thesis using s assms(2-4) by (cases b) (simp_all add: session_guard_def e)
qed

lemma logout_leaves_none:
  assumes "distinct (map s_tokenHash (db_sessions (as_db st)))" and "sq_call q = LogoutCall" and "sq_cookie q = Some cookie"
    and "cookie \<noteq> []" and "serve_auth se q st = (a, st1)" and "aw_body a = Inr b"
  shows "no_live (hash_token (sv_auth se) cookie) (as_db st1)"
    "aw_cookie a = Some (ClearCookie (clear_session_cookie_options (sv_node se)))"
proof -
  let ?h = "hash_token (sv_auth se) cookie"
  obtain x db where g: "guard_chain (sv_auth se) (sq_now q) (auth_route LogoutCall) (request_of q) (as_db st) = (x, db)"
    by fastforce
  obtain rq where x: "x = Inr rq" using assms(2,5,6) g by (cases x) (auto simp: serve_auth_def refused_def)
  have r: "resolve_staff_session (sv_auth se) (sq_now q) cookie (request_of q) (as_db st) = (True, rq, db)"
    by (rule passed_private [OF g [unfolded x]]) (use assms(3,4) in \<open>simp_all add: auth_route_def request_of_def\<close>)
  then obtain s u where f: "find_session (sv_auth se) (sq_now q) ?h (as_db st) = Some (s, u)"
    by (cases "find_session (sv_auth se) (sq_now q) ?h (as_db st)") (auto simp: resolve_staff_session_def)
  have rq_eq: "rq = (request_of q)\<lparr>rq_user := Some (u_id u, u_role u), rq_sessionId := Some (s_id s), rq_sessionTokenHash := Some ?h\<rparr>"
    and db_eq: "db = (if LAST_SEEN_UPDATE_THROTTLE_MS < sq_now q - s_lastSeenAt s
              then (as_db st)\<lparr>db_sessions := update_rows (\<lambda>r. s_id r = s_id s) (\<lambda>r. r\<lparr>s_lastSeenAt := sq_now q\<rparr>) (db_sessions (as_db st))\<rparr>
              else as_db st)"
    using r unfolding resolve_staff_session_def Let_def f option.case prod.case prod.inject by simp_all
  have rq: "rq_sessionId rq = Some (s_id s)" by (simp add: rq_eq)
  have db: "db_sessions db = db_sessions (as_db st)
      \<or> db_sessions db = update_rows (\<lambda>r. s_id r = s_id s) (\<lambda>r. r\<lparr>s_lastSeenAt := sq_now q\<rparr>) (db_sessions (as_db st))"
    by (simp add: db_eq)
  have only: "t = s" if "t \<in> set (db_sessions (as_db st))" "s_tokenHash t = ?h" for t
  proof (rule distinct_key_eq [where key = s_tokenHash, OF assms(1) that(1)])
    show "s \<in> set (db_sessions (as_db st))" by (rule find_session_Some(1) [OF f])
    show "s_tokenHash t = s_tokenHash s" using that(2) find_session_Some(4) [OF f] by (metis)
  qed
  have "s_id t = s_id s" if t: "t \<in> set (db_sessions db)" "s_tokenHash t = ?h" for t
  proof -
    obtain t0 where "t0 \<in> set (db_sessions (as_db st))" "s_tokenHash t0 = s_tokenHash t" "s_id t0 = s_id t"
      using db t(1) by (auto simp: update_rows_def split: if_splits)
    then show ?thesis using only [of t0] t(2) by simp
  qed
  then have "no_live ?h (logout (sq_now q) (s_id s) db)"
    by (auto simp: no_live_def logout_def update_rows_def)
  moreover have "db_sessions (as_db st1) = db_sessions (logout (sq_now q) (s_id s) db)"
    and "aw_cookie a = Some (ClearCookie (clear_session_cookie_options (sv_node se)))"
    using assms(2,5) g x rq by (auto simp: serve_auth_def auth_handle_def Let_def)
  ultimately show "no_live ?h (as_db st1)" "aw_cookie a = Some (ClearCookie (clear_session_cookie_options (sv_node se)))"
    using no_live_sessions by blast+
qed

text \<open>
  C5: signing out is final. After a sign-out that succeeds the browser is told to drop the cookie,
  and whatever requests follow, from anyone and in any order - sign-ins, links, password and
  session changes, invitations - every private route answers the old cookie with 401, at any
  later time. Later sign-ins draw tokens of another hash.
\<close>

theorem logout_is_final:
  assumes "distinct (map s_tokenHash (db_sessions (as_db st)))"
    and "sq_call q = LogoutCall" and "sq_cookie q = Some cookie" and "cookie \<noteq> []"
    and "serve_auth se q st = (a, st1)" and "aw_body a = Inr b"
    and "\<forall>q' \<in> set later. draws_other se (hash_token (sv_auth se) cookie) q'"
    and "\<not> rt_public rt" and "rq_cookie rq = Some cookie"
  shows "aw_cookie a = Some (ClearCookie (clear_session_cookie_options (sv_node se)))
    \<and> fst (guard_chain (sv_auth se) now rt rq (as_db (fold (\<lambda>q' s. snd (serve_auth se q' s)) later st1)))
        = fail 401 UNAUTHENTICATED ''Session expired or revoked''"
proof -
  let ?h = "hash_token (sv_auth se) cookie"
  have "no_live ?h (as_db (fold (\<lambda>q' s. snd (serve_auth se q' s)) later s))"
    if "no_live ?h (as_db s)" "\<forall>q' \<in> set later. draws_other se ?h q'" for s
    using that by (induction later arbitrary: s) (auto intro: no_live_served)
  then have "no_live ?h (as_db (fold (\<lambda>q' s. snd (serve_auth se q' s)) later st1))"
    using logout_leaves_none(1) [OF assms(1-6)] assms(7) by blast
  then have "find_session (sv_auth se) now ?h (as_db (fold (\<lambda>q' s. snd (serve_auth se q' s)) later st1)) = None"
    by (auto simp: find_session_None no_live_def session_live_def)
  from unresolved_session [OF this assms(8,9,4)] logout_leaves_none(2) [OF assms(1-6)]
  show ?thesis by (simp add: guard_chain_def fail_def)
qed

text \<open>
  C8: a preview link opens its draft for fifteen minutes. The token the route hands out for an
  unpublished post shows that post under its slug, marked as a verified preview with the query its
  files need, until the announced seconds have passed; from then on the answer is 404, as without
  a token.
\<close>

theorem preview_link_opens_draft:
  assumes "preview_issue (pe_auth env) (pe_compare env) issued q (ct_posts ct) = Inr (token, seconds)"
    and "read_string q ''id'' = Some (po_id p)" and "\<not> po_isPublished p"
    and "List.find (\<lambda>r. sc_text (pe_compare env) (po_slug r) slug) (ct_posts ct) = Some p"
    and "\<And>n. pe_number env (show_nat n) = Some n"
  shows "(now \<le> issued + seconds * 1000 \<longrightarrow>
        (\<exists>h. news_by_slug env now slug [(''preview'', QStr token)] ct = Inr h \<and> hd_previewVerified h
           \<and> xq_previewFileQuery (hd_body h) = Some (''preview='' @ uri_text token @ ''&post='' @ uri_text (po_id p))))
    \<and> (issued + seconds * 1000 < now \<longrightarrow>
        news_by_slug env now slug [(''preview'', QStr token)] ct = news_by_slug env now slug [] ct
        \<and> failed_with (news_by_slug env now slug [] ct) 404 NOT_FOUND)"
proof -
  have token: "token = issue_preview_token (pe_auth env) issued ''posts'' (po_id p)" and seconds: "seconds = PREVIEW_TOKEN_TTL_SECONDS"
    using assms(1,2) by (auto simp: preview_issue_def PREVIEW_COLLECTIONS_def Let_def split: if_splits option.splits)
  have "verify_preview_token (pe_auth env) (pe_number env) now ''posts'' (po_id p) token \<longleftrightarrow> now \<le> issued + seconds * 1000"
    unfolding token seconds by (auto simp: verify_preview_token_def issue_preview_token_def Let_def split_issued assms(5))
  moreover have "token \<noteq> []" by (simp add: token issue_preview_token_def Let_def)
  ultimately have preview: "post_preview env now [(''preview'', QStr token)] p \<longleftrightarrow> now \<le> issued + seconds * 1000"
    by (simp add: post_preview_def read_string_def as_string_def)
  have none: "\<not> post_preview env now [] p" by (simp add: post_preview_def read_string_def as_string_def)
  show ?thesis
    using preview none assms(3) by (simp add: news_by_slug_def assms(4) Let_def read_string_def as_string_def)
qed

section \<open>Witnesses\<close>

definition staff_sample :: staff_env where
  "staff_sample = \<lparr>sv_auth = sample_env, sv_node = Production, sv_id = (=), sv_iso = (\<lambda>_. ''now'')\<rparr>"

definition open_state :: auth_state where
  "open_state = \<lparr>as_db = two_admins\<lparr>db_sessions := map (\<lambda>s. if s_id s = ''7'' then s\<lparr>s_tokenHash := ''Ht''\<rparr> else s) (db_sessions two_admins)\<rparr>,
     as_attempts = (\<lambda>_. None)\<rparr>"

definition sign_out :: staff_request where
  "sign_out = \<lparr>sq_now = 1, sq_cookie = Some ''t'', sq_csrf = Some (compute_csrf_token sample_env ''K'' ''Ht''),
     sq_path = ''/api/v1/admin/auth/logout'', sq_ipHash = None, sq_audited = True, sq_call = LogoutCall\<rparr>"

theorem logout_is_final_witness:
  "\<exists>a st1. serve_auth staff_sample sign_out open_state = (a, st1)
     \<and> fst (guard_chain sample_env 2 \<lparr>rt_public = False, rt_area = None\<rparr> (request_of sign_out)
           (as_db (fold (\<lambda>q' s. snd (serve_auth staff_sample q' s)) [sign_out] st1)))
         = fail 401 UNAUTHENTICATED ''Session expired or revoked''"
proof -
  obtain a st1 where s: "serve_auth staff_sample sign_out open_state = (a, st1)" by fastforce
  then have b: "aw_body a = Inr OkBody"
    by (auto simp: serve_auth_def sign_out_def staff_sample_def guard_chain_def session_guard_def resolve_staff_session_def
        auth_route_def request_of_def auth_method_def open_state_def sample_auth hash_token_def find_session_def session_live_def
        sql_now_def hours_def roles_guard_def csrf_guard_def SAFE_METHODS_def compute_csrf_token_def derive_csrf_key_def
        timing_safe_compare_def auth_handle_def answering_def Let_def split: if_splits)
  have "fst (guard_chain (sv_auth staff_sample) 2 \<lparr>rt_public = False, rt_area = None\<rparr> (request_of sign_out)
      (as_db (fold (\<lambda>q' s. snd (serve_auth staff_sample q' s)) [sign_out] st1))) = fail 401 UNAUTHENTICATED ''Session expired or revoked''"
    by (rule conjunct2 [OF logout_is_final [OF _ _ _ _ s b]])
       (simp_all add: sign_out_def draws_other_def open_state_def sample_auth request_of_def)
  then show ?thesis using s by (simp add: staff_sample_def)
qed

definition draft_link :: string where
  "draft_link = issue_preview_token open_env 0 ''posts'' ''6''"

theorem preview_link_opens_draft_witness:
  "\<exists>h. news_by_slug plain_public 900000 ''draft'' [(''preview'', QStr draft_link)] draft_content = Inr h \<and> hd_previewVerified h"
proof -
  let ?p = "(blank_post ''6'' 0)\<lparr>po_slug := ''draft''\<rparr>"
  let ?q = "[(''collection'', QStr ''posts''), (''id'', QStr ''6'')]"
  have i: "preview_issue (pe_auth plain_public) (pe_compare plain_public) 0 ?q (ct_posts draft_content)
      = Inr (draft_link, PREVIEW_TOKEN_TTL_SECONDS)"
    by (simp add: preview_issue_def plain_public_def draft_content_def PREVIEW_COLLECTIONS_def read_string_def as_string_def
        exact_compare_def blank_post_def draft_link_def Let_def)
  have "\<exists>h. news_by_slug plain_public 900000 ''draft'' [(''preview'', QStr draft_link)] draft_content = Inr h \<and> hd_previewVerified h
      \<and> xq_previewFileQuery (hd_body h) = Some (''preview='' @ uri_text draft_link @ ''&post='' @ uri_text (po_id ?p))"
    by (rule conjunct1 [OF preview_link_opens_draft [OF i], THEN mp])
       (simp_all add: read_string_def as_string_def blank_post_def draft_content_def plain_public_def exact_compare_def
          digits_number_show PREVIEW_TOKEN_TTL_SECONDS_def)
  then show ?thesis by blast
qed
end
