(* ===== verification/Migrations.thy ===== *)
theory Migrations
  imports MailQueue "HOL-Library.Char_ord" "HOL-Library.List_Lexorder"
begin

text \<open>
  \<open>scripts/migrate.mjs\<close> with its helpers under \<open>scripts/lib\<close>, and the app's half of the encryption-key
  guard (\<open>src/database/encryption-key-check.ts\<close>). Several runs may be alive at once; the database
  lock decides which one works. What a migration does to the data, and whether it succeeds, is an
  argument of the step; SHA-256, HMAC, AES and the collation of file names are parameters.
\<close>

section \<open>Environment and credentials\<close>

definition NODE_ENVS :: "string list" where
  "NODE_ENVS = [''development'', ''test'', ''staging'', ''production'']"

definition DEV_ENVS :: "string list" where
  "DEV_ENVS = [''development'', ''test'']"

text \<open>A script that exits has no value.\<close>

definition require_node_env :: "(string \<rightharpoonup> string) \<Rightarrow> string option" where
  "require_node_env vars =
     (case vars ''NODE_ENV'' of
        None \<Rightarrow> None
      | Some e \<Rightarrow> if e \<in> set NODE_ENVS then Some e else None)"

definition migration_credentials :: "(string \<rightharpoonup> string) \<Rightarrow> string \<Rightarrow> (string \<times> string) option" where
  "migration_credentials vars node_env =
     (let user = (case vars ''MIGRATION_DB_USER'' of None \<Rightarrow> [] | Some u \<Rightarrow> u) in
      if user \<noteq> [] then map_option (Pair user) (vars ''MIGRATION_DB_PASSWORD'')
      else if node_env \<notin> set DEV_ENVS then None
      else Option.bind (vars ''DB_USER'') (\<lambda>u. map_option (Pair u) (vars ''DB_PASSWORD'')))"

section \<open>Files\<close>

text \<open>A directory entry; one without content is not a regular file.\<close>

record dir_entry =
  de_name :: string
  de_content :: "string option"

record mig_file =
  mf_version :: string
  mf_sql :: string

datatype mig_error =
    DuplicateName string
  | Unreadable string
  | LockTimeout
  | ChecksumMismatch "string list"
  | WrongKey
  | MigrationFailed string

definition ends_with :: "string \<Rightarrow> string \<Rightarrow> bool" where
  "ends_with s suffix \<longleftrightarrow> length suffix \<le> length s \<and> drop (length s - length suffix) s = suffix"

text \<open>\<open>replace(/\r\n/g, '\n')\<close>.\<close>

fun unix_lines :: "string \<Rightarrow> string" where
  "unix_lines [] = []"
| "unix_lines (c # cs) = (if c = CHR 0x0D \<and> take 1 cs = [CHR 0x0A] then unix_lines cs else c # unix_lines cs)"

definition checksum_of :: "(string \<Rightarrow> string) \<Rightarrow> string \<Rightarrow> string" where
  "checksum_of sha sql = sha (unix_lines sql)"

fun first_repeated :: "string list \<Rightarrow> string list \<Rightarrow> string option" where
  "first_repeated seen [] = None"
| "first_repeated seen (v # vs) = (if v \<in> set seen then Some v else first_repeated (v # seen) vs)"

definition resolve_migration_files ::
  "(string \<Rightarrow> string) \<Rightarrow> string \<Rightarrow> dir_entry list \<Rightarrow> dir_entry list option \<Rightarrow> mig_error + mig_file list" where
  "resolve_migration_files collate node_env root dev =
     (let root_entries = filter (\<lambda>d. de_content d \<noteq> None \<and> (ends_with (de_name d) ''.sql'' \<or> ends_with (de_name d) ''.mjs'')) root;
          dev_entries = (if node_env \<in> set DEV_ENVS
                         then filter (\<lambda>d. ends_with (de_name d) ''.sql'') (case dev of None \<Rightarrow> [] | Some ds \<Rightarrow> ds) else []);
          files = sort_key (\<lambda>d. collate (de_name d)) (root_entries @ dev_entries)
      in case first_repeated [] (map de_name files) of
           Some v \<Rightarrow> Inl (DuplicateName v)
         | None \<Rightarrow>
             (case List.find (\<lambda>d. de_content d = None) files of
                Some d \<Rightarrow> Inl (Unreadable (de_name d))
              | None \<Rightarrow> Inr (map (\<lambda>d. \<lparr>mf_version = de_name d, mf_sql = the (de_content d)\<rparr>) files)))"

section \<open>The database\<close>

text \<open>
  \<open>site_settings.encryption_key_check\<close>: the column comes with migration 018, the row with the seed.
  \<open>md_passwords\<close> are the non-null values of \<open>mail_settings.password_encrypted\<close>, none when the column
  is missing.
\<close>

datatype key_slot = NoColumn | NoRow | KeyCheck "string option"

record 'd mig_data =
  md_keyCheck :: key_slot
  md_passwords :: "string list option"
  md_rest :: 'd

type_synonym mig_rows = "(string \<times> string option) list"

text \<open>\<open>schema_migrations\<close>; a table of the older runner, without the checksum column, reads as one with nulls.\<close>

record 'd mig_db =
  mb_table :: "mig_rows option"
  mb_data :: "'d mig_data"
  mb_lock :: "nat option"

definition ensure_tracking_tables :: "'d mig_db \<Rightarrow> 'd mig_db" where
  "ensure_tracking_tables db = db\<lparr>mb_table := Some (case mb_table db of None \<Rightarrow> [] | Some rows \<Rightarrow> rows)\<rparr>"

definition read_applied :: "'d mig_db \<Rightarrow> mig_rows" where
  "read_applied db = (case mb_table db of None \<Rightarrow> [] | Some rows \<Rightarrow> rows)"

datatype file_status = Pending | Applied | AppliedUnsummed | Changed

definition print_status :: "(string \<Rightarrow> string) \<Rightarrow> mig_file list \<Rightarrow> 'd mig_db \<Rightarrow> (string \<times> file_status) list" where
  "print_status sha files db =
     map (\<lambda>f. (mf_version f,
        case map_of (read_applied db) (mf_version f) of
          None \<Rightarrow> Pending
        | Some None \<Rightarrow> AppliedUnsummed
        | Some (Some c) \<Rightarrow> if c \<noteq> checksum_of sha (mf_sql f) then Changed else Applied)) files"

text \<open>The loop of \<open>verifyChecksums\<close>: rows without a checksum get one, changed files are collected.\<close>

definition backfill :: "string \<Rightarrow> string \<Rightarrow> mig_rows \<Rightarrow> mig_rows" where
  "backfill v c rows = map (\<lambda>(w, s). if w = v \<and> s = None then (w, Some c) else (w, s)) rows"

fun verify_checksums :: "(string \<Rightarrow> string) \<Rightarrow> mig_file list \<Rightarrow> mig_rows \<Rightarrow> mig_rows \<Rightarrow> mig_file list \<times> mig_rows" where
  "verify_checksums sha [] applied rows = ([], rows)"
| "verify_checksums sha (f # fs) applied rows =
     (let c = checksum_of sha (mf_sql f) in
      case map_of applied (mf_version f) of
        None \<Rightarrow> verify_checksums sha fs applied rows
      | Some None \<Rightarrow> verify_checksums sha fs applied (backfill (mf_version f) c rows)
      | Some (Some stored) \<Rightarrow>
          (case verify_checksums sha fs applied rows of
             (changed, rows') \<Rightarrow> (if stored \<noteq> c then f # changed else changed, rows')))"

section \<open>The key of the database\<close>

definition KEY_CHECK_LABEL :: string where
  "KEY_CHECK_LABEL = ''safeer:app-encryption-key-check:v1''"

record key_env =
  ke_hmac :: "string \<Rightarrow> string \<Rightarrow> string"
  ke_unseal :: "string \<Rightarrow> string \<Rightarrow> string \<Rightarrow> string \<Rightarrow> string option"

definition key_check_value :: "key_env \<Rightarrow> string \<Rightarrow> string" where
  "key_check_value env key = ke_hmac env key KEY_CHECK_LABEL"

text \<open>\<open>decrypts\<close> of the script slices the stored bytes itself.\<close>

definition decrypts :: "key_env \<Rightarrow> string \<Rightarrow> string \<Rightarrow> bool" where
  "decrypts env stored key = (ke_unseal env key (take 12 stored) (drop 12 (take 28 stored)) (drop 28 stored) \<noteq> None)"

definition assert_encryption_key :: "key_env \<Rightarrow> string \<Rightarrow> 'd mig_data \<Rightarrow> bool" where
  "assert_encryption_key env key d =
     (let probe = (case md_passwords d of None \<Rightarrow> True | Some [] \<Rightarrow> True | Some (v # _) \<Rightarrow> decrypts env v key) in
      case md_keyCheck d of
        KeyCheck (Some kcv) \<Rightarrow> if kcv \<noteq> [] then kcv = key_check_value env key else probe
      | _ \<Rightarrow> probe)"

definition record_encryption_key :: "key_env \<Rightarrow> string \<Rightarrow> 'd mig_data \<Rightarrow> 'd mig_data" where
  "record_encryption_key env key d =
     (case md_keyCheck d of
        KeyCheck None \<Rightarrow> d\<lparr>md_keyCheck := KeyCheck (Some (key_check_value env key))\<rparr>
      | _ \<Rightarrow> d)"

text \<open>
  \<open>assertAndRecordEncryptionKey\<close> of the app at boot; \<open>None\<close> refuses to start. A query on a missing
  column or table fails, which also stops the boot.
\<close>

definition assert_and_record_encryption_key :: "key_env \<Rightarrow> string \<Rightarrow> 'd mig_data \<Rightarrow> 'd mig_data option" where
  "assert_and_record_encryption_key env key d =
     (let expected = key_check_value env key;
          update = (case md_keyCheck d of KeyCheck None \<Rightarrow> d\<lparr>md_keyCheck := KeyCheck (Some expected)\<rparr> | _ \<Rightarrow> d);
          stored = (case md_keyCheck d of KeyCheck (Some s) \<Rightarrow> s | _ \<Rightarrow> [])
      in if md_keyCheck d = NoColumn then None
         else if stored \<noteq> [] then if stored \<noteq> expected then None else Some d
         else case md_passwords d of
                None \<Rightarrow> None
              | Some [] \<Rightarrow> Some update
              | Some (v # _) \<Rightarrow> if decrypt_secret (ke_unseal env) key v = None then None else Some update)"

section \<open>A run\<close>

text \<open>\<open>rn_key\<close> is \<open>APP_ENCRYPTION_KEY\<close>; an empty one counts as none.\<close>

datatype mig_phase =
    Waiting
  | Applying "mig_file list" mig_rows nat
  | Finished nat
  | Aborted mig_error

record mig_run =
  rn_files :: "mig_file list"
  rn_key :: string
  rn_phase :: mig_phase

definition release :: "'d mig_db \<Rightarrow> 'd mig_db" where
  "release db = db\<lparr>mb_lock := None\<rparr>"

text \<open>With the lock: tracking tables, the rows applied so far, checksums, then the key.\<close>

definition begin_run :: "(string \<Rightarrow> string) \<Rightarrow> key_env \<Rightarrow> mig_run \<Rightarrow> 'd mig_db \<Rightarrow> mig_run \<times> 'd mig_db" where
  "begin_run sha env r db =
     (let db1 = ensure_tracking_tables db;
          applied = read_applied db1;
          (changed, rows) = verify_checksums sha (rn_files r) applied applied;
          db2 = db1\<lparr>mb_table := Some rows\<rparr>
      in if changed \<noteq> [] then (r\<lparr>rn_phase := Aborted (ChecksumMismatch (map mf_version changed))\<rparr>, release db2)
         else if rn_key r \<noteq> [] \<and> \<not> assert_encryption_key env (rn_key r) (mb_data db2)
         then (r\<lparr>rn_phase := Aborted WrongKey\<rparr>, release db2)
         else (r\<lparr>rn_phase := Applying (rn_files r) applied 0\<rparr>, db2))"

text \<open>
  One turn of the loop of \<open>applyPending\<close>, and what follows it. The outcome tells whether the file,
  its row and the commit succeeded, and the data the transaction leaves: DDL commits at once, so a
  failure may leave anything.
\<close>

fun apply_next ::
  "(string \<Rightarrow> string) \<Rightarrow> key_env \<Rightarrow> bool \<times> 'd mig_data \<Rightarrow> mig_run \<Rightarrow> 'd mig_db \<Rightarrow> mig_run \<times> 'd mig_db \<times> mig_file list" where
  "apply_next sha env (success, d) r db =
     (case rn_phase r of
        Applying (f # fs) applied n \<Rightarrow>
          if mf_version f \<in> fst ` set applied then (r\<lparr>rn_phase := Applying fs applied n\<rparr>, db, [])
          else if success
          then (r\<lparr>rn_phase := Applying fs applied (Suc n)\<rparr>,
                db\<lparr>mb_data := d, mb_table := Some (read_applied db @ [(mf_version f, Some (checksum_of sha (mf_sql f)))])\<rparr>, [f])
          else (r\<lparr>rn_phase := Aborted (MigrationFailed (mf_version f))\<rparr>, release (db\<lparr>mb_data := d\<rparr>), [])
      | Applying [] applied n \<Rightarrow>
          (r\<lparr>rn_phase := Finished n\<rparr>,
           release (if rn_key r \<noteq> [] then db\<lparr>mb_data := record_encryption_key env (rn_key r) (mb_data db)\<rparr> else db), [])
      | _ \<Rightarrow> (r, db, []))"

section \<open>Several runs\<close>

text \<open>\<open>mw_committed\<close> lists the files whose transaction committed, in order.\<close>

record 'd mig_world =
  mw_db :: "'d mig_db"
  mw_runs :: "nat \<rightharpoonup> mig_run"
  mw_committed :: "mig_file list"

inductive mig_step :: "(string \<Rightarrow> string) \<Rightarrow> (string \<Rightarrow> string) \<Rightarrow> key_env \<Rightarrow> 'd mig_world \<Rightarrow> 'd mig_world \<Rightarrow> bool" for sha collate env where
  started: "mw_runs w p = None \<Longrightarrow> resolve_migration_files collate e root dev = Inr fs \<Longrightarrow>
    mig_step sha collate env w (w\<lparr>mw_runs := (mw_runs w)(p \<mapsto> \<lparr>rn_files = fs, rn_key = k, rn_phase = Waiting\<rparr>)\<rparr>)"
| locked: "mw_runs w p = Some r \<Longrightarrow> rn_phase r = Waiting \<Longrightarrow> mb_lock (mw_db w) = None \<Longrightarrow>
    begin_run sha env r ((mw_db w)\<lparr>mb_lock := Some p\<rparr>) = (r', db') \<Longrightarrow>
    mig_step sha collate env w (w\<lparr>mw_db := db', mw_runs := (mw_runs w)(p \<mapsto> r')\<rparr>)"
| timed_out: "mw_runs w p = Some r \<Longrightarrow> rn_phase r = Waiting \<Longrightarrow>
    mig_step sha collate env w (w\<lparr>mw_runs := (mw_runs w)(p \<mapsto> r\<lparr>rn_phase := Aborted LockTimeout\<rparr>)\<rparr>)"
| worked: "mw_runs w p = Some r \<Longrightarrow> mb_lock (mw_db w) = Some p \<Longrightarrow>
    apply_next sha env outcome r (mw_db w) = (r', db', added) \<Longrightarrow>
    mig_step sha collate env w (w\<lparr>mw_db := db', mw_runs := (mw_runs w)(p \<mapsto> r'), mw_committed := mw_committed w @ added\<rparr>)"
| died: "mw_runs w p = Some r \<Longrightarrow>
    mig_step sha collate env w
      (w\<lparr>mw_db := (if mb_lock (mw_db w) = Some p then (release (mw_db w))\<lparr>mb_data := d\<rparr> else mw_db w),
         mw_runs := (mw_runs w)(p := None)\<rparr>)"

definition initial_world :: "'d mig_db \<Rightarrow> 'd mig_world" where
  "initial_world db = \<lparr>mw_db = db, mw_runs = Map.empty, mw_committed = []\<rparr>"

section \<open>Checksums\<close>

lemma fst_backfill [simp]: "map fst (backfill v c rows) = map fst rows"
  by (auto simp: backfill_def)

lemma map_of_backfill:
  "map_of (backfill v c rows) w = (if w = v \<and> map_of rows w = Some None then Some (Some c) else map_of rows w)"
  by (induction rows) (auto simp: backfill_def)

lemma verify_keys: "map fst (snd (verify_checksums sha fs ap rows)) = map fst rows"
  by (induction fs arbitrary: rows) (simp_all add: Let_def split_beta split: option.split)

lemma verify_keeps:
  "map_of rows v = Some (Some c) \<Longrightarrow> map_of (snd (verify_checksums sha fs ap rows)) v = Some (Some c)"
  by (induction fs arbitrary: rows) (simp_all add: Let_def split_beta map_of_backfill split: option.split)

lemma verify_fills:
  "distinct (map mf_version fs) \<Longrightarrow> f \<in> set fs \<Longrightarrow> map_of ap (mf_version f) = Some None
    \<Longrightarrow> map_of rows (mf_version f) = Some None
    \<Longrightarrow> map_of (snd (verify_checksums sha fs ap rows)) (mf_version f) = Some (Some (checksum_of sha (mf_sql f)))"
proof (induction fs arbitrary: rows)
  case (Cons g fs)
  show ?case
  proof (cases "f = g")
    case True
    then show ?thesis using Cons.prems(3,4) by (simp add: Let_def map_of_backfill verify_keeps)
  next
    case False
    then have "f \<in> set fs" "distinct (map mf_version fs)" "mf_version f \<noteq> mf_version g"
      using Cons.prems(1,2) by (auto simp del: distinct_map) (metis image_eqI list.set_map)
    then show ?thesis
      using Cons.IH Cons.prems(3,4) by (simp add: Let_def split_beta map_of_backfill split: option.split)
  qed
qed simp

lemma verify_accepts:
  "fst (verify_checksums sha fs ap rows) = [] \<Longrightarrow> f \<in> set fs \<Longrightarrow> map_of ap (mf_version f) = Some (Some c)
    \<Longrightarrow> c = checksum_of sha (mf_sql f)"
  by (induction fs arbitrary: rows) (auto simp: Let_def split_beta split: option.splits if_splits)

lemma first_repeated_none: "first_repeated seen vs = None \<longleftrightarrow> distinct vs \<and> set vs \<inter> set seen = {}"
  by (induction seen vs rule: first_repeated.induct) auto

lemma resolved_distinct:
  assumes "resolve_migration_files collate e root dev = Inr fs"
  shows "distinct (map mf_version fs)"
proof -
  have "map mf_version (map (\<lambda>d. \<lparr>mf_version = de_name d, mf_sql = the (de_content d)\<rparr>) ds) = map de_name ds" for ds
    by simp
  then show ?thesis
    using assms by (auto simp: resolve_migration_files_def Let_def first_repeated_none comp_def split: option.splits)
qed

section \<open>Every file at most once\<close>

definition summed :: "(string \<Rightarrow> string) \<Rightarrow> 'd mig_db \<Rightarrow> mig_file \<Rightarrow> bool" where
  "summed sha db f \<longleftrightarrow> map_of (read_applied db) (mf_version f) = Some (Some (checksum_of sha (mf_sql f)))"

definition file_ok :: "(string \<Rightarrow> string) \<Rightarrow> 'd mig_db \<Rightarrow> mig_file list \<Rightarrow> mig_rows \<Rightarrow> mig_file \<Rightarrow> bool" where
  "file_ok sha db fs applied f \<longleftrightarrow>
     (if f \<in> set fs \<and> mf_version f \<notin> fst ` set applied then mf_version f \<notin> fst ` set (read_applied db) else summed sha db f)"

text \<open>A run at work holds the lock, and each of its files is recorded as it is or still to be applied.\<close>

definition run_ok :: "(string \<Rightarrow> string) \<Rightarrow> 'd mig_db \<Rightarrow> nat \<Rightarrow> mig_run \<Rightarrow> bool" where
  "run_ok sha db p r \<longleftrightarrow> distinct (map mf_version (rn_files r)) \<and>
     (case rn_phase r of
        Applying fs applied n \<Rightarrow> mb_lock db = Some p \<and> set fs \<subseteq> set (rn_files r) \<and> distinct (map mf_version fs)
          \<and> (\<forall>f \<in> set (rn_files r). file_ok sha db fs applied f)
      | Finished n \<Rightarrow> (\<forall>f \<in> set (rn_files r). summed sha db f)
      | _ \<Rightarrow> True)"

definition world_ok :: "(string \<Rightarrow> string) \<Rightarrow> string list \<Rightarrow> 'd mig_world \<Rightarrow> bool" where
  "world_ok sha old w \<longleftrightarrow>
     distinct (map mf_version (mw_committed w) @ old) \<and> distinct (map fst (read_applied (mw_db w)))
     \<and> set old \<subseteq> fst ` set (read_applied (mw_db w))
     \<and> (\<forall>f \<in> set (mw_committed w). summed sha (mw_db w) f)
     \<and> (\<forall>p r. mw_runs w p = Some r \<longrightarrow> run_ok sha (mw_db w) p r)"

text \<open>What a step may do to the table: rows stay, and so do checksums.\<close>

definition grows :: "'d mig_db \<Rightarrow> 'd mig_db \<Rightarrow> bool" where
  "grows a b \<longleftrightarrow> fst ` set (read_applied a) \<subseteq> fst ` set (read_applied b)
     \<and> (\<forall>v c. map_of (read_applied a) v = Some (Some c) \<longrightarrow> map_of (read_applied b) v = Some (Some c))"

lemma grows_refl [simp]: "grows a a" "grows a (a\<lparr>mb_lock := l\<rparr>)" "grows (a\<lparr>mb_lock := l\<rparr>) a"
  by (simp_all add: grows_def read_applied_def)

lemma summed_grows: "grows a b \<Longrightarrow> summed sha a f \<Longrightarrow> summed sha b f"
  by (simp add: grows_def summed_def)

lemma read_applied_simps [simp]:
  "read_applied (db\<lparr>mb_table := Some rows\<rparr>) = rows" "read_applied (ensure_tracking_tables db) = read_applied db"
  "read_applied (release db) = read_applied db" "read_applied (db\<lparr>mb_data := d\<rparr>) = read_applied db"
  "read_applied (db\<lparr>mb_lock := l\<rparr>) = read_applied db"
  by (simp_all add: read_applied_def ensure_tracking_tables_def release_def split: option.split)

lemma lock_simps [simp]: "mb_lock (release db) = None" "mb_lock (ensure_tracking_tables db) = mb_lock db"
  by (simp_all add: release_def ensure_tracking_tables_def)

lemma grows_read: "read_applied a = read_applied b \<Longrightarrow> grows a b"
  by (simp add: grows_def)

lemma summed_read: "read_applied a = read_applied b \<Longrightarrow> summed sha a = summed sha b"
  by (intro ext) (simp add: summed_def)

lemma begin_run_ok:
  assumes "begin_run sha env r db = (r', db')" and "distinct (map mf_version (rn_files r))" and "mb_lock db = Some p"
  shows "grows db db'" "map fst (read_applied db') = map fst (read_applied db)" "run_ok sha db' p r'"
proof -
  let ?rows = "read_applied db"
  obtain ch rows where v: "verify_checksums sha (rn_files r) ?rows ?rows = (ch, rows)" by fastforce
  have db': "read_applied db' = rows" and keys: "map fst rows = map fst ?rows"
    using assms(1) verify_keys [of sha "rn_files r" ?rows ?rows] v by (auto simp: begin_run_def v Let_def split: if_splits)
  show "map fst (read_applied db') = map fst ?rows" using db' keys by simp
  have same: "fst ` set rows = fst ` set ?rows" using arg_cong [OF keys, of set] by simp
  then show "grows db db'" unfolding grows_def using db' verify_keeps [of ?rows _ _ sha "rn_files r" ?rows] v by auto
  have files: "rn_files r' = rn_files r"
    using assms(1) by (auto simp: begin_run_def v Let_def split: if_splits)
  show "run_ok sha db' p r'"
  proof (cases "rn_phase r' = Applying (rn_files r) ?rows 0")
    case True
    then have ch: "ch = []" and lock: "mb_lock db' = Some p"
      using assms(1,3) by (auto simp: begin_run_def v Let_def split: if_splits)
    have "if mf_version f \<notin> fst ` set ?rows then mf_version f \<notin> fst ` set rows else summed sha db' f" if f: "f \<in> set (rn_files r)" for f
    proof (cases "map_of ?rows (mf_version f)")
      case None
      then show ?thesis using same by (simp add: map_of_eq_None_iff)
    next
      case (Some s)
      then have "mf_version f \<in> fst ` set ?rows" by (metis map_of_eq_None_iff option.distinct(1))
      moreover have "summed sha db' f"
        using f db' v ch Some verify_fills [OF assms(2) f, of ?rows ?rows sha] verify_accepts [of sha "rn_files r" ?rows ?rows f]
          verify_keeps [of ?rows _ _ sha "rn_files r" ?rows]
        by (cases s) (simp_all add: summed_def)
      ultimately show ?thesis by simp
    qed
    then show ?thesis using True lock assms(2) db' by (simp add: run_ok_def file_ok_def files)
  next
    case False
    then show ?thesis
      using assms(1,2) by (auto simp: begin_run_def v Let_def run_ok_def split: if_splits)
  qed
qed

lemma apply_next_ok:
  assumes "apply_next sha env outcome r db = (r', db', added)" and "run_ok sha db p r" and "mb_lock db = Some p"
    and "distinct (map fst (read_applied db))"
  shows "grows db db'" "distinct (map fst (read_applied db'))" "run_ok sha db' p r'" "\<forall>f \<in> set added. summed sha db' f"
    "distinct (map mf_version added)" "\<forall>f \<in> set added. mf_version f \<notin> fst ` set (read_applied db)"
proof -
  obtain success d where o: "outcome = (success, d)" by fastforce
  have all: "grows db db' \<and> distinct (map fst (read_applied db')) \<and> run_ok sha db' p r' \<and> (\<forall>f \<in> set added. summed sha db' f)
    \<and> distinct (map mf_version added) \<and> (\<forall>f \<in> set added. mf_version f \<notin> fst ` set (read_applied db))"
  proof (cases "rn_phase r")
    case (Applying fs applied n)
    note phase = this
    show ?thesis
    proof (cases fs)
      case Nil
      then show ?thesis
        using assms phase o
        by (auto simp: run_ok_def file_ok_def summed_def grows_read split: if_splits)
    next
      case (Cons f fs')
      show ?thesis
      proof (cases "mf_version f \<in> fst ` set applied")
        case True
        have "file_ok sha db fs' applied g" if "file_ok sha db fs applied g" for g
          using True that by (cases "g = f") (simp_all add: file_ok_def Cons)
        then show ?thesis using assms phase o Cons True by (auto simp: run_ok_def)
      next
        case new: False
        let ?c = "checksum_of sha (mf_sql f)"
        have f: "f \<in> set (rn_files r)" using assms(2) phase Cons by (simp add: run_ok_def)
        show ?thesis
        proof (cases success)
          case False
          then show ?thesis using assms phase o Cons new by (auto simp: run_ok_def grows_read)
        next
          case True
          have r': "r' = r\<lparr>rn_phase := Applying fs' applied (Suc n)\<rparr>" and added: "added = [f]" and lock: "mb_lock db' = Some p"
            and rows: "read_applied db' = read_applied db @ [(mf_version f, Some ?c)]"
            using assms(1,3) phase o Cons new True by auto
          have fresh: "mf_version f \<notin> fst ` set (read_applied db)"
            using assms(2) phase Cons new f by (simp add: run_ok_def file_ok_def)
          have grown: "grows db db'"
            using fresh rows by (auto simp: grows_def map_add_def split: option.split)
          have f_done: "summed sha db' f" using fresh rows by (simp add: summed_def map_add_def map_of_eq_None_iff [THEN iffD2])
          have "file_ok sha db' fs' applied g" if g: "g \<in> set (rn_files r)" "file_ok sha db fs applied g" for g
          proof (cases "g = f")
            case True
            then show ?thesis using f_done assms(2) phase Cons by (auto simp: run_ok_def file_ok_def)
          next
            case False
            then have "mf_version g \<noteq> mf_version f"
              using g f assms(2) by (auto simp: run_ok_def distinct_map inj_on_def)
            then show ?thesis using False g(2) Cons rows summed_grows [OF grown] by (simp add: file_ok_def)
          qed
          then have "run_ok sha db' p r'"
            using assms(2) phase Cons lock by (simp add: run_ok_def r')
          then show ?thesis using fresh rows grown added assms(4) f_done by simp
        qed
      qed
    qed
  qed (use assms o in auto)
  then show "grows db db'" "distinct (map fst (read_applied db'))" "run_ok sha db' p r'" "\<forall>f \<in> set added. summed sha db' f"
    "distinct (map mf_version added)" "\<forall>f \<in> set added. mf_version f \<notin> fst ` set (read_applied db)" by blast+
qed

lemma run_ok_frame:
  assumes "run_ok sha a p r" and "grows a b" and "\<And>fs applied n. rn_phase r = Applying fs applied n \<Longrightarrow> False"
  shows "run_ok sha b p r"
  using assms summed_grows [OF assms(2)] by (auto simp: run_ok_def split: mig_phase.splits)

lemma world_okD: "world_ok sha old w \<Longrightarrow> mw_runs w p = Some r \<Longrightarrow> run_ok sha (mw_db w) p r"
  by (simp add: world_ok_def)

lemma applying_locked: "run_ok sha db p r \<Longrightarrow> rn_phase r = Applying fs applied n \<Longrightarrow> mb_lock db = Some p"
  by (simp add: run_ok_def)

lemma world_ok_step:
  assumes ok: "world_ok sha old w" and step: "mig_step sha collate env w w'"
  shows "world_ok sha old w'"
  using step
proof cases
  case (started p e root dev fs k)
  then show ?thesis
    using ok resolved_distinct [OF started(3)] by (auto simp: world_ok_def run_ok_def)
next
  case (locked p r r' db')
  let ?db = "(mw_db w)\<lparr>mb_lock := Some p\<rparr>"
  have r: "distinct (map mf_version (rn_files r))" using ok locked by (simp add: world_ok_def run_ok_def)
  note b = begin_run_ok [OF locked(5) r, of p]
  have "run_ok sha db' q s" if "mw_runs w q = Some s" for q s
  proof (rule run_ok_frame)
    show "run_ok sha (mw_db w) q s" "rn_phase s = Applying fs applied n \<Longrightarrow> False" for fs applied n
      using world_okD [OF ok that] applying_locked [OF world_okD [OF ok that]] locked(4) by auto
    show "grows (mw_db w) db'" using b(1) by (simp add: grows_def)
  qed
  moreover have "fst ` set (read_applied db') = fst ` set (read_applied (mw_db w))"
    using arg_cong [OF b(2), of set] by simp
  moreover have "summed sha (mw_db w) f \<Longrightarrow> summed sha db' f" for f using b(1) by (simp add: grows_def summed_def)
  ultimately show ?thesis using ok b(2,3) locked(1) by (auto simp: world_ok_def)
next
  case (timed_out p r)
  then show ?thesis using ok by (auto simp: world_ok_def run_ok_def)
next
  case (worked p r outcome r' db' added)
  have r: "run_ok sha (mw_db w) p r" and rows: "distinct (map fst (read_applied (mw_db w)))"
    using ok worked by (simp_all add: world_ok_def)
  note a = apply_next_ok [OF worked(4) r worked(3) rows]
  have others: "run_ok sha db' q s" if "mw_runs w q = Some s" "q \<noteq> p" for q s
  proof (rule run_ok_frame)
    show "run_ok sha (mw_db w) q s" "rn_phase s = Applying fs applied n \<Longrightarrow> False" for fs applied n
      using world_okD [OF ok that(1)] applying_locked [OF world_okD [OF ok that(1)]] worked(3) that(2) by auto
  qed (rule a(1))
  have "summed sha (mw_db w) f \<Longrightarrow> mf_version f \<in> fst ` set (read_applied (mw_db w))" for f
    unfolding summed_def by (metis map_of_eq_None_iff option.distinct(1))
  then have apart: "mf_version f \<noteq> mf_version g" if "f \<in> set (mw_committed w)" "g \<in> set added" for f g
    using ok a(6) that by (metis world_ok_def)
  then have "distinct (map mf_version (mw_committed w @ added) @ old)"
    using ok a(5,6) apart by (auto simp: world_ok_def)
  moreover have "set old \<subseteq> fst ` set (read_applied db')" using ok a(1) by (auto simp: world_ok_def grows_def)
  ultimately show ?thesis
    using ok a others worked(1) summed_grows [OF a(1)] by (auto simp: world_ok_def)
next
  case (died p r d)
  let ?db = "mw_db w'"
  have same: "read_applied ?db = read_applied (mw_db w)" using died(1) by simp
  have "run_ok sha ?db q s" if "mw_runs w q = Some s" "q \<noteq> p" for q s
  proof (cases "mb_lock (mw_db w) = Some p")
    case True
    show ?thesis
    proof (rule run_ok_frame)
      show "run_ok sha (mw_db w) q s" "rn_phase s = Applying fs applied n \<Longrightarrow> False" for fs applied n
        using world_okD [OF ok that(1)] applying_locked [OF world_okD [OF ok that(1)]] True that(2) by auto
    qed (rule grows_read [OF same [symmetric]])
  next
    case False
    then show ?thesis using that ok died(1) by (simp add: world_ok_def)
  qed
  then show ?thesis using ok died(1) summed_read [OF same, of sha] same by (auto simp: world_ok_def)
qed

interpretation migrations: kept_by_steps "mig_step sha collate env" "world_ok sha old" for sha collate env old
  by unfold_locales (rule world_ok_step)

text \<open>
  C10: whatever runs of the migration runner overlap, fail or die, and however the files on disk
  differ between them: no file commits twice or again after an earlier database had it; what
  committed is recorded with the checksum of the text that ran; only one run works at a time, and
  only while every recorded file it knows is unchanged; a run that reports success leaves all its
  files recorded.
\<close>

theorem migrations_apply_once:
  fixes w :: "'d mig_world"
  assumes "(mig_step sha collate env)\<^sup>*\<^sup>* (initial_world db) w" and "distinct (map fst (read_applied db))"
  shows "distinct (map mf_version (mw_committed w) @ map fst (read_applied db))
    \<and> (\<forall>f \<in> set (mw_committed w). summed sha (mw_db w) f)
    \<and> (\<forall>p r fs applied n. mw_runs w p = Some r \<and> rn_phase r = Applying fs applied n \<longrightarrow> mb_lock (mw_db w) = Some p
          \<and> (\<forall>f \<in> set (rn_files r). mf_version f \<in> fst ` set (read_applied (mw_db w)) \<longrightarrow> summed sha (mw_db w) f))
    \<and> (\<forall>p r n. mw_runs w p = Some r \<and> rn_phase r = Finished n \<longrightarrow> (\<forall>f \<in> set (rn_files r). summed sha (mw_db w) f))"
proof -
  have ok: "world_ok sha (map fst (read_applied db)) w"
    by (rule migrations.reachable_inv [OF assms(1)]) (use assms(2) in \<open>simp add: world_ok_def initial_world_def\<close>)
  have working: "mb_lock (mw_db w) = Some p \<and> (\<forall>f \<in> set (rn_files r). mf_version f \<in> fst ` set (read_applied (mw_db w)) \<longrightarrow> summed sha (mw_db w) f)"
    if "mw_runs w p = Some r" "rn_phase r = Applying fs applied n" for p r fs applied n
  proof -
    have r: "run_ok sha (mw_db w) p r" by (rule world_okD [OF ok that(1)])
    have "summed sha (mw_db w) f" if "f \<in> set (rn_files r)" "mf_version f \<in> fst ` set (read_applied (mw_db w))" for f
      using r that \<open>rn_phase r = Applying fs applied n\<close> by (simp add: run_ok_def file_ok_def) metis
    then show ?thesis using applying_locked [OF r that(2)] by blast
  qed
  have finished: "\<forall>f \<in> set (rn_files r). summed sha (mw_db w) f" if "mw_runs w p = Some r" "rn_phase r = Finished n" for p r n
    using world_okD [OF ok that(1)] that(2) by (simp add: run_ok_def)
  show ?thesis using ok working finished unfolding world_ok_def by blast
qed


section \<open>Witnesses\<close>

definition new_files :: "mig_file list" where
  "new_files = [\<lparr>mf_version = ''2.sql'', mf_sql = ''b''\<rparr>]"

definition old_db :: "unit mig_db" where
  "old_db = \<lparr>mb_table = Some [(''1.sql'', None)],
     mb_data = \<lparr>md_keyCheck = KeyCheck (Some ''k''), md_passwords = Some [], md_rest = ()\<rparr>, mb_lock = None\<rparr>"

definition plain_keys :: key_env where
  "plain_keys = \<lparr>ke_hmac = (\<lambda>k m. k), ke_unseal = (\<lambda>k iv tag c. if tag = k then Some c else None)\<rparr>"

theorem migrations_apply_once_witness:
  "\<exists>w. (mig_step id id plain_keys)\<^sup>*\<^sup>* (initial_world old_db) w \<and> map mf_version (mw_committed w) = [''2.sql'']
     \<and> distinct (map mf_version (mw_committed w) @ map fst (read_applied old_db)) \<and> summed id (mw_db w) (hd new_files)"
proof -
  let ?step = "mig_step id id plain_keys :: unit mig_world \<Rightarrow> unit mig_world \<Rightarrow> bool"
  let ?r = "\<lparr>rn_files = new_files, rn_key = ''k'', rn_phase = Waiting\<rparr>"
  let ?w1 = "(initial_world old_db)\<lparr>mw_runs := [0 \<mapsto> ?r]\<rparr>"
  let ?r2 = "?r\<lparr>rn_phase := Applying new_files [(''1.sql'', None)] 0\<rparr>"
  let ?w2 = "?w1\<lparr>mw_db := old_db\<lparr>mb_lock := Some 0\<rparr>, mw_runs := [0 \<mapsto> ?r2]\<rparr>"
  let ?w3 = "?w2\<lparr>mw_db := (old_db\<lparr>mb_lock := Some 0, mb_table := Some [(''1.sql'', None), (''2.sql'', Some ''b'')]\<rparr>),
     mw_runs := [0 \<mapsto> ?r2\<lparr>rn_phase := Applying [] [(''1.sql'', None)] 1\<rparr>], mw_committed := new_files\<rparr>"
  have s1: "?step (initial_world old_db) ?w1"
    using mig_step.started [of "initial_world old_db" 0 id "''production''" "[\<lparr>de_name = ''2.sql'', de_content = Some ''b''\<rparr>]" None new_files id plain_keys "''k''"]
    by (simp add: initial_world_def resolve_migration_files_def new_files_def ends_with_def DEV_ENVS_def)
  have s2: "?step ?w1 ?w2"
    using mig_step.locked [of ?w1 0 ?r id plain_keys ?r2 "old_db\<lparr>mb_lock := Some 0\<rparr>" id]
    by (simp add: initial_world_def old_db_def begin_run_def new_files_def ensure_tracking_tables_def read_applied_def
        assert_encryption_key_def key_check_value_def plain_keys_def Let_def)
  have s3: "?step ?w2 ?w3"
    using mig_step.worked [of ?w2 0 ?r2 id plain_keys "(True, mb_data old_db)" _ _ _ id]
    by (simp add: initial_world_def old_db_def new_files_def read_applied_def checksum_of_def)
  have r: "?step\<^sup>*\<^sup>* (initial_world old_db) ?w3"
    using s1 s2 s3 by (meson converse_rtranclp_into_rtranclp rtranclp.rtrancl_refl)
  have "distinct (map mf_version (mw_committed ?w3) @ map fst (read_applied old_db))
    \<and> (\<forall>f \<in> set (mw_committed ?w3). summed id (mw_db ?w3) f)"
    using migrations_apply_once [OF r] by (simp add: old_db_def read_applied_def)
  then show ?thesis using r by (intro exI [of _ ?w3]) (simp add: new_files_def)
qed

end
