(* ===== verification/EnvConfig.thy ===== *)
theory EnvConfig
  imports Complex_Main "HOL-Library.Monad_Syntax" StaffRoutes Migrations
begin

text \<open>
  \<open>config/env.ts\<close>, the schema the process starts under, \<open>auth/bootstrap.service.ts\<close>, the accounts it
  makes sure of at boot, and the boot checks of \<open>database/utc.ts\<close>. \<open>Number\<close>, the e-mail and URL formats
  of zod and the base64 decoder of Node are parameters. A refused environment is \<open>None\<close>: the
  messages zod collects for the log are left out.
\<close>

section \<open>Fields\<close>

record env_lib =
  el_number :: "string \<Rightarrow> rat option"
  el_email :: "string \<Rightarrow> bool"
  el_url :: "string \<Rightarrow> bool"
  el_base64 :: "string \<Rightarrow> string"

text \<open>A parsed field, \<open>None\<close> when it has an issue.\<close>

type_synonym 'a field = "'a option"

definition bool_from_string :: "bool \<Rightarrow> string option \<Rightarrow> bool field" where
  "bool_from_string d v =
     (case v of None \<Rightarrow> Some d
      | Some s \<Rightarrow> if s = ''true'' then Some True else if s = ''false'' then Some False else None)"

definition empty_as_unset :: "string option \<Rightarrow> string option" where
  "empty_as_unset v = (if v = Some [] then None else v)"

text \<open>\<open>z.string().min(n)\<close>, with and without \<open>optional()\<close> and \<open>default()\<close>.\<close>

definition required_text :: "nat \<Rightarrow> string option \<Rightarrow> string field" where
  "required_text n v = (case v of None \<Rightarrow> None | Some s \<Rightarrow> if n \<le> length s then Some s else None)"

definition optional_text :: "nat \<Rightarrow> string option \<Rightarrow> string option field" where
  "optional_text n v = (case v of None \<Rightarrow> Some None | Some s \<Rightarrow> if n \<le> length s then Some (Some s) else None)"

definition default_text :: "string \<Rightarrow> string option \<Rightarrow> string field" where
  "default_text d v = (case v of None \<Rightarrow> Some d | Some s \<Rightarrow> if s \<noteq> [] then Some s else None)"

definition number_field :: "env_lib \<Rightarrow> (rat \<Rightarrow> bool) \<Rightarrow> rat \<Rightarrow> string option \<Rightarrow> rat field" where
  "number_field lib accept d v =
     (case v of None \<Rightarrow> Some d
      | Some s \<Rightarrow> (case el_number lib s of None \<Rightarrow> None | Some n \<Rightarrow> if accept n then Some n else None))"

text \<open>\<open>z.number().int()\<close>: a whole number among the safe integers.\<close>

definition whole :: "rat \<Rightarrow> bool" where
  "whole n \<longleftrightarrow> of_int \<lfloor>n\<rfloor> = n \<and> \<bar>n\<bar> \<le> 9007199254740991"

definition node_env_field :: "string option \<Rightarrow> node_env field" where
  "node_env_field v =
     (if v = Some ''development'' then Some Development else if v = Some ''test'' then Some TestEnv
      else if v = Some ''staging'' then Some Staging else if v = Some ''production'' then Some Production else None)"

datatype storage_choice = LocalDisk | S3Bucket

definition storage_field :: "string option \<Rightarrow> storage_choice field" where
  "storage_field v =
     (case v of None \<Rightarrow> Some LocalDisk
      | Some s \<Rightarrow> if s = ''local'' then Some LocalDisk else if s = ''s3'' then Some S3Bucket else None)"

definition url_field :: "env_lib \<Rightarrow> (string \<Rightarrow> bool) \<Rightarrow> string option \<Rightarrow> string option field" where
  "url_field lib accept v = (case v of None \<Rightarrow> Some None | Some s \<Rightarrow> if el_url lib s \<and> accept s then Some (Some s) else None)"

section \<open>The schema\<close>

definition DEV_FRONTEND_BASE_URL :: string where
  "DEV_FRONTEND_BASE_URL = ''http://localhost:4200''"

record app_env =
  ev_NODE_ENV :: node_env
  ev_PORT :: rat
  ev_HOST :: string
  ev_TRUST_PROXY :: rat
  ev_DB_HOST :: string
  ev_DB_PORT :: rat
  ev_DB_USER :: string
  ev_DB_PASSWORD :: string
  ev_DB_NAME :: string
  ev_MIGRATION_DB_USER :: "string option"
  ev_MIGRATION_DB_PASSWORD :: "string option"
  ev_SESSION_COOKIE_NAME :: string
  ev_SESSION_IDLE_HOURS :: rat
  ev_SESSION_ABSOLUTE_DAYS :: rat
  ev_APP_ENCRYPTION_KEY :: string
  ev_STORAGE_ROOT :: string
  ev_STORAGE_DRIVER :: storage_choice
  ev_S3_ENDPOINT :: "string option"
  ev_S3_REGION :: "string option"
  ev_S3_BUCKET_PUBLIC :: "string option"
  ev_S3_ACCESS_KEY_ID :: "string option"
  ev_S3_SECRET_ACCESS_KEY :: "string option"
  ev_BOOTSTRAP_ADMIN_EMAIL :: string
  ev_BOOTSTRAP_ADMIN_PASSWORD :: string
  ev_IP_HASH_SALT :: string
  ev_CORS_ORIGINS :: string
  ev_FRONTEND_BASE_URL :: "string option"
  ev_CACHE_TTL_SECONDS :: rat
  ev_CACHE_MAX_ENTRIES :: rat
  ev_ALLOW_DEV_PASSWORD_FIXUP :: bool

definition is_http :: "string \<Rightarrow> bool" where
  "is_http s \<longleftrightarrow> starts_with ''http://'' s \<or> starts_with ''https://'' s"

definition bootstrap_email_field :: "env_lib \<Rightarrow> string option \<Rightarrow> string field" where
  "bootstrap_email_field lib v = (case v of None \<Rightarrow> None | Some s \<Rightarrow> if el_email lib s then Some s else None)"

definition key_field :: "env_lib \<Rightarrow> string option \<Rightarrow> string field" where
  "key_field lib v =
     (case v of None \<Rightarrow> None | Some s \<Rightarrow> if s \<noteq> [] \<and> length (el_base64 lib s) = 32 then Some s else None)"

text \<open>The object schema: every field is checked before the rules between fields are.\<close>

definition parse_fields :: "env_lib \<Rightarrow> (string \<rightharpoonup> string) \<Rightarrow> app_env option" where
  "parse_fields lib vars = do {
     node \<leftarrow> node_env_field (vars ''NODE_ENV'');
     port \<leftarrow> number_field lib (\<lambda>n. whole n \<and> 0 < n) 3000 (vars ''PORT'');
     host \<leftarrow> default_text ''127.0.0.1'' (empty_as_unset (vars ''HOST''));
     proxy \<leftarrow> number_field lib (\<lambda>n. whole n \<and> 0 \<le> n \<and> n \<le> 10) 1 (empty_as_unset (vars ''TRUST_PROXY''));
     db_host \<leftarrow> required_text 1 (vars ''DB_HOST'');
     db_port \<leftarrow> number_field lib (\<lambda>n. whole n \<and> 0 < n) 3306 (vars ''DB_PORT'');
     db_user \<leftarrow> required_text 1 (vars ''DB_USER'');
     db_password \<leftarrow> required_text 0 (vars ''DB_PASSWORD'');
     db_name \<leftarrow> required_text 1 (vars ''DB_NAME'');
     m_user \<leftarrow> optional_text 1 (vars ''MIGRATION_DB_USER'');
     m_password \<leftarrow> optional_text 0 (vars ''MIGRATION_DB_PASSWORD'');
     cookie \<leftarrow> default_text ''sf_sid'' (vars ''SESSION_COOKIE_NAME'');
     idle \<leftarrow> number_field lib (\<lambda>n. 0 < n) 8 (vars ''SESSION_IDLE_HOURS'');
     absolute \<leftarrow> number_field lib (\<lambda>n. 0 < n) 30 (vars ''SESSION_ABSOLUTE_DAYS'');
     enc_key \<leftarrow> key_field lib (vars ''APP_ENCRYPTION_KEY'');
     storage_root \<leftarrow> default_text ''./var/assets'' (vars ''STORAGE_ROOT'');
     driver \<leftarrow> storage_field (vars ''STORAGE_DRIVER'');
     endpoint \<leftarrow> url_field lib (\<lambda>_. True) (vars ''S3_ENDPOINT'');
     region \<leftarrow> optional_text 1 (vars ''S3_REGION'');
     bucket_name \<leftarrow> optional_text 1 (vars ''S3_BUCKET_PUBLIC'');
     access \<leftarrow> optional_text 1 (vars ''S3_ACCESS_KEY_ID'');
     secret \<leftarrow> optional_text 1 (vars ''S3_SECRET_ACCESS_KEY'');
     email \<leftarrow> bootstrap_email_field lib (vars ''BOOTSTRAP_ADMIN_EMAIL'');
     password \<leftarrow> required_text 8 (vars ''BOOTSTRAP_ADMIN_PASSWORD'');
     salt \<leftarrow> required_text 1 (vars ''IP_HASH_SALT'');
     cors \<leftarrow> required_text 1 (vars ''CORS_ORIGINS'');
     frontend \<leftarrow> url_field lib is_http (vars ''FRONTEND_BASE_URL'');
     ttl \<leftarrow> number_field lib (\<lambda>n. 0 < n) 60 (vars ''CACHE_TTL_SECONDS'');
     entries \<leftarrow> number_field lib (\<lambda>n. 0 < n) 500 (vars ''CACHE_MAX_ENTRIES'');
     fixup \<leftarrow> bool_from_string False (vars ''ALLOW_DEV_PASSWORD_FIXUP'');
     Some \<lparr>ev_NODE_ENV = node, ev_PORT = port, ev_HOST = host, ev_TRUST_PROXY = proxy, ev_DB_HOST = db_host,
           ev_DB_PORT = db_port, ev_DB_USER = db_user, ev_DB_PASSWORD = db_password, ev_DB_NAME = db_name,
           ev_MIGRATION_DB_USER = m_user, ev_MIGRATION_DB_PASSWORD = m_password, ev_SESSION_COOKIE_NAME = cookie,
           ev_SESSION_IDLE_HOURS = idle, ev_SESSION_ABSOLUTE_DAYS = absolute, ev_APP_ENCRYPTION_KEY = enc_key,
           ev_STORAGE_ROOT = storage_root, ev_STORAGE_DRIVER = driver, ev_S3_ENDPOINT = endpoint, ev_S3_REGION = region,
           ev_S3_BUCKET_PUBLIC = bucket_name, ev_S3_ACCESS_KEY_ID = access, ev_S3_SECRET_ACCESS_KEY = secret,
           ev_BOOTSTRAP_ADMIN_EMAIL = email, ev_BOOTSTRAP_ADMIN_PASSWORD = password, ev_IP_HASH_SALT = salt,
           ev_CORS_ORIGINS = cors, ev_FRONTEND_BASE_URL = frontend, ev_CACHE_TTL_SECONDS = ttl,
           ev_CACHE_MAX_ENTRIES = entries, ev_ALLOW_DEV_PASSWORD_FIXUP = fixup\<rparr>
   }"

text \<open>\<open>superRefine\<close>: the rules between fields.\<close>

definition unset :: "string option \<Rightarrow> bool" where
  "unset v \<longleftrightarrow> v = None \<or> v = Some []"

definition s3_required :: "app_env \<Rightarrow> (string \<times> string option) list" where
  "s3_required e =
     [(''S3_ENDPOINT'', ev_S3_ENDPOINT e), (''S3_REGION'', ev_S3_REGION e), (''S3_BUCKET_PUBLIC'', ev_S3_BUCKET_PUBLIC e),
      (''S3_ACCESS_KEY_ID'', ev_S3_ACCESS_KEY_ID e), (''S3_SECRET_ACCESS_KEY'', ev_S3_SECRET_ACCESS_KEY e)]"

definition cross_issues :: "app_env \<Rightarrow> string list" where
  "cross_issues e =
     (if (ev_NODE_ENV e = Production \<or> ev_NODE_ENV e = Staging) \<and> unset (ev_FRONTEND_BASE_URL e) then [''FRONTEND_BASE_URL''] else [])
     @ (if ev_NODE_ENV e = Production \<and> ev_ALLOW_DEV_PASSWORD_FIXUP e then [''ALLOW_DEV_PASSWORD_FIXUP''] else [])
     @ (if ev_STORAGE_DRIVER e = S3Bucket then map fst (filter (\<lambda>s. unset (snd s)) (s3_required e)) else [])"

definition strip_slashes :: "string \<Rightarrow> string" where
  "strip_slashes s = rev (dropWhile (\<lambda>c. c = CHR ''/'') (rev s))"

definition validate_env :: "env_lib \<Rightarrow> (string \<rightharpoonup> string) \<Rightarrow> app_env option" where
  "validate_env lib vars = do {
     e \<leftarrow> parse_fields lib vars;
     if cross_issues e \<noteq> [] then None
     else Some (e\<lparr>ev_FRONTEND_BASE_URL := Some (strip_slashes
            (case ev_FRONTEND_BASE_URL e of None \<Rightarrow> DEV_FRONTEND_BASE_URL | Some u \<Rightarrow> u))\<rparr>)
   }"

text \<open>\<open>loadEnv\<close> keeps the first environment it accepted; \<open>None\<close> is \<open>process.exit(1)\<close>.\<close>

definition load_env :: "env_lib \<Rightarrow> (string \<rightharpoonup> string) \<Rightarrow> app_env option \<Rightarrow> app_env option \<times> app_env option" where
  "load_env lib vars cached =
     (case cached of
        Some e \<Rightarrow> (Some e, cached)
      | None \<Rightarrow> (validate_env lib vars, validate_env lib vars))"

definition cors_origins :: "app_env \<Rightarrow> string list" where
  "cors_origins e = filter (\<lambda>s. s \<noteq> []) (map trim (split_commas (ev_CORS_ORIGINS e)))"

section \<open>Accounts at boot\<close>

definition DEV_SEEDED_USER_EMAILS :: "string list" where
  "DEV_SEEDED_USER_EMAILS = []"

definition bootstrap_row :: "string \<Rightarrow> time \<Rightarrow> string \<Rightarrow> string \<Rightarrow> user" where
  "bootstrap_row new_id now email hash =
     (invited_row now new_id email ''Admin'' Admin)\<lparr>u_passwordHash := hash, u_status := Active\<rparr>"

definition dev_password_fixup :: "(string \<Rightarrow> string \<Rightarrow> bool) \<Rightarrow> string list \<Rightarrow> string \<Rightarrow> user list \<Rightarrow> user list" where
  "dev_password_fixup email_eq emails hash users =
     (let candidates = filter (\<lambda>u. list_ex (email_eq (u_email u)) emails \<and> u_passwordHash u = UNUSABLE_PASSWORD_HASH) users
      in update_rows (\<lambda>u. u_id u \<in> u_id ` set candidates \<and> u_passwordHash u = UNUSABLE_PASSWORD_HASH)
           (\<lambda>u. u\<lparr>u_passwordHash := hash, u_status := Active\<rparr>) users)"

definition bootstrap_at_boot :: "auth_env \<Rightarrow> app_env \<Rightarrow> string \<Rightarrow> time \<Rightarrow> user list \<Rightarrow> user list" where
  "bootstrap_at_boot env e new_id now users =
     (let email = ev_BOOTSTRAP_ADMIN_EMAIL e;
          hash = ae_argon2_hash env (ev_BOOTSTRAP_ADMIN_PASSWORD e);
          users1 = (if list_ex (\<lambda>u. ae_email_eq env (u_email u) email) users then users
                    else users @ [bootstrap_row new_id now email hash])
      in if \<not> ev_ALLOW_DEV_PASSWORD_FIXUP e then users1
         else if ev_NODE_ENV e = Production then users1
         else if DEV_SEEDED_USER_EMAILS = [] then users1
         else dev_password_fixup (ae_email_eq env) DEV_SEEDED_USER_EMAILS hash users1)"

text \<open>\<open>assertUtcSession\<close>: the drift of \<open>NOW()\<close> in seconds, and the position of the mode in \<open>sql_mode\<close>.\<close>

definition assert_utc_session :: "int \<Rightarrow> nat \<Rightarrow> bool" where
  "assert_utc_session drift simultaneous \<longleftrightarrow> drift = 0 \<and> simultaneous = 0"


section \<open>What an accepted environment promises\<close>

named_theorems field_simps_env

lemma number_field_Some [field_simps_env]:
  "number_field lib accept d v = Some n \<longleftrightarrow>
     (case v of None \<Rightarrow> n = d | Some s \<Rightarrow> el_number lib s = Some n \<and> accept n)"
  by (auto simp: number_field_def split: option.splits)

lemma number_field_accepts:
  assumes "number_field lib accept d v = Some n" "accept d"
  shows "accept n"
  using assms by (auto simp: field_simps_env split: option.splits)

lemma required_text_Some [field_simps_env]: "required_text n v = Some s \<longleftrightarrow> v = Some s \<and> n \<le> length s"
  by (auto simp: required_text_def split: option.splits)

lemma key_field_Some [field_simps_env]:
  "key_field lib v = Some s \<longleftrightarrow> v = Some s \<and> s \<noteq> [] \<and> length (el_base64 lib s) = 32"
  by (auto simp: key_field_def split: option.splits)

lemma default_text_nonempty: "default_text d v = Some s \<Longrightarrow> d \<noteq> [] \<Longrightarrow> s \<noteq> []"
  by (auto simp: default_text_def split: option.splits if_splits)

definition fields_ok :: "env_lib \<Rightarrow> app_env \<Rightarrow> bool" where
  "fields_ok lib e \<longleftrightarrow>
     whole (ev_PORT e) \<and> 0 < ev_PORT e \<and> whole (ev_DB_PORT e) \<and> 0 < ev_DB_PORT e
     \<and> whole (ev_TRUST_PROXY e) \<and> 0 \<le> ev_TRUST_PROXY e \<and> ev_TRUST_PROXY e \<le> 10
     \<and> 0 < ev_SESSION_IDLE_HOURS e \<and> 0 < ev_SESSION_ABSOLUTE_DAYS e \<and> 0 < ev_CACHE_TTL_SECONDS e \<and> 0 < ev_CACHE_MAX_ENTRIES e
     \<and> length (el_base64 lib (ev_APP_ENCRYPTION_KEY e)) = 32
     \<and> 8 \<le> length (ev_BOOTSTRAP_ADMIN_PASSWORD e)
     \<and> ev_HOST e \<noteq> [] \<and> ev_SESSION_COOKIE_NAME e \<noteq> [] \<and> ev_STORAGE_ROOT e \<noteq> [] \<and> ev_IP_HASH_SALT e \<noteq> []"

lemma whole_literals: "whole 3000" "whole 3306" "whole 1"
  by (simp_all add: whole_def)

lemma bind_SomeE:
  assumes "x \<bind> f = Some y"
  obtains a where "x = Some a" "f a = Some y"
  using assms by (cases x) simp_all

text \<open>The fields a property reads, each as its own parser gave it.\<close>

lemma parse_fields_parts:
  assumes "parse_fields lib vars = Some e"
  shows "node_env_field (vars ''NODE_ENV'') = Some (ev_NODE_ENV e)"
    and "number_field lib (\<lambda>n. whole n \<and> 0 < n) 3000 (vars ''PORT'') = Some (ev_PORT e)"
    and "default_text ''127.0.0.1'' (empty_as_unset (vars ''HOST'')) = Some (ev_HOST e)"
    and "number_field lib (\<lambda>n. whole n \<and> 0 \<le> n \<and> n \<le> 10) 1 (empty_as_unset (vars ''TRUST_PROXY'')) = Some (ev_TRUST_PROXY e)"
    and "number_field lib (\<lambda>n. whole n \<and> 0 < n) 3306 (vars ''DB_PORT'') = Some (ev_DB_PORT e)"
    and "default_text ''sf_sid'' (vars ''SESSION_COOKIE_NAME'') = Some (ev_SESSION_COOKIE_NAME e)"
    and "number_field lib (\<lambda>n. 0 < n) 8 (vars ''SESSION_IDLE_HOURS'') = Some (ev_SESSION_IDLE_HOURS e)"
    and "number_field lib (\<lambda>n. 0 < n) 30 (vars ''SESSION_ABSOLUTE_DAYS'') = Some (ev_SESSION_ABSOLUTE_DAYS e)"
    and "key_field lib (vars ''APP_ENCRYPTION_KEY'') = Some (ev_APP_ENCRYPTION_KEY e)"
    and "default_text ''./var/assets'' (vars ''STORAGE_ROOT'') = Some (ev_STORAGE_ROOT e)"
    and "required_text 8 (vars ''BOOTSTRAP_ADMIN_PASSWORD'') = Some (ev_BOOTSTRAP_ADMIN_PASSWORD e)"
    and "required_text 1 (vars ''IP_HASH_SALT'') = Some (ev_IP_HASH_SALT e)"
    and "number_field lib (\<lambda>n. 0 < n) 60 (vars ''CACHE_TTL_SECONDS'') = Some (ev_CACHE_TTL_SECONDS e)"
    and "number_field lib (\<lambda>n. 0 < n) 500 (vars ''CACHE_MAX_ENTRIES'') = Some (ev_CACHE_MAX_ENTRIES e)"
    and "url_field lib is_http (vars ''FRONTEND_BASE_URL'') = Some (ev_FRONTEND_BASE_URL e)"
  using assms unfolding parse_fields_def
  by - (elim bind_SomeE, drule option.inject [THEN iffD1], hypsubst, subst app_env.select_convs, assumption)+

lemma parse_fields_ok:
  assumes "parse_fields lib vars = Some e"
  shows "fields_ok lib e"
proof -
  note parts = parse_fields_parts [OF assms]
  show ?thesis
    using parts(2,4,5,7,8,13,14) [THEN number_field_accepts] parts(3,6,10) [THEN default_text_nonempty] parts(9,11,12)
    by (auto simp: fields_ok_def whole_literals required_text_Some key_field_Some)
qed

lemma cross_issues_Nil:
  "cross_issues e = [] \<longleftrightarrow>
     (ev_NODE_ENV e = Production \<or> ev_NODE_ENV e = Staging \<longrightarrow> \<not> unset (ev_FRONTEND_BASE_URL e))
     \<and> (ev_NODE_ENV e = Production \<longrightarrow> \<not> ev_ALLOW_DEV_PASSWORD_FIXUP e)
     \<and> (ev_STORAGE_DRIVER e = S3Bucket \<longrightarrow> (\<forall>s \<in> set (s3_required e). \<not> unset (snd s)))"
  by (auto simp: cross_issues_def filter_empty_conv)

lemma strip_slashes_end: "strip_slashes s = [] \<or> last (strip_slashes s) \<noteq> CHR ''/''"
  using hd_dropWhile [of "\<lambda>c. c = CHR ''/''" "rev s"] by (auto simp: strip_slashes_def last_rev)

text \<open>
  C9: the process starts only under an environment that is whole. Ports are positive integers, the
  proxy count is between 0 and 10, lifetimes and cache sizes are positive, the encryption key decodes
  to 32 bytes, the first password has 8 characters; the front-end address has no trailing slash, and
  staging and production name it themselves; production never turns placeholder hashes into passwords;
  the S3 driver has its five settings. Once accepted, the environment never changes.
\<close>

theorem accepted_environment:
  assumes "validate_env lib vars = Some e"
  shows "fields_ok lib e
    \<and> (\<exists>u. ev_FRONTEND_BASE_URL e = Some u \<and> (u = [] \<or> last u \<noteq> CHR ''/'')
         \<and> (vars ''NODE_ENV'' \<in> {Some ''production'', Some ''staging''} \<longrightarrow>
               (\<exists>s. vars ''FRONTEND_BASE_URL'' = Some s \<and> is_http s \<and> u = strip_slashes s)))
    \<and> (vars ''NODE_ENV'' = Some ''production'' \<longrightarrow> \<not> ev_ALLOW_DEV_PASSWORD_FIXUP e)
    \<and> (ev_STORAGE_DRIVER e = S3Bucket \<longrightarrow> (\<forall>s \<in> set (s3_required e). \<not> unset (snd s)))
    \<and> load_env lib vars' (snd (load_env lib vars None)) = (Some e, Some e)"
proof -
  obtain f where f: "parse_fields lib vars = Some f" "cross_issues f = []"
    and e: "e = f\<lparr>ev_FRONTEND_BASE_URL := Some (strip_slashes
        (case ev_FRONTEND_BASE_URL f of None \<Rightarrow> DEV_FRONTEND_BASE_URL | Some u \<Rightarrow> u))\<rparr>"
    using assms by (auto simp: validate_env_def bind_eq_Some_conv split: if_splits)
  note fields = parse_fields_ok [OF f(1)] and node = parse_fields_parts(1) [OF f(1)]
    and url = parse_fields_parts(15) [OF f(1)] and cross = f(2) [unfolded cross_issues_Nil]
  have node_iff: "vars ''NODE_ENV'' = Some ''production'' \<longleftrightarrow> ev_NODE_ENV f = Production"
    "vars ''NODE_ENV'' = Some ''staging'' \<longleftrightarrow> ev_NODE_ENV f = Staging"
    using node by (auto simp: node_env_field_def split: if_splits)
  have given: "\<exists>s. vars ''FRONTEND_BASE_URL'' = Some s \<and> is_http s \<and> ev_FRONTEND_BASE_URL e = Some (strip_slashes s)"
    if "\<not> unset (ev_FRONTEND_BASE_URL f)"
    using that url by (auto simp: e unset_def url_field_def split: option.splits if_splits)
  have "fields_ok lib e" "s3_required e = s3_required f" "ev_STORAGE_DRIVER e = ev_STORAGE_DRIVER f"
    "ev_ALLOW_DEV_PASSWORD_FIXUP e = ev_ALLOW_DEV_PASSWORD_FIXUP f"
    using fields by (simp_all add: e fields_ok_def s3_required_def)
  moreover have "\<exists>u. ev_FRONTEND_BASE_URL e = Some u \<and> (u = [] \<or> last u \<noteq> CHR ''/'')"
    using strip_slashes_end by (simp add: e)
  ultimately show ?thesis
    using given cross node_iff assms by (auto simp: load_env_def)
qed


definition sample_lib :: env_lib where
  "sample_lib = \<lparr>el_number = (\<lambda>s. if s = ''3100'' then Some 3100 else None), el_email = (\<lambda>_. True), el_url = (\<lambda>_. True),
     el_base64 = (\<lambda>_. replicate 32 CHR ''k'')\<rparr>"

definition sample_vars :: "string \<rightharpoonup> string" where
  "sample_vars = map_of [(''NODE_ENV'', ''production''), (''PORT'', ''3100''), (''DB_HOST'', ''db''), (''DB_USER'', ''app''),
     (''DB_PASSWORD'', []), (''DB_NAME'', ''safeer''), (''APP_ENCRYPTION_KEY'', ''a2tr''), (''BOOTSTRAP_ADMIN_EMAIL'', ''root@x.org''),
     (''BOOTSTRAP_ADMIN_PASSWORD'', ''first-password''), (''IP_HASH_SALT'', ''salt''), (''CORS_ORIGINS'', ''https://x.org''),
     (''FRONTEND_BASE_URL'', ''https://x.org/'')]"

lemma sample_vars_accepted: "validate_env sample_lib sample_vars \<noteq> None"
  by code_simp

theorem accepted_environment_witness:
  "\<exists>e. validate_env sample_lib sample_vars = Some e \<and> fields_ok sample_lib e"
  using sample_vars_accepted accepted_environment [of sample_lib sample_vars] by blast

section \<open>What the first boot gives\<close>

lemma bootstrap_accounts:
  "bootstrap_at_boot env e new_id now users =
     (if list_ex (\<lambda>u. ae_email_eq env (u_email u) (ev_BOOTSTRAP_ADMIN_EMAIL e)) users then users
      else users @ [bootstrap_row new_id now (ev_BOOTSTRAP_ADMIN_EMAIL e) (ae_argon2_hash env (ev_BOOTSTRAP_ADMIN_PASSWORD e))])"
  by (simp add: bootstrap_at_boot_def DEV_SEEDED_USER_EMAILS_def Let_def)

text \<open>The fixup reaches nobody whose address is not on the list, a pending invitation least of all.\<close>

lemma fixup_spares_others:
  assumes "distinct (map u_id users)" "u \<in> set users" "\<not> list_ex (email_eq (u_email u)) emails"
  shows "u \<in> set (dev_password_fixup email_eq emails hash users)"
proof -
  have "u_id u \<notin> u_id ` set (filter (\<lambda>u. list_ex (email_eq (u_email u)) emails \<and> u_passwordHash u = UNUSABLE_PASSWORD_HASH) users)"
    using assms by (auto dest: inj_onD [OF distinct_map [THEN iffD1, THEN conjunct2]])
  then show ?thesis
    using assms(2) by (simp add: dev_password_fixup_def set_update_rows)
qed

lemma bootstrap_row_fields [simp]:
  "u_email (bootstrap_row i now email hash) = email" "u_passwordHash (bootstrap_row i now email hash) = hash"
  "u_status (bootstrap_row i now email hash) = Active" "u_role (bootstrap_row i now email hash) = Admin"
  "u_lockedUntil (bootstrap_row i now email hash) = None" "u_lockCount (bootstrap_row i now email hash) = 0"
  by (simp_all add: bootstrap_row_def invited_row_def)

text \<open>
  C16: every boot leaves a way in and touches nobody. Whatever accounts the database has keep every
  field, a second boot changes nothing, and a database in which no account has the configured address
  gets an active admin who can sign in with the configured password.
\<close>

theorem first_boot_opens_the_door:
  assumes "argon2_ok env" "ae_email_eq env (ev_BOOTSTRAP_ADMIN_EMAIL e) (ev_BOOTSTRAP_ADMIN_EMAIL e)"
    and "users = bootstrap_at_boot env e new_id now (db_users db)"
    and "lq_email rq = ev_BOOTSTRAP_ADMIN_EMAIL e" "lq_password rq = ev_BOOTSTRAP_ADMIN_PASSWORD e"
    and "attempts_of (to_lower (ev_BOOTSTRAP_ADMIN_EMAIL e)) st < 5"
  shows "take (length (db_users db)) users = db_users db
    \<and> bootstrap_at_boot env e new_id' now' users = users
    \<and> (if find_by_email (ae_email_eq env) (ev_BOOTSTRAP_ADMIN_EMAIL e) db \<noteq> None then users = db_users db
       else has_active_admin (db\<lparr>db_users := users\<rparr>)
            \<and> ok (fst (login env later (\<lambda>db. db) sid token rq (st\<lparr>as_db := db\<lparr>db_users := users\<rparr>\<rparr>))))"
proof (cases "find_by_email (ae_email_eq env) (ev_BOOTSTRAP_ADMIN_EMAIL e) db")
  case None
  let ?u = "bootstrap_row new_id now (ev_BOOTSTRAP_ADMIN_EMAIL e) (ae_argon2_hash env (ev_BOOTSTRAP_ADMIN_PASSWORD e))"
  have users: "users = db_users db @ [?u]"
    using None assms(3) by (auto simp: bootstrap_accounts find_by_email_def find_None_iff_ex list_ex_iff)
  have "find_by_email (ae_email_eq env) (lq_email rq) (db\<lparr>db_users := users\<rparr>) = Some ?u"
    using None assms(2,4) by (simp add: find_by_email_def users find_append)
  then have "ok (fst (login env later (\<lambda>db. db) sid token rq (st\<lparr>as_db := db\<lparr>db_users := users\<rparr>\<rparr>)))"
    using assms(1,4-6)
    by (intro login_ok [of _ _ _ ?u]) (simp_all add: usable_account_def is_brute_force_locked_def password_verify_hash attempts_of_def)
  then show ?thesis
    using None assms(2) by (simp add: users bootstrap_accounts has_active_admin_def covers_admin_def)
next
  case (Some u)
  then have "list_ex (\<lambda>u. ae_email_eq env (u_email u) (ev_BOOTSTRAP_ADMIN_EMAIL e)) (db_users db)"
    by (auto simp: find_by_email_def list_ex_iff dest: find_SomeD)
  then show ?thesis using Some assms(3) by (simp add: bootstrap_accounts)
qed

definition sample_boot :: app_env where
  "sample_boot = the (validate_env sample_lib sample_vars)"

lemma sample_boot_fields:
  "ev_BOOTSTRAP_ADMIN_EMAIL sample_boot = ''root@x.org''" "ev_BOOTSTRAP_ADMIN_PASSWORD sample_boot = ''first-password''"
  by code_simp+

theorem first_boot_opens_the_door_witness:
  "\<exists>users. users = bootstrap_at_boot sample_env sample_boot ''1'' 5 [] \<and> length users = 1
     \<and> ok (fst (login sample_env 9 (\<lambda>db. db) ''9'' ''tok''
          \<lparr>lq_email = ''root@x.org'', lq_password = ''first-password'', lq_userAgent = None, lq_ipHash = None\<rparr>
          (sample_state\<lparr>as_db := two_admins\<lparr>db_users := users\<rparr>\<rparr>)))"
  using first_boot_opens_the_door [of sample_env sample_boot _ "''1''" 5 "two_admins\<lparr>db_users := []\<rparr>"
      "\<lparr>lq_email = ''root@x.org'', lq_password = ''first-password'', lq_userAgent = None, lq_ipHash = None\<rparr>" sample_state]
    argon2_ok_sample
  by (simp add: sample_boot_fields bootstrap_accounts sample_env_def sample_state_def attempts_of_def find_by_email_def)

end
