(* ===== verification/AdminRoutes.thy ===== *)
theory AdminRoutes
  imports EnvConfig
begin

text \<open>
  \<open>scripts/lib/check-admin-roles.mjs\<close>, the check that every admin route is gated by its area of the
  role matrix, and what its silence means for \<open>auth/guards/roles.guard.ts\<close>. A controller is what
  Nest registered: its path, its metadata and the handlers along its prototype chain, closest class
  first. The metadata are those of \<open>@Public()\<close>, \<open>@Roles()\<close> and \<open>@Area()\<close>.
\<close>

section \<open>Roles in the order of their names\<close>

fun role_rank :: "user_role \<Rightarrow> nat" where
  "role_rank Admin = 0" | "role_rank Editor = 1" | "role_rank Support = 2"

lemma role_rank_inj: "role_rank r = role_rank s \<longleftrightarrow> r = s"
  by (cases r; cases s) simp_all

instantiation user_role :: linorder
begin

definition less_eq_user_role :: "user_role \<Rightarrow> user_role \<Rightarrow> bool" where
  "less_eq_user_role r s \<longleftrightarrow> role_rank r \<le> role_rank s"

definition less_user_role :: "user_role \<Rightarrow> user_role \<Rightarrow> bool" where
  "less_user_role r s \<longleftrightarrow> role_rank r < role_rank s"

instance
  by standard (auto simp: less_eq_user_role_def less_user_role_def role_rank_inj)

end

section \<open>The registered controllers\<close>

record route_meta =
  me_public :: "bool option"
  me_roles :: "user_role list option"
  me_area :: "area option"

record handler_fn =
  hf_isRoute :: bool
  hf_path :: "string option"
  hf_meta :: route_meta

record controller =
  ct_name :: string
  ct_instance :: bool
  ct_path :: "string option"
  ct_meta :: route_meta
  ct_protos :: "(string \<times> handler_fn option) list list"

text \<open>\<open>Reflector.getAllAndOverride\<close> over the handler and its class.\<close>

definition all_and_override :: "(route_meta \<Rightarrow> 'a option) \<Rightarrow> handler_fn \<Rightarrow> controller \<Rightarrow> 'a option" where
  "all_and_override get h ct = (case get (hf_meta h) of Some v \<Rightarrow> Some v | None \<Rightarrow> get (ct_meta ct))"

definition is_allowed :: "string \<Rightarrow> bool" where
  "is_allowed p \<longleftrightarrow>
     (let below = (\<lambda>base. p = base \<or> starts_with (base @ ''/'') p \<and> list_all (\<lambda>c. c \<noteq> CHR 10 \<and> c \<noteq> CHR 13) p)
      in p = ''admin/me'' \<or> below ''admin/auth'' \<or> p = ''admin/overview'' \<or> below ''admin/preview-token'' \<or> p = ''admin/roles'')"

definition join_paths :: "string list \<Rightarrow> string" where
  "join_paths segments =
     join_with ''/'' (filter (\<lambda>s. s \<noteq> []) (map (\<lambda>s. strip_slashes (dropWhile (\<lambda>c. c = CHR ''/'') s)) segments))"

text \<open>The prototype chain: the closest definition of a name wins, unless it is no function.\<close>

definition collect_one :: "string \<times> handler_fn option \<Rightarrow> (string \<times> handler_fn) list \<Rightarrow> (string \<times> handler_fn) list" where
  "collect_one m found =
     (case m of (name, fn) \<Rightarrow>
        if name = ''constructor'' \<or> map_of found name \<noteq> None then found
        else case fn of None \<Rightarrow> found | Some h \<Rightarrow> found @ [(name, h)])"

definition collect_handlers :: "controller \<Rightarrow> (string \<times> handler_fn) list" where
  "collect_handlers ct = fold (fold collect_one) (ct_protos ct) []"

record violation =
  vi_path :: string
  vi_controller :: string
  vi_method :: string
  vi_problem :: string

definition full_path :: "string \<Rightarrow> handler_fn \<Rightarrow> string" where
  "full_path controller_path h = join_paths [controller_path, case hf_path h of None \<Rightarrow> [] | Some p \<Rightarrow> p]"

definition under_admin :: "string \<Rightarrow> bool" where
  "under_admin p \<longleftrightarrow> p = ''admin'' \<or> starts_with ''admin/'' p"

fun area_key :: "area \<Rightarrow> string" where
  "area_key Content = ''content''"
| "area_key RedirectsDelete = ''redirects.delete''"
| "area_key InboxArea = ''inbox''"
| "area_key InboxDelete = ''inbox.delete''"
| "area_key UsersArea = ''users''"
| "area_key SettingsArea = ''settings''"
| "area_key AuditArea = ''audit''"

text \<open>One handler: the problem found with it, if any.\<close>

definition route_problem :: "controller \<Rightarrow> string \<Rightarrow> handler_fn \<Rightarrow> string option" where
  "route_problem ct p h =
     (if \<not> under_admin p \<or> is_allowed p \<or> all_and_override me_public h ct = Some True then None
      else case all_and_override me_roles h ct of
             None \<Rightarrow> Some ''no @Roles()''
           | Some roles \<Rightarrow>
               if roles = [] then Some ''no @Roles()''
               else (case all_and_override me_area h ct of
                 None \<Rightarrow> Some ''no role-matrix @Area()''
               | Some a \<Rightarrow>
                   if join_with '','' (map role_text (sort roles)) \<noteq> join_with '','' (map role_text (sort (AREA_ROLES a)))
                   then Some (''roles ['' @ join_with '', '' (map role_text roles) @ ''] differ from area '' @ [CHR 0x27] @ area_key a @ [CHR 0x27] @ '' [''
                     @ join_with '', '' (map role_text (AREA_ROLES a)) @ '']'')
                   else None))"

definition controller_violations :: "controller \<Rightarrow> violation list" where
  "controller_violations ct =
     (case (ct_instance ct, ct_path ct) of
        (True, Some cp) \<Rightarrow>
          concat (map (\<lambda>(name, h).
            if \<not> hf_isRoute h then []
            else case route_problem ct (full_path cp h) h of
                   None \<Rightarrow> []
                 | Some what \<Rightarrow> [\<lparr>vi_path = full_path cp h, vi_controller = ct_name ct, vi_method = name, vi_problem = what\<rparr>])
            (collect_handlers ct))
      | _ \<Rightarrow> [])"

definition find_unroled_admin_routes :: "controller list list \<Rightarrow> violation list" where
  "find_unroled_admin_routes modules = concat (map controller_violations (concat modules))"

text \<open>What Nest calls for a method name: the closest definition along the prototype chain.\<close>

definition dispatched :: "controller \<Rightarrow> string \<Rightarrow> handler_fn option" where
  "dispatched ct name = Option.bind (map_of (concat (ct_protos ct)) name) id"

text \<open>\<open>RolesGuard.canActivate\<close> on the metadata themselves.\<close>

definition roles_guard_on :: "user_role list option \<Rightarrow> request \<Rightarrow> request res" where
  "roles_guard_on required rq =
     (case required of
        None \<Rightarrow> Inr rq
      | Some roles \<Rightarrow>
          if roles = [] then Inr rq
          else case rq_user rq of
                 None \<Rightarrow> fail 403 FORBIDDEN ''Insufficient role''
               | Some (_, role) \<Rightarrow> if role \<in> set roles then Inr rq else fail 403 FORBIDDEN ''Insufficient role'')"

section \<open>What silence means\<close>

lemma map_of_collect_one:
  "map_of (collect_one (other, fn) found) name =
     (case map_of found name of Some h \<Rightarrow> Some h | None \<Rightarrow> if other = name \<and> name \<noteq> ''constructor'' then fn else None)"
  by (simp add: collect_one_def map_add_def split: option.split)

lemma fold_collect_keeps: "map_of found name = Some h \<Longrightarrow> map_of (fold collect_one ms found) name = Some h"
  by (induction ms arbitrary: found) (auto simp: map_of_collect_one)

lemma fold_collect_finds:
  assumes "name \<noteq> ''constructor''" "map_of ms name = Some (Some h)" "map_of found name = None"
  shows "map_of (fold collect_one ms found) name = Some h"
  using assms(2,3)
proof (induction ms arbitrary: found)
  case (Cons m ms)
  obtain other fn where m: "m = (other, fn)" by fastforce
  show ?case
  proof (cases "other = name")
    case True
    then have "map_of (collect_one m found) name = Some h"
      using Cons.prems assms(1) by (simp add: m map_of_collect_one)
    then show ?thesis by (simp add: fold_collect_keeps)
  next
    case False
    then have "map_of (collect_one m found) name = None" "map_of ms name = Some (Some h)"
      using Cons.prems by (simp_all add: m map_of_collect_one)
    then show ?thesis using Cons.IH by simp
  qed
qed simp

lemma collect_handlers_concat: "collect_handlers ct = fold collect_one (concat (ct_protos ct)) []"
proof -
  have "fold (fold collect_one) ps found = fold collect_one (concat ps) found" for ps found
    by (induction ps arbitrary: found) simp_all
  then show ?thesis by (simp add: collect_handlers_def)
qed

lemma dispatched_collected:
  assumes "name \<noteq> ''constructor''" "dispatched ct name = Some h"
  shows "(name, h) \<in> set (collect_handlers ct)"
proof -
  have "map_of (concat (ct_protos ct)) name = Some (Some h)"
    using assms(2) by (simp add: dispatched_def bind_eq_Some_conv)
  from fold_collect_finds [OF assms(1) this, of "[]"] show ?thesis
    by (simp add: collect_handlers_concat map_of_SomeD)
qed

lemma role_text_facts: "CHR '','' \<notin> set (role_text r)" "role_text r \<noteq> []" "role_text r = role_text s \<longleftrightarrow> r = s"
  by (cases r; cases s; simp add: role_text_def)+

lemma joined_roles_inj:
  "join_with '','' (map role_text rs) = join_with '','' (map role_text ss) \<Longrightarrow> rs = ss"
proof (induction rs arbitrary: ss)
  case Nil
  then show ?case using role_text_facts(2) by (cases "('','', map role_text ss)" rule: join_with.cases) auto
next
  case (Cons r rs)
  show ?case
  proof (cases ss)
    case Nil
    then show ?thesis using Cons.prems role_text_facts(2) by (cases rs) auto
  next
    case ss: (Cons s ts)
    have sep: "role_text r = role_text s \<and> join_with '','' (map role_text rs) = join_with '','' (map role_text ts)"
      if "rs \<noteq> []" "ts \<noteq> []"
      using Cons.prems ss that role_text_facts(1) append_sep_inj [of "role_text r" "CHR '',''" _ "role_text s"]
      by (cases rs; cases ts) auto
    have "CHR '','' \<in> set (join_with '','' (map role_text (q # qs)))" if "qs \<noteq> []" for q qs
      using that by (cases qs) auto
    then have "rs = [] \<longleftrightarrow> ts = []"
      using Cons.prems ss role_text_facts(1) by (cases "rs = []"; cases "ts = []") (metis join_with.simps(2) list.simps(8,9))+
    then show ?thesis using sep Cons.IH Cons.prems ss role_text_facts(3) by (cases "rs = []") auto
  qed
qed

lemma silent_route:
  assumes "find_unroled_admin_routes modules = []" "ct \<in> set (concat modules)" "ct_instance ct" "ct_path ct = Some cp"
    and "(name, h) \<in> set (collect_handlers ct)" "hf_isRoute h"
  shows "route_problem ct (full_path cp h) h = None"
proof -
  have "controller_violations ct = []"
    using assms(1,2) by (auto simp: find_unroled_admin_routes_def)
  then show ?thesis
    using assms(3-6) by (force simp: controller_violations_def split: option.splits)
qed

lemma guard_of_area:
  assumes "set roles = set (AREA_ROLES a)"
  shows "roles_guard_on (Some roles) rq = roles_guard \<lparr>rt_public = False, rt_area = Some a\<rparr> rq"
proof -
  have "AREA_ROLES a \<noteq> []" by (cases a) simp_all
  moreover from this have "roles \<noteq> []" using assms by auto
  ultimately show ?thesis using assms by (simp add: roles_guard_on_def roles_guard_def Let_def split: option.split)
qed

text \<open>
  C11: a silent check means gated routes. When the check reports nothing, every route Nest serves
  under \<open>admin/\<close>, overridden handlers included, that is neither public nor on the allow-list has an
  area, and the roles guard, which looks at the roles of the route only, answers every request as
  that area asks: it lets exactly the roles of the area through.
\<close>

theorem silent_check_gates_routes:
  assumes "find_unroled_admin_routes modules = []"
    and "ct \<in> set (concat modules)" "ct_instance ct" "ct_path ct = Some cp"
    and "name \<noteq> ''constructor''" "dispatched ct name = Some h" "hf_isRoute h"
    and "under_admin (full_path cp h)" "\<not> is_allowed (full_path cp h)" "all_and_override me_public h ct \<noteq> Some True"
  shows "\<exists>a. all_and_override me_area h ct = Some a
    \<and> (\<forall>rq. roles_guard_on (all_and_override me_roles h ct) rq = roles_guard \<lparr>rt_public = False, rt_area = Some a\<rparr> rq)
    \<and> (\<forall>rq i role. rq_user rq = Some (i, role) \<longrightarrow>
          (ok (roles_guard_on (all_and_override me_roles h ct) rq) \<longleftrightarrow> role \<in> set (AREA_ROLES a)))"
proof -
  have "route_problem ct (full_path cp h) h = None"
    by (rule silent_route [OF assms(1-4) dispatched_collected [OF assms(5,6)] assms(7)])
  then obtain roles a where roles: "all_and_override me_roles h ct = Some roles" and a: "all_and_override me_area h ct = Some a"
    and same: "join_with '','' (map role_text (sort roles)) = join_with '','' (map role_text (sort (AREA_ROLES a)))"
    using assms(8-10) by (auto simp: route_problem_def split: option.splits if_splits)
  from joined_roles_inj [OF same] have eq: "set roles = set (AREA_ROLES a)" by (metis set_sort)
  have "AREA_ROLES a \<noteq> []" by (cases a) simp_all
  then have "roles \<noteq> []" using eq by (metis set_empty)
  then have "ok (roles_guard_on (Some roles) rq) \<longleftrightarrow> role \<in> set (AREA_ROLES a)" if "rq_user rq = Some (i, role)" for rq i role
    using that by (simp add: roles_guard_on_def fail_def eq)
  then show ?thesis unfolding roles using guard_of_area [OF eq] a by blast
qed

text \<open>The audit controller, and the removal of a redirect on a class of the content area.\<close>

definition untagged :: route_meta where
  "untagged = \<lparr>me_public = None, me_roles = None, me_area = None\<rparr>"

definition tagged :: "area \<Rightarrow> route_meta" where
  "tagged a = \<lparr>me_public = None, me_roles = Some (AREA_ROLES a), me_area = Some a\<rparr>"

definition redirects_controller :: controller where
  "redirects_controller =
     \<lparr>ct_name = ''RedirectsController'', ct_instance = True, ct_path = Some ''admin/redirects'', ct_meta = tagged Content,
      ct_protos = [[(''constructor'', None), (''remove'', Some \<lparr>hf_isRoute = True, hf_path = Some '':id'', hf_meta = tagged RedirectsDelete\<rparr>)],
        [(''list'', Some \<lparr>hf_isRoute = True, hf_path = Some ''/'', hf_meta = untagged\<rparr>),
         (''remove'', Some \<lparr>hf_isRoute = True, hf_path = Some '':id'', hf_meta = untagged\<rparr>)]]\<rparr>"

definition call_by :: "user_role \<Rightarrow> request" where
  "call_by role =
     \<lparr>rq_method = ''DELETE'', rq_path = ''/api/v1/admin/redirects/1'', rq_cookie = None, rq_csrfHeader = None,
      rq_user = Some (''1'', role), rq_sessionId = None, rq_sessionTokenHash = None\<rparr>"

theorem silent_check_gates_routes_witness:
  "find_unroled_admin_routes [[redirects_controller]] = []
    \<and> (\<exists>h. dispatched redirects_controller ''remove'' = Some h
         \<and> all_and_override me_area h redirects_controller = Some RedirectsDelete
         \<and> ok (roles_guard_on (all_and_override me_roles h redirects_controller) (call_by Admin))
         \<and> \<not> ok (roles_guard_on (all_and_override me_roles h redirects_controller) (call_by Editor)))"
proof -
  let ?h = "\<lparr>hf_isRoute = True, hf_path = Some '':id'', hf_meta = tagged RedirectsDelete\<rparr>"
  have silent: "find_unroled_admin_routes [[redirects_controller]] = []" by code_simp
  have h: "dispatched redirects_controller ''remove'' = Some ?h"
    by (simp add: dispatched_def redirects_controller_def)
  have facts: "under_admin (full_path ''admin/redirects'' ?h)" "\<not> is_allowed (full_path ''admin/redirects'' ?h)"
    by code_simp+
  obtain a where "all_and_override me_area ?h redirects_controller = Some a"
    "\<forall>rq i role. rq_user rq = Some (i, role) \<longrightarrow>
        (ok (roles_guard_on (all_and_override me_roles ?h redirects_controller) rq) \<longleftrightarrow> role \<in> set (AREA_ROLES a))"
    using silent_check_gates_routes [OF silent _ _ _ _ h] facts
    by (auto simp: redirects_controller_def all_and_override_def tagged_def)
  moreover have "all_and_override me_area ?h redirects_controller = Some RedirectsDelete"
    by (simp add: all_and_override_def tagged_def)
  ultimately show ?thesis using silent h by (auto simp: call_by_def)
qed

end
