(* ===== verification/Background.thy ===== *)
theory Background
  imports SafeerPrelude
begin

text \<open>
  \<open>common/background/background-work.service.ts\<close>: tasks that a route starts and does not wait for.
  A task is a promise that starts after the previous task of its key, or on a later turn of the
  event loop, and whose failure is only logged. The service is a step relation in which calls,
  starts, ends and the \<open>finally\<close> callbacks interleave in any order; \<open>settled\<close> and the shutdown hook
  are functions of the states seen at their checks.
\<close>

section \<open>The service\<close>

datatype task_phase = Queued | Running | Finished bool

record bg_task =
  bt_label :: string
  bt_key :: "string option"
  bt_after :: "nat option"
  bt_phase :: task_phase

text \<open>Tasks are numbered in the order of their calls.\<close>

record bg_work =
  bw_tasks :: "bg_task list"
  bw_inFlight :: "nat set"
  bw_tails :: "string \<rightharpoonup> nat"
  bw_errors :: "string list"

definition no_work :: bg_work where
  "no_work = \<lparr>bw_tasks = [], bw_inFlight = {}, bw_tails = Map.empty, bw_errors = []\<rparr>"

definition run_task :: "string \<Rightarrow> string option \<Rightarrow> bg_work \<Rightarrow> bg_work" where
  "run_task label key w =
     (let i = length (bw_tasks w);
          previous = Option.bind key (bw_tails w)
      in w\<lparr>bw_tasks := bw_tasks w @ [\<lparr>bt_label = label, bt_key = key, bt_after = previous, bt_phase = Queued\<rparr>],
           bw_inFlight := insert i (bw_inFlight w),
           bw_tails := (case key of None \<Rightarrow> bw_tails w | Some k \<Rightarrow> (bw_tails w)(k \<mapsto> i))\<rparr>)"

definition set_phase :: "nat \<Rightarrow> task_phase \<Rightarrow> bg_work \<Rightarrow> bg_work" where
  "set_phase i ph w = w\<lparr>bw_tasks := (bw_tasks w)[i := (bw_tasks w ! i)\<lparr>bt_phase := ph\<rparr>]\<rparr>"

definition finished :: "bg_task \<Rightarrow> bool" where
  "finished t \<longleftrightarrow> (case bt_phase t of Finished _ \<Rightarrow> True | _ \<Rightarrow> False)"

definition may_start :: "bg_work \<Rightarrow> nat \<Rightarrow> bool" where
  "may_start w i \<longleftrightarrow> i < length (bw_tasks w) \<and> bt_phase (bw_tasks w ! i) = Queued
     \<and> (case bt_after (bw_tasks w ! i) of None \<Rightarrow> True | Some p \<Rightarrow> finished (bw_tasks w ! p))"

definition end_task :: "nat \<Rightarrow> bool \<Rightarrow> bg_work \<Rightarrow> bg_work" where
  "end_task i succeeded w =
     (let w' = set_phase i (Finished succeeded) w
      in if succeeded then w' else w'\<lparr>bw_errors := bw_errors w @ [bt_label (bw_tasks w ! i) @ '' failed'']\<rparr>)"

text \<open>The \<open>finally\<close> callback.\<close>

definition forget_task :: "nat \<Rightarrow> bg_work \<Rightarrow> bg_work" where
  "forget_task i w =
     w\<lparr>bw_inFlight := bw_inFlight w - {i},
       bw_tails := (case bt_key (bw_tasks w ! i) of
           None \<Rightarrow> bw_tails w
         | Some k \<Rightarrow> if bw_tails w k = Some i then (bw_tails w)(k := None) else bw_tails w)\<rparr>"

inductive bg_step :: "bg_work \<Rightarrow> bg_work \<Rightarrow> bool" where
  called: "bg_step w (run_task label key w)"
| started: "may_start w i \<Longrightarrow> bg_step w (set_phase i Running w)"
| ended: "i < length (bw_tasks w) \<Longrightarrow> bt_phase (bw_tasks w ! i) = Running \<Longrightarrow> bg_step w (end_task i succeeded w)"
| forgotten: "i \<in> bw_inFlight w \<Longrightarrow> finished (bw_tasks w ! i) \<Longrightarrow> bg_step w (forget_task i w)"

section \<open>Shutdown\<close>

definition SHUTDOWN_DRAIN_MS :: int where "SHUTDOWN_DRAIN_MS = 10000"

text \<open>
  \<open>settled\<close> looks at the set of tasks in flight when it is called and each time the tasks it saw have
  ended: its checks are the states at those times.
\<close>

fun settled :: "(int \<times> bg_work) list \<Rightarrow> (int \<times> bg_work) option" where
  "settled [] = None"
| "settled ((t, w) # checks) = (if bw_inFlight w = {} then Some (t, w) else settled checks)"

datatype shutdown_outcome = NothingInFlight | Drained bg_work | TimedOut

definition before_application_shutdown :: "int \<Rightarrow> bg_work \<Rightarrow> (int \<times> bg_work) list \<Rightarrow> shutdown_outcome" where
  "before_application_shutdown now w checks =
     (if bw_inFlight w = {} then NothingInFlight
      else case settled ((now, w) # checks) of
             None \<Rightarrow> TimedOut
           | Some (t, w') \<Rightarrow> if t < now + SHUTDOWN_DRAIN_MS then Drained w' else TimedOut)"

section \<open>Invariant\<close>

definition same_key :: "bg_work \<Rightarrow> nat \<Rightarrow> nat \<Rightarrow> bool" where
  "same_key w i j \<longleftrightarrow> i < j \<and> j < length (bw_tasks w)
     \<and> (\<exists>k. bt_key (bw_tasks w ! i) = Some k \<and> bt_key (bw_tasks w ! j) = Some k)"

definition last_of_key :: "bg_work \<Rightarrow> string \<Rightarrow> nat \<Rightarrow> bool" where
  "last_of_key w k p \<longleftrightarrow> p < length (bw_tasks w) \<and> bt_key (bw_tasks w ! p) = Some k \<and> (\<forall>j. \<not> same_key w p j)"

definition behind :: "bg_work \<Rightarrow> nat \<Rightarrow> bool" where
  "behind w j \<longleftrightarrow>
     (case bt_after (bw_tasks w ! j) of
        None \<Rightarrow> (\<forall>i. same_key w i j \<longrightarrow> finished (bw_tasks w ! i))
      | Some p \<Rightarrow> same_key w p j \<and> (\<forall>i. same_key w i j \<longrightarrow> i \<le> p)
          \<and> (bt_phase (bw_tasks w ! j) \<noteq> Queued \<longrightarrow> finished (bw_tasks w ! p)))"

definition work_ok :: "bg_work \<Rightarrow> bool" where
  "work_ok w \<longleftrightarrow>
     (\<forall>j < length (bw_tasks w). behind w j)
     \<and> (\<forall>i j. bt_phase (bw_tasks w ! j) \<noteq> Queued \<longrightarrow> same_key w i j \<longrightarrow> finished (bw_tasks w ! i))
     \<and> (\<forall>k i. bw_tails w k = None \<longrightarrow> i < length (bw_tasks w) \<longrightarrow> bt_key (bw_tasks w ! i) = Some k \<longrightarrow> finished (bw_tasks w ! i))
     \<and> (\<forall>k p. bw_tails w k = Some p \<longrightarrow> last_of_key w k p \<and> p \<in> bw_inFlight w)
     \<and> (\<forall>i < length (bw_tasks w). i \<notin> bw_inFlight w \<longrightarrow> finished (bw_tasks w ! i))
     \<and> (\<forall>i \<in> bw_inFlight w. i < length (bw_tasks w))"

lemma set_phase_simps [simp]:
  assumes "i < length (bw_tasks w)"
  shows "length (bw_tasks (set_phase i ph w)) = length (bw_tasks w)"
    and "bt_key (bw_tasks (set_phase i ph w) ! j) = bt_key (bw_tasks w ! j)"
    and "bt_after (bw_tasks (set_phase i ph w) ! j) = bt_after (bw_tasks w ! j)"
    and "bt_phase (bw_tasks (set_phase i ph w) ! j) = (if j = i then ph else bt_phase (bw_tasks w ! j))"
    and "bw_inFlight (set_phase i ph w) = bw_inFlight w" "bw_tails (set_phase i ph w) = bw_tails w"
  using assms by (simp_all add: set_phase_def nth_list_update)

lemma set_phase_keys [simp]:
  assumes "i < length (bw_tasks w)"
  shows "same_key (set_phase i ph w) l j = same_key w l j" "last_of_key (set_phase i ph w) k p = last_of_key w k p"
  using assms by (simp_all add: same_key_def last_of_key_def)

lemma finished_phase: "finished t \<longleftrightarrow> (\<exists>b. bt_phase t = Finished b)"
  by (cases "bt_phase t") (simp_all add: finished_def)

lemma finished_set_phase:
  assumes "i < length (bw_tasks w)" "\<not> finished (bw_tasks w ! i)" "finished (bw_tasks w ! j)"
  shows "finished (bw_tasks (set_phase i ph w) ! j)"
  using assms by (auto simp: finished_phase)

lemma work_okD:
  assumes "work_ok w"
  shows "j < length (bw_tasks w) \<Longrightarrow> behind w j"
    and "bt_phase (bw_tasks w ! j) \<noteq> Queued \<Longrightarrow> same_key w i j \<Longrightarrow> finished (bw_tasks w ! i)"
    and "bw_tails w k = None \<Longrightarrow> i < length (bw_tasks w) \<Longrightarrow> bt_key (bw_tasks w ! i) = Some k \<Longrightarrow> finished (bw_tasks w ! i)"
    and "bw_tails w k = Some p \<Longrightarrow> last_of_key w k p"
    and "bw_tails w k = Some p \<Longrightarrow> p \<in> bw_inFlight w"
    and "i < length (bw_tasks w) \<Longrightarrow> i \<notin> bw_inFlight w \<Longrightarrow> finished (bw_tasks w ! i)"
    and "i \<in> bw_inFlight w \<Longrightarrow> i < length (bw_tasks w)"
  using assms unfolding work_ok_def by blast+

lemma work_okI:
  assumes "\<And>j. j < length (bw_tasks w) \<Longrightarrow> behind w j"
    and "\<And>i j. bt_phase (bw_tasks w ! j) \<noteq> Queued \<Longrightarrow> same_key w i j \<Longrightarrow> finished (bw_tasks w ! i)"
    and "\<And>k i. bw_tails w k = None \<Longrightarrow> i < length (bw_tasks w) \<Longrightarrow> bt_key (bw_tasks w ! i) = Some k \<Longrightarrow> finished (bw_tasks w ! i)"
    and "\<And>k p. bw_tails w k = Some p \<Longrightarrow> last_of_key w k p \<and> p \<in> bw_inFlight w"
    and "\<And>i. i < length (bw_tasks w) \<Longrightarrow> i \<notin> bw_inFlight w \<Longrightarrow> finished (bw_tasks w ! i)"
    and "\<And>i. i \<in> bw_inFlight w \<Longrightarrow> i < length (bw_tasks w)"
  shows "work_ok w"
  using assms unfolding work_ok_def by blast

lemma set_phase_ok:
  assumes ok: "work_ok w" and i: "i < length (bw_tasks w)" "\<not> finished (bw_tasks w ! i)" "ph \<noteq> Queued"
    and earlier: "\<And>j. same_key w j i \<Longrightarrow> finished (bw_tasks w ! j)"
  shows "work_ok (set_phase i ph w)"
proof -
  note grows = finished_set_phase [OF i(1,2)]
  show ?thesis
  proof (rule work_okI)
    fix j assume "j < length (bw_tasks (set_phase i ph w))"
    then have "behind w j" using work_okD(1) [OF ok] i(1) by simp
    then show "behind (set_phase i ph w) j"
      using i(1,3) earlier by (auto simp: behind_def intro: grows split: option.splits)
  next
    fix l j assume "bt_phase (bw_tasks (set_phase i ph w) ! j) \<noteq> Queued" "same_key (set_phase i ph w) l j"
    then show "finished (bw_tasks (set_phase i ph w) ! l)"
      using i(1) earlier work_okD(2) [OF ok, of j l] by (auto intro: grows split: if_splits)
  qed (use i(1) work_okD(3-7) [OF ok] in \<open>auto intro: grows\<close>)
qed

lemma same_key_less: "same_key w i j \<Longrightarrow> i < length (bw_tasks w)"
  by (auto simp: same_key_def)

lemma may_start_earlier:
  assumes "work_ok w" "may_start w i" "same_key w j i"
  shows "finished (bw_tasks w ! j)"
proof (cases "bt_after (bw_tasks w ! i)")
  case None
  then show ?thesis using work_okD(1) [OF assms(1), of i] assms(2,3) by (auto simp: behind_def may_start_def)
next
  case (Some p)
  then have p: "finished (bw_tasks w ! p)" "same_key w p i" "j \<le> p"
    using work_okD(1) [OF assms(1), of i] assms(2,3) by (auto simp: behind_def may_start_def)
  then have "j = p \<or> same_key w j p" using assms(3) by (auto simp: same_key_def)
  then show ?thesis using work_okD(2) [OF assms(1), of p j] p(1) by (auto simp: finished_phase)
qed

text \<open>A call appends one queued task; the others keep their place and their keys.\<close>

lemma run_task_tasks:
  shows "length (bw_tasks (run_task label key w)) = Suc (length (bw_tasks w))"
    and "i < length (bw_tasks w) \<Longrightarrow> bw_tasks (run_task label key w) ! i = bw_tasks w ! i"
    and "bt_key (bw_tasks (run_task label key w) ! length (bw_tasks w)) = key"
    and "bt_after (bw_tasks (run_task label key w) ! length (bw_tasks w)) = Option.bind key (bw_tails w)"
    and "bt_phase (bw_tasks (run_task label key w) ! length (bw_tasks w)) = Queued"
  by (simp_all add: run_task_def Let_def nth_append)

lemma run_task_same_key:
  shows "j < length (bw_tasks w) \<Longrightarrow> same_key (run_task label key w) i j \<longleftrightarrow> same_key w i j"
    and "same_key (run_task label key w) i (length (bw_tasks w))
      \<longleftrightarrow> i < length (bw_tasks w) \<and> (\<exists>k. key = Some k \<and> bt_key (bw_tasks w ! i) = Some k)"
proof -
  show "same_key (run_task label key w) i j \<longleftrightarrow> same_key w i j" if "j < length (bw_tasks w)"
    using that by (cases "i < j") (simp_all add: same_key_def run_task_tasks)
  show "same_key (run_task label key w) i (length (bw_tasks w))
      \<longleftrightarrow> i < length (bw_tasks w) \<and> (\<exists>k. key = Some k \<and> bt_key (bw_tasks w ! i) = Some k)"
    using run_task_tasks(2,3) by (auto simp: same_key_def run_task_tasks(1))
qed

lemma last_of_key_le: "last_of_key w k p \<Longrightarrow> i < length (bw_tasks w) \<Longrightarrow> bt_key (bw_tasks w ! i) = Some k \<Longrightarrow> i \<le> p"
  by (auto simp: last_of_key_def same_key_def)

lemma run_task_behind:
  assumes "work_ok w" "j \<le> length (bw_tasks w)"
  shows "behind (run_task label key w) j"
proof (cases "j = length (bw_tasks w)")
  case False
  then have j: "j < length (bw_tasks w)" using assms(2) by simp
  have "behind w j" using work_okD(1) [OF assms(1) j] .
  then show ?thesis using j by (auto simp: behind_def run_task_same_key(1) run_task_tasks(2) same_key_less split: option.splits)
next
  case True
  note new = run_task_tasks(3-5) [of label key w]
  show ?thesis
  proof (cases "Option.bind key (bw_tails w)")
    case None
    have "finished (bw_tasks w ! i)" if "key = Some k" "i < length (bw_tasks w)" "bt_key (bw_tasks w ! i) = Some k" for i k
      using work_okD(3) [OF assms(1) _ that(2,3)] None that(1) by simp
    then show ?thesis by (auto simp: behind_def True new None run_task_same_key(2) run_task_tasks(2))
  next
    case (Some p)
    then obtain k where k: "key = Some k" "bw_tails w k = Some p" by (cases key) auto
    then have last: "last_of_key w k p" by (intro work_okD(4) [OF assms(1)])
    then have "p < length (bw_tasks w)" "bt_key (bw_tasks w ! p) = Some k" by (simp_all add: last_of_key_def)
    then have "same_key (run_task label key w) p (length (bw_tasks w))" using k(1) run_task_same_key(2) by blast
    moreover have "i \<le> p" if "same_key (run_task label key w) i (length (bw_tasks w))" for i
      using that last_of_key_le [OF last] k(1) by (auto simp: run_task_same_key(2))
    ultimately show ?thesis by (simp add: behind_def True new Some)
  qed
qed

lemma run_task_tail:
  assumes "work_ok w" "bw_tails (run_task label key w) k = Some p"
  shows "last_of_key (run_task label key w) k p \<and> p \<in> bw_inFlight (run_task label key w)"
proof (cases "key = Some k")
  case True
  then have "p = length (bw_tasks w)" using assms(2) by (simp add: run_task_def Let_def)
  then show ?thesis
    using True run_task_tasks(3) [of label key w] by (simp add: last_of_key_def same_key_def run_task_tasks(1)) (simp add: run_task_def Let_def)
next
  case False
  then have w: "bw_tails w k = Some p" using assms(2) by (auto simp: run_task_def Let_def split: option.splits if_splits)
  then have last: "last_of_key w k p" by (rule work_okD(4) [OF assms(1)])
  then have p: "p < length (bw_tasks w)" by (simp add: last_of_key_def)
  have "\<not> same_key (run_task label key w) p (length (bw_tasks w))"
    using last False by (auto simp: last_of_key_def run_task_same_key(2))
  moreover have "\<not> same_key (run_task label key w) p j" if "j < length (bw_tasks w)" for j
    using that last by (simp add: last_of_key_def run_task_same_key(1))
  ultimately have "\<not> same_key (run_task label key w) p j" for j
    using run_task_tasks(1) by (metis same_key_def less_Suc_eq)
  then show ?thesis
    using last p work_okD(5) [OF assms(1) w] by (simp add: last_of_key_def run_task_tasks(1,2)) (simp add: run_task_def Let_def)
qed

lemma run_task_ok:
  assumes "work_ok w"
  shows "work_ok (run_task label key w)"
proof (rule work_okI)
  let ?n = "length (bw_tasks w)" and ?w = "run_task label key w"
  note old = run_task_tasks(2) [of _ w label key] and len = run_task_tasks(1) [of label key w]
  show "behind ?w j" if "j < length (bw_tasks ?w)" for j
    using that len by (intro run_task_behind [OF assms]) simp
  show "last_of_key ?w k p \<and> p \<in> bw_inFlight ?w" if "bw_tails ?w k = Some p" for k p
    by (rule run_task_tail [OF assms that])
  show "finished (bw_tasks ?w ! i)" if started: "bt_phase (bw_tasks ?w ! j) \<noteq> Queued" "same_key ?w i j" for i j
  proof -
    have "j < ?n" using started run_task_tasks(5) [of label key w] by (cases "j = ?n") (auto simp: same_key_def len)
    then show ?thesis
      using started work_okD(2) [OF assms, of j i] same_key_less [of w i j] by (simp add: old run_task_same_key(1))
  qed
  show "finished (bw_tasks ?w ! i)" if none: "bw_tails ?w k = None" "i < length (bw_tasks ?w)" "bt_key (bw_tasks ?w ! i) = Some k" for k i
  proof -
    have k: "key \<noteq> Some k" and tails: "bw_tails w k = None"
      using none(1) by (auto simp: run_task_def Let_def split: option.splits if_splits)
    then have "i < ?n" using none(2,3) run_task_tasks(3) [of label key w] by (cases "i = ?n") (auto simp: len)
    then show ?thesis using work_okD(3) [OF assms tails] none(3) by (simp add: old)
  qed
  show "finished (bw_tasks ?w ! i)" if "i < length (bw_tasks ?w)" "i \<notin> bw_inFlight ?w" for i
  proof -
    have "i < ?n" "i \<notin> bw_inFlight w" using that by (auto simp: run_task_def Let_def less_Suc_eq)
    then show ?thesis using work_okD(6) [OF assms] by (simp add: old)
  qed
  show "i < length (bw_tasks ?w)" if "i \<in> bw_inFlight ?w" for i
    using that work_okD(7) [OF assms] by (auto simp: run_task_def Let_def less_SucI)
qed

lemma forget_task_ok:
  assumes ok: "work_ok w" and i: "i \<in> bw_inFlight w" "finished (bw_tasks w ! i)"
  shows "work_ok (forget_task i w)"
proof -
  let ?w = "forget_task i w"
  have tasks: "bw_tasks ?w = bw_tasks w" and flight: "bw_inFlight ?w = bw_inFlight w - {i}"
    by (simp_all add: forget_task_def)
  have same: "same_key ?w = same_key w" "last_of_key ?w = last_of_key w" "behind ?w = behind w"
    by (simp_all add: fun_eq_iff same_key_def last_of_key_def behind_def tasks cong: option.case_cong)
  have tails: "bw_tails ?w k = (if bw_tails w k = Some i then None else bw_tails w k)" for k
    using work_okD(4) [OF ok, of _ i] by (auto simp: forget_task_def last_of_key_def split: option.split)
  have gone: "finished (bw_tasks w ! j)"
    if "bw_tails w k = Some i" "j < length (bw_tasks w)" "bt_key (bw_tasks w ! j) = Some k" for k j
  proof -
    have "bt_key (bw_tasks w ! i) = Some k" "\<not> same_key w i j" "i < length (bw_tasks w)"
      using work_okD(4) [OF ok that(1)] by (simp_all add: last_of_key_def)
    then have "j = i \<or> same_key w j i" using that(2,3) by (auto simp: same_key_def)
    then show ?thesis using i(2) work_okD(2) [OF ok, of i j] by (auto simp: finished_phase)
  qed
  show ?thesis
    by (rule work_okI)
      (use i work_okD [OF ok] gone in \<open>auto simp: tasks flight same tails split: if_splits\<close>)
qed

lemma bg_step_ok:
  assumes "work_ok w" "bg_step w w'"
  shows "work_ok w'"
  using assms(2)
proof cases
  case (called label key)
  then show ?thesis using run_task_ok assms(1) by simp
  next
  case (started i)
  then show ?thesis
    using assms(1) by (auto simp: may_start_def finished_def intro!: set_phase_ok may_start_earlier [OF assms(1)])
  next
  case (ended i succeeded)
  have "work_ok (set_phase i (Finished succeeded) w)"
    using ended(2,3) work_okD(2) [OF assms(1), of i] by (intro set_phase_ok [OF assms(1)]) (auto simp: finished_phase)
  moreover have "work_ok (v\<lparr>bw_errors := es\<rparr>) = work_ok v" for v es
    by (simp add: work_ok_def behind_def same_key_def last_of_key_def cong: option.case_cong)
  ultimately show ?thesis by (cases succeeded) (simp_all add: ended(1) end_task_def Let_def)
  next
  case (forgotten i)
  then show ?thesis using forget_task_ok assms(1) by simp
qed

interpretation background: kept_by_steps bg_step work_ok
  by unfold_locales (rule bg_step_ok)

lemma no_work_ok: "work_ok no_work"
  by (rule work_okI) (simp_all add: no_work_def same_key_def)

text \<open>Some task that has not ended can always take its next step.\<close>

lemma never_stuck:
  assumes "work_ok w" "j < length (bw_tasks w)" "\<not> finished (bw_tasks w ! j)"
  shows "\<exists>i \<le> j. i \<in> bw_inFlight w \<and> (may_start w i \<or> bt_phase (bw_tasks w ! i) = Running)"
  using assms(2,3)
proof (induction j rule: less_induct)
  case (less j)
  have flight: "j \<in> bw_inFlight w" using work_okD(6) [OF assms(1)] less.prems by blast
  show ?case
  proof (cases "bt_phase (bw_tasks w ! j)")
    case Queued
    show ?thesis
    proof (cases "may_start w j")
      case True
      then show ?thesis using flight by blast
    next
      case False
      then obtain p where p: "bt_after (bw_tasks w ! j) = Some p" "\<not> finished (bw_tasks w ! p)"
        using Queued less.prems(1) by (auto simp: may_start_def split: option.splits)
      then have "same_key w p j" using work_okD(1) [OF assms(1) less.prems(1)] by (simp add: behind_def)
      then have "p < j" "p < length (bw_tasks w)" by (auto simp: same_key_def)
      from less.IH [OF this p(2)] \<open>p < j\<close> show ?thesis by (meson le_trans less_imp_le)
    qed
  qed (use flight less.prems(2) in \<open>auto simp: finished_def\<close>)
qed

lemma settled_empty: "settled checks = Some (t, w) \<Longrightarrow> bw_inFlight w = {}"
  by (induction checks rule: settled.induct) (auto split: if_splits)

text \<open>
  C19: background tasks keep their promises. Whatever is called, ends or fails in whatever order, a
  task starts only when every earlier task of its key has ended; a task that has not ended is in
  flight, and one of those can always go on, failures before it or not; and when the shutdown hook
  reports that it drained the work, no task is left and no key is remembered.
\<close>

theorem background_tasks_in_order:
  assumes "bg_step\<^sup>*\<^sup>* no_work w"
  shows "(\<forall>i j. same_key w i j \<and> bt_phase (bw_tasks w ! j) \<noteq> Queued \<longrightarrow> finished (bw_tasks w ! i))
    \<and> (\<forall>j < length (bw_tasks w). \<not> finished (bw_tasks w ! j) \<longrightarrow>
          j \<in> bw_inFlight w \<and> (\<exists>i \<le> j. i \<in> bw_inFlight w \<and> (may_start w i \<or> bt_phase (bw_tasks w ! i) = Running)))
    \<and> (\<forall>now v checks. before_application_shutdown now v checks = Drained w \<longrightarrow>
          (\<forall>t \<in> set (bw_tasks w). finished t) \<and> bw_tails w = Map.empty)"
proof -
  have ok: "work_ok w" by (rule background.reachable_inv [OF assms no_work_ok])
  have drained: "(\<forall>t \<in> set (bw_tasks w). finished t) \<and> bw_tails w = Map.empty"
    if "before_application_shutdown now v checks = Drained w" for now v checks
  proof -
    have "bw_inFlight w = {}"
      using that settled_empty
      by (auto simp: before_application_shutdown_def split: option.splits prod.splits if_splits)
    then show ?thesis
      using work_okD(5,6) [OF ok] by (auto simp: in_set_conv_nth fun_eq_iff) (metis not_None_eq)
  qed
  show ?thesis using work_okD(2) [OF ok] work_okD(6) [OF ok] never_stuck [OF ok] drained by blast
qed

definition two_mails :: bg_work where
  "two_mails = set_phase 0 Running (run_task ''b'' (Some ''k'') (run_task ''a'' (Some ''k'') no_work))"

theorem background_tasks_in_order_witness:
  "bg_step\<^sup>*\<^sup>* no_work two_mails \<and> same_key two_mails 0 1 \<and> \<not> finished (bw_tasks two_mails ! 0)
    \<and> bt_phase (bw_tasks two_mails ! 1) = Queued"
proof -
  let ?w1 = "run_task ''a'' (Some ''k'') no_work"
  have "may_start (run_task ''b'' (Some ''k'') ?w1) 0"
    by (simp add: may_start_def run_task_def no_work_def)
  then have run: "bg_step\<^sup>*\<^sup>* no_work two_mails"
    unfolding two_mails_def
    by (meson bg_step.called bg_step.started converse_rtranclp_into_rtranclp rtranclp.rtrancl_refl)
  have facts: "same_key two_mails 0 1" "\<not> finished (bw_tasks two_mails ! 0)"
    by (simp_all add: two_mails_def same_key_def finished_def set_phase_def run_task_def no_work_def)
  then show ?thesis using run background_tasks_in_order [OF run] by blast
qed

end
