(* ===== verification/StorageDrivers.thy ===== *)
theory StorageDrivers
  imports MediaFiles Guards "HOL-Library.Sublist"
begin

text \<open>
  \<open>storage/local-storage.driver.ts\<close> and \<open>storage/s3-storage.driver.ts\<close> behind the interface of
  \<open>storage/storage-driver.interface.ts\<close>: Node's \<open>path.resolve\<close> on POSIX paths, the guard against
  leaving the storage root, the disk with its directories, and the bucket. Absolute paths are lists of
  segments. Permissions, a full disk, symbolic links and failures of the network are not modelled here;
  \<open>MediaFiles\<close> takes failing writes and removals as parameters.
\<close>

section \<open>Paths\<close>

fun split_slash :: "string \<Rightarrow> string list" where
  "split_slash [] = [[]]"
| "split_slash (c # cs) =
     (if c = CHR ''/'' then [] # split_slash cs
      else case split_slash cs of [] \<Rightarrow> [[c]] | w # ws \<Rightarrow> (c # w) # ws)"

definition path_segments :: "string \<Rightarrow> string list" where
  "path_segments s = filter (\<lambda>x. x \<noteq> [] \<and> x \<noteq> ''.'') (split_slash s)"

definition push_segment :: "string \<Rightarrow> string list \<Rightarrow> string list" where
  "push_segment seg stack = (if seg = ''..'' then butlast stack else stack @ [seg])"

text \<open>\<open>path.resolve(base, p)\<close> for an absolute \<open>base\<close>.\<close>

definition resolve_from :: "string list \<Rightarrow> string \<Rightarrow> string list" where
  "resolve_from base p = fold push_segment (path_segments p) (if take 1 p = ''/'' then [] else base)"

definition path_text :: "string list \<Rightarrow> string" where
  "path_text segs = ''/'' @ join_with ''/'' segs"

definition driver_resolve :: "string list \<Rightarrow> string \<Rightarrow> string \<Rightarrow> string list res" where
  "driver_resolve cwd storage_root key =
     (let root = resolve_from cwd storage_root;
          found = resolve_from root key
      in if path_text found \<noteq> path_text root \<and> \<not> starts_with (path_text root @ ''/'') (path_text found)
         then fail 400 VALIDATION_FAILED ''Invalid storage key''
         else Inr found)"

section \<open>The disk\<close>

record disk =
  dk_files :: "string list \<rightharpoonup> string"
  dk_dirs :: "string list set"

definition mkdir_recursive :: "string list \<Rightarrow> disk \<Rightarrow> disk res" where
  "mkdir_recursive p d =
     (if list_ex (\<lambda>q. dk_files d q \<noteq> None) (prefixes p) then Inl (OtherExn ''ENOTDIR'')
      else Inr (d\<lparr>dk_dirs := dk_dirs d \<union> set (prefixes p)\<rparr>))"

definition write_file :: "string list \<Rightarrow> string \<Rightarrow> disk \<Rightarrow> disk res" where
  "write_file p body d = (if p \<in> dk_dirs d then Inl (OtherExn ''EISDIR'') else Inr (d\<lparr>dk_files := (dk_files d)(p \<mapsto> body)\<rparr>))"

definition local_put :: "string list \<Rightarrow> string \<Rightarrow> string \<Rightarrow> string \<Rightarrow> disk \<Rightarrow> unit res \<times> disk" where
  "local_put cwd storage_root key body d =
     (case driver_resolve cwd storage_root key of
        Inl e \<Rightarrow> (Inl e, d)
      | Inr p \<Rightarrow>
          (case mkdir_recursive (butlast p) d of
             Inl e \<Rightarrow> (Inl e, d)
           | Inr d1 \<Rightarrow> (case write_file p body d1 of Inl e \<Rightarrow> (Inl e, d1) | Inr d2 \<Rightarrow> (Inr (), d2))))"

text \<open>
  The bytes the stream yields, \<open>None\<close> for \<open>StorageObjectNotFoundError\<close>. A directory opens, and the
  stream then fails; a file on the way is another error than \<open>ENOENT\<close>.
\<close>

definition local_get :: "string list \<Rightarrow> string \<Rightarrow> string \<Rightarrow> disk \<Rightarrow> string option res" where
  "local_get cwd storage_root key d =
     (case driver_resolve cwd storage_root key of
        Inl e \<Rightarrow> Inl e
      | Inr p \<Rightarrow>
          if p \<in> dk_dirs d then Inl (OtherExn ''EISDIR'')
          else if list_ex (\<lambda>q. dk_files d q \<noteq> None) (prefixes (butlast p)) then Inl (OtherExn ''ENOTDIR'')
          else Inr (dk_files d p))"

text \<open>\<open>remove\<close> never throws: an invalid key and a directory are logged.\<close>

definition local_remove :: "string list \<Rightarrow> string \<Rightarrow> string \<Rightarrow> disk \<Rightarrow> disk" where
  "local_remove cwd storage_root key d =
     (case driver_resolve cwd storage_root key of
        Inl e \<Rightarrow> d
      | Inr p \<Rightarrow> if p \<in> dk_dirs d then d else d\<lparr>dk_files := (dk_files d)(p := None)\<rparr>)"

section \<open>The bucket\<close>

type_synonym s3_bucket = "string \<rightharpoonup> string"

definition s3_put :: "string \<Rightarrow> string \<Rightarrow> s3_bucket \<Rightarrow> unit res \<times> s3_bucket" where
  "s3_put key body b = (Inr (), b(key \<mapsto> body))"

definition s3_get :: "string \<Rightarrow> s3_bucket \<Rightarrow> string option res" where
  "s3_get key b = Inr (b key)"

definition s3_remove :: "string \<Rightarrow> s3_bucket \<Rightarrow> s3_bucket" where
  "s3_remove key b = b(key := None)"

section \<open>The interface\<close>

datatype store_op = PutObject string string | GetObject string | RemoveObject string

datatype store_answer = Stored "unit res" | Read "string option res" | Removed

fun op_key :: "store_op \<Rightarrow> string" where
  "op_key (PutObject k b) = k" | "op_key (GetObject k) = k" | "op_key (RemoveObject k) = k"

fun run_store ::
  "(string \<Rightarrow> string \<Rightarrow> 's \<Rightarrow> unit res \<times> 's) \<Rightarrow> (string \<Rightarrow> 's \<Rightarrow> string option res) \<Rightarrow> (string \<Rightarrow> 's \<Rightarrow> 's)
    \<Rightarrow> store_op list \<Rightarrow> 's \<Rightarrow> store_answer list" where
  "run_store put get remove [] s = []"
| "run_store put get remove (PutObject k b # ops) s = (case put k b s of (r, s') \<Rightarrow> Stored r # run_store put get remove ops s')"
| "run_store put get remove (GetObject k # ops) s = Read (get k s) # run_store put get remove ops s"
| "run_store put get remove (RemoveObject k # ops) s = Removed # run_store put get remove ops (remove k s)"

text \<open>What the interface promises on a set of keys: a map from keys to bytes.\<close>

fun run_map :: "store_op list \<Rightarrow> (string \<rightharpoonup> string) \<Rightarrow> store_answer list" where
  "run_map [] m = []"
| "run_map (PutObject k b # ops) m = Stored (Inr ()) # run_map ops (m(k \<mapsto> b))"
| "run_map (GetObject k # ops) m = Read (Inr (m k)) # run_map ops m"
| "run_map (RemoveObject k # ops) m = Removed # run_map ops (m(k := None))"

locale storage_driver =
  fixes put :: "string \<Rightarrow> string \<Rightarrow> 's \<Rightarrow> unit res \<times> 's"
    and get :: "string \<Rightarrow> 's \<Rightarrow> string option res"
    and remove :: "string \<Rightarrow> 's \<Rightarrow> 's"
    and inv :: "'s \<Rightarrow> bool"
    and keys :: "string set"
  assumes put_law: "inv s \<Longrightarrow> k \<in> keys \<Longrightarrow> put k b s = (r, s')
      \<Longrightarrow> r = Inr () \<and> inv s' \<and> (\<forall>j \<in> keys. get j s' = (if j = k then Inr (Some b) else get j s))"
    and remove_law: "inv s \<Longrightarrow> k \<in> keys
      \<Longrightarrow> inv (remove k s) \<and> (\<forall>j \<in> keys. get j (remove k s) = (if j = k then Inr None else get j s))"
begin

lemma run_is_map:
  assumes "inv s" "op_key ` set ops \<subseteq> keys" "\<forall>k \<in> keys. get k s = Inr (m k)"
  shows "run_store put get remove ops s = run_map ops m"
  using assms
proof (induction ops arbitrary: s m)
  case (Cons op ops)
  show ?case
  proof (cases op)
    case (PutObject k b)
    obtain r s' where step: "put k b s = (r, s')" by fastforce
    with Cons.prems PutObject have "r = Inr ()" "inv s'" "\<forall>j \<in> keys. get j s' = Inr ((m(k \<mapsto> b)) j)"
      using put_law [OF Cons.prems(1) _ step] by auto
    then show ?thesis using Cons.IH [of s' "m(k \<mapsto> b)"] Cons.prems(2) by (simp add: PutObject step del: fun_upd_apply)
  next
    case (GetObject k)
    then show ?thesis using Cons by simp
  next
    case (RemoveObject k)
    with Cons.prems have "inv (remove k s)" "\<forall>j \<in> keys. get j (remove k s) = Inr ((m(k := None)) j)"
      using remove_law [OF Cons.prems(1)] by auto
    then show ?thesis using Cons.IH [of "remove k s" "m(k := None)"] Cons.prems(2) by (simp add: RemoveObject del: fun_upd_apply)
  qed
qed simp

end

section \<open>Paths as segments\<close>

definition clean :: "string \<Rightarrow> bool" where
  "clean x \<longleftrightarrow> x \<noteq> [] \<and> CHR ''/'' \<notin> set x"

lemma split_slash_not_Nil [simp]: "split_slash s \<noteq> []"
  by (cases s) (auto split: list.split)

lemma split_slash_plain: "CHR ''/'' \<notin> set x \<Longrightarrow> split_slash x = [x]"
  by (induction x) auto

lemma split_slash_append: "split_slash (x @ CHR ''/'' # y) = split_slash x @ split_slash y"
proof (induction x)
  case (Cons c x)
  then show ?case by (cases "split_slash x") auto
qed simp

lemma split_slash_plain_parts: "x \<in> set (split_slash s) \<Longrightarrow> CHR ''/'' \<notin> set x"
  by (induction s arbitrary: x) (auto split: if_splits list.splits)

lemma split_slash_join:
  "xs \<noteq> [] \<Longrightarrow> \<forall>x \<in> set xs. clean x \<Longrightarrow> split_slash (join_with ''/'' xs) = xs"
proof (induction xs)
  case (Cons x xs)
  then show ?case
    by (cases xs) (simp_all add: clean_def split_slash_plain split_slash_append)
qed simp

lemma split_path_text: "\<forall>x \<in> set xs. clean x \<Longrightarrow> xs \<noteq> [] \<Longrightarrow> split_slash (path_text xs) = [] # xs"
  by (simp add: path_text_def split_slash_join)

lemma path_text_inj:
  assumes "\<forall>x \<in> set xs. clean x" "\<forall>x \<in> set ys. clean x" "path_text xs = path_text ys"
  shows "xs = ys"
proof (cases "xs = [] \<or> ys = []")
  case True
  have "join_with ''/'' zs = [] \<Longrightarrow> \<forall>z \<in> set zs. clean z \<Longrightarrow> zs = []" for zs
    by (cases "(''/'', zs)" rule: join_with.cases) (auto simp: clean_def)
  from this [of xs] this [of ys] show ?thesis using True assms by (auto simp: path_text_def)
next
  case False
  then show ?thesis using split_path_text assms by (metis list.inject)
qed

lemma resolve_from_clean:
  assumes "\<forall>x \<in> set base. clean x"
  shows "\<forall>x \<in> set (resolve_from base p). clean x"
proof -
  have fold: "\<forall>x \<in> set (fold push_segment segs stack). clean x"
    if "\<forall>x \<in> set segs. clean x" "\<forall>x \<in> set stack. clean x" for segs stack
    using that
  proof (induction segs arbitrary: stack)
    case (Cons seg segs)
    have "\<forall>x \<in> set (push_segment seg stack). clean x"
      using Cons.prems by (auto simp: push_segment_def dest: in_set_butlastD)
    then show ?case using Cons by simp
  qed simp
  have "\<forall>x \<in> set (path_segments p). clean x"
    using split_slash_plain_parts by (auto simp: path_segments_def clean_def)
  moreover have "\<forall>x \<in> set (if take 1 p = ''/'' then [] else base). clean x"
    using assms by (cases "take 1 p = ''/''") simp_all
  ultimately show ?thesis unfolding resolve_from_def by (rule fold)
qed

lemma under_path_text:
  assumes "\<forall>x \<in> set root. clean x" "\<forall>x \<in> set p. clean x" "starts_with (path_text root @ ''/'') (path_text p)"
  shows "root \<noteq> [] \<and> prefix root p"
proof -
  define t where "t = drop (length (path_text root @ ''/'')) (path_text p)"
  have "path_text p = take (length (path_text root @ ''/'')) (path_text p) @ t"
    unfolding t_def by (rule append_take_drop_id [symmetric])
  also have "take (length (path_text root @ ''/'')) (path_text p) = path_text root @ ''/''"
    using assms(3) by (simp only: starts_with_def)
  finally have t: "path_text p = path_text root @ CHR ''/'' # t" by simp
  have p: "p \<noteq> []" using t by (auto simp: path_text_def)
  then have split: "[] # p = split_slash (path_text root) @ split_slash t"
    using split_path_text [OF assms(2)] t split_slash_append by metis
  show ?thesis
  proof (cases "root = []")
    case True
    then have "[] # p = [[], []] @ split_slash t" using split by (simp add: path_text_def)
    then show ?thesis using assms(2) by (auto simp: clean_def)
  next
    case False
    then show ?thesis using split split_path_text [OF assms(1)] by (simp add: prefix_def)
  qed
qed

lemma driver_resolve_inside:
  assumes "\<forall>x \<in> set cwd. clean x" "driver_resolve cwd sr key = Inr p"
  shows "prefix (resolve_from cwd sr) p"
proof -
  note root = resolve_from_clean [OF assms(1), of sr]
  have p: "p = resolve_from (resolve_from cwd sr) key"
    and "path_text p = path_text (resolve_from cwd sr) \<or> starts_with (path_text (resolve_from cwd sr) @ ''/'') (path_text p)"
    using assms(2) by (auto simp: driver_resolve_def Let_def fail_def split: if_splits)
  moreover have "\<forall>x \<in> set p. clean x" unfolding p by (rule resolve_from_clean [OF root])
  ultimately show ?thesis
    using under_path_text [OF root, of p] path_text_inj [OF _ root, of p] by fastforce
qed

section \<open>Leaving the root\<close>

lemma mkdir_recursive_Inr:
  assumes "mkdir_recursive p d = Inr d'"
  shows "dk_files d' = dk_files d" "dk_dirs d' = dk_dirs d \<union> set (prefixes p)"
  using assms by (auto simp: mkdir_recursive_def split: if_splits)

text \<open>
  C12: no key leaves the storage root. Whatever the key holds, absolute paths and any number of \<open>..\<close>
  included, writing and removing it change no file that is not at or below the root, and the only
  directories made are below the root or on the way to it; what a read returns is a file at or below
  the root.
\<close>

theorem storage_stays_inside:
  assumes "\<forall>x \<in> set cwd. clean x" "root = resolve_from cwd sr"
    and "local_put cwd sr key body d = (r, d')"
  shows "(\<forall>p. \<not> prefix root p \<longrightarrow> dk_files d' p = dk_files d p \<and> dk_files (local_remove cwd sr key d) p = dk_files d p)
    \<and> (\<forall>p \<in> dk_dirs d'. p \<in> dk_dirs d \<or> prefix root p \<or> prefix p root)
    \<and> (\<forall>b. local_get cwd sr key d = Inr (Some b) \<longrightarrow> (\<exists>p. prefix root p \<and> dk_files d p = Some b))"
proof (cases "driver_resolve cwd sr key")
  case (Inl e)
  then show ?thesis using assms(3) by (simp add: local_put_def local_remove_def local_get_def)
next
  case (Inr p)
  have inside: "prefix root p" using driver_resolve_inside [OF assms(1) Inr] assms(2) by simp
  have comparable: "prefix root q \<or> prefix q root" if "prefix q (butlast p)" for q
    using that inside by (meson prefixeq_butlast prefix_order.trans prefix_same_cases)
  have d': "d' = d \<or> (\<exists>d1. mkdir_recursive (butlast p) d = Inr d1 \<and> (d' = d1 \<or> d' = d1\<lparr>dk_files := (dk_files d1)(p \<mapsto> body)\<rparr>))"
    using assms(3) Inr by (auto simp: local_put_def write_file_def split: sum.splits if_splits)
  then have "dk_files d' q = dk_files d q" if "\<not> prefix root q" for q
    using that inside mkdir_recursive_Inr(1) by (metis disk.select_convs(1) disk.surjective disk.update_convs(1) fun_upd_other)
  moreover have "q \<in> dk_dirs d \<or> prefix root q \<or> prefix q root" if "q \<in> dk_dirs d'" for q
  proof (cases "q \<in> dk_dirs d")
    case False
    then have "prefix q (butlast p)" using that d' mkdir_recursive_Inr(2) [of "butlast p" d] by auto
    then show ?thesis using comparable by blast
  qed blast
  moreover have "dk_files (local_remove cwd sr key d) q = dk_files d q" if "\<not> prefix root q" for q
    using that inside Inr by (auto simp: local_remove_def)
  moreover have "\<exists>p. prefix root p \<and> dk_files d p = Some b" if "local_get cwd sr key d = Inr (Some b)" for b
    using that inside Inr by (auto simp: local_get_def split: if_splits)
  ultimately show ?thesis by blast
qed

section \<open>The two drivers\<close>

definition segment :: "string \<Rightarrow> bool" where
  "segment x \<longleftrightarrow> clean x \<and> x \<noteq> ''.'' \<and> x \<noteq> ''..''"

text \<open>The shape of the keys \<open>MediaService\<close> builds: \<open>assets/2026/09/name\<close>.\<close>

definition asset_keys :: "string set" where
  "asset_keys = {join_with ''/'' segs | segs. length segs = 4 \<and> list_all segment segs}"

lemma asset_keysE:
  assumes "k \<in> asset_keys"
  obtains segs where "k = join_with ''/'' segs" "length segs = 4" "\<forall>x \<in> set segs. segment x"
  using assms by (auto simp: asset_keys_def list_all_iff)

lemma asset_keysI: "length segs = 4 \<Longrightarrow> list_all segment segs \<Longrightarrow> join_with ''/'' segs \<in> asset_keys"
  by (auto simp: asset_keys_def)

lemma join_with_append:
  "xs \<noteq> [] \<Longrightarrow> ys \<noteq> [] \<Longrightarrow> join_with sep (xs @ ys) = join_with sep xs @ sep @ join_with sep ys"
proof (induction xs)
  case (Cons x xs)
  then show ?case by (cases xs; cases ys) simp_all
qed simp

lemma split_asset_key:
  assumes "length segs = 4" "\<forall>x \<in> set segs. segment x"
  shows "split_slash (join_with ''/'' segs) = segs"
proof (rule split_slash_join)
  show "segs \<noteq> []" using assms(1) by auto
  show "\<forall>x \<in> set segs. clean x" using assms(2) by (simp add: segment_def)
qed

lemma resolve_asset_key:
  assumes "length segs = 4" "\<forall>x \<in> set segs. segment x"
  shows "resolve_from root (join_with ''/'' segs) = root @ segs"
proof -
  have "path_segments (join_with ''/'' segs) = segs"
  proof -
    have "split_slash (join_with ''/'' segs) = segs" by (rule split_asset_key [OF assms])
    moreover have "filter (\<lambda>x. x \<noteq> [] \<and> x \<noteq> ''.'') segs = segs"
      using assms(2) by (simp add: filter_id_conv segment_def clean_def)
    ultimately show ?thesis by (simp only: path_segments_def)
  qed
  moreover have "fold push_segment segs stack = stack @ segs" if "\<forall>x \<in> set segs. segment x" for segs stack
    using that by (induction segs arbitrary: stack) (auto simp: push_segment_def segment_def)
  moreover have "take 1 (join_with ''/'' segs) \<noteq> ''/''"
  proof -
    obtain x xs where segs: "segs = x # xs" using assms(1) by (cases segs) auto
    moreover obtain c cs where x: "x = c # cs" "c \<noteq> CHR ''/''"
      using assms(2) segs by (cases x) (auto simp: segment_def clean_def)
    ultimately show ?thesis by (cases xs) simp_all
  qed
  ultimately show ?thesis using assms(2) by (simp only: resolve_from_def if_False)
qed

lemma starts_with_append: "starts_with p (p @ s)"
  by (simp add: starts_with_def)

lemma driver_resolve_asset_key:
  assumes "resolve_from cwd sr = root" "root \<noteq> []" "length segs = 4" "\<forall>x \<in> set segs. segment x"
  shows "driver_resolve cwd sr (join_with ''/'' segs) = Inr (root @ segs)"
proof -
  have "path_text (root @ segs) = (path_text root @ ''/'') @ join_with ''/'' segs"
    using assms(2,3) by (subst path_text_def, subst join_with_append) (auto simp: path_text_def)
  then have "starts_with (path_text root @ ''/'') (path_text (root @ segs))"
    by (simp only: starts_with_append)
  then show ?thesis by (simp only: driver_resolve_def assms(1) Let_def resolve_asset_key [OF assms(3,4)] if_False not_True_eq_False simp_thms)
qed

text \<open>A disk on which the asset tree has only directories above its fourth level and files on it.\<close>

definition disk_ready :: "string list \<Rightarrow> disk \<Rightarrow> bool" where
  "disk_ready root d \<longleftrightarrow> root \<noteq> []
     \<and> (\<forall>p. dk_files d p \<noteq> None \<longrightarrow> \<not> prefix p root \<and> (prefix root p \<longrightarrow> length p = length root + 4))
     \<and> (\<forall>p \<in> dk_dirs d. prefix root p \<longrightarrow> length p < length root + 4)"

lemma no_file_above:
  assumes "disk_ready root d" "length segs = 4"
  shows "\<not> list_ex (\<lambda>q. dk_files d q \<noteq> None) (prefixes (butlast (root @ segs)))"
proof -
  have "dk_files d q = None" if "prefix q (butlast (root @ segs))" for q
  proof (rule ccontr)
    assume "dk_files d q \<noteq> None"
    then have q: "\<not> prefix q root" "prefix root q \<longrightarrow> length q = length root + 4"
      using assms(1) by (auto simp: disk_ready_def)
    have "butlast (root @ segs) = root @ butlast segs" using assms(2) by (auto simp: butlast_append)
    then have "prefix root q" "length q \<le> length root + 3"
      using that q(1) assms(2) prefix_length_le [OF that] by (auto simp: prefix_append)
    then show False using q(2) by simp
  qed
  then show ?thesis by (auto simp: list_ex_iff)
qed

lemma no_dir_here: "disk_ready root d \<Longrightarrow> length segs = 4 \<Longrightarrow> root @ segs \<notin> dk_dirs d"
  by (auto simp: disk_ready_def)

lemma local_get_asset:
  assumes "disk_ready root d" "resolve_from cwd sr = root" "length segs = 4" "\<forall>x \<in> set segs. segment x"
  shows "local_get cwd sr (join_with ''/'' segs) d = Inr (dk_files d (root @ segs))"
proof -
  have "root \<noteq> []" using assms(1) by (simp add: disk_ready_def)
  then show ?thesis
    using driver_resolve_asset_key [OF assms(2) _ assms(3,4)] no_dir_here [OF assms(1,3)] no_file_above [OF assms(1,3)]
    by (simp add: local_get_def)
qed

lemma local_put_asset:
  assumes "disk_ready root d" "resolve_from cwd sr = root" "length segs = 4" "\<forall>x \<in> set segs. segment x"
  shows "\<exists>d'. local_put cwd sr (join_with ''/'' segs) body d = (Inr (), d') \<and> disk_ready root d'
    \<and> dk_files d' = (dk_files d)(root @ segs \<mapsto> body)"
proof -
  have root: "root \<noteq> []" using assms(1) by (simp add: disk_ready_def)
  let ?dirs = "dk_dirs d \<union> set (prefixes (butlast (root @ segs)))"
  let ?d = "d\<lparr>dk_dirs := ?dirs, dk_files := (dk_files d)(root @ segs \<mapsto> body)\<rparr>"
  have short: "length q < length root + 4" if "prefix q (butlast (root @ segs))" for q
    using prefix_length_le [OF that] assms(3) by simp
  then have "root @ segs \<notin> ?dirs"
    using no_dir_here [OF assms(1,3)] assms(3) by (metis Un_iff in_set_prefixes length_append less_irrefl)
  then have "local_put cwd sr (join_with ''/'' segs) body d = (Inr (), ?d)"
    using driver_resolve_asset_key [OF assms(2) root assms(3,4)] no_file_above [OF assms(1,3)]
    by (simp add: local_put_def mkdir_recursive_def write_file_def)
  moreover have "disk_ready root ?d"
    using assms(1,3) short by (auto simp: disk_ready_def dest: prefix_length_le)
  ultimately show ?thesis by (intro exI [of _ ?d]) simp
qed

lemma local_remove_asset:
  assumes "disk_ready root d" "resolve_from cwd sr = root" "length segs = 4" "\<forall>x \<in> set segs. segment x"
  shows "local_remove cwd sr (join_with ''/'' segs) d = d\<lparr>dk_files := (dk_files d)(root @ segs := None)\<rparr>
    \<and> disk_ready root (local_remove cwd sr (join_with ''/'' segs) d)"
proof -
  have root: "root \<noteq> []" using assms(1) by (simp add: disk_ready_def)
  have "local_remove cwd sr (join_with ''/'' segs) d = d\<lparr>dk_files := (dk_files d)(root @ segs := None)\<rparr>"
    using driver_resolve_asset_key [OF assms(2) root assms(3,4)] no_dir_here [OF assms(1,3)] by (simp add: local_remove_def)
  then show ?thesis using assms(1) by (simp add: disk_ready_def)
qed

lemma asset_key_inj:
  assumes "length segs = 4" "\<forall>x \<in> set segs. segment x" "length segs' = 4" "\<forall>x \<in> set segs'. segment x"
  shows "join_with ''/'' segs = join_with ''/'' segs' \<longleftrightarrow> segs = segs'"
proof
  assume eq: "join_with ''/'' segs = join_with ''/'' segs'"
  have "segs = split_slash (join_with ''/'' segs)" by (rule split_asset_key [OF assms(1,2), symmetric])
  also have "\<dots> = segs'" unfolding eq by (rule split_asset_key [OF assms(3,4)])
  finally show "segs = segs'" .
qed simp

interpretation local_driver: storage_driver "local_put cwd sr" "local_get cwd sr" "local_remove cwd sr"
    "disk_ready (resolve_from cwd sr)" asset_keys for cwd sr
proof unfold_locales
  fix d k b r d'
  assume ready: "disk_ready (resolve_from cwd sr) d" and k: "k \<in> asset_keys" and put: "local_put cwd sr k b d = (r, d')"
  obtain segs where segs: "k = join_with ''/'' segs" "length segs = 4" "\<forall>x \<in> set segs. segment x"
    using k by (rule asset_keysE)
  have d': "r = Inr ()" "disk_ready (resolve_from cwd sr) d'" "dk_files d' = (dk_files d)(resolve_from cwd sr @ segs \<mapsto> b)"
    using local_put_asset [OF ready refl segs(2,3), of b] put segs(1) by auto
  have "local_get cwd sr j d' = (if j = k then Inr (Some b) else local_get cwd sr j d)" if "j \<in> asset_keys" for j
    using that
  proof (rule asset_keysE)
    fix more assume j: "j = join_with ''/'' more" "length more = 4" "\<forall>x \<in> set more. segment x"
    then show ?thesis
      using local_get_asset [OF d'(2) refl j(2,3)] local_get_asset [OF ready refl j(2,3)] asset_key_inj [OF j(2,3) segs(2,3)]
      by (simp add: segs(1) d'(3))
  qed
  then show "r = Inr () \<and> disk_ready (resolve_from cwd sr) d'
      \<and> (\<forall>j \<in> asset_keys. local_get cwd sr j d' = (if j = k then Inr (Some b) else local_get cwd sr j d))"
    using d' by blast
next
  fix d k
  assume ready: "disk_ready (resolve_from cwd sr) d" and k: "k \<in> asset_keys"
  obtain segs where segs: "k = join_with ''/'' segs" "length segs = 4" "\<forall>x \<in> set segs. segment x"
    using k by (rule asset_keysE)
  note removed = local_remove_asset [OF ready refl segs(2,3), folded segs(1)]
  have "local_get cwd sr j (local_remove cwd sr k d) = (if j = k then Inr None else local_get cwd sr j d)" if "j \<in> asset_keys" for j
    using that
  proof (rule asset_keysE)
    fix more assume j: "j = join_with ''/'' more" "length more = 4" "\<forall>x \<in> set more. segment x"
    have "local_get cwd sr j (local_remove cwd sr k d) = Inr (dk_files (local_remove cwd sr k d) (resolve_from cwd sr @ more))"
      using local_get_asset [OF conjunct2 [OF removed] refl j(2,3)] j(1) by simp
    then show ?thesis
      using local_get_asset [OF ready refl j(2,3)] asset_key_inj [OF j(2,3) segs(2,3)] conjunct1 [OF removed]
      by (simp add: segs(1) j(1))
  qed
  then show "disk_ready (resolve_from cwd sr) (local_remove cwd sr k d)
      \<and> (\<forall>j \<in> asset_keys. local_get cwd sr j (local_remove cwd sr k d) = (if j = k then Inr None else local_get cwd sr j d))"
    using removed by blast
qed

interpretation s3_driver: storage_driver s3_put s3_get s3_remove "\<lambda>_. True" keys for keys
  by unfold_locales (auto simp: s3_put_def s3_get_def s3_remove_def)

lemma segment_long: "clean x \<Longrightarrow> 3 \<le> length x \<Longrightarrow> segment x"
  by (auto simp: segment_def)

lemma show_nat_segment: "segment (show_nat n)"
proof -
  have "CHR ''/'' \<notin> set (show_nat n)" "CHR ''.'' \<notin> set (show_nat n)"
    by (rule digit_not_sep, simp add: is_digit_def)+
  then show ?thesis by (auto simp: segment_def clean_def)
qed

lemma uploads_use_asset_keys:
  assumes "CHR ''/'' \<notin> set (ud_publicId u)" "3 \<le> length (ud_publicId u)" "CHR ''/'' \<notin> set (pp_ext p)"
  shows "original_key u p \<in> asset_keys" "variant_key u l \<in> asset_keys"
proof -
  let ?month = "(if ud_month u < 10 then ''0'' else []) @ show_nat (ud_month u)"
  have month: "segment ?month"
    using show_nat_segment [of "ud_month u"] by (auto simp: segment_def clean_def)
  have fits: "asset_dir u @ ''/'' @ name \<in> asset_keys" if "segment name" for name
  proof -
    have "asset_dir u @ ''/'' @ name = join_with ''/'' [''assets'', show_nat (ud_year u), ?month, name]"
      by (simp add: asset_dir_def)
    moreover have "list_all segment [''assets'', show_nat (ud_year u), ?month, name]"
      using that month show_nat_segment by (simp add: segment_def clean_def)
    ultimately show ?thesis
      using asset_keysI [of "[''assets'', show_nat (ud_year u), ?month, name]"] by simp
  qed
  have name: "segment (ud_publicId u @ rest)" if "CHR ''/'' \<notin> set rest" for rest
    using assms(1,2) that by (intro segment_long) (auto simp: clean_def)
  have "segment (ud_publicId u @ ''.'' @ pp_ext p)" using assms(3) by (intro name) simp
  from fits [OF this] show "original_key u p \<in> asset_keys" by (simp add: original_key_def)
  have "CHR ''/'' \<notin> set (variant_label_name l)" by (cases l) simp_all
  then have "segment (ud_publicId u @ ''-'' @ variant_label_name l @ ''.webp'')" by (intro name) simp
  from fits [OF this] show "variant_key u l \<in> asset_keys" by (simp add: variant_key_def)
qed

text \<open>
  C22: the two drivers are interchangeable. On the keys uploads are stored under, any sequence of
  writes, reads and removals gets the same answers from a disk with a clean asset tree and from a
  bucket with the same objects, namely those of a plain map from keys to bytes.
\<close>

theorem drivers_interchangeable:
  assumes "disk_ready (resolve_from cwd sr) d" "op_key ` set ops \<subseteq> asset_keys"
    and "\<forall>k \<in> asset_keys. local_get cwd sr k d = Inr (b k)"
  shows "run_store (local_put cwd sr) (local_get cwd sr) (local_remove cwd sr) ops d = run_map ops b
    \<and> run_store s3_put s3_get s3_remove ops b = run_map ops b"
proof
  show "run_store (local_put cwd sr) (local_get cwd sr) (local_remove cwd sr) ops d = run_map ops b"
    by (rule local_driver.run_is_map [OF assms])
  show "run_store s3_put s3_get s3_remove ops b = run_map ops b"
    by (rule s3_driver.run_is_map [OF _ assms(2)]) (simp_all add: s3_get_def)
qed

section \<open>Witnesses\<close>

definition empty_disk :: disk where
  "empty_disk = \<lparr>dk_files = Map.empty, dk_dirs = {[], [''srv'']}\<rparr>"

lemma empty_disk_ready: "disk_ready (resolve_from [''srv''] ''./var/assets'') empty_disk"
proof -
  have "resolve_from [''srv''] ''./var/assets'' = [''srv'', ''var'', ''assets'']" by code_simp
  then show ?thesis by (simp add: disk_ready_def empty_disk_def)
qed

theorem storage_stays_inside_witness:
  "\<exists>r d'. local_put [''srv''] ''./var/assets'' ''../../etc/passwd'' ''x'' empty_disk = (r, d')
     \<and> dk_files d' [''srv'', ''etc'', ''passwd''] = dk_files empty_disk [''srv'', ''etc'', ''passwd'']"
proof -
  obtain r d' where put: "local_put [''srv''] ''./var/assets'' ''../../etc/passwd'' ''x'' empty_disk = (r, d')" by fastforce
  have "\<not> prefix (resolve_from [''srv''] ''./var/assets'') [''srv'', ''etc'', ''passwd'']" by code_simp
  then show ?thesis
    using storage_stays_inside [OF _ refl put] put by (auto simp: clean_def)
qed

theorem drivers_interchangeable_witness:
  "run_store (local_put [''srv''] ''./var/assets'') (local_get [''srv''] ''./var/assets'') (local_remove [''srv''] ''./var/assets'')
      [PutObject ''assets/2026/09/a.pdf'' ''x'', GetObject ''assets/2026/09/a.pdf'', RemoveObject ''assets/2026/09/a.pdf'',
       GetObject ''assets/2026/09/a.pdf''] empty_disk
    = [Stored (Inr ()), Read (Inr (Some ''x'')), Removed, Read (Inr None)]"
proof -
  have "list_all segment [''assets'', ''2026'', ''09'', ''a.pdf'']" by code_simp
  then have key: "''assets/2026/09/a.pdf'' \<in> asset_keys"
    using asset_keysI [of "[''assets'', ''2026'', ''09'', ''a.pdf'']"] by simp
  have "\<forall>k \<in> asset_keys. local_get [''srv''] ''./var/assets'' k empty_disk = Inr (Map.empty k)"
  proof
    fix k assume "k \<in> asset_keys"
    then obtain segs where segs: "k = join_with ''/'' segs" "length segs = 4" "\<forall>x \<in> set segs. segment x" by (rule asset_keysE)
    show "local_get [''srv''] ''./var/assets'' k empty_disk = Inr (Map.empty k)"
      using local_get_asset [OF empty_disk_ready refl segs(2,3)] segs(1) by (simp add: empty_disk_def)
  qed
  then show ?thesis
    using drivers_interchangeable [OF empty_disk_ready, of "[PutObject ''assets/2026/09/a.pdf'' ''x'', GetObject ''assets/2026/09/a.pdf'',
        RemoveObject ''assets/2026/09/a.pdf'', GetObject ''assets/2026/09/a.pdf'']" Map.empty] key by simp
qed

end
