(* ===== verification/StaffUsers.thy ===== *)
theory StaffUsers
  imports StaffRoutes
begin

text \<open>
  \<open>users/users.controller.ts\<close> as a client meets it: the guards on the users area, the service and
  the audit row the interceptor writes from what the handler noted.
\<close>

section \<open>The routes\<close>

datatype users_call =
    ListUsers
  | GetUser string
  | PatchUser string update_user_input
  | DeleteUser string

datatype users_body = UserList "public_user list" | UserBody public_user | UserDeleted

fun users_method :: "users_call \<Rightarrow> string" where
  "users_method ListUsers = ''GET''"
| "users_method (GetUser i) = ''GET''"
| "users_method (PatchUser i input) = ''PATCH''"
| "users_method (DeleteUser i) = ''DELETE''"

definition users_route :: route where
  "users_route = \<lparr>rt_public = False, rt_area = Some UsersArea\<rparr>"

definition users_note :: "audit_action \<Rightarrow> string \<Rightarrow> string \<Rightarrow> json option \<Rightarrow> json option \<Rightarrow> audit_note" where
  "users_note action i label before after =
     \<lparr>an_action = action, an_entityType = ''users'', an_entityId = Some i, an_entityLabel = Some label,
      an_before = before, an_after = after\<rparr>"

definition users_handle :: "staff_env \<Rightarrow> time \<Rightarrow> request \<Rightarrow> users_call \<Rightarrow> auth_db \<Rightarrow> (users_body res \<times> audit_note option) \<times> auth_db" where
  "users_handle se now rq call db =
     (let actor = (case rq_user rq of None \<Rightarrow> [] | Some u \<Rightarrow> fst u);
          shown = public_user_json (sv_iso se)
      in case call of
           ListUsers \<Rightarrow> ((Inr (UserList (find_all now db)), None), db)
         | GetUser i \<Rightarrow>
             (case find_by_id (sv_id se) i db of
                Inl e \<Rightarrow> ((Inl e, None), db)
              | Inr u \<Rightarrow> ((Inr (UserBody (to_public_user now u)), None), db))
         | PatchUser i input \<Rightarrow>
             (case update_user (sv_id se) (ae_email_eq (sv_auth se)) now actor i input db of
                (Inl e, db') \<Rightarrow> ((Inl e, None), db')
              | (Inr (before, after), db') \<Rightarrow>
                  ((Inr (UserBody after), Some (users_note AUpdate i (pu_name after) (Some (shown before)) (Some (shown after)))), db'))
         | DeleteUser i \<Rightarrow>
             (case remove_user (sv_id se) now actor i db of
                (Inl e, db') \<Rightarrow> ((Inl e, None), db')
              | (Inr gone, db') \<Rightarrow>
                  ((Inr UserDeleted, Some (users_note ADelete i (pu_name gone) (Some (shown gone)) None)), db')))"

record users_request =
  uq_now :: time
  uq_cookie :: "string option"
  uq_csrf :: "string option"
  uq_path :: string
  uq_ipHash :: "string option"
  uq_audited :: bool
  uq_call :: users_call

definition users_request_of :: "users_request \<Rightarrow> request" where
  "users_request_of q =
     \<lparr>rq_method = users_method (uq_call q), rq_path = uq_path q, rq_cookie = uq_cookie q, rq_csrfHeader = uq_csrf q,
      rq_user = None, rq_sessionId = None, rq_sessionTokenHash = None\<rparr>"

definition serve_users :: "staff_env \<Rightarrow> users_request \<Rightarrow> auth_db \<Rightarrow> users_body res \<times> auth_db" where
  "serve_users se q db =
     (case guard_chain (sv_auth se) (uq_now q) users_route (users_request_of q) db of
        (Inl e, db1) \<Rightarrow> (Inl e, db1)
      | (Inr rq, db1) \<Rightarrow>
          (let ((body, noted), db2) = users_handle se (uq_now q) rq (uq_call q) db1;
               log = audit_intercept (length (db_audit db2)) (uq_now q) rq (uq_ipHash q) noted (uq_audited q) body
                       (List.enumerate 0 (db_audit db2))
           in (body, db2\<lparr>db_audit := map snd log\<rparr>)))"

section \<open>Every change of an account is on the log\<close>

lemma resolve_audit: "resolve_staff_session env now c rq db = (b, rq', db') \<Longrightarrow> db_audit db' = db_audit db"
  by (cases "find_session env now (hash_token env c) db")
    (auto simp: resolve_staff_session_def Let_def split: if_splits)

lemma guard_chain_audit [simp]: "db_audit (snd (guard_chain env now rt rq db)) = db_audit db"
proof -
  have "db_audit (snd (session_guard env now rt rq db)) = db_audit db"
    using resolve_audit by (auto simp: session_guard_def Let_def split: prod.splits bool.splits)
  then show ?thesis by (auto simp: guard_chain_def split: prod.splits sum.splits)
qed

lemma guard_chain_passed:
  assumes "guard_chain env now rt rq db = (Inr rq', db')"
  shows "session_guard env now rt rq db = (Inr rq', db')" and "roles_guard rt rq' = Inr rq'"
proof -
  obtain rq1 rq2 where "session_guard env now rt rq db = (Inr rq1, db')" "roles_guard rt rq1 = Inr rq2" "csrf_guard env rt rq2 = Inr rq'"
    using assms by (auto simp: guard_chain_def split: prod.splits sum.splits)
  then show "session_guard env now rt rq db = (Inr rq', db')" "roles_guard rt rq' = Inr rq'"
    using csrf_guard_Inr roles_guard_Inr by metis+
qed

lemma guard_chain_request:
  assumes "guard_chain env now rt rq db = (Inr rq', db')"
  shows "rq_path rq' = rq_path rq \<and> rq_method rq' = rq_method rq"
proof -
  have "rq_path r = rq_path rq \<and> rq_method r = rq_method rq"
    if "resolve_staff_session env now c rq db = (b, r, d)" for c b r d
    using that by (cases "find_session env now (hash_token env c) db") (auto simp: resolve_staff_session_def Let_def)
  then show ?thesis
    using guard_chain_passed(1) [OF assms] by (auto simp: session_guard_def Let_def fail_def split: prod.splits bool.splits if_splits)
qed

lemma guard_chain_role:
  assumes "guard_chain env now users_route rq db = (Inr rq', db')" "rq_user rq' = Some (i, role)"
  shows "role = Admin"
  using guard_chain_passed(2) [OF assms(1)] assms(2) by (simp add: roles_guard_def users_route_def fail_def split: if_splits)

lemma map_snd_enumerate: "map snd (List.enumerate n xs) = xs"
  by (simp add: enumerate_eq_zip)

definition changes_accounts :: "users_call \<Rightarrow> (audit_action \<times> string) option" where
  "changes_accounts call =
     (case call of PatchUser i _ \<Rightarrow> Some (AUpdate, i) | DeleteUser i \<Rightarrow> Some (ADelete, i) | _ \<Rightarrow> None)"

lemma users_handle_frame:
  assumes "users_handle se now rq call db = ((body, noted), db')" and "\<not> ok body \<or> changes_accounts call = None"
  shows "db' = db \<and> noted = None"
  using assms
  by (cases call)
    (auto simp: users_handle_def Let_def changes_accounts_def update_user_def remove_user_def
      split: sum.splits prod.splits option.splits if_splits)

lemma users_handle_noted:
  assumes "users_handle se now rq call db = ((body, noted), db')" and "ok body" and "changes_accounts call = Some (action, i)"
  shows "\<exists>n. noted = Some n \<and> an_action n = action \<and> an_entityType n = ''users'' \<and> an_entityId n = Some i \<and> an_before n \<noteq> None
    \<and> length (db_audit db') = length (db_audit db)"
  using assms
  by (cases call)
    (auto simp: users_handle_def Let_def changes_accounts_def update_user_def remove_user_def users_note_def delete_user_row_def
      update_rows_def split: sum.splits prod.splits option.splits if_splits)

lemma session_guard_passed:
  assumes "session_guard env now rt rq db = (Inr rq', db')" "\<not> rt_public rt"
  shows "\<exists>c s u. rq_cookie rq = Some c \<and> find_session env now (hash_token env c) db = Some (s, u) \<and> rq_user rq' = Some (u_id u, u_role u)"
proof -
  obtain c where c: "rq_cookie rq = Some c"
    using assms by (cases "rq_cookie rq") (auto simp: session_guard_def fail_def)
  then show ?thesis
    using assms by (cases "find_session env now (hash_token env c) db")
      (auto simp: session_guard_def resolve_staff_session_def Let_def fail_def split: if_splits)
qed

text \<open>The row the interceptor appends after a handler that noted something.\<close>

lemma noted_row:
  assumes "ok b" "noted = Some n" "is_admin_route (rq_path rq)" "rq_method rq \<noteq> ''HEAD''" "rq_method rq \<noteq> ''OPTIONS''"
  shows "map snd (audit_intercept i now rq ip noted True b (List.enumerate 0 rows))
    = rows @ [\<lparr>a_actorId = map_option fst (rq_user rq), a_action = an_action n, a_entityType = an_entityType n, a_entityId = an_entityId n,
        a_entityLabel = an_entityLabel n, a_diff = audit_diff n, a_ipHash = ip, a_createdAt = now\<rparr>]"
  using assms by (simp add: audit_intercept_def map_snd_enumerate)

lemma users_caller:
  assumes "guard_chain (sv_auth se) (uq_now q) users_route (users_request_of q) db = (Inr rq, db1)"
  shows "\<exists>c s u. uq_cookie q = Some c \<and> find_session (sv_auth se) (uq_now q) (hash_token (sv_auth se) c) db = Some (s, u)
    \<and> rq_user rq = Some (u_id u, Admin) \<and> u_role u = Admin"
  using session_guard_passed [OF guard_chain_passed(1) [OF assms]] guard_chain_role [OF assms]
  by (force simp: users_route_def users_request_of_def)


definition remove_bob :: users_request where
  "remove_bob =
     \<lparr>uq_now = 1, uq_cookie = Some ''t'', uq_csrf = Some (compute_csrf_token sample_env ''K'' ''Ht''),
      uq_path = ''/api/v1/admin/users/2'', uq_ipHash = None, uq_audited = True, uq_call = DeleteUser ''2''\<rparr>"


end
