(* ===== verification/Spec2Isabelle.thy ===== *)
theory Spec2Isabelle
  imports AuthProps SignedLinks Redirects PublicViews OrgChart MediaGate Retention ContentWrites Logging AdminRoutes Background StorageDrivers StaffUsers
begin

text \<open>
  Safeer API: the NestJS back end (MySQL through TypeORM) of a non-profit's bilingual web site
  and of its administration. The program is a set of HTTP handlers over one database, an
  in-process response cache, and a mail queue. This library models its core logic as state
  transformers over records that mirror the TypeORM entities and proves what makes each part
  correct. Paths below are relative to \<open>src/src\<close>.

  How the parts interact. A request passes the session, CSRF and role guards (\<open>Guards\<close>), which
  leave an account and a session in the request context; a handler then changes tables through a
  service or through the generated CRUD kernel (\<open>CrudKernel\<close>), writes an audit row, purges cache
  tags (\<open>CacheStore\<close>) and may ask for a mail (\<open>MailQueue\<close>). Public reads go through the caching
  interceptor (\<open>CacheHttp\<close>) and answer projections of published rows (\<open>PublicViews\<close>) in the
  reader's language; a thrown error becomes a problem document (\<open>Responses\<close>). \<open>ContentWrites\<close> puts
  writes, purges, reads and evictions together, \<open>StaffRoutes\<close> the guards, the routes of the staff's
  own accounts and the audit log. Before any of it the migration runner prepares the database
  (\<open>Migrations\<close>) and the process checks its environment and makes sure of an account (\<open>EnvConfig\<close>);
  every night \<open>Retention\<close> clears what has expired.

  Theories.
  \<^item> \<open>SafeerPrelude\<close>: errors as values (\<open>problem\<close>, \<open>res\<close>), the outcome of SQL comparisons
    (\<open>sql_compare\<close>), table helpers, string helpers, and the locale of operations that keep an
    invariant, which most components instantiate.
  \<^item> \<open>AuthData\<close>: accounts, sessions, links, audit rows; the brute-force columns
    (\<open>auth/auth.service.ts\<close>, \<open>database/entities\<close>).
  \<^item> \<open>UsersService\<close>: role, status, unlock and removal of accounts (\<open>users/users.service.ts\<close>).
  \<^item> \<open>AuthService\<close>, \<open>Guards\<close>, \<open>AuthProps\<close>: login with its two limiters, sessions, invitations and
    resets; the guards and the role matrix; the properties of both.
  \<^item> \<open>CacheStore\<close>, \<open>CacheHttp\<close>: the cache with its tag index and versions, the publication memos,
    the interceptor, the tag registry and the query parameters (\<open>cache/*\<close>, \<open>common/query/*\<close>).
  \<^item> \<open>CrudKernel\<close>, \<open>ContentData\<close>: the handlers that \<open>common/crud/crud.factory.ts\<close> generates and the
    tables, options and DTO rules of the content collections.
  \<^item> \<open>Redirects\<close>, \<open>OrgChart\<close>: two collections with laws of their own (one-hop redirects, a forest).
  \<^item> \<open>PublicViews\<close>: the public projections of the rows and the markdown service.
  \<^item> \<open>SignedLinks\<close>: preview tokens and newsletter tokens (\<open>auth/preview-token.util.ts\<close>,
    \<open>contact/newsletter-token.util.ts\<close>) over a keyed hash.
  \<^item> \<open>TextRules\<close>: Arabic normalisation, slugs, safe URLs, CSV (\<open>common/text/*\<close>,
    \<open>common/validation/*\<close>, \<open>common/csv.ts\<close>).
  \<^item> \<open>MailTemplates\<close>, \<open>MailQueue\<close>: templates and their rendering, settings and transport, the queue
    with its attempts, sweeps and retries (\<open>mail/*\<close>).
  \<^item> \<open>FileNames\<close>, \<open>MediaFiles\<close>, \<open>MediaGate\<close>: file names and the attachment header, upload, storage,
    deduplication, usages and removal of media, and the publication check of the two file routes
    (\<open>media/*\<close>, \<open>files/*\<close>, \<open>storage/*\<close>, \<open>common/http/*\<close>).
  \<^item> \<open>Licences\<close>: licences with the one-primary rule and the settings form (\<open>licences/*\<close>,
    \<open>site-settings/*\<close>).
  \<^item> \<open>Inbox\<close>: contact messages with replies and files, and the newsletter (\<open>messages/*\<close>, \<open>contact/*\<close>).
  \<^item> \<open>Retention\<close>: the nightly job (\<open>maintenance/*\<close>).
  \<^item> \<open>PublicRoutes\<close>: the eighteen public pages (\<open>news\<close>, \<open>pages\<close>, \<open>home\<close>, \<open>site\<close>, \<open>sitemap\<close>,
    \<open>documents\<close> and the other collections); \<open>ContentWrites\<close>: the admin handlers beside the kernel, what
    every write purges, and the cached site as a step relation that refines an abstract one.
  \<^item> \<open>Responses\<close>: the response language, the exception filter, the audit interceptor and its listing,
    and the admin overview (\<open>common/interceptors/*\<close>, \<open>common/filters/*\<close>, \<open>audit/*\<close>, \<open>admin-overview/*\<close>).
  \<^item> \<open>StaffRoutes\<close>: every route of \<open>auth/auth.controller.ts\<close> behind the guards, with cookies and audit
    rows, and \<open>preview/preview.controller.ts\<close>.
  \<^item> \<open>Logging\<close>: the redacting logger over a heap of possibly shared objects (\<open>common/logging/*\<close>).
  \<^item> \<open>Migrations\<close>: \<open>scripts/migrate.mjs\<close> as a step relation over any number of overlapping runs, and
    both halves of the encryption-key guard (\<open>scripts/lib/*\<close>, \<open>database/encryption-key-check.ts\<close>).
  \<^item> \<open>EnvConfig\<close>: the environment schema, the accounts at boot and the check of the session clock
    (\<open>config/env.ts\<close>, \<open>auth/bootstrap.service.ts\<close>, \<open>database/utc.ts\<close>).
  \<^item> \<open>AdminRoutes\<close>: the check of \<open>scripts/lib/check-admin-roles.mjs\<close> over the registered controllers, and
    what its silence means for the roles guard.
  \<^item> \<open>StaffUsers\<close>: \<open>users/users.controller.ts\<close> behind the guards, with its audit rows.
  \<^item> \<open>StorageDrivers\<close>: the two drivers of \<open>storage/*\<close>, path resolution and the guard against leaving the
    storage root; the interface is the locale \<open>storage_driver\<close>, interpreted on both.
  \<^item> \<open>Background\<close>: the queue of background tasks and the drain at shutdown
    (\<open>common/background/background-work.service.ts\<close>) as a step relation.

  What the lemmas show. Each theory proves the functional behaviour of its operations on every
  branch and the invariant its operations keep; the interfaces between client and provider are
  locales, interpreted on the model's own definitions (the keyed hash of signed links, the tagged
  store under the interceptor, the operations of a table under an invariant, a step relation with
  its invariant, a storage driver). The properties,
  marked C1, C2 and so on in the order of their importance, are stated at the top level of the
  theory of their component.

  Conventions.
  \<^item> A handler returns \<open>problem + 'a\<close>; an error leaves the state as it was, since the code runs
    its writes in one transaction. Foreign-key errors of inserts and outages of the database are
    not modelled.
  \<^item> Ids are decimal strings, as the driver returns them. Where a raw path parameter is matched by
    the database the comparison is a parameter (\<open>id_eq\<close>, \<open>sc_id\<close>, column value first), since the
    database coerces (\<open>01\<close> finds row 1); text equality of a column is a parameter too, since the
    collation ignores case and trailing spaces.
  \<^item> Auto-increment ids, random tokens, the clock, cache victims and expiry are arguments. Times
    are milliseconds as \<open>int\<close>; \<open>sql_now\<close> drops the fraction a column does not keep.
  \<^item> Third-party and platform code is a parameter: Argon2, SHA-256, HMAC, HKDF, AES-GCM, the
    markdown renderer and sanitizer, the URL parser, \<open>toLowerCase\<close>, Unicode normalisation, SMTP, sharp,
    the file sniffer, \<open>Number\<close>, base64, the string formats of zod, \<open>JSON.stringify\<close>, the collation of
    file names, and what a migration file does to the data.
    The laws a proof needs of them are hypotheses of the property or laws of a locale.
  \<^item> Strings are byte strings, exact on ASCII; punctuation outside ASCII in messages is
    transliterated and long error texts are shortened. \<open>parseInt\<close> yields unbounded integers.
  \<^item> \<open>updated_at\<close> is not tracked except where code reads it; the before and after lists in the
    audit rows of bulk operations are not carried.
  \<^item> Concurrency: logins race through the argument that interleaves other attempts; the mail
    queue is a sequence of steps in which attempts begin and end separately; the cache
    interceptor is split around the handler's run; writes of the content tables and their purges are
    separate steps; migration runs interleave at every statement that takes or needs the lock. Other
    handlers are atomic, and no request runs between two steps of the nightly job.
  \<^item> Rows that tie in an \<open>ORDER BY\<close> keep the order of the table. A refused environment is one value,
    without the messages.

  Bounds and fuel. The ancestor walk of the organisational chart has fuel for the rows plus 5,
  and the slug search for the rows plus 1: \<open>generated_slug_free_and_valid\<close> shows the latter is
  always enough, and the chart's invariant makes the former unreachable.

  Not modelled: Nest modules, Swagger and the health check, which only wire and describe; the
  throttler, a third-party store of counters; the schema limits (lengths, required members) of the
  DTO classes, which are declarations of a validation library; person names, a regular expression
  over Unicode tables the platform owns; permissions, symbolic links and a full disk under the storage
  root, and failures of the S3 client (a failing write or removal is a parameter of the media
  operations); the maintenance scripts, which work on the file system and on \<open>information_schema\<close>; the seed generator, a one-off converter of an old prototype into SQL; the
  smoke and OpenAPI checks, which drive the running API.
\<close>

end
